(* ===== verification/Prelude.thy ===== *)
theory Prelude
  imports Main "HOL-Library.Word" "HOL-Library.Monad_Syntax"
begin

text \<open>
  Shared vocabulary of the development: the machine types the C code uses, the completion
  codes of \<^verbatim>\<open>Socket.h\<close>, memory reads that can fail, NUL-terminated strings, and the
  generic lemmas on options, lists and bytes that the component theories rely on.

  Conventions.  A C function that may read through a bad pointer, run off the end of a buffer
  or loop forever is a function into \<open>option\<close>; \<open>None\<close> means undefined behaviour (or no return),
  never an error code.  Error codes are ordinary \<open>int\<close> results, as in the code.
\<close>

named_theorems bytes_simps "lengths and projections of byte sequences"
named_theorems code_defs "completion codes and sizes"
named_theorems wf_intros "preservation of representation invariants"

type_synonym byte = "8 word"
type_synonym addr = nat

subsection \<open>Completion codes\<close>

text \<open>\<^verbatim>\<open>Socket.h\<close> and \<^verbatim>\<open>MQTTPacket.h\<close>.\<close>

definition TCPSOCKET_COMPLETE :: int where "TCPSOCKET_COMPLETE = 0"
definition SOCKET_ERROR :: int where "SOCKET_ERROR = -1"
definition TCPSOCKET_INTERRUPTED :: int where "TCPSOCKET_INTERRUPTED = -22"
definition BAD_MQTT_PACKET :: int where "BAD_MQTT_PACKET = -4"

lemmas rc_defs [code_defs] =
  TCPSOCKET_COMPLETE_def SOCKET_ERROR_def TCPSOCKET_INTERRUPTED_def BAD_MQTT_PACKET_def

subsection \<open>Reading memory\<close>

text \<open>Dereferencing a pointer of a map-shaped memory; NULL is \<open>None\<close>.\<close>

definition deref :: "(addr \<rightharpoonup> 'v) \<Rightarrow> addr option \<Rightarrow> 'v option" where
  "deref m p = (case p of None \<Rightarrow> None | Some a \<Rightarrow> m a)"

lemma deref_simps [simp]:
  "deref m None = None"
  "deref m (Some a) = m a"
  by (simp_all add: deref_def)

text \<open>Reading byte \<open>i\<close> of a buffer; outside the allocation is \<open>None\<close>.\<close>

definition rd :: "byte list \<Rightarrow> nat \<Rightarrow> byte option" where
  "rd buf i = (if i < length buf then Some (buf ! i) else None)"

lemma rd_Some_iff: "rd buf i = Some b \<longleftrightarrow> i < length buf \<and> b = buf ! i"
  by (auto simp: rd_def)

lemma rd_append_left [simp]: "i < length xs \<Longrightarrow> rd (xs @ ys) i = rd xs i"
  by (simp add: rd_def nth_append)

lemma rd_append_right [simp]: "rd (xs @ ys) (length xs + i) = rd ys i"
  by (simp add: rd_def)

subsection \<open>NUL-terminated strings\<close>

text \<open>A \<open>char*\<close> is its bytes; \<open>strlen\<close> and the string functions stop at the first zero byte.\<close>

definition c_str :: "byte list \<Rightarrow> byte list" where
  "c_str s = takeWhile (\<lambda>b. b \<noteq> 0) s"

definition strlen :: "byte list \<Rightarrow> nat" where
  "strlen s = length (c_str s)"

lemma strlen_c_str [simp]: "length (c_str s) = strlen s"
  by (simp add: strlen_def)

lemma c_str_id [simp]: "0 \<notin> set s \<Longrightarrow> c_str s = s"
  unfolding c_str_def by (auto simp: takeWhile_eq_all_conv)

lemma strlen_id [simp]: "0 \<notin> set s \<Longrightarrow> strlen s = length s"
  by (simp add: strlen_def)

lemma c_str_no_zero [simp]: "0 \<notin> set (c_str s)"
  unfolding c_str_def by (auto dest: set_takeWhileD)

lemma strlen_le: "strlen s \<le> length s"
  unfolding strlen_def c_str_def by (rule length_takeWhile_le)

subsection \<open>Bytes and integers\<close>

definition byte_of :: "int \<Rightarrow> byte" where
  "byte_of n = of_int n"

definition ubyte :: "byte \<Rightarrow> int" where
  "ubyte b = uint b"

lemma ubyte_bounds [simp]: "0 \<le> ubyte b" "ubyte b < 256" "ubyte b \<le> 255"
proof -
  show "0 \<le> ubyte b" by (simp add: ubyte_def)
  show *: "ubyte b < 256"
    unfolding ubyte_def using uint_bounded [of b] by simp
  then show "ubyte b \<le> 255" by simp
qed

lemma ubyte_byte_of [simp]: "ubyte (byte_of n) = n mod 256"
  by (simp add: ubyte_def byte_of_def uint_word_of_int)

lemma byte_of_ubyte [simp]: "byte_of (ubyte b) = b"
  by (simp add: ubyte_def byte_of_def)

lemma ubyte_inject: "ubyte a = ubyte b \<longleftrightarrow> a = b"
  by (metis byte_of_ubyte)

lemma ubyte_eq_0_iff [simp]: "ubyte b = 0 \<longleftrightarrow> b = 0"
  by (metis byte_of_ubyte byte_of_def of_int_0 ubyte_byte_of mod_0)

lemma ubyte_numeral [simp]:
  "ubyte (numeral n) = numeral n mod 256" "ubyte 0 = 0" "ubyte 1 = 1"
  by (metis byte_of_def of_int_numeral ubyte_byte_of) (simp_all add: ubyte_def)

text \<open>A property of bytes can be decided by running through all of them.\<close>

lemma all_byte: "(\<forall>b. P b) \<longleftrightarrow> (\<forall>n\<in>set [0..255]. P (byte_of n))"
proof
  assume *: "\<forall>n\<in>set [0..255]. P (byte_of n)"
  show "\<forall>b. P b"
  proof
    fix b
    have "ubyte b \<in> set [0..255]" by simp
    then have "P (byte_of (ubyte b))" using * by blast
    then show "P b" by simp
  qed
qed simp

text \<open>A byte as a \<open>signed char\<close>, for the comparisons the code makes on plain \<open>char\<close>.\<close>

definition schar :: "byte \<Rightarrow> int" where
  "schar b = sint b"

lemma schar_ubyte: "schar b = (if ubyte b < 128 then ubyte b else ubyte b - 256)"
proof -
  have "sint b = (if uint b < 2 ^ 7 then uint b else uint b - 2 ^ 8)"
    using uint_bounded [of b]
    by (simp add: sint_uint signed_take_bit_eq_if_negative signed_take_bit_eq_if_positive
        signed_take_bit_eq_take_bit_minus bit_iff_odd take_bit_eq_mod) presburger?
  then show ?thesis by (simp add: schar_def ubyte_def)
qed

lemma divmod_mult_add:
  "0 \<le> r \<Longrightarrow> r < k \<Longrightarrow> (x * k + r) div k = x"
  "0 \<le> r \<Longrightarrow> r < k \<Longrightarrow> (x * k + r) mod k = r" for x k r :: int
  by simp_all

subsection \<open>Simulations\<close>

text \<open>
  Runs of operations on a concrete component, where an operation may fail (\<open>None\<close>), and on its
  abstraction, where it is total; \<open>run_ok\<close> says that every operation of a run meets its
  precondition in the abstract state it is called in.
\<close>

fun run_c :: "('c \<Rightarrow> 'o \<Rightarrow> ('r \<times> 'c) option) \<Rightarrow> 'c \<Rightarrow> 'o list \<Rightarrow> ('r list \<times> 'c) option" where
  "run_c step c [] = Some ([], c)"
| "run_c step c (x # xs) = Option.bind (step c x) (\<lambda>(r, c1).
     Option.bind (run_c step c1 xs) (\<lambda>(rs, c2). Some (r # rs, c2)))"

fun run_a :: "('a \<Rightarrow> 'o \<Rightarrow> 'r \<times> 'a) \<Rightarrow> 'a \<Rightarrow> 'o list \<Rightarrow> 'r list \<times> 'a" where
  "run_a step a [] = ([], a)"
| "run_a step a (x # xs) =
     (let (r, a1) = step a x; (rs, a2) = run_a step a1 xs in (r # rs, a2))"

lemma run_a_state:
  "snd (run_a step a []) = a"
  "snd (run_a step a (x # xs)) = snd (run_a step (snd (step a x)) xs)"
  by (simp_all add: Let_def case_prod_beta)

lemma run_a_append: "snd (run_a step a (xs @ ys)) = snd (run_a step (snd (run_a step a xs)) ys)"
  by (induction xs arbitrary: a) (simp_all add: run_a_state del: run_a.simps)

fun run_ok :: "('a \<Rightarrow> 'o \<Rightarrow> 'r \<times> 'a) \<Rightarrow> ('a \<Rightarrow> 'o \<Rightarrow> bool) \<Rightarrow> 'a \<Rightarrow> 'o list \<Rightarrow> bool" where
  "run_ok step ok a [] = True"
| "run_ok step ok a (x # xs) = (ok a x \<and> run_ok step ok (snd (step a x)) xs)"

locale simulation =
  fixes cstep :: "'c \<Rightarrow> 'o \<Rightarrow> ('r \<times> 'c) option"
    and astep :: "'a \<Rightarrow> 'o \<Rightarrow> 'r \<times> 'a"
    and ok :: "'a \<Rightarrow> 'o \<Rightarrow> bool"
    and rep :: "'c \<Rightarrow> 'a \<Rightarrow> bool"
  assumes sim: "rep c a \<Longrightarrow> ok a x \<Longrightarrow>
    \<exists>c'. cstep c x = Some (fst (astep a x), c') \<and> rep c' (snd (astep a x))"
begin

lemma run_sim:
  "rep c a \<Longrightarrow> run_ok astep ok a xs \<Longrightarrow>
     \<exists>c'. run_c cstep c xs = Some (fst (run_a astep a xs), c') \<and> rep c' (snd (run_a astep a xs))"
proof (induction xs arbitrary: c a)
  case Nil
  then show ?case by simp
next
  case (Cons x xs)
  then obtain c1 where 1: "cstep c x = Some (fst (astep a x), c1)" "rep c1 (snd (astep a x))"
    using sim by fastforce
  from Cons.IH [OF 1(2)] Cons.prems(2) obtain c2 where
    "run_c cstep c1 xs = Some (fst (run_a astep (snd (astep a x)) xs), c2)"
    "rep c2 (snd (run_a astep (snd (astep a x)) xs))" by auto
  with 1 show ?case by (auto simp: case_prod_beta Let_def)
qed

lemma run_safe: "rep c a \<Longrightarrow> run_ok astep ok a xs \<Longrightarrow> run_c cstep c xs \<noteq> None"
  using run_sim by fastforce

end

subsection \<open>The option monad\<close>

lemma bind_Some_conv: "(Option.bind x f = Some y) \<longleftrightarrow> (\<exists>z. x = Some z \<and> f z = Some y)"
  by (cases x) auto

lemma map_of_fst_Some_conv:
  "distinct (map fst xs) \<Longrightarrow> map_of xs a = Some c \<longleftrightarrow> (a, c) \<in> set xs"
  by (simp add: map_of_eq_Some_iff)

end
