(* ===== verification/CList.thy ===== *)
theory CList
  imports Prelude
begin

text \<open>
  The list object of \<^verbatim>\<open>LinkedList.h\<close> as its clients see it: the sequence of its elements (each
  with the address of its \<^verbatim>\<open>ListElement\<close> and its content), the \<^verbatim>\<open>current\<close> cursor that the search
  functions leave behind and start from, and the two counters.  Theory LinkedList shows that the
  pointer code implements these operations; the protocol theories use them.
\<close>

record 'c clist =
  items :: "(addr \<times> 'c) list"
  cur :: "addr option"
  cnt :: int
  sz :: int

definition cl_empty :: "'c clist" where
  "cl_empty = \<lparr>items = [], cur = None, cnt = 0, sz = 0\<rparr>"

abbreviation addrs :: "'c clist \<Rightarrow> addr list" where
  "addrs l \<equiv> map fst (items l)"

abbreviation contents :: "'c clist \<Rightarrow> 'c list" where
  "contents l \<equiv> map snd (items l)"

text \<open>The invariant: distinct elements, a cursor that is NULL or an element, an exact count.\<close>

definition cl_wf :: "'c clist \<Rightarrow> bool" where
  "cl_wf l \<longleftrightarrow> distinct (addrs l) \<and> (\<forall>a. cur l = Some a \<longrightarrow> a \<in> set (addrs l)) \<and>
     cnt l = int (length (items l))"

subsection \<open>Operations\<close>

definition hd_addr :: "(addr \<times> 'c) list \<Rightarrow> addr option" where
  "hd_addr xs = (case xs of [] \<Rightarrow> None | (a, _) # _ \<Rightarrow> Some a)"

definition last_addr :: "(addr \<times> 'c) list \<Rightarrow> addr option" where
  "last_addr xs = (if xs = [] then None else Some (fst (last xs)))"

fun succ_addr :: "(addr \<times> 'c) list \<Rightarrow> addr \<Rightarrow> addr option" where
  "succ_addr [] a = None"
| "succ_addr ((b, _) # xs) a = (if a = b then hd_addr xs else succ_addr xs a)"

fun insert_before :: "addr \<Rightarrow> addr \<times> 'c \<Rightarrow> (addr \<times> 'c) list \<Rightarrow> (addr \<times> 'c) list" where
  "insert_before i x [] = []"
| "insert_before i x (y # ys) = (if fst y = i then x # y # ys else y # insert_before i x ys)"

definition del_addr :: "addr \<Rightarrow> (addr \<times> 'c) list \<Rightarrow> (addr \<times> 'c) list" where
  "del_addr a xs = filter (\<lambda>x. fst x \<noteq> a) xs"

definition cl_append :: "'c clist \<Rightarrow> addr \<Rightarrow> 'c \<Rightarrow> int \<Rightarrow> 'c clist" where
  "cl_append l a c s = l\<lparr>items := items l @ [(a, c)], cnt := cnt l + 1, sz := sz l + s\<rparr>"

definition cl_insert :: "'c clist \<Rightarrow> addr \<Rightarrow> 'c \<Rightarrow> int \<Rightarrow> addr option \<Rightarrow> 'c clist" where
  "cl_insert l a c s idx = (case idx of
     None \<Rightarrow> cl_append l a c s
   | Some i \<Rightarrow> l\<lparr>items := insert_before i (a, c) (items l), cnt := cnt l + 1, sz := sz l + s\<rparr>)"

definition cl_content :: "'c clist \<Rightarrow> addr option \<Rightarrow> 'c option" where
  "cl_content l p = (case p of None \<Rightarrow> None | Some a \<Rightarrow> map_of (items l) a)"

text \<open>
  The search looks at the cursor first, then from the front; the cursor moves only when the
  second search succeeds.
\<close>

definition cl_find :: "('c \<Rightarrow> bool) \<Rightarrow> 'c clist \<Rightarrow> addr option \<times> 'c clist" where
  "cl_find P l =
     (if (\<exists>c\<in>set_option (cl_content l (cur l)). P c) then (cur l, l)
      else case List.find (\<lambda>x. P (snd x)) (items l) of
             None \<Rightarrow> (None, l)
           | Some x \<Rightarrow> (Some (fst x), l\<lparr>cur := Some (fst x)\<rparr>))"

lemma cl_find_code [code]:
  "cl_find P l =
     (if (case cl_content l (cur l) of None \<Rightarrow> False | Some c \<Rightarrow> P c) then (cur l, l)
      else case List.find (\<lambda>x. P (snd x)) (items l) of
             None \<Rightarrow> (None, l)
           | Some x \<Rightarrow> (Some (fst x), l\<lparr>cur := Some (fst x)\<rparr>))"
  by (auto simp: cl_find_def split: option.split)

text \<open>Removal returns whether an item was removed and the removed content.\<close>

definition cl_unlink :: "('c \<Rightarrow> bool) \<Rightarrow> 'c clist \<Rightarrow> 'c option \<times> 'c clist" where
  "cl_unlink P l = (case cl_find P l of
     (None, l1) \<Rightarrow> (None, l1)
   | (Some a, l1) \<Rightarrow>
       (map_of (items l) a,
        l1\<lparr>items := del_addr a (items l1),
           cur := (if cur l = Some a then succ_addr (items l) a else cur l),
           cnt := cnt l1 - 1\<rparr>))"

text \<open>
  Removal by content pointer (\<^verbatim>\<open>ListRemove\<close> or \<^verbatim>\<open>ListDetach\<close> without a callback) where every
  element owns its content: the pointer then identifies the element.
\<close>

definition cl_remove_at :: "addr \<Rightarrow> 'c clist \<Rightarrow> 'c option \<times> 'c clist" where
  "cl_remove_at a l = (case map_of (items l) a of
     None \<Rightarrow> (None, l)
   | Some c \<Rightarrow>
       (Some c,
        l\<lparr>items := del_addr a (items l),
          cur := (if cur l = Some a then succ_addr (items l) a else cur l),
          cnt := cnt l - 1\<rparr>))"

definition cl_detach_head :: "'c clist \<Rightarrow> 'c option \<times> 'c clist" where
  "cl_detach_head l = (case items l of
     [] \<Rightarrow> (None, l)
   | (a, c) # xs \<Rightarrow>
       (Some c, l\<lparr>items := xs, cur := (if cur l = Some a then hd_addr xs else cur l),
                  cnt := cnt l - 1\<rparr>))"

definition cl_pop_tail :: "'c clist \<Rightarrow> 'c option \<times> 'c clist" where
  "cl_pop_tail l = (if items l = [] then (None, l)
     else (Some (snd (last (items l))),
           l\<lparr>items := butlast (items l),
             cur := (if cur l = Some (fst (last (items l)))
                     then last_addr (butlast (items l)) else cur l),
             cnt := cnt l - 1\<rparr>))"

definition cl_next :: "'c clist \<Rightarrow> addr option \<Rightarrow> addr option" where
  "cl_next l pos = (case pos of None \<Rightarrow> hd_addr (items l) | Some a \<Rightarrow> succ_addr (items l) a)"

text \<open>Updating the content of one element in place (a write through the content pointer).\<close>

definition cl_update :: "addr \<Rightarrow> ('c \<Rightarrow> 'c) \<Rightarrow> 'c clist \<Rightarrow> 'c clist" where
  "cl_update a f l = l\<lparr>items := map (\<lambda>(b, c). (b, if b = a then f c else c)) (items l)\<rparr>"

text \<open>
  A fresh element address, standing for the result of \<^verbatim>\<open>malloc\<close> where a client of the list does
  not care which address it gets.
\<close>

definition cl_fresh :: "'c clist \<Rightarrow> addr" where
  "cl_fresh l = Suc (fold max (addrs l) 0)"

definition cl_add :: "'c clist \<Rightarrow> 'c \<Rightarrow> int \<Rightarrow> 'c clist" where
  "cl_add l c s = cl_append l (cl_fresh l) c s"

definition cl_add_before :: "'c clist \<Rightarrow> 'c \<Rightarrow> int \<Rightarrow> addr option \<Rightarrow> 'c clist" where
  "cl_add_before l c s idx = cl_insert l (cl_fresh l) c s idx"

subsection \<open>Sequences of elements\<close>

lemma hd_addr_simps [simp]:
  "hd_addr [] = None" "hd_addr (x # xs) = Some (fst x)"
  by (simp_all add: hd_addr_def split: prod.splits)

lemma hd_addr_None_iff [simp]: "hd_addr xs = None \<longleftrightarrow> xs = []"
  by (cases xs) auto

lemma hd_addr_append: "hd_addr (xs @ ys) = (if xs = [] then hd_addr ys else hd_addr xs)"
  by (cases xs) auto

lemma hd_addr_in: "hd_addr xs = Some a \<Longrightarrow> a \<in> fst ` set xs"
  by (cases xs) auto

lemma last_addr_simps [simp]:
  "last_addr [] = None" "last_addr (xs @ [x]) = Some (fst x)" "last_addr [x] = Some (fst x)"
  by (simp_all add: last_addr_def)

lemma last_addr_append [simp]:
  "last_addr (xs @ y # ys) = last_addr (y # ys)" "last_addr (x # y # ys) = last_addr (y # ys)"
  by (simp_all add: last_addr_def)

lemma last_addr_None_iff [simp]: "last_addr xs = None \<longleftrightarrow> xs = []"
  by (simp add: last_addr_def)

lemma last_addr_in: "last_addr xs = Some a \<Longrightarrow> a \<in> fst ` set xs"
  by (auto simp: last_addr_def split: if_splits)

lemma set_insert_before:
  "i \<in> fst ` set xs \<Longrightarrow> set (insert_before i x xs) = insert x (set xs)"
  by (induction xs) auto

lemma length_insert_before:
  "i \<in> fst ` set xs \<Longrightarrow> length (insert_before i x xs) = Suc (length xs)"
  by (induction xs) auto

lemma distinct_insert_before:
  "distinct (map fst xs) \<Longrightarrow> fst x \<notin> fst ` set xs \<Longrightarrow> distinct (map fst (insert_before i x xs))"
proof (induction xs)
  case (Cons y ys)
  have "fst ` set (insert_before i x ys) \<subseteq> insert (fst x) (fst ` set ys)"
    by (induction ys) auto
  with Cons show ?case by auto
qed simp

lemma insert_before_split:
  "i \<notin> fst ` set xs \<Longrightarrow> insert_before i x (xs @ (i, c) # ys) = xs @ x # (i, c) # ys"
  by (induction xs) auto

lemma del_addr_split:
  "a \<notin> fst ` set xs \<Longrightarrow> a \<notin> fst ` set ys \<Longrightarrow> del_addr a (xs @ (a, c) # ys) = xs @ ys"
  unfolding del_addr_def
  by (simp, intro arg_cong2 [where f = append]) (auto simp: filter_id_conv image_iff)

lemma succ_addr_split:
  "a \<notin> fst ` set xs \<Longrightarrow> succ_addr (xs @ (a, c) # ys) a = hd_addr ys"
  by (induction xs) auto

lemma succ_addr_in: "succ_addr xs a = Some b \<Longrightarrow> b \<in> fst ` set xs"
  by (induction xs) (auto dest: hd_addr_in split: if_splits)

lemma succ_addr_neq:
  "distinct (map fst xs) \<Longrightarrow> succ_addr xs a = Some b \<Longrightarrow> b \<noteq> a"
proof (induction xs)
  case (Cons x xs)
  then show ?case by (cases x) (auto dest: hd_addr_in succ_addr_in split: if_splits)
qed simp

text \<open>Splitting a well-formed sequence at an element.\<close>

lemma items_splitE:
  assumes "distinct (map fst its)" "a \<in> fst ` set its"
  obtains xs c ys where "its = xs @ (a, c) # ys" "a \<notin> fst ` set xs" "a \<notin> fst ` set ys"
proof -
  from assms(2) obtain c where "(a, c) \<in> set its" by auto
  then obtain xs ys where *: "its = xs @ (a, c) # ys" by (meson split_list)
  with assms(1) have "a \<notin> fst ` set xs" "a \<notin> fst ` set ys" by auto
  with * that show ?thesis by blast
qed

lemma map_of_split:
  "a \<notin> fst ` set xs \<Longrightarrow> map_of (xs @ (a, c) # ys) a = Some c"
  by (induction xs) auto

lemma fold_max_start: "(s::nat) \<le> fold max xs s"
proof (induction xs arbitrary: s)
  case (Cons y ys)
  have "s \<le> max y s" by simp
  also have "\<dots> \<le> fold max ys (max y s)" by (rule Cons.IH)
  finally show ?case by simp
qed simp

lemma fold_max_ge: "x \<in> set xs \<or> x = s \<Longrightarrow> x \<le> fold max xs (s::nat)"
proof (induction xs arbitrary: s)
  case (Cons y ys)
  have ge: "max y s \<le> fold max ys (max y s)" by (rule fold_max_start)
  show ?case
  proof (cases "x \<in> set ys")
    case True
    then have "x \<le> fold max ys (max y s)" using Cons.IH by blast
    then show ?thesis by simp
  next
    case False
    with Cons.prems have "x = y \<or> x = s" by simp
    with ge show ?thesis by (auto simp del: fold_simps(1))
  qed
qed simp

lemma cl_fresh_notin: "cl_fresh l \<notin> set (addrs l)"
proof
  assume "cl_fresh l \<in> set (addrs l)"
  then have "cl_fresh l \<le> fold max (addrs l) 0" using fold_max_ge by blast
  then show False by (simp add: cl_fresh_def)
qed

subsection \<open>The search\<close>

lemma cl_content_in:
  "distinct (addrs l) \<Longrightarrow> cl_content l p = Some c \<longleftrightarrow> (\<exists>a. p = Some a \<and> (a, c) \<in> set (items l))"
  by (auto simp: cl_content_def split: option.splits)

lemma cl_find_frame:
  "cl_find P l = (p, l') \<Longrightarrow> items l' = items l"
  "cl_find P l = (p, l') \<Longrightarrow> cnt l' = cnt l"
  "cl_find P l = (p, l') \<Longrightarrow> sz l' = sz l"
  by (auto simp: cl_find_def split: if_splits option.splits)

lemma cl_find_None_iff:
  assumes "cl_wf l"
  shows "fst (cl_find P l) = None \<longleftrightarrow> (\<forall>c\<in>set (contents l). \<not> P c)"
proof -
  have 1: "P c \<Longrightarrow> cl_content l (cur l) = Some c \<Longrightarrow> \<exists>x\<in>set (items l). P (snd x)" for c
    using assms by (force simp: cl_wf_def cl_content_in)
  have 2: "cl_content l (cur l) = Some c \<Longrightarrow> cur l \<noteq> None" for c
    by (auto simp: cl_content_def split: option.splits)
  show ?thesis
  proof (cases "\<exists>c\<in>set_option (cl_content l (cur l)). P c")
    case True
    then obtain c where c: "cl_content l (cur l) = Some c" "P c" by auto
    from 1 [OF c(2,1)] 2 [OF c(1)] True show ?thesis by (auto simp: cl_find_def)
  next
    case False
    then have "cl_find P l = (case List.find (\<lambda>x. P (snd x)) (items l) of
        None \<Rightarrow> (None, l) | Some x \<Rightarrow> (Some (fst x), l\<lparr>cur := Some (fst x)\<rparr>))"
      by (simp add: cl_find_def)
    then show ?thesis
      by (cases "List.find (\<lambda>x. P (snd x)) (items l)")
        (auto simp: find_None_iff find_Some_iff)
  qed
qed

lemma cl_find_SomeD:
  assumes "cl_find P l = (Some a, l')" and d: "distinct (addrs l)"
  shows "\<exists>c. map_of (items l) a = Some c \<and> P c"
proof (cases "\<exists>c\<in>set_option (cl_content l (cur l)). P c")
  case True
  then obtain c where c: "cl_content l (cur l) = Some c" "P c" by auto
  with assms(1) True have "cur l = Some a" by (auto simp: cl_find_def)
  with c show ?thesis by (auto simp: cl_content_def)
next
  case False
  with assms(1) obtain x where x: "List.find (\<lambda>x. P (snd x)) (items l) = Some x" "a = fst x"
    by (auto simp: cl_find_def split: option.splits)
  then have "x \<in> set (items l)" "P (snd x)" by (auto simp: find_Some_iff in_set_conv_nth)
  with x(2) d have "map_of (items l) a = Some (snd x)" by simp
  with \<open>P (snd x)\<close> show ?thesis by blast
qed

lemma cl_find_cur: "cl_find P l = (Some a, l') \<Longrightarrow> cur l' = Some a"
  by (auto simp: cl_find_def split: if_splits option.splits)

subsection \<open>The invariant is kept by every operation\<close>

lemma cl_wf_empty [wf_intros, simp]: "cl_wf cl_empty"
  by (simp add: cl_wf_def cl_empty_def)

lemma cl_wf_append [wf_intros]:
  "cl_wf l \<Longrightarrow> a \<notin> set (addrs l) \<Longrightarrow> cl_wf (cl_append l a c s)"
  by (auto simp: cl_wf_def cl_append_def)

lemma cl_wf_add [wf_intros]: "cl_wf l \<Longrightarrow> cl_wf (cl_add l c s)"
  unfolding cl_add_def by (intro wf_intros cl_fresh_notin)

lemma cl_wf_insert [wf_intros]:
  assumes "cl_wf l" "a \<notin> set (addrs l)" "\<And>i. idx = Some i \<Longrightarrow> i \<in> set (addrs l)"
  shows "cl_wf (cl_insert l a c s idx)"
proof (cases idx)
  case None
  with assms(1,2) show ?thesis by (simp add: cl_insert_def cl_wf_append)
next
  case (Some i)
  with assms(3) have i: "i \<in> fst ` set (items l)" by simp
  have "distinct (map fst (insert_before i (a, c) (items l)))"
    using assms(1,2) by (intro distinct_insert_before) (auto simp: cl_wf_def)
  with assms(1) Some i show ?thesis
    by (simp add: cl_insert_def cl_wf_def set_insert_before length_insert_before)
qed

lemma cl_wf_add_before [wf_intros]:
  "cl_wf l \<Longrightarrow> (\<And>i. idx = Some i \<Longrightarrow> i \<in> set (addrs l)) \<Longrightarrow> cl_wf (cl_add_before l c s idx)"
  unfolding cl_add_before_def by (intro wf_intros cl_fresh_notin)

lemma cl_find_cur_in:
  assumes "cl_wf l" "cl_find P l = (p, l')"
  shows "cur l' = cur l \<or> (\<exists>a. cur l' = Some a \<and> a \<in> set (addrs l))"
proof (cases "\<exists>c\<in>set_option (cl_content l (cur l)). P c")
  case True
  with assms(2) show ?thesis by (auto simp: cl_find_def)
next
  case False
  then have *: "(p, l') = (case List.find (\<lambda>x. P (snd x)) (items l) of
      None \<Rightarrow> (None, l) | Some x \<Rightarrow> (Some (fst x), l\<lparr>cur := Some (fst x)\<rparr>))"
    using assms(2) by (simp add: cl_find_def)
  show ?thesis
  proof (cases "List.find (\<lambda>x. P (snd x)) (items l)")
    case None
    with * show ?thesis by simp
  next
    case (Some x)
    then have "fst x \<in> set (addrs l)" by (auto simp: find_Some_iff)
    with * Some show ?thesis by simp
  qed
qed

lemma cl_wf_find:
  assumes "cl_wf l" "cl_find P l = (p, l')"
  shows "cl_wf l'"
  using assms(1) cl_find_cur_in [OF assms] cl_find_frame [OF assms(2)]
  unfolding cl_wf_def by (metis option.inject)

lemma cl_wf_update [wf_intros]: "cl_wf l \<Longrightarrow> cl_wf (cl_update a f l)"
  by (auto simp: cl_wf_def cl_update_def comp_def case_prod_beta)

lemma addrs_update [simp]: "addrs (cl_update a f l) = addrs l"
  by (auto simp: cl_update_def comp_def case_prod_beta)

lemma cl_unlink_cases:
  assumes "cl_wf l"
  obtains (absent) l' where "cl_unlink P l = (None, l')" "items l' = items l" "cnt l' = cnt l"
      "cl_wf l'" "\<forall>c\<in>set (contents l). \<not> P c"
  | (removed) xs a c ys l' where "cl_unlink P l = (Some c, l')" "items l = xs @ (a, c) # ys"
      "items l' = xs @ ys" "P c" "cnt l' = cnt l - 1" "cl_wf l'" "sz l' = sz l"
proof (cases "cl_find P l")
  case (Pair p l1)
  show thesis
  proof (cases p)
    case None
    with Pair assms have "\<forall>c\<in>set (contents l). \<not> P c"
      using cl_find_None_iff [OF assms, of P] by simp
    moreover have "cl_unlink P l = (None, l1)" using Pair None by (simp add: cl_unlink_def)
    moreover have "cl_wf l1" using assms Pair by (rule cl_wf_find)
    ultimately show thesis using absent cl_find_frame [OF Pair] by simp
  next
    case (Some a)
    have d: "distinct (addrs l)" using assms by (simp add: cl_wf_def)
    obtain c where c: "map_of (items l) a = Some c" "P c"
      using cl_find_SomeD [OF Pair [unfolded Some] d] by blast
    then have "a \<in> fst ` set (items l)" by (metis domI dom_map_of_conv_image_fst)
    with d obtain xs c' ys where sp: "items l = xs @ (a, c') # ys"
      "a \<notin> fst ` set xs" "a \<notin> fst ` set ys" by (rule items_splitE)
    then have c': "c' = c" using c(1) map_of_split by fastforce
    note fr = cl_find_frame [OF Pair]
    let ?l' = "l1\<lparr>items := del_addr a (items l1),
           cur := (if cur l = Some a then succ_addr (items l) a else cur l), cnt := cnt l1 - 1\<rparr>"
    have u: "cl_unlink P l = (Some c, ?l')" using Pair Some c by (simp add: cl_unlink_def)
    have it: "items ?l' = xs @ ys" using fr sp by (simp add: del_addr_split)
    have "cl_wf ?l'"
      using assms fr sp
      by (auto simp: cl_wf_def succ_addr_split del_addr_split dest: hd_addr_in)
    have "cnt ?l' = cnt l - 1" "sz ?l' = sz l" using fr by simp_all
    with \<open>cl_wf ?l'\<close> show thesis
      by (intro removed [OF u sp(1) [unfolded c'] it c(2)])
  qed
qed

lemma cl_wf_unlink: "cl_wf l \<Longrightarrow> cl_unlink P l = (r, l') \<Longrightarrow> cl_wf l'"
  by (erule cl_unlink_cases [where P = P]) auto

lemma cl_remove_at_split:
  assumes "items l = xs @ (a, c) # ys" "cl_wf l"
  shows "cl_remove_at a l = (Some c, l\<lparr>items := xs @ ys,
           cur := (if cur l = Some a then hd_addr ys else cur l), cnt := cnt l - 1\<rparr>)"
proof -
  from assms have "a \<notin> fst ` set xs" "a \<notin> fst ` set ys" by (auto simp: cl_wf_def)
  with assms show ?thesis
    by (auto simp: cl_remove_at_def map_of_split succ_addr_split del_addr_split
        simp del: map_of_append)
qed

lemma cl_wf_remove_at: "cl_wf l \<Longrightarrow> cl_remove_at a l = (r, l') \<Longrightarrow> cl_wf l'"
proof (cases "map_of (items l) a")
  case (Some c)
  assume wf: "cl_wf l" and rem: "cl_remove_at a l = (r, l')"
  from Some have "a \<in> fst ` set (items l)" by (force dest: map_of_SomeD)
  with wf obtain xs c' ys where sp: "items l = xs @ (a, c') # ys"
    unfolding cl_wf_def by (metis items_splitE)
  from rem cl_remove_at_split [OF sp wf] wf sp show ?thesis
    by (auto simp: cl_wf_def image_Un dest: hd_addr_in split: if_splits)
qed (auto simp: cl_remove_at_def)

text \<open>With distinct content pointers, removal by pointer is removal of the element.\<close>

lemma cl_unlink_content:
  assumes wf: "cl_wf l" and sp: "items l = xs @ (a, c) # ys" and d: "distinct (contents l)"
  shows "cl_unlink (\<lambda>x. x = c) l = cl_remove_at a l"
proof -
  have key: "map_of (items l) b = Some c \<longleftrightarrow> b = a" for b
  proof -
    have dist: "distinct (map fst (items l))" using wf by (simp add: cl_wf_def)
    have "c \<notin> snd ` set xs" "c \<notin> snd ` set ys" using d sp by auto
    then have "(b, c) \<notin> set xs" "(b, c) \<notin> set ys" by (metis image_eqI snd_conv)+
    then have "(b, c) \<in> set (items l) \<longleftrightarrow> b = a" using sp by simp
    with dist show ?thesis by (simp add: map_of_eq_Some_iff)
  qed
  obtain p l' where f': "cl_find (\<lambda>x. x = c) l = (p, l')" by force
  have "c \<in> set (contents l)" using sp by simp
  then have "p \<noteq> None" using cl_find_None_iff [OF wf, of "\<lambda>x. x = c"] f' by auto
  with f' obtain b where f: "cl_find (\<lambda>x. x = c) l = (Some b, l')" by auto
  have "b = a" using cl_find_SomeD [OF f] wf key by (auto simp: cl_wf_def)
  moreover have "map_of (items l) a = Some c" using key by simp
  moreover have "l' = l\<lparr>cur := cur l'\<rparr>" using cl_find_frame [OF f] by simp
  ultimately show ?thesis
    using f by (cases l, cases l') (auto simp: cl_unlink_def cl_remove_at_def)
qed

lemma cl_wf_detach_head:
  "cl_wf l \<Longrightarrow> cl_detach_head l = (r, l') \<Longrightarrow> cl_wf l'"
  by (auto simp: cl_wf_def cl_detach_head_def dest: hd_addr_in split: list.splits if_splits)

lemma cl_wf_pop_tail:
  assumes "cl_wf l" "cl_pop_tail l = (r, l')"
  shows "cl_wf l'"
proof (cases "items l" rule: rev_cases)
  case Nil
  with assms show ?thesis by (auto simp: cl_pop_tail_def)
next
  case (snoc xs x)
  with assms show ?thesis
    by (auto simp: cl_wf_def cl_pop_tail_def dest: last_addr_in split: if_splits)
qed

subsection \<open>Updates in place and repeated searches\<close>

lemma map_of_update:
  "map_of (items (cl_update a f l)) b = map_option (\<lambda>c. if b = a then f c else c) (map_of (items l) b)"
proof -
  have "map_of (map (\<lambda>(b, c). (b, if b = a then f c else c)) xs) b =
      map_option (\<lambda>c. if b = a then f c else c) (map_of xs b)" for xs :: "(addr \<times> 'a) list"
    by (induction xs) auto
  then show ?thesis by (simp add: cl_update_def)
qed

lemma cl_find_again: "cl_find P l = (p, l') \<Longrightarrow> cl_find P l' = (p, l')"
proof (cases p)
  case (Some a)
  assume f: "cl_find P l = (p, l')"
  show ?thesis
  proof (cases "\<exists>c\<in>set_option (cl_content l (cur l)). P c")
    case True
    with f show ?thesis by (auto simp: cl_find_def)
  next
    case False
    with f Some obtain x where x: "List.find (\<lambda>x. P (snd x)) (items l) = Some x" "a = fst x"
      and l': "l' = l\<lparr>cur := Some (fst x)\<rparr>" by (auto simp: cl_find_def split: option.splits)
    show ?thesis
    proof (cases "\<exists>c\<in>set_option (cl_content l' (cur l')). P c")
      case True
      with Some x l' show ?thesis by (auto simp: cl_find_def)
    next
      case False
      with x l' Some show ?thesis by (simp add: cl_find_def)
    qed
  qed
qed (auto simp: cl_find_def split: option.splits if_splits)

lemma find_map_same:
  "\<forall>x\<in>set xs. Q (g x) = Q x \<Longrightarrow> List.find Q (map g xs) = map_option g (List.find Q xs)"
  by (induction xs) auto

lemma cl_find_update:
  assumes "\<And>c. map_of (items l) a = Some c \<Longrightarrow> P (f c) = P c" "distinct (addrs l)"
  shows "fst (cl_find P (cl_update a f l)) = fst (cl_find P l)"
proof -
  let ?g = "\<lambda>(b, c). (b, if b = a then f c else c)"
  have "P (snd (?g x)) = P (snd x)" if "x \<in> set (items l)" for x
  proof -
    have "map_of (items l) (fst x) = Some (snd x)" using that assms(2) by simp
    then show ?thesis using assms(1) by (cases x) auto
  qed
  then have find: "List.find (\<lambda>x. P (snd x)) (map ?g (items l)) =
      map_option ?g (List.find (\<lambda>x. P (snd x)) (items l))"
    by (intro find_map_same) blast
  have "(\<exists>c\<in>set_option (cl_content (cl_update a f l) (cur l)). P c) \<longleftrightarrow>
      (\<exists>c\<in>set_option (cl_content l (cur l)). P c)"
    using assms(1) by (auto simp: cl_content_def map_of_update split: option.splits if_splits)
  moreover have "cur (cl_update a f l) = cur l" "items (cl_update a f l) = map ?g (items l)"
    by (simp_all add: cl_update_def)
  ultimately show ?thesis
    using find by (auto simp: cl_find_def split: option.splits)
qed

end
