(* ===== verification/LinkedList.thy ===== *)
theory LinkedList
  imports CList
begin

text \<open>
  The doubly linked list of \<^verbatim>\<open>LinkedList.c\<close> over an explicit store of \<^verbatim>\<open>ListElement\<close>s: one
  function per C function, with every pointer read through \<open>deref\<close> (a NULL or dangling pointer is
  \<open>None\<close>), \<^verbatim>\<open>malloc\<close>'s result an argument, and \<^verbatim>\<open>free\<close> a removal from the store.  Contents are of
  any type \<open>'c\<close>; a search callback and the content it is called with are the predicate
  \<open>matches cb c\<close>.  The second part shows that the operations refine those of theory CList.
\<close>

record 'c element =
  prev :: "addr option"
  next_el :: "addr option"
  content :: 'c

record llist =
  first :: "addr option"
  last_el :: "addr option"
  current :: "addr option"
  count :: int
  lsize :: int

type_synonym 'c mem = "addr \<rightharpoonup> 'c element"

subsection \<open>The code\<close>

definition ListZero :: llist where
  "ListZero = \<lparr>first = None, last_el = None, current = None, count = 0, lsize = 0\<rparr>"

definition ListInitialize :: llist where
  "ListInitialize = ListZero"

text \<open>\<^verbatim>\<open>NULL\<close> as callback means comparison of the content pointers.\<close>

definition matches :: "('c \<Rightarrow> 'c \<Rightarrow> bool) option \<Rightarrow> 'c \<Rightarrow> 'c \<Rightarrow> bool" where
  "matches cb key c = (case cb of None \<Rightarrow> c = key | Some f \<Rightarrow> f c key)"

definition ListAppendNoMalloc ::
  "'c mem \<Rightarrow> llist \<Rightarrow> 'c \<Rightarrow> addr \<Rightarrow> int \<Rightarrow> ('c mem \<times> llist) option" where
  "ListAppendNoMalloc m l c newel s = do {
     let m1 = m(newel \<mapsto> \<lparr>prev = last_el l, next_el = None, content = c\<rparr>);
     (m2, l1) \<leftarrow> (if first l = None then Some (m1, l\<lparr>first := Some newel\<rparr>)
        else do {
          e \<leftarrow> deref m1 (last_el l);
          Some (m1(the (last_el l) \<mapsto> e\<lparr>next_el := Some newel\<rparr>), l)
        });
     Some (m2, l1\<lparr>last_el := Some newel, count := count l1 + 1, lsize := lsize l1 + s\<rparr>)
   }"

definition ListAppend ::
  "'c mem \<Rightarrow> llist \<Rightarrow> 'c \<Rightarrow> int \<Rightarrow> addr \<Rightarrow> ('c mem \<times> llist) option" where
  "ListAppend m l c s newel = ListAppendNoMalloc m l c newel s"

definition ListInsert ::
  "'c mem \<Rightarrow> llist \<Rightarrow> 'c \<Rightarrow> int \<Rightarrow> addr option \<Rightarrow> addr \<Rightarrow> ('c mem \<times> llist) option" where
  "ListInsert m l c s idx newel = (case idx of
     None \<Rightarrow> ListAppendNoMalloc m l c newel s
   | Some i \<Rightarrow> do {
       e \<leftarrow> m i;
       let m1 = m(newel \<mapsto> \<lparr>prev = prev e, next_el = Some i, content = c\<rparr>);
       e1 \<leftarrow> m1 i;
       let m2 = m1(i \<mapsto> e1\<lparr>prev := Some newel\<rparr>);
       (m3, l1) \<leftarrow> (case prev e of
          Some p \<Rightarrow> do {
            ep \<leftarrow> m2 p;
            Some (m2(p \<mapsto> ep\<lparr>next_el := Some newel\<rparr>), l)
          }
        | None \<Rightarrow> Some (m2, l\<lparr>first := Some newel\<rparr>));
       Some (m3, l1\<lparr>count := count l1 + 1, lsize := lsize l1 + s\<rparr>)
     })"

definition ListNextElement :: "'c mem \<Rightarrow> llist \<Rightarrow> addr option \<Rightarrow> addr option option" where
  "ListNextElement m l pos = (case pos of None \<Rightarrow> Some (first l)
     | Some a \<Rightarrow> map_option next_el (m a))"

definition ListPrevElement :: "'c mem \<Rightarrow> llist \<Rightarrow> addr option \<Rightarrow> addr option option" where
  "ListPrevElement m l pos = (case pos of None \<Rightarrow> Some (last_el l)
     | Some a \<Rightarrow> map_option prev (m a))"

text \<open>The \<^verbatim>\<open>while (ListNextElement(aList, &current) != NULL)\<close> loop of the search.\<close>

partial_function (option) find_loop ::
  "'c mem \<Rightarrow> llist \<Rightarrow> ('c \<Rightarrow> bool) \<Rightarrow> addr option \<Rightarrow> addr option option" where
  "find_loop m l P pos = Option.bind (ListNextElement m l pos) (\<lambda>n.
     case n of None \<Rightarrow> Some None
     | Some a \<Rightarrow> Option.bind (m a) (\<lambda>e.
         if P (content e) then Some (Some a) else find_loop m l P (Some a)))"

declare find_loop.simps [code]

definition ListFindItem ::
  "'c mem \<Rightarrow> llist \<Rightarrow> 'c \<Rightarrow> ('c \<Rightarrow> 'c \<Rightarrow> bool) option \<Rightarrow> (addr option \<times> llist) option" where
  "ListFindItem m l key cb = do {
     hit \<leftarrow> (case current l of None \<Rightarrow> Some False
        | Some a \<Rightarrow> map_option (\<lambda>e. matches cb key (content e)) (m a));
     if hit then Some (current l, l)
     else do {
       rc \<leftarrow> find_loop m l (matches cb key) None;
       Some (rc, if rc \<noteq> None then l\<lparr>current := rc\<rparr> else l)
     }
   }"

definition ListFind :: "'c mem \<Rightarrow> llist \<Rightarrow> 'c \<Rightarrow> (addr option \<times> llist) option" where
  "ListFind m l key = ListFindItem m l key None"

text \<open>
  Unlinking.  The result carries the return code (1 or 0), and the content freed by the call
  (\<open>freeContent\<close>) or still owned by the caller.
\<close>

definition ListUnlink ::
  "'c mem \<Rightarrow> llist \<Rightarrow> 'c \<Rightarrow> ('c \<Rightarrow> 'c \<Rightarrow> bool) option \<Rightarrow> bool \<Rightarrow>
     (int \<times> 'c list \<times> 'c mem \<times> llist) option" where
  "ListUnlink m l key cb freeContent = do {
     let saved = current l;
     (rc, l1) \<leftarrow> ListFindItem m l key cb;
     if rc = None then Some (0, [], m, l1)
     else do {
       e \<leftarrow> deref m (current l1);
       (m1, l2) \<leftarrow> (case prev e of
           None \<Rightarrow> Some (m, l1\<lparr>first := next_el e\<rparr>)
         | Some p \<Rightarrow> do { ep \<leftarrow> m p; Some (m(p \<mapsto> ep\<lparr>next_el := next_el e\<rparr>), l1) });
       e1 \<leftarrow> deref m1 (current l2);
       (m2, l3) \<leftarrow> (case next_el e1 of
           None \<Rightarrow> Some (m1, l2\<lparr>last_el := prev e1\<rparr>)
         | Some n \<Rightarrow> do { en \<leftarrow> m1 n; Some (m1(n \<mapsto> en\<lparr>prev := prev e1\<rparr>), l2) });
       e2 \<leftarrow> deref m2 (current l3);
       let nxt = next_el e2;
       let saveddeleted = (saved = current l3);
       let m3 = m2(the (current l3) := None);
       Some (1, if freeContent then [content e2] else [], m3,
         l3\<lparr>current := (if saveddeleted then nxt else saved), count := count l3 - 1\<rparr>)
     }
   }"

definition ListDetach where "ListDetach m l key = ListUnlink m l key None False"
definition ListRemove where "ListRemove m l key = ListUnlink m l key None True"
definition ListDetachItem where "ListDetachItem m l key cb = ListUnlink m l key cb False"
definition ListRemoveItem where "ListRemoveItem m l key cb = ListUnlink m l key cb True"

definition ListDetachHead ::
  "'c mem \<Rightarrow> llist \<Rightarrow> ('c option \<times> 'c mem \<times> llist) option" where
  "ListDetachHead m l = (if count l > 0 then do {
       e \<leftarrow> deref m (first l);
       let l1 = (if current l = first l then l\<lparr>current := next_el e\<rparr> else l);
       let l2 = (if last_el l1 = first l then l1\<lparr>last_el := None\<rparr> else l1);
       let l3 = l2\<lparr>first := next_el e\<rparr>;
       m1 \<leftarrow> (case first l3 of None \<Rightarrow> Some m
          | Some f \<Rightarrow> do { ef \<leftarrow> m f; Some (m(f \<mapsto> ef\<lparr>prev := None\<rparr>)) });
       Some (Some (content e), m1(the (first l) := None), l3\<lparr>count := count l3 - 1\<rparr>)
     } else Some (None, m, l))"

text \<open>\<^verbatim>\<open>ListRemoveHead\<close> frees the content and returns 0 whether or not it removed an item.\<close>

definition ListRemoveHead ::
  "'c mem \<Rightarrow> llist \<Rightarrow> (int \<times> 'c list \<times> 'c mem \<times> llist) option" where
  "ListRemoveHead m l = do {
     (c, m', l') \<leftarrow> ListDetachHead m l;
     Some (0, case c of None \<Rightarrow> [] | Some x \<Rightarrow> [x], m', l')
   }"

definition ListPopTail ::
  "'c mem \<Rightarrow> llist \<Rightarrow> ('c option \<times> 'c mem \<times> llist) option" where
  "ListPopTail m l = (if count l > 0 then do {
       e \<leftarrow> deref m (last_el l);
       let l1 = (if current l = last_el l then l\<lparr>current := prev e\<rparr> else l);
       let l2 = (if first l1 = last_el l then l1\<lparr>first := None\<rparr> else l1);
       let l3 = l2\<lparr>last_el := prev e\<rparr>;
       m1 \<leftarrow> (case last_el l3 of None \<Rightarrow> Some m
          | Some f \<Rightarrow> do { ef \<leftarrow> m f; Some (m(f \<mapsto> ef\<lparr>next_el := None\<rparr>)) });
       Some (Some (content e), m1(the (last_el l) := None), l3\<lparr>count := count l3 - 1\<rparr>)
     } else Some (None, m, l))"

text \<open>The loop of \<^verbatim>\<open>ListEmpty\<close> and \<^verbatim>\<open>ListFreeNoContent\<close>: free every element from the front.\<close>

partial_function (option) empty_loop ::
  "'c mem \<Rightarrow> addr option \<Rightarrow> 'c list \<Rightarrow> ('c list \<times> 'c mem) option" where
  "empty_loop m p freed = (case p of None \<Rightarrow> Some (freed, m)
     | Some a \<Rightarrow> Option.bind (m a) (\<lambda>e.
         empty_loop (m(a := None)) (next_el e) (freed @ [content e])))"

declare empty_loop.simps [code]

definition ListEmpty :: "'c mem \<Rightarrow> llist \<Rightarrow> ('c list \<times> 'c mem \<times> llist) option" where
  "ListEmpty m l = do {
     (freed, m1) \<leftarrow> empty_loop m (first l) [];
     Some (freed, m1, l\<lparr>count := 0, lsize := 0, current := None, first := None, last_el := None\<rparr>)
   }"

definition ListFree :: "'c mem \<Rightarrow> llist \<Rightarrow> ('c list \<times> 'c mem) option" where
  "ListFree m l = do { (freed, m1, _) \<leftarrow> ListEmpty m l; Some (freed, m1) }"

definition ListFreeNoContent :: "'c mem \<Rightarrow> llist \<Rightarrow> 'c mem option" where
  "ListFreeNoContent m l = do { (_, m1) \<leftarrow> empty_loop m (first l) []; Some m1 }"

text \<open>The two callbacks of the file, over the values the content pointers refer to.\<close>

definition intcompare :: "int \<Rightarrow> int \<Rightarrow> bool" where
  "intcompare a b \<longleftrightarrow> a = b"

definition stringcompare :: "byte list \<Rightarrow> byte list \<Rightarrow> bool" where
  "stringcompare a b \<longleftrightarrow> c_str a = c_str b"

end
