(* ===== verification/LinkedListRefine.thy ===== *)
theory LinkedListRefine
  imports LinkedList
begin

text \<open>
  The pointer code of theory LinkedList implements the list object of theory CList.  \<open>repr m l cl\<close>
  relates a store and a \<^verbatim>\<open>List\<close> structure to a list object; every operation is shown to return
  (no bad pointer, no endless walk), to give the object operation's result, to reach a related
  state, and to leave the rest of the store alone.
\<close>

subsection \<open>Doubly linked segments\<close>

definition hd_or :: "(addr \<times> 'c) list \<Rightarrow> addr option \<Rightarrow> addr option" where
  "hd_or xs n = (if xs = [] then n else hd_addr xs)"

definition last_or :: "addr option \<Rightarrow> (addr \<times> 'c) list \<Rightarrow> addr option" where
  "last_or p xs = (if xs = [] then p else last_addr xs)"

fun dll :: "'c mem \<Rightarrow> addr option \<Rightarrow> (addr \<times> 'c) list \<Rightarrow> addr option \<Rightarrow> bool" where
  "dll m p [] n = True"
| "dll m p ((a, c) # xs) n =
     (m a = Some \<lparr>prev = p, next_el = hd_or xs n, content = c\<rparr> \<and> dll m (Some a) xs n)"

lemma hd_or_simps [simp]:
  "hd_or [] n = n" "hd_or (x # xs) n = Some (fst x)"
  "hd_or (xs @ ys) n = hd_or xs (hd_or ys n)" "hd_or xs None = hd_addr xs"
  by (simp_all add: hd_or_def hd_addr_append split: prod.splits)

lemma last_or_simps [simp]:
  "last_or p [] = p" "last_or p (xs @ [x]) = Some (fst x)" "last_or None xs = last_addr xs"
  by (simp_all add: last_or_def)

lemma last_or_Cons [simp]: "last_or p (x # xs) = last_or (Some (fst x)) xs"
  by (simp add: last_or_def last_addr_def)

lemma dll_append:
  "dll m p (xs @ ys) n \<longleftrightarrow> dll m p xs (hd_or ys n) \<and> dll m (last_or p xs) ys n"
  by (induction xs arbitrary: p) (auto simp: hd_or_def last_or_def last_addr_def hd_addr_append)

lemma dll_upd_other [simp]:
  "a \<notin> fst ` set xs \<Longrightarrow> dll (m(a := v)) p xs n = dll m p xs n"
  by (induction m p xs n rule: dll.induct) auto

lemma dll_snoc:
  "dll m p (xs @ [(z, d)]) n \<longleftrightarrow>
     dll m p xs (Some z) \<and> m z = Some \<lparr>prev = last_or p xs, next_el = n, content = d\<rparr>"
  by (simp add: dll_append)

lemma dll_mid:
  "dll m p (xs @ (a, c) # ys) n \<longleftrightarrow> dll m p xs (Some a) \<and>
     m a = Some \<lparr>prev = last_or p xs, next_el = hd_or ys n, content = c\<rparr> \<and> dll m (Some a) ys n"
  by (simp add: dll_append)

text \<open>Rewriting the link out of either end of a segment.\<close>

lemma dll_set_next:
  assumes "dll m p (xs @ [(z, d)]) n" "z \<notin> fst ` set xs"
  shows "dll (m(z \<mapsto> \<lparr>prev = last_or p xs, next_el = n', content = d\<rparr>)) p (xs @ [(z, d)]) n'"
  using assms by (simp add: dll_snoc)

lemma dll_set_prev:
  assumes "dll m p ((z, d) # ys) n" "z \<notin> fst ` set ys"
  shows "dll (m(z \<mapsto> \<lparr>prev = p', next_el = hd_or ys n, content = d\<rparr>)) p' ((z, d) # ys) n"
  using assms by simp

lemma dll_lookup: "dll m p xs n \<Longrightarrow> (a, c) \<in> set xs \<Longrightarrow> \<exists>e. m a = Some e \<and> content e = c"
  by (induction m p xs n rule: dll.induct) auto

subsection \<open>The representation relation\<close>

definition repr :: "'c mem \<Rightarrow> llist \<Rightarrow> 'c clist \<Rightarrow> bool" where
  "repr m l cl \<longleftrightarrow> cl_wf cl \<and> dll m None (items cl) None \<and> first l = hd_addr (items cl) \<and>
     last_el l = last_addr (items cl) \<and> current l = cur cl \<and> count l = cnt cl \<and> lsize l = sz cl"

text \<open>\<open>same_outside A m m'\<close>: the two stores agree outside \<open>A\<close>.\<close>

definition same_outside :: "addr set \<Rightarrow> 'c mem \<Rightarrow> 'c mem \<Rightarrow> bool" where
  "same_outside A m m' \<longleftrightarrow> (\<forall>a. a \<notin> A \<longrightarrow> m' a = m a)"

lemma same_outside_refl [simp]: "same_outside A m m"
  by (simp add: same_outside_def)

lemma repr_wf: "repr m l cl \<Longrightarrow> cl_wf cl"
  by (simp add: repr_def)

lemma repr_distinct: "repr m l cl \<Longrightarrow> distinct (addrs cl)"
  by (simp add: repr_def cl_wf_def)

lemma repr_empty [simp]: "repr m ListInitialize cl_empty"
  by (simp add: repr_def ListInitialize_def ListZero_def cl_empty_def cl_wf_def)

lemma repr_content:
  assumes "repr m l cl" "map_of (items cl) a = Some c"
  shows "\<exists>e. m a = Some e \<and> content e = c"
  using assms dll_lookup by (fastforce simp: repr_def dest: map_of_SomeD)

subsection \<open>Append and insert\<close>

lemma ListAppendNoMalloc_refines:
  assumes R: "repr m l cl" and new: "newel \<notin> set (addrs cl)"
  shows "\<exists>m' l'. ListAppendNoMalloc m l c newel s = Some (m', l') \<and>
     repr m' l' (cl_append cl newel c s) \<and> same_outside (insert newel (set (addrs cl))) m m'"
proof (cases "items cl" rule: rev_cases)
  case Nil
  with assms show ?thesis
    by (auto simp: ListAppendNoMalloc_def repr_def cl_append_def cl_wf_def same_outside_def)
next
  case (snoc xs x)
  obtain z d where x: "x = (z, d)" by force
  let ?e = "\<lparr>prev = last_addr xs, next_el = None, content = d\<rparr>"
  let ?m1 = "m(newel \<mapsto> \<lparr>prev = Some z, next_el = None, content = c\<rparr>)"
  let ?m2 = "?m1(z \<mapsto> ?e\<lparr>next_el := Some newel\<rparr>)"
  from R snoc x have D: "dll m None (xs @ [(z, d)]) None" by (simp add: repr_def)
  then have mz: "m z = Some ?e" by (simp add: dll_snoc)
  from R snoc x have dist: "distinct (map fst xs)" "z \<notin> fst ` set xs"
    by (auto simp: repr_def cl_wf_def)
  from new snoc x have ne: "newel \<noteq> z" "newel \<notin> fst ` set xs" by auto
  have D2: "dll ?m2 None (xs @ [(z, d), (newel, c)]) None"
    using D ne dist by (simp add: dll_snoc dll_mid)
  have wf: "cl_wf (cl_append cl newel c s)" using R new by (intro wf_intros) (simp_all add: repr_def)
  have call: "ListAppendNoMalloc m l c newel s =
      Some (?m2, l\<lparr>last_el := Some newel, count := count l + 1, lsize := lsize l + s\<rparr>)"
    using R snoc x mz ne by (simp add: ListAppendNoMalloc_def repr_def hd_addr_append)
  show ?thesis
    unfolding call using R snoc x D2 wf
    by (auto simp: repr_def cl_append_def hd_addr_append last_addr_def same_outside_def)
qed

lemma ListInsert_refines:
  assumes R: "repr m l cl" and new: "newel \<notin> set (addrs cl)"
    and idx: "\<And>i. idx = Some i \<Longrightarrow> i \<in> set (addrs cl)"
  shows "\<exists>m' l'. ListInsert m l c s idx newel = Some (m', l') \<and>
     repr m' l' (cl_insert cl newel c s idx) \<and> same_outside (insert newel (set (addrs cl))) m m'"
proof (cases idx)
  case None
  with ListAppendNoMalloc_refines [OF R new] show ?thesis
    by (simp add: ListInsert_def cl_insert_def)
next
  case (Some i)
  have wf: "cl_wf (cl_insert cl newel c s idx)"
    using R new idx by (intro wf_intros) (simp_all add: repr_def)
  from idx [OF Some] have "i \<in> fst ` set (items cl)" by simp
  with repr_distinct [OF R] obtain xs ci ys where
    sp: "items cl = xs @ (i, ci) # ys" "i \<notin> fst ` set xs" "i \<notin> fst ` set ys"
    by (rule items_splitE)
  from repr_distinct [OF R] sp have dist: "distinct (map fst xs)" "distinct (map fst ys)"
    "fst ` set xs \<inter> fst ` set ys = {}" by auto
  from new sp have ne: "newel \<noteq> i" "newel \<notin> fst ` set xs" "newel \<notin> fst ` set ys" by auto
  from R sp have D: "dll m None xs (Some i)"
    "m i = Some \<lparr>prev = last_addr xs, next_el = hd_addr ys, content = ci\<rparr>"
    "dll m (Some i) ys None"
    by (simp_all add: repr_def dll_mid)
  note ins = insert_before_split [OF sp(2), of "(newel, c)" ci ys]
  show ?thesis
  proof (cases xs rule: rev_cases)
    case Nil
    with Some sp D R ne wf show ?thesis
      by (auto simp: ListInsert_def cl_insert_def repr_def same_outside_def last_addr_def)
  next
    case (snoc xs' x)
    obtain p d where x: "x = (p, d)" by force
    from D(1) snoc x have mp: "dll m None xs' (Some p)"
      "m p = Some \<lparr>prev = last_addr xs', next_el = Some i, content = d\<rparr>"
      by (simp_all add: dll_snoc)
    from snoc x ne sp dist have ne2: "p \<noteq> newel" "p \<noteq> i" "p \<notin> fst ` set xs'"
      "p \<notin> fst ` set ys" "newel \<notin> fst ` set xs'" "i \<notin> fst ` set xs'" by auto
    let ?m3 = "(m(newel \<mapsto> \<lparr>prev = Some p, next_el = Some i, content = c\<rparr>,
        i \<mapsto> \<lparr>prev = Some newel, next_el = hd_addr ys, content = ci\<rparr>))
        (p \<mapsto> \<lparr>prev = last_addr xs', next_el = Some newel, content = d\<rparr>)"
    have call: "ListInsert m l c s idx newel =
        Some (?m3, l\<lparr>count := count l + 1, lsize := lsize l + s\<rparr>)"
      using Some D(2) snoc x mp(2) ne ne2 by (simp add: ListInsert_def last_addr_def)
    have D3: "dll ?m3 None (xs' @ (p, d) # (newel, c) # (i, ci) # ys) None"
      using mp D ne ne2 sp by (simp add: dll_mid)
    show ?thesis
      unfolding call using Some R sp wf D3 snoc x ins
      by (auto simp: repr_def cl_insert_def hd_addr_append last_addr_def same_outside_def)
  qed
qed

subsection \<open>Search\<close>

lemma find_loop_refines:
  assumes "dll m None (xs @ ys) None" "first l = hd_addr (xs @ ys)"
  shows "find_loop m l P (last_addr xs) = Some (map_option fst (List.find (\<lambda>x. P (snd x)) ys))"
  using assms
proof (induction ys arbitrary: xs)
  case Nil
  then show ?case
    by (cases xs rule: rev_cases)
      (auto simp: find_loop.simps ListNextElement_def dll_append last_addr_def)
next
  case (Cons y ys)
  obtain a c where y: "y = (a, c)" by force
  have my: "m a = Some \<lparr>prev = last_addr xs, next_el = hd_addr ys, content = c\<rparr>"
    using Cons.prems(1) y by (simp add: dll_mid)
  have nxt: "ListNextElement m l (last_addr xs) = Some (Some a)"
    using Cons.prems y
    by (cases xs rule: rev_cases) (auto simp: ListNextElement_def dll_append last_addr_def)
  have IH: "find_loop m l P (last_addr (xs @ [y])) =
      Some (map_option fst (List.find (\<lambda>x. P (snd x)) ys))"
    using Cons.prems by (intro Cons.IH) simp_all
  show ?case
    using my nxt IH y by (subst find_loop.simps) (simp add: last_addr_def)
qed

lemma ListFindItem_refines:
  assumes R: "repr m l cl"
  shows "\<exists>l'. ListFindItem m l key cb = Some (fst (cl_find (matches cb key) cl), l') \<and>
     repr m l' (snd (cl_find (matches cb key) cl))"
proof -
  let ?P = "matches cb key"
  have loop: "find_loop m l ?P None =
      Some (map_option fst (List.find (\<lambda>x. ?P (snd x)) (items cl)))"
    using find_loop_refines [of m "[]" "items cl" l ?P] R by (simp add: repr_def)
  have wf: "cl_wf (snd (cl_find ?P cl))"
    using cl_wf_find [OF repr_wf [OF R], of ?P] by (cases "cl_find ?P cl") simp
  have cont: "cl_content cl (cur cl) = map_option content (m a)" if "cur cl = Some a" for a
  proof -
    have "a \<in> set (addrs cl)" using R that by (simp add: repr_def cl_wf_def)
    then obtain c where "map_of (items cl) a = Some c"
      by (metis (no_types) dom_map_of_conv_image_fst domD set_map)
    with repr_content [OF R] that show ?thesis by (force simp: cl_content_def)
  qed
  have mem: "m a \<noteq> None" if "cur cl = Some a" for a
  proof -
    have "a \<in> set (addrs cl)" using R that by (simp add: repr_def cl_wf_def)
    then show ?thesis using R dll_lookup by (fastforce simp: repr_def)
  qed
  show ?thesis
  proof (cases "cur cl")
    case None
    with R loop wf show ?thesis
      by (cases "List.find (\<lambda>x. ?P (snd x)) (items cl)")
        (auto simp: ListFindItem_def cl_find_def cl_content_def repr_def)
  next
    case (Some a)
    then obtain e where e: "m a = Some e" using mem by auto
    show ?thesis
    proof (cases "?P (content e)")
      case True
      with R Some e cont [OF Some] show ?thesis
        by (auto simp: ListFindItem_def cl_find_def repr_def)
    next
      case False
      with R Some e cont [OF Some] loop wf show ?thesis
        by (cases "List.find (\<lambda>x. ?P (snd x)) (items cl)")
          (auto simp: ListFindItem_def cl_find_def repr_def)
    qed
  qed
qed

subsection \<open>Removal\<close>

text \<open>
  The pointer surgery of \<^verbatim>\<open>ListUnlink\<close> on its own: link the neighbours of \<open>a\<close> to each other
  and drop \<open>a\<close>.
\<close>

definition link_prev :: "'c mem \<Rightarrow> addr option \<Rightarrow> addr option \<Rightarrow> 'c mem" where
  "link_prev m p n = (case p of None \<Rightarrow> m | Some q \<Rightarrow> m(q := map_option (next_el_update (\<lambda>_. n)) (m q)))"

definition link_next :: "'c mem \<Rightarrow> addr option \<Rightarrow> addr option \<Rightarrow> 'c mem" where
  "link_next m n p = (case n of None \<Rightarrow> m | Some q \<Rightarrow> m(q := map_option (prev_update (\<lambda>_. p)) (m q)))"

lemma link_prev_dll:
  assumes "dll m p xs n" "distinct (map fst xs)"
  shows "dll (link_prev m (last_addr xs) n') p xs n'"
proof (cases xs rule: rev_cases)
  case (snoc zs x)
  obtain z d where "x = (z, d)" by force
  with snoc assms dll_set_next [of m p zs z d n n'] show ?thesis
    by (simp add: link_prev_def dll_snoc)
qed (simp add: link_prev_def)

lemma link_next_dll:
  assumes "dll m p ys n" "distinct (map fst ys)"
  shows "dll (link_next m (hd_addr ys) p') p' ys n"
proof (cases ys)
  case (Cons y zs)
  obtain z d where "y = (z, d)" by force
  with Cons assms dll_set_prev [of m p z d zs n p'] show ?thesis
    by (simp add: link_next_def)
qed (simp add: link_next_def)

lemma link_prev_other [simp]:
  "p = None \<or> (\<exists>q. p = Some q \<and> q \<notin> fst ` set xs) \<Longrightarrow> dll (link_prev m p n') r xs n = dll m r xs n"
  by (auto simp: link_prev_def)

lemma link_next_other [simp]:
  "p = None \<or> (\<exists>q. p = Some q \<and> q \<notin> fst ` set xs) \<Longrightarrow> dll (link_next m p n') r xs n = dll m r xs n"
  by (auto simp: link_next_def)

lemma unlink_dll:
  assumes D: "dll m None (xs @ (a, c) # ys) None"
    and dist: "distinct (map fst (xs @ (a, c) # ys))"
  shows "dll ((link_next (link_prev m (last_addr xs) (hd_addr ys)) (hd_addr ys) (last_addr xs))(a := None))
     None (xs @ ys) None"
proof -
  let ?m1 = "link_prev m (last_addr xs) (hd_addr ys)"
  let ?m2 = "link_next ?m1 (hd_addr ys) (last_addr xs)"
  from D have D1: "dll m None xs (Some a)" and D2: "dll m (Some a) ys None"
    by (simp_all add: dll_mid)
  have lastn: "last_addr xs = None \<or> (\<exists>q. last_addr xs = Some q \<and> q \<notin> fst ` set ys)"
    using dist last_addr_in [of xs] by (cases "last_addr xs") auto
  have hdn: "hd_addr ys = None \<or> (\<exists>q. hd_addr ys = Some q \<and> q \<notin> fst ` set xs)"
    using dist hd_addr_in [of ys] by (cases "hd_addr ys") auto
  have "dll ?m1 None xs (hd_addr ys)" using D1 dist by (intro link_prev_dll) simp_all
  then have A: "dll ?m2 None xs (hd_addr ys)" using hdn by simp
  have "dll ?m1 (Some a) ys None" using D2 lastn by simp
  then have B: "dll ?m2 (last_addr xs) ys None" using dist by (intro link_next_dll) simp_all
  have "a \<notin> fst ` set xs" "a \<notin> fst ` set ys" using dist by auto
  with A B show ?thesis by (simp add: dll_append)
qed

lemma deref_last:
  "dll m None xs (Some a) \<Longrightarrow> last_addr xs = Some p \<Longrightarrow> \<exists>ep. m p = Some ep"
  by (cases xs rule: rev_cases) (auto simp: dll_append)

lemma deref_hd:
  "dll m p ys None \<Longrightarrow> hd_addr ys = Some n \<Longrightarrow> \<exists>en. m n = Some en"
  by (cases ys) auto

lemma ListUnlink_refines:
  assumes R: "repr m l cl"
  shows "\<exists>m' l' rc fr. ListUnlink m l key cb free = Some (rc, fr, m', l') \<and>
     repr m' l' (snd (cl_unlink (matches cb key) cl)) \<and> same_outside (set (addrs cl)) m m' \<and>
     (case fst (cl_unlink (matches cb key) cl) of None \<Rightarrow> rc = 0 \<and> fr = []
      | Some c \<Rightarrow> rc = 1 \<and> fr = (if free then [c] else []))"
proof -
  let ?P = "matches cb key"
  obtain p cl1 where F: "cl_find ?P cl = (p, cl1)" by force
  obtain l1 where L: "ListFindItem m l key cb = Some (p, l1)" "repr m l1 cl1"
    using ListFindItem_refines [OF R, of key cb] F by auto
  note fr = cl_find_frame [OF F]
  show ?thesis
  proof (cases p)
    case None
    with F L R show ?thesis by (simp add: ListUnlink_def cl_unlink_def)
  next
    case (Some a)
    have cur1: "cur cl1 = Some a" using F Some by (simp add: cl_find_cur)
    have "a \<in> set (addrs cl)"
      using cl_wf_find [OF repr_wf [OF R] F] cur1 fr by (simp add: cl_wf_def)
    then have "a \<in> fst ` set (items cl)" by simp
    with repr_distinct [OF R] obtain xs c ys where
      sp: "items cl = xs @ (a, c) # ys" "a \<notin> fst ` set xs" "a \<notin> fst ` set ys"
      by (rule items_splitE)
    have dist: "distinct (map fst (xs @ (a, c) # ys))" using repr_distinct [OF R] sp by simp
    have D: "dll m None (xs @ (a, c) # ys) None" using R sp by (simp add: repr_def)
    then have ma: "m a = Some \<lparr>prev = last_addr xs, next_el = hd_addr ys, content = c\<rparr>"
      and D1: "dll m None xs (Some a)" and D2: "dll m (Some a) ys None"
      by (simp_all add: dll_mid)
    have ne: "last_addr xs \<noteq> Some a" "hd_addr ys \<noteq> Some a"
      using sp last_addr_in [of xs] hd_addr_in [of ys] by auto
    define m1 where "m1 = link_prev m (last_addr xs) (hd_addr ys)"
    define m2 where "m2 = link_next m1 (hd_addr ys) (last_addr xs)"
    define l2 where "l2 = (if xs = [] then l1\<lparr>first := hd_addr ys\<rparr> else l1)"
    define l3 where "l3 = (if ys = [] then l2\<lparr>last_el := last_addr xs\<rparr> else l2)"
    let ?l4 = "l3\<lparr>current := (if current l = Some a then hd_addr ys else current l),
        count := count l1 - 1\<rparr>"
    have cur: "current l1 = Some a" using L(2) cur1 by (simp add: repr_def)
    have s1: "(case last_addr xs of None \<Rightarrow> Some (m, l1\<lparr>first := hd_addr ys\<rparr>)
         | Some p \<Rightarrow> Option.bind (m p) (\<lambda>ep. Some (m(p \<mapsto> ep\<lparr>next_el := hd_addr ys\<rparr>), l1)))
       = Some (m1, l2)"
      using deref_last [OF D1]
      by (cases "last_addr xs") (auto simp: link_prev_def m1_def l2_def)
    have m1a: "m1 a = m a" using ne by (auto simp: m1_def link_prev_def split: option.splits)
    have s2: "(case hd_addr ys of None \<Rightarrow> Some (m1, l2\<lparr>last_el := last_addr xs\<rparr>)
         | Some n \<Rightarrow> Option.bind (m1 n) (\<lambda>en. Some (m1(n \<mapsto> en\<lparr>prev := last_addr xs\<rparr>), l2)))
       = Some (m2, l3)"
    proof (cases "hd_addr ys")
      case None
      then show ?thesis by (simp add: link_next_def m2_def l3_def)
    next
      case (Some n)
      with deref_hd [OF D2] obtain en where "m n = Some en" by blast
      then have "m1 n \<noteq> None" by (auto simp: m1_def link_prev_def split: option.splits)
      then obtain en' where "m1 n = Some en'" by blast
      with Some show ?thesis by (auto simp: link_next_def m2_def l3_def)
    qed
    have m2a: "m2 a = m a" using m1a ne by (auto simp: m2_def link_next_def split: option.splits)
    have curs: "current l2 = Some a" "current l3 = Some a" using cur by (simp_all add: l2_def l3_def)
    have cnts: "count l3 = count l1" by (simp add: l2_def l3_def)
    have call: "ListUnlink m l key cb free =
        Some (1, if free then [c] else [], m2(a := None), ?l4)"
      unfolding ListUnlink_def L Let_def
      using Some cur ma s1 s2 m1a m2a curs cnts by (simp cong: option.case_cong)
    have dll': "dll (m2(a := None)) None (xs @ ys) None" unfolding m1_def m2_def by (rule unlink_dll [OF D dist])
    have mo: "map_of (items cl) a = Some c" by (simp only: sp(1) map_of_split [OF sp(2)])
    define cl' where "cl' = snd (cl_unlink ?P cl)"
    have U: "cl_unlink ?P cl = (Some c, cl')" and
      it: "items cl' = xs @ ys" "cur cl' = (if cur cl = Some a then hd_addr ys else cur cl)"
        "cnt cl' = cnt cl - 1" "sz cl' = sz cl"
      using F Some sp fr mo
      by (simp_all add: cl'_def cl_unlink_def succ_addr_split del_addr_split del: map_of_append)
    have wf': "cl_wf cl'" using cl_wf_unlink [OF repr_wf [OF R] U] .
    have "repr (m2(a := None)) ?l4 cl'"
      using L(2) R wf' it dll' sp fr
      by (auto simp: repr_def hd_addr_append last_addr_def l2_def l3_def)
    moreover have "same_outside (set (addrs cl)) m (m2(a := None))"
      using sp last_addr_in [of xs] hd_addr_in [of ys]
      by (auto simp: same_outside_def m1_def m2_def link_prev_def link_next_def split: option.splits)
    ultimately show ?thesis using call U by simp
  qed
qed

lemma ListDetachHead_refines:
  assumes R: "repr m l cl"
  shows "\<exists>m' l'. ListDetachHead m l = Some (fst (cl_detach_head cl), m', l') \<and>
     repr m' l' (snd (cl_detach_head cl)) \<and> same_outside (set (addrs cl)) m m'"
proof (cases "items cl")
  case Nil
  with R show ?thesis by (auto simp: ListDetachHead_def repr_def cl_detach_head_def cl_wf_def)
next
  case (Cons x ys)
  obtain a c where x: "x = (a, c)" by force
  have wf': "cl_wf (snd (cl_detach_head cl))"
    using cl_wf_detach_head [OF repr_wf [OF R]] by (cases "cl_detach_head cl") simp
  have D: "dll m None ([] @ (a, c) # ys) None" using R Cons x by (simp add: repr_def)
  have dist: "distinct (map fst ([] @ (a, c) # ys))" using repr_distinct [OF R] Cons x by simp
  note D' = unlink_dll [OF D dist]
  have pos: "count l > 0" using R Cons by (simp add: repr_def cl_wf_def)
  show ?thesis
  proof (cases ys)
    case Nil
    with R Cons x D D' pos wf' show ?thesis
      by (auto simp: ListDetachHead_def repr_def cl_detach_head_def link_prev_def link_next_def
          same_outside_def)
  next
    case (Cons y zs)
    with R \<open>items cl = x # ys\<close> x D D' pos wf' dist show ?thesis
      by (cases y) (auto simp: ListDetachHead_def repr_def cl_detach_head_def link_prev_def
          link_next_def same_outside_def last_addr_def Let_def)
  qed
qed

lemma ListPopTail_refines:
  assumes R: "repr m l cl"
  shows "\<exists>m' l'. ListPopTail m l = Some (fst (cl_pop_tail cl), m', l') \<and>
     repr m' l' (snd (cl_pop_tail cl)) \<and> same_outside (set (addrs cl)) m m'"
proof (cases "items cl" rule: rev_cases)
  case Nil
  with R show ?thesis by (auto simp: ListPopTail_def repr_def cl_pop_tail_def cl_wf_def)
next
  case (snoc xs x)
  obtain a c where x: "x = (a, c)" by force
  have wf': "cl_wf (snd (cl_pop_tail cl))"
    using cl_wf_pop_tail [OF repr_wf [OF R]] by (cases "cl_pop_tail cl") simp
  have D: "dll m None (xs @ (a, c) # []) None" using R snoc x by (simp add: repr_def)
  have dist: "distinct (map fst (xs @ (a, c) # []))" using repr_distinct [OF R] snoc x by simp
  note D' = unlink_dll [OF D dist]
  have pos: "count l > 0" using R snoc by (simp add: repr_def cl_wf_def)
  show ?thesis
  proof (cases xs rule: rev_cases)
    case Nil
    with R snoc x D D' pos wf' show ?thesis
      by (auto simp: ListPopTail_def repr_def cl_pop_tail_def link_prev_def link_next_def
          same_outside_def)
  next
    case (snoc zs z)
    with R \<open>items cl = xs @ [x]\<close> x D D' pos wf' dist show ?thesis
      by (cases z) (auto simp: ListPopTail_def repr_def cl_pop_tail_def link_prev_def
          link_next_def same_outside_def hd_addr_append dll_snoc dll_mid Let_def butlast_append
          dest: hd_addr_in split: if_splits)
  qed
qed

subsection \<open>Emptying and iteration\<close>

lemma empty_loop_refines:
  "dll m p xs None \<Longrightarrow> distinct (map fst xs) \<Longrightarrow>
     empty_loop m (hd_addr xs) fr = Some (fr @ map snd xs, m |` (- (fst ` set xs)))"
proof (induction xs arbitrary: m p fr)
  case Nil
  then show ?case by (simp add: empty_loop.simps)
next
  case (Cons x xs)
  obtain a c where x: "x = (a, c)" by force
  have D: "dll (m(a := None)) (Some a) xs None" using Cons.prems x by simp
  have "empty_loop (m(a := None)) (hd_addr xs) (fr @ [c]) =
      Some ((fr @ [c]) @ map snd xs, (m(a := None)) |` (- (fst ` set xs)))"
    using Cons.prems by (intro Cons.IH [OF D]) simp
  moreover have "(m(a := None)) |` (- (fst ` set xs)) = m |` (- insert a (fst ` set xs))"
    by (auto simp: restrict_map_def fun_eq_iff)
  ultimately show ?case
    using Cons.prems x by (subst empty_loop.simps) simp
qed

definition cl_emptied :: "'c clist \<Rightarrow> 'c clist" where
  "cl_emptied cl = cl_empty"

lemma ListEmpty_refines:
  assumes R: "repr m l cl"
  shows "\<exists>m' l'. ListEmpty m l = Some (contents cl, m', l') \<and> repr m' l' (cl_emptied cl) \<and>
     m' = m |` (- set (addrs cl))"
  using empty_loop_refines [of m None "items cl" "[]"] R repr_distinct [OF R]
  by (simp add: ListEmpty_def repr_def cl_emptied_def cl_empty_def cl_wf_def)

lemma ListNextElement_refines:
  assumes R: "repr m l cl" and pos: "\<And>a. pos = Some a \<Longrightarrow> a \<in> set (addrs cl)"
  shows "ListNextElement m l pos = Some (cl_next cl pos)"
proof (cases pos)
  case None
  with R show ?thesis by (simp add: ListNextElement_def cl_next_def repr_def)
next
  case (Some a)
  with pos have "a \<in> fst ` set (items cl)" by simp
  with repr_distinct [OF R] obtain xs c ys where
    "items cl = xs @ (a, c) # ys" "a \<notin> fst ` set xs" by (rule items_splitE)
  with R Some show ?thesis
    by (simp add: ListNextElement_def cl_next_def repr_def dll_mid succ_addr_split)
qed

subsection \<open>Runs of list operations\<close>

datatype 'c list_op =
    Append 'c int addr
  | Insert 'c int "addr option" addr
  | FindItem 'c "('c \<Rightarrow> 'c \<Rightarrow> bool) option"
  | Unlink 'c "('c \<Rightarrow> 'c \<Rightarrow> bool) option" bool
  | DetachHead
  | PopTail
  | Next "addr option"
  | Empty

datatype 'c list_res = RUnit | RPos "addr option" | RUnlink int "'c list"
  | RContent "'c option" | RFreed "'c list"

fun list_step :: "'c mem \<times> llist \<Rightarrow> 'c list_op \<Rightarrow> ('c list_res \<times> 'c mem \<times> llist) option" where
  "list_step (m, l) (Append c s a) = map_option (\<lambda>s'. (RUnit, s')) (ListAppend m l c s a)"
| "list_step (m, l) (Insert c s i a) = map_option (\<lambda>s'. (RUnit, s')) (ListInsert m l c s i a)"
| "list_step (m, l) (FindItem k cb) =
     map_option (\<lambda>(p, l'). (RPos p, m, l')) (ListFindItem m l k cb)"
| "list_step (m, l) (Unlink k cb f) =
     map_option (\<lambda>(rc, fr, s'). (RUnlink rc fr, s')) (ListUnlink m l k cb f)"
| "list_step (m, l) DetachHead = map_option (\<lambda>(c, s'). (RContent c, s')) (ListDetachHead m l)"
| "list_step (m, l) PopTail = map_option (\<lambda>(c, s'). (RContent c, s')) (ListPopTail m l)"
| "list_step (m, l) (Next p) = map_option (\<lambda>q. (RPos q, m, l)) (ListNextElement m l p)"
| "list_step (m, l) Empty = map_option (\<lambda>(fr, s'). (RFreed fr, s')) (ListEmpty m l)"

fun clist_step :: "'c clist \<Rightarrow> 'c list_op \<Rightarrow> 'c list_res \<times> 'c clist" where
  "clist_step l (Append c s a) = (RUnit, cl_append l a c s)"
| "clist_step l (Insert c s i a) = (RUnit, cl_insert l a c s i)"
| "clist_step l (FindItem k cb) = (let (p, l') = cl_find (matches cb k) l in (RPos p, l'))"
| "clist_step l (Unlink k cb f) = (case cl_unlink (matches cb k) l of
     (None, l') \<Rightarrow> (RUnlink 0 [], l')
   | (Some c, l') \<Rightarrow> (RUnlink 1 (if f then [c] else []), l'))"
| "clist_step l DetachHead = (let (c, l') = cl_detach_head l in (RContent c, l'))"
| "clist_step l PopTail = (let (c, l') = cl_pop_tail l in (RContent c, l'))"
| "clist_step l (Next p) = (RPos (cl_next l p), l)"
| "clist_step l Empty = (RFreed (contents l), cl_emptied l)"

text \<open>
  The preconditions: \<^verbatim>\<open>malloc\<close> returns an address that is not in use by the list, and a position
  argument is NULL or an element of the list.
\<close>

fun list_ok :: "'c clist \<Rightarrow> 'c list_op \<Rightarrow> bool" where
  "list_ok l (Append c s a) = (a \<notin> set (addrs l))"
| "list_ok l (Insert c s i a) = (a \<notin> set (addrs l) \<and> (case i of None \<Rightarrow> True | Some j \<Rightarrow> j \<in> set (addrs l)))"
| "list_ok l (Next p) = (case p of None \<Rightarrow> True | Some j \<Rightarrow> j \<in> set (addrs l))"
| "list_ok l _ = True"

definition list_rep :: "'c mem \<times> llist \<Rightarrow> 'c clist \<Rightarrow> bool" where
  "list_rep s cl = repr (fst s) (snd s) cl"

lemma list_step_sim:
  assumes R: "list_rep s cl" and ok: "list_ok cl x"
  shows "\<exists>s'. list_step s x = Some (fst (clist_step cl x), s') \<and> list_rep s' (snd (clist_step cl x))"
proof -
  obtain m l where s: "s = (m, l)" by force
  have R': "repr m l cl" using R s by (simp add: list_rep_def)
  show ?thesis
  proof (cases x)
    case (Append c sz a)
    with ListAppendNoMalloc_refines [OF R', of a c sz] ok s show ?thesis
      by (auto simp: list_rep_def ListAppend_def)
  next
    case (Insert c sz i a)
    with ListInsert_refines [OF R', of a i c sz] ok s show ?thesis
      by (auto simp: list_rep_def split: option.splits)
  next
    case (FindItem k cb)
    with ListFindItem_refines [OF R', of k cb] s show ?thesis
      by (cases "cl_find (matches cb k) cl") (auto simp: list_rep_def)
  next
    case (Unlink k cb f)
    with ListUnlink_refines [OF R', of k cb f] s show ?thesis
      by (cases "cl_unlink (matches cb k) cl") (auto simp: list_rep_def split: option.splits)
  next
    case DetachHead
    with ListDetachHead_refines [OF R'] s show ?thesis
      by (cases "cl_detach_head cl") (auto simp: list_rep_def)
  next
    case PopTail
    with ListPopTail_refines [OF R'] s show ?thesis
      by (cases "cl_pop_tail cl") (auto simp: list_rep_def)
  next
    case (Next p)
    with ListNextElement_refines [OF R', of p] ok R' s show ?thesis
      by (auto simp: list_rep_def split: option.splits)
  next
    case Empty
    with ListEmpty_refines [OF R'] s show ?thesis by (auto simp: list_rep_def)
  qed
qed

interpretation list_code: simulation list_step clist_step list_ok list_rep
  by unfold_locales (rule list_step_sim)

text \<open>
  C1: the pointer code of \<^verbatim>\<open>LinkedList.c\<close> implements the list object.  Any sequence of operations
  (append, insert, find, unlink, detach head, pop tail, iterate, empty) that respects the
  preconditions runs without a bad pointer, returns what the object returns, and leaves memory
  that represents the object's final state: links consistent in both directions, cursor and
  count included.
\<close>

theorem linked_list_refines:
  assumes "repr m l cl" "run_ok clist_step list_ok cl ops"
  shows "\<exists>m' l'. run_c list_step (m, l) ops = Some (fst (run_a clist_step cl ops), m', l') \<and>
    repr m' l' (snd (run_a clist_step cl ops))"
  using list_code.run_sim [of "(m, l)" cl ops] assms by (auto simp: list_rep_def)

theorem linked_list_refines_witness:
  "\<exists>m' l'. run_c list_step (Map.empty, ListZero) [Append (5::int) 4 1, Append 7 4 2, DetachHead, PopTail] =
     Some ([RUnit, RUnit, RContent (Some 5), RContent (Some 7)], m', l')"
proof -
  have "repr (Map.empty :: int mem) ListZero cl_empty"
    by (simp add: repr_def ListZero_def cl_empty_def cl_wf_def)
  from linked_list_refines [OF this, of "[Append 5 4 1, Append 7 4 2, DetachHead, PopTail]"]
  show ?thesis
    by (auto simp: cl_empty_def cl_append_def cl_detach_head_def cl_pop_tail_def)
qed

end
