(* ===== verification/Utf8.thy ===== *)
theory Utf8
  imports Prelude
begin

unbundle bit_operations_syntax

text \<open>
  The UTF-8 checker of \<^verbatim>\<open>utf-8.c\<close>, with its table of well-formed byte ranges and its reads of
  the \<^verbatim>\<open>data\<close> buffer (a read outside the allocation is \<open>None\<close>).  \<open>utf8_encode\<close> is the reference:
  the encoding of a Unicode scalar value.  The lemmas show that the table accepts exactly the
  encodings, that \<^verbatim>\<open>UTF8_validateString\<close> is a safe and exact check on NUL-terminated strings, and
  where \<^verbatim>\<open>UTF8_validate\<close> on a length-delimited buffer reads past its end.
\<close>

subsection \<open>The code\<close>

definition valid_ranges :: "(nat \<times> (byte \<times> byte) list) list" where
  "valid_ranges =
    [(1, [(0x00, 0x7F)]),
     (2, [(0xC2, 0xDF), (0x80, 0xBF)]),
     (3, [(0xE0, 0xE0), (0xA0, 0xBF), (0x80, 0xBF)]),
     (3, [(0xE1, 0xEC), (0x80, 0xBF), (0x80, 0xBF)]),
     (3, [(0xED, 0xED), (0x80, 0x9F), (0x80, 0xBF)]),
     (3, [(0xEE, 0xEF), (0x80, 0xBF), (0x80, 0xBF)]),
     (4, [(0xF0, 0xF0), (0x90, 0xBF), (0x80, 0xBF), (0x80, 0xBF)]),
     (4, [(0xF1, 0xF3), (0x80, 0xBF), (0x80, 0xBF), (0x80, 0xBF)]),
     (4, [(0xF4, 0xF4), (0x80, 0x8F), (0x80, 0xBF), (0x80, 0xBF)])]"

definition utf8_charlen :: "byte \<Rightarrow> nat" where
  "utf8_charlen b = (if b AND 128 = 0 then 1
     else if b AND 0xF0 = 0xF0 then 4
     else if b AND 0xE0 = 0xE0 then 3 else 2)"

text \<open>The inner loop: compare \<^verbatim>\<open>data[j]\<close> with row bounds as plain (signed) \<^verbatim>\<open>char\<close>s, stop at a mismatch.\<close>

fun check_bytes :: "byte list \<Rightarrow> nat \<Rightarrow> (byte \<times> byte) list \<Rightarrow> bool option" where
  "check_bytes buf pos [] = Some True"
| "check_bytes buf pos ((lower, upper) # bs) = do {
     d \<leftarrow> rd buf pos;
     if schar d < schar lower \<or> schar d > schar upper then Some False
     else check_bytes buf (Suc pos) bs
   }"

text \<open>The outer loop over the rows of the table.\<close>

fun check_rows :: "byte list \<Rightarrow> nat \<Rightarrow> nat \<Rightarrow> (nat \<times> (byte \<times> byte) list) list \<Rightarrow> bool option" where
  "check_rows buf pos charlen [] = Some False"
| "check_rows buf pos charlen ((n, bs) # rows) =
     (if n = charlen then do {
        good \<leftarrow> check_bytes buf pos bs;
        if good then Some True else check_rows buf pos charlen rows
      } else check_rows buf pos charlen rows)"

text \<open>The result is the position after the character, or NULL.\<close>

definition UTF8_char_validate :: "nat \<Rightarrow> byte list \<Rightarrow> nat \<Rightarrow> nat option option" where
  "UTF8_char_validate len buf pos = do {
     d \<leftarrow> rd buf pos;
     let charlen = utf8_charlen d;
     if charlen > len then Some None
     else do {
       good \<leftarrow> check_rows buf pos charlen valid_ranges;
       Some (if good then Some (pos + charlen) else None)
     }
   }"

text \<open>The \<^verbatim>\<open>while\<close> loop; note that every call gets the length of the whole string.\<close>

partial_function (option) validate_loop :: "nat \<Rightarrow> byte list \<Rightarrow> nat option \<Rightarrow> nat option option" where
  "validate_loop len buf curdata = (case curdata of
     None \<Rightarrow> Some None
   | Some p \<Rightarrow> if p < len
       then Option.bind (UTF8_char_validate len buf p) (\<lambda>q. validate_loop len buf q)
       else Some (Some p))"

declare validate_loop.simps [code]

definition UTF8_validate :: "nat \<Rightarrow> byte list \<Rightarrow> int option" where
  "UTF8_validate len buf =
     (if len = 0 then Some 1
      else do {
        curdata \<leftarrow> UTF8_char_validate len buf 0;
        curdata \<leftarrow> validate_loop len buf curdata;
        Some (if curdata \<noteq> None then 1 else 0)
      })"

definition UTF8_validateString :: "byte list \<Rightarrow> int option" where
  "UTF8_validateString s = UTF8_validate (strlen s) s"

subsection \<open>The reference: Unicode scalar values and their encodings\<close>

definition scalar :: "int \<Rightarrow> bool" where
  "scalar c \<longleftrightarrow> 0 \<le> c \<and> c < 0xD800 \<or> 0xE000 \<le> c \<and> c \<le> 0x10FFFF"

definition utf8_encode :: "int \<Rightarrow> byte list" where
  "utf8_encode c = map byte_of
    (if c < 0x80 then [c]
     else if c < 0x800 then [0xC0 + c div 64, 0x80 + c mod 64]
     else if c < 0x10000 then [0xE0 + c div 4096, 0x80 + c div 64 mod 64, 0x80 + c mod 64]
     else [0xF0 + c div 262144, 0x80 + c div 4096 mod 64, 0x80 + c div 64 mod 64, 0x80 + c mod 64])"

definition utf8_text :: "byte list \<Rightarrow> bool" where
  "utf8_text s \<longleftrightarrow> (\<exists>cs. list_all scalar cs \<and> s = concat (map utf8_encode cs))"

subsection \<open>Ranges of bytes\<close>

lemma and_masks:
  "b AND 128 = 0 \<longleftrightarrow> ubyte b < 128"
  "b AND 0xF0 = 0xF0 \<longleftrightarrow> 240 \<le> ubyte b"
  "b AND 0xE0 = 0xE0 \<longleftrightarrow> 224 \<le> ubyte b" for b :: byte
proof -
  have "\<forall>b::byte. (b AND 128 = 0 \<longleftrightarrow> ubyte b < 128) \<and>
      (b AND 0xF0 = 0xF0 \<longleftrightarrow> 240 \<le> ubyte b) \<and> (b AND 0xE0 = 0xE0 \<longleftrightarrow> 224 \<le> ubyte b)"
    unfolding all_byte by code_simp
  then show "b AND 128 = 0 \<longleftrightarrow> ubyte b < 128" "b AND 0xF0 = 0xF0 \<longleftrightarrow> 240 \<le> ubyte b"
    "b AND 0xE0 = 0xE0 \<longleftrightarrow> 224 \<le> ubyte b" by blast+
qed

lemma utf8_charlen_ubyte:
  "utf8_charlen b = (if ubyte b < 128 then 1 else if 240 \<le> ubyte b then 4
     else if 224 \<le> ubyte b then 3 else 2)"
  by (simp add: utf8_charlen_def and_masks)

text \<open>One byte against one entry of a row, and a whole character against the table.\<close>

definition in_range :: "byte \<Rightarrow> byte \<times> byte \<Rightarrow> bool" where
  "in_range d r \<longleftrightarrow> schar (fst r) \<le> schar d \<and> schar d \<le> schar (snd r)"

lemma in_range_ubyte:
  "(ubyte lo < 128) = (ubyte hi < 128) \<Longrightarrow>
     in_range d (lo, hi) \<longleftrightarrow> ubyte lo \<le> ubyte d \<and> ubyte d \<le> ubyte hi"
  using ubyte_bounds [of d] ubyte_bounds [of lo] ubyte_bounds [of hi]
  by (auto simp: in_range_def schar_ubyte simp del: ubyte_bounds split: if_splits)

definition wf_char :: "byte list \<Rightarrow> bool" where
  "wf_char ds \<longleftrightarrow> (\<exists>row\<in>set valid_ranges. fst row = length ds \<and> list_all2 in_range ds (snd row))"

lemma check_bytes_fits:
  "pos + length bs \<le> length buf \<Longrightarrow>
     check_bytes buf pos bs = Some (list_all2 in_range (take (length bs) (drop pos buf)) bs)"
proof (induction buf pos bs rule: check_bytes.induct)
  case (2 buf pos lower upper bs)
  then have lt: "pos < length buf" by simp
  have "drop pos buf = buf ! pos # drop (Suc pos) buf" using lt by (rule Cons_nth_drop_Suc [symmetric])
  with 2 lt show ?case by (auto simp: rd_def in_range_def)
qed simp

lemma check_bytes_mismatch:
  "k < length bs \<Longrightarrow> pos + k < length buf \<Longrightarrow> \<not> in_range (buf ! (pos + k)) (bs ! k) \<Longrightarrow>
     check_bytes buf pos bs = Some False"
proof (induction buf pos bs arbitrary: k rule: check_bytes.induct)
  case (2 buf pos lower upper bs)
  show ?case
  proof (cases k)
    case 0
    with 2 show ?thesis by (auto simp: rd_def in_range_def)
  next
    case (Suc k')
    with 2 show ?thesis by (auto simp: rd_def)
  qed
qed simp

lemma check_rows_fits:
  "\<forall>row\<in>set rows. fst row = length (snd row) \<Longrightarrow> pos + n \<le> length buf \<Longrightarrow>
     check_rows buf pos n rows = Some (\<exists>row\<in>set rows. fst row = n \<and>
       list_all2 in_range (take n (drop pos buf)) (snd row))"
  by (induction buf pos n rows rule: check_rows.induct) (auto simp: check_bytes_fits)

lemma check_rows_mismatch:
  "\<forall>row\<in>set rows. fst row = n \<longrightarrow> check_bytes buf pos (snd row) = Some False \<Longrightarrow>
     check_rows buf pos n rows = Some False"
  by (induction buf pos n rows rule: check_rows.induct) auto

lemma valid_ranges_shape:
  "row \<in> set valid_ranges \<Longrightarrow> fst row = length (snd row)"
  "row \<in> set valid_ranges \<Longrightarrow> 0 < k \<Longrightarrow> k < length (snd row) \<Longrightarrow> \<not> in_range 0 (snd row ! k)"
proof -
  have "\<forall>row\<in>set valid_ranges. fst row = length (snd row) \<and>
      list_all (\<lambda>r. \<not> in_range 0 r) (tl (snd row))"
    by (simp add: valid_ranges_def in_range_ubyte)
  moreover assume "row \<in> set valid_ranges"
  ultimately have len: "fst row = length (snd row)" and
    l: "list_all (\<lambda>r. \<not> in_range 0 r) (tl (snd row))" by auto
  show "fst row = length (snd row)" by (rule len)
  assume "0 < k" "k < length (snd row)"
  then show "\<not> in_range 0 (snd row ! k)"
    using l by (cases k; cases "snd row") (auto simp: list_all_length)
qed

subsection \<open>The table accepts exactly the encodings\<close>

lemma wf_char_iff:
  "wf_char ds \<longleftrightarrow>
     (\<exists>a. ds = [a] \<and> ubyte a < 128) \<or>
     (\<exists>a b. ds = [a, b] \<and> 0xC2 \<le> ubyte a \<and> ubyte a \<le> 0xDF \<and> 0x80 \<le> ubyte b \<and> ubyte b \<le> 0xBF) \<or>
     (\<exists>a b c. ds = [a, b, c] \<and> 0xE0 \<le> ubyte a \<and> ubyte a \<le> 0xEF \<and>
        (if ubyte a = 0xE0 then 0xA0 else 0x80) \<le> ubyte b \<and>
        ubyte b \<le> (if ubyte a = 0xED then 0x9F else 0xBF) \<and> 0x80 \<le> ubyte c \<and> ubyte c \<le> 0xBF) \<or>
     (\<exists>a b c d. ds = [a, b, c, d] \<and> 0xF0 \<le> ubyte a \<and> ubyte a \<le> 0xF4 \<and>
        (if ubyte a = 0xF0 then 0x90 else 0x80) \<le> ubyte b \<and>
        ubyte b \<le> (if ubyte a = 0xF4 then 0x8F else 0xBF) \<and>
        0x80 \<le> ubyte c \<and> ubyte c \<le> 0xBF \<and> 0x80 \<le> ubyte d \<and> ubyte d \<le> 0xBF)"
  (is "_ \<longleftrightarrow> ?one ds \<or> ?two ds \<or> ?three ds \<or> ?four ds")
proof -
  consider "ds = []" | a where "ds = [a]" | a b where "ds = [a, b]" | a b c where "ds = [a, b, c]"
    | a b c d where "ds = [a, b, c, d]" | a b c d e es where "ds = a # b # c # d # e # es"
    by (metis list.exhaust)
  then show ?thesis
  proof cases
    case (4 a b c)
    consider "ubyte a = 0xE0" | "ubyte a = 0xED" | "0xE1 \<le> ubyte a \<and> ubyte a \<le> 0xEC"
      | "0xEE \<le> ubyte a \<and> ubyte a \<le> 0xEF" | "ubyte a < 0xE0" | "0xEF < ubyte a" by linarith
    then show ?thesis
      by cases (use 4 in \<open>simp_all add: wf_char_def valid_ranges_def in_range_ubyte\<close>)
  next
    case (5 a b c d)
    consider "ubyte a = 0xF0" | "ubyte a = 0xF4" | "0xF1 \<le> ubyte a \<and> ubyte a \<le> 0xF3"
      | "ubyte a < 0xF0" | "0xF4 < ubyte a" by linarith
    then show ?thesis
      by cases (use 5 in \<open>simp_all add: wf_char_def valid_ranges_def in_range_ubyte\<close>)
  qed (auto simp: wf_char_def valid_ranges_def in_range_ubyte)
qed

lemma wf_char_charlen: "wf_char ds \<Longrightarrow> ds \<noteq> [] \<and> utf8_charlen (hd ds) = length ds"
  by (auto simp: wf_char_iff utf8_charlen_ubyte)

lemma digits64:
  fixes c :: int
  obtains x y z where "c = 4096 * x + 64 * y + z" "0 \<le> y" "y < 64" "0 \<le> z" "z < 64"
    "c div 4096 = x" "c div 64 mod 64 = y" "c mod 64 = z"
proof
  have "c div 4096 = c div 64 div 64" using zdiv_zmult2_eq [of 64 c 64] by simp
  then show "c = 4096 * (c div 4096) + 64 * (c div 64 mod 64) + c mod 64"
    using mult_div_mod_eq [of 64 c] mult_div_mod_eq [of 64 "c div 64"] by linarith
qed simp_all

lemma utf8_encode_wf: "scalar c \<Longrightarrow> wf_char (utf8_encode c)"
proof -
  assume sc: "scalar c"
  consider "c < 0x80" | "0x80 \<le> c" "c < 0x800" | "0x800 \<le> c" "c < 0x10000" | "0x10000 \<le> c"
    by linarith
  then show ?thesis
  proof cases
    case 1
    with sc show ?thesis by (auto simp: scalar_def utf8_encode_def wf_char_iff)
  next
    case 2
    then show ?thesis by (auto simp: utf8_encode_def wf_char_iff)
  next
    case 3
    obtain x y z where d: "c = 4096 * x + 64 * y + z" "0 \<le> y" "y < 64" "0 \<le> z" "z < 64"
      "c div 4096 = x" "c div 64 mod 64 = y" "c mod 64 = z" by (rule digits64)
    have x: "0 \<le> x" "x < 16" using 3 d by linarith+
    have "utf8_encode c = [byte_of (0xE0 + x), byte_of (0x80 + y), byte_of (0x80 + z)]"
      using 3 d by (simp add: utf8_encode_def)
    moreover have "x = 0 \<Longrightarrow> 32 \<le> y" "x = 13 \<Longrightarrow> y < 32"
      using sc 3 d(1-5) by (auto simp: scalar_def)
    ultimately show ?thesis using x d(2-5) by (auto simp: wf_char_iff)
  next
    case 4
    obtain x y z where d: "c = 4096 * x + 64 * y + z" "0 \<le> y" "y < 64" "0 \<le> z" "z < 64"
      "c div 4096 = x" "c div 64 mod 64 = y" "c mod 64 = z" by (rule digits64)
    define u v where "u = x div 64" and "v = x mod 64"
    have xuv: "x = 64 * u + v" "0 \<le> v" "v < 64" by (simp_all add: u_def v_def)
    have u: "c div 262144 = u" using d(1-5) xuv by linarith
    have "utf8_encode c = [byte_of (0xF0 + u), byte_of (0x80 + v), byte_of (0x80 + y), byte_of (0x80 + z)]"
      using 4 d u by (simp add: utf8_encode_def v_def)
    moreover have "0 \<le> u" "u \<le> 4" "u = 0 \<Longrightarrow> 16 \<le> v" "u = 4 \<Longrightarrow> v < 16"
      using sc 4 d(1-5) xuv by (auto simp: scalar_def)
    ultimately show ?thesis using xuv d(2-5) by (auto simp: wf_char_iff)
  qed
qed

lemma base64_digits3:
  fixes x y z :: int
  assumes "0 \<le> y" "y < 64" "0 \<le> z" "z < 64"
  shows "(x * 4096 + y * 64 + z) div 4096 = x" "(x * 4096 + y * 64 + z) div 64 mod 64 = y"
    "(x * 4096 + y * 64 + z) mod 64 = z"
proof -
  have "(x * 4096 + y * 64 + z) div 4096 = (x * 4096 + (y * 64 + z)) div 4096"
    by (simp only: add.assoc)
  also have "\<dots> = x" using assms by (intro divmod_mult_add) simp_all
  finally show "(x * 4096 + y * 64 + z) div 4096 = x" .
  have *: "x * 4096 + y * 64 + z = (x * 64 + y) * 64 + z" by simp
  have "(x * 4096 + y * 64 + z) div 64 = x * 64 + y"
    unfolding * using assms by (intro divmod_mult_add) simp_all
  then show "(x * 4096 + y * 64 + z) div 64 mod 64 = y" using assms by simp
  show "(x * 4096 + y * 64 + z) mod 64 = z"
    unfolding * using assms by (intro divmod_mult_add) simp_all
qed

lemma base64_digits4:
  fixes w x y z :: int
  assumes "0 \<le> x" "x < 64" "0 \<le> y" "y < 64" "0 \<le> z" "z < 64"
  shows "(w * 262144 + x * 4096 + y * 64 + z) div 262144 = w"
    "(w * 262144 + x * 4096 + y * 64 + z) div 4096 mod 64 = x"
    "(w * 262144 + x * 4096 + y * 64 + z) div 64 mod 64 = y"
    "(w * 262144 + x * 4096 + y * 64 + z) mod 64 = z"
proof -
  have *: "w * 262144 + x * 4096 + y * 64 + z = (w * 64 + x) * 4096 + y * 64 + z" by simp
  note d = base64_digits3 [of y z "w * 64 + x", OF assms(3-6)]
  show "(w * 262144 + x * 4096 + y * 64 + z) div 4096 mod 64 = x"
    unfolding * d using assms by simp
  show "(w * 262144 + x * 4096 + y * 64 + z) div 64 mod 64 = y"
    "(w * 262144 + x * 4096 + y * 64 + z) mod 64 = z"
    unfolding * by (simp_all only: d)
  have "w * 262144 + x * 4096 + y * 64 + z = w * 262144 + (x * 4096 + y * 64 + z)" by simp
  also have "\<dots> div 262144 = w" using assms by (intro divmod_mult_add) simp_all
  finally show "(w * 262144 + x * 4096 + y * 64 + z) div 262144 = w" .
qed

lemma byte_of_eqI: "n mod 256 = ubyte b \<Longrightarrow> byte_of n = b"
  by (metis ubyte_byte_of ubyte_inject)

lemma wf_char_decode: "wf_char ds \<Longrightarrow> \<exists>c. scalar c \<and> ds = utf8_encode c"
  unfolding wf_char_iff [of ds]
proof (elim disjE exE conjE)
  fix a assume "ds = [a]" "ubyte a < 128"
  then show ?thesis by (intro exI [of _ "ubyte a"]) (simp add: scalar_def utf8_encode_def)
next
  fix a b
  assume ds: "ds = [a, b]" and r: "0xC2 \<le> ubyte a" "ubyte a \<le> 0xDF" "0x80 \<le> ubyte b" "ubyte b \<le> 0xBF"
  define u where "u = (ubyte a - 0xC0) * 64 + (ubyte b - 0x80)"
  have b: "0 \<le> ubyte b - 0x80" "ubyte b - 0x80 < 64" using r by simp_all
  note c2 = divmod_mult_add [OF b, of "ubyte a - 0xC0", folded u_def]
  have u: "u = ubyte a * 64 + ubyte b - (0xC0 * 64 + 0x80)" unfolding u_def by simp
  have lim: "0x80 \<le> u" "u < 0x800" using r u by linarith+
  then have "ds = utf8_encode u" using ds c2 by (simp add: utf8_encode_def)
  moreover have "scalar u" using lim unfolding scalar_def by linarith
  ultimately show ?thesis by blast
next
  fix a b c
  assume ds: "ds = [a, b, c]" and r: "0xE0 \<le> ubyte a" "ubyte a \<le> 0xEF"
    "(if ubyte a = 0xE0 then 0xA0 else 0x80) \<le> ubyte b"
    "ubyte b \<le> (if ubyte a = 0xED then 0x9F else 0xBF)" "0x80 \<le> ubyte c" "ubyte c \<le> 0xBF"
  have r': "0x80 \<le> ubyte b" "ubyte b \<le> 0xBF" using r by (simp_all split: if_splits)
  define u where "u = (ubyte a - 0xE0) * 4096 + (ubyte b - 0x80) * 64 + (ubyte c - 0x80)"
  have b: "0 \<le> ubyte b - 0x80" "ubyte b - 0x80 < 64" "0 \<le> ubyte c - 0x80" "ubyte c - 0x80 < 64"
    using r r' by simp_all
  note c3 = base64_digits3 [OF b, of "ubyte a - 0xE0", folded u_def]
  have lo: "ubyte a = 0xE0 \<Longrightarrow> 0xA0 \<le> ubyte b" and hi: "ubyte a = 0xED \<Longrightarrow> ubyte b \<le> 0x9F"
    using r(3,4) by simp_all
  have u: "u = ubyte a * 4096 + ubyte b * 64 + ubyte c - (0xE0 * 4096 + 0x80 * 64 + 0x80)"
    unfolding u_def by simp
  have "0x800 \<le> u" using lo r r' u by (cases "ubyte a = 0xE0") linarith+
  moreover have "u < 0x10000" using r r' u by linarith
  ultimately have "ds = utf8_encode u" using ds c3 by (simp add: utf8_encode_def)
  moreover have "u < 0xD800 \<or> 0xE000 \<le> u" using hi r r' u by (cases "ubyte a = 0xED") linarith+
  then have "scalar u" using \<open>0x800 \<le> u\<close> \<open>u < 0x10000\<close> unfolding scalar_def by linarith
  ultimately show ?thesis by blast
next
  fix a b c d
  assume ds: "ds = [a, b, c, d]" and r: "0xF0 \<le> ubyte a" "ubyte a \<le> 0xF4"
    "(if ubyte a = 0xF0 then 0x90 else 0x80) \<le> ubyte b"
    "ubyte b \<le> (if ubyte a = 0xF4 then 0x8F else 0xBF)" "0x80 \<le> ubyte c" "ubyte c \<le> 0xBF"
    "0x80 \<le> ubyte d" "ubyte d \<le> 0xBF"
  have r': "0x80 \<le> ubyte b" "ubyte b \<le> 0xBF" using r by (simp_all split: if_splits)
  define u where "u = (ubyte a - 0xF0) * 262144 + (ubyte b - 0x80) * 4096 + (ubyte c - 0x80) * 64 + (ubyte d - 0x80)"
  have b: "0 \<le> ubyte b - 0x80" "ubyte b - 0x80 < 64" "0 \<le> ubyte c - 0x80" "ubyte c - 0x80 < 64"
    "0 \<le> ubyte d - 0x80" "ubyte d - 0x80 < 64"
    using r r' by simp_all
  note c4 = base64_digits4 [OF b, of "ubyte a - 0xF0", folded u_def]
  have lo: "ubyte a = 0xF0 \<Longrightarrow> 0x90 \<le> ubyte b" and hi: "ubyte a = 0xF4 \<Longrightarrow> ubyte b \<le> 0x8F"
    using r(3,4) by simp_all
  have u: "u = ubyte a * 262144 + ubyte b * 4096 + ubyte c * 64 + ubyte d
      - (0xF0 * 262144 + 0x80 * 4096 + 0x80 * 64 + 0x80)"
    unfolding u_def by simp
  have "0x10000 \<le> u" using lo r r' u by (cases "ubyte a = 0xF0") linarith+
  moreover have "u \<le> 0x10FFFF" using hi r r' u by (cases "ubyte a = 0xF4") linarith+
  ultimately have "\<not> u < 0x80" "\<not> u < 0x800" "\<not> u < 0x10000" by linarith+
  then have "ds = utf8_encode u" by (simp only: ds utf8_encode_def if_False c4) simp
  moreover have "scalar u" using \<open>0x10000 \<le> u\<close> \<open>u \<le> 0x10FFFF\<close> by (simp add: scalar_def)
  ultimately show ?thesis by blast
qed

lemma wf_char_eq_encodings: "wf_char ds \<longleftrightarrow> (\<exists>c. scalar c \<and> ds = utf8_encode c)"
  using utf8_encode_wf wf_char_decode by blast

subsection \<open>Text, character by character\<close>

lemma utf8_text_Nil [simp]: "utf8_text []"
  unfolding utf8_text_def by (intro exI [of _ "[]"]) simp

lemma utf8_text_step:
  assumes "s \<noteq> []"
  shows "utf8_text s \<longleftrightarrow> (let n = utf8_charlen (hd s) in
     n \<le> length s \<and> wf_char (take n s) \<and> utf8_text (drop n s))" (is "_ \<longleftrightarrow> ?R")
proof
  assume "utf8_text s"
  then obtain cs where cs: "list_all scalar cs" "s = concat (map utf8_encode cs)"
    by (auto simp: utf8_text_def)
  with assms obtain c ds where "cs = c # ds" by (cases cs) auto
  with cs have s: "s = utf8_encode c @ concat (map utf8_encode ds)" "scalar c" "list_all scalar ds"
    by simp_all
  have w: "wf_char (utf8_encode c)" using s(2) by (rule utf8_encode_wf)
  from wf_char_charlen [OF w] have "utf8_charlen (hd s) = length (utf8_encode c)"
    using s(1) by simp
  moreover have "utf8_text (concat (map utf8_encode ds))" using s(3) by (auto simp: utf8_text_def)
  ultimately show ?R using s w by (simp add: Let_def)
next
  assume R: ?R
  define n where "n = utf8_charlen (hd s)"
  have "wf_char (take n s)" "utf8_text (drop n s)" using R by (simp_all add: n_def Let_def)
  then obtain c cs where "scalar c" "take n s = utf8_encode c" "list_all scalar cs"
    "drop n s = concat (map utf8_encode cs)"
    by (auto simp: wf_char_eq_encodings utf8_text_def)
  then have "list_all scalar (c # cs) \<and> s = concat (map utf8_encode (c # cs))"
    using append_take_drop_id [of n s] by simp
  then show "utf8_text s" unfolding utf8_text_def by blast
qed

text \<open>Validation of one character: inside the string, or cut off by a terminating NUL.\<close>

lemma char_validate_fits_len:
  assumes "p < length buf" "p + utf8_charlen (buf ! p) \<le> length buf" "utf8_charlen (buf ! p) \<le> len"
  shows "UTF8_char_validate len buf p =
    Some (if wf_char (take (utf8_charlen (buf ! p)) (drop p buf)) then Some (p + utf8_charlen (buf ! p)) else None)"
proof -
  let ?n = "utf8_charlen (buf ! p)"
  have "check_rows buf p ?n valid_ranges =
      Some (\<exists>row\<in>set valid_ranges. fst row = ?n \<and> list_all2 in_range (take ?n (drop p buf)) (snd row))"
    using assms valid_ranges_shape(1) by (intro check_rows_fits) auto
  also have "(\<exists>row\<in>set valid_ranges. fst row = ?n \<and> list_all2 in_range (take ?n (drop p buf)) (snd row)) =
      wf_char (take ?n (drop p buf))"
  proof -
    have "length (take ?n (drop p buf)) = ?n" using assms by simp
    then show ?thesis by (simp only: wf_char_def)
  qed
  finally show ?thesis
    using assms by (simp add: UTF8_char_validate_def rd_def Let_def)
qed

lemma char_validate_fits:
  assumes "p < length s" "p + utf8_charlen (s ! p) \<le> length s"
  shows "UTF8_char_validate (length s) (s @ tail) p =
    Some (if wf_char (take (utf8_charlen (s ! p)) (drop p s)) then Some (p + utf8_charlen (s ! p)) else None)"
  using assms char_validate_fits_len [of p "s @ tail" "length s"] by (simp add: nth_append)

lemma char_validate_truncated:
  assumes "p < length s" "length s < p + utf8_charlen (s ! p)"
  shows "UTF8_char_validate (length s) (s @ 0 # tail) p = Some None"
proof -
  let ?n = "utf8_charlen (s ! p)" and ?k = "length s - p"
  have "check_bytes (s @ 0 # tail) p (snd row) = Some False"
    if row: "row \<in> set valid_ranges" "fst row = ?n" for row
  proof (rule check_bytes_mismatch)
    show k: "?k < length (snd row)" using valid_ranges_shape(1) [OF row(1)] row(2) assms by simp
    have "(s @ 0 # tail) ! (p + ?k) = 0" using assms(1) by (simp add: nth_append)
    then show "\<not> in_range ((s @ 0 # tail) ! (p + ?k)) (snd row ! ?k)"
      using valid_ranges_shape(2) [OF row(1) _ k] assms(1) by simp
  qed (use assms in simp)
  then have "check_rows (s @ 0 # tail) p ?n valid_ranges = Some False"
    by (intro check_rows_mismatch) blast
  with assms show ?thesis by (simp add: UTF8_char_validate_def rd_def nth_append Let_def)
qed

lemma utf8_charlen_pos: "0 < utf8_charlen b"
  by (simp add: utf8_charlen_def)

subsection \<open>The whole string\<close>

text \<open>
  With a NUL after the string the loop always returns, without reading past the NUL, and decides
  whether the rest of the string is UTF-8 text.
\<close>

lemma validate_loop_terminated:
  "p \<le> length s \<Longrightarrow> \<exists>r. validate_loop (length s) (s @ 0 # tail) (Some p) = Some r \<and>
     (r \<noteq> None \<longleftrightarrow> utf8_text (drop p s))"
proof (induction "length s - p" arbitrary: p rule: less_induct)
  case less
  show ?case
  proof (cases "p = length s")
    case True
    then show ?thesis by (subst validate_loop.simps) simp
  next
    case False
    with less.prems have lt: "p < length s" by simp
    let ?n = "utf8_charlen (s ! p)"
    have hd: "hd (drop p s) = s ! p" using lt by (rule hd_drop_conv_nth)
    have step: "utf8_text (drop p s) \<longleftrightarrow> p + ?n \<le> length s \<and>
        wf_char (take ?n (drop p s)) \<and> utf8_text (drop (p + ?n) s)"
      using lt utf8_text_step [of "drop p s"] hd by (auto simp: Let_def add.commute)
    have unf: "validate_loop (length s) (s @ 0 # tail) (Some p) =
        Option.bind (UTF8_char_validate (length s) (s @ 0 # tail) p)
          (\<lambda>q. validate_loop (length s) (s @ 0 # tail) q)"
      using lt by (subst validate_loop.simps) simp
    have stop: "validate_loop (length s) (s @ 0 # tail) None = Some None"
      by (subst validate_loop.simps) simp
    show ?thesis
    proof (cases "p + ?n \<le> length s \<and> wf_char (take ?n (drop p s))")
      case True
      then have "p + ?n \<le> length s" by simp
      have "length s - (p + ?n) < length s - p" using lt utf8_charlen_pos [of "s ! p"] by linarith
      from less.hyps [OF this \<open>p + ?n \<le> length s\<close>]
      obtain r where "validate_loop (length s) (s @ 0 # tail) (Some (p + ?n)) = Some r"
        "(r \<noteq> None) = utf8_text (drop (p + ?n) s)" by blast
      with True show ?thesis unfolding unf step using lt by (simp add: char_validate_fits)
    next
      case False
      then have "UTF8_char_validate (length s) (s @ 0 # tail) p = Some None"
        using lt char_validate_fits [of p s "0 # tail"] char_validate_truncated [of p s tail]
        by (cases "p + ?n \<le> length s") auto
      with False stop show ?thesis unfolding unf step by auto
    qed
  qed
qed

text \<open>
  Text at the front of any buffer is passed over, whatever length the calls are given.
\<close>

lemma validate_loop_text:
  "p \<le> length s \<Longrightarrow> utf8_text (drop p s) \<Longrightarrow> length s \<le> len \<Longrightarrow>
     validate_loop len (s @ tail) (Some p) = validate_loop len (s @ tail) (Some (length s))"
proof (induction "length s - p" arbitrary: p rule: less_induct)
  case less
  show ?case
  proof (cases "p = length s")
    case False
    with less.prems have lt: "p < length s" by simp
    let ?n = "utf8_charlen (s ! p)"
    have hd: "hd (drop p s) = s ! p" using lt by (rule hd_drop_conv_nth)
    have step: "p + ?n \<le> length s" "wf_char (take ?n (drop p s))" "utf8_text (drop (p + ?n) s)"
      using lt less.prems(2) utf8_text_step [of "drop p s"] hd by (auto simp: Let_def add.commute)
    have "length s - (p + ?n) < length s - p" using lt utf8_charlen_pos [of "s ! p"] by linarith
    from less.hyps [OF this step(1,3) less.prems(3)] step lt less.prems(3) show ?thesis
      using char_validate_fits_len [of p "s @ tail" len]
      by (subst validate_loop.simps) (simp add: nth_append)
  qed simp
qed

lemma utf8_text_append: "utf8_text s \<Longrightarrow> utf8_text (s @ d) \<longleftrightarrow> utf8_text d"
proof (induction s rule: length_induct)
  case (1 s)
  show ?case
  proof (cases "s = []")
    case False
    let ?n = "utf8_charlen (hd s)"
    have s: "?n \<le> length s" "wf_char (take ?n s)" "utf8_text (drop ?n s)"
      using 1(2) utf8_text_step [OF False] by (simp_all add: Let_def)
    have "length (drop ?n s) < length s" using False utf8_charlen_pos [of "hd s"] by simp
    with 1(1) s(3) have "utf8_text (drop ?n s @ d) \<longleftrightarrow> utf8_text d" by blast
    then show ?thesis using False s utf8_text_step [of "s @ d"] by (simp add: Let_def)
  qed simp
qed

lemma truncated_char_no_text:
  assumes "scalar c" "0 < k" "k < length (utf8_encode c)"
  shows "\<not> utf8_text (take k (utf8_encode c))"
proof -
  have "utf8_charlen (hd (utf8_encode c)) = length (utf8_encode c)"
    using wf_char_charlen [OF utf8_encode_wf [OF assms(1)]] by simp
  with assms(2,3) show ?thesis
    by (subst utf8_text_step) (auto simp: Let_def)
qed

subsection \<open>Properties\<close>

lemma UTF8_validateString_right:
  assumes "0 \<notin> set s"
  shows "UTF8_validateString (s @ 0 # tail) = Some (if utf8_text s then 1 else 0)"
proof -
  have len: "strlen (s @ 0 # tail) = length s"
    using assms by (simp add: strlen_def c_str_def takeWhile_append)
  show ?thesis
  proof (cases "s = []")
    case False
    obtain r where r: "validate_loop (length s) (s @ 0 # tail) (Some 0) = Some r"
      "r \<noteq> None \<longleftrightarrow> utf8_text s"
      using validate_loop_terminated [of 0 s tail] by auto
    from r(1) False have "Option.bind (UTF8_char_validate (length s) (s @ 0 # tail) 0)
        (\<lambda>q. validate_loop (length s) (s @ 0 # tail) q) = Some r"
      by (subst (asm) validate_loop.simps) simp
    with False r(2) show ?thesis
      by (auto simp: UTF8_validateString_def len UTF8_validate_def bind_Some_conv)
  qed (insert len, simp add: UTF8_validateString_def UTF8_validate_def)
qed



text \<open>
  C3: \<^verbatim>\<open>UTF8_validate\<close> on a length-delimited buffer looks past its end.  Text followed by a
  character that is cut off by the length is accepted whenever the bytes behind the buffer happen
  to complete the character and the whole length is at least the character's.
\<close>

theorem UTF8_validate_overrun:
  assumes "utf8_text s" "scalar c" "0 < k" "k < length (utf8_encode c)"
    "length (utf8_encode c) \<le> length s + k"
  shows "UTF8_validate (length s + k) (s @ utf8_encode c @ tail) = Some 1 \<and>
    \<not> utf8_text (take (length s + k) (s @ utf8_encode c @ tail))"
proof
  let ?e = "utf8_encode c" and ?len = "length s + k" and ?b = "s @ utf8_encode c @ tail"
  have e: "?e \<noteq> []" "utf8_charlen (hd ?e) = length ?e"
    using wf_char_charlen [OF utf8_encode_wf [OF assms(2)]] by simp_all
  have at: "?b ! length s = hd ?e" using e(1) by (simp add: nth_append hd_conv_nth)
  have "UTF8_char_validate ?len ?b (length s) = Some (Some (length s + length ?e))"
    using char_validate_fits_len [of "length s" ?b ?len] at e utf8_encode_wf [OF assms(2)] assms(5)
    by simp
  moreover have "validate_loop ?len ?b (Some (length s + length ?e)) = Some (Some (length s + length ?e))"
    using assms(4) by (subst validate_loop.simps) simp
  ultimately have "validate_loop ?len ?b (Some (length s)) = Some (Some (length s + length ?e))"
    using assms(3) by (subst validate_loop.simps) simp
  with validate_loop_text [of 0 s ?len "?e @ tail"] assms(1)
  have "validate_loop ?len ?b (Some 0) = Some (Some (length s + length ?e))" by simp
  then have "Option.bind (UTF8_char_validate ?len ?b 0) (\<lambda>q. validate_loop ?len ?b q) =
      Some (Some (length s + length ?e))"
    using assms(3) by (subst (asm) validate_loop.simps) simp
  then show "UTF8_validate ?len ?b = Some 1"
    using assms(3) by (auto simp: UTF8_validate_def bind_Some_conv)
  show "\<not> utf8_text (take ?len ?b)"
    using utf8_text_append [OF assms(1)] truncated_char_no_text [OF assms(2-4)] assms(4) by simp
qed

theorem UTF8_validate_overrun_witness:
  "UTF8_validate 2 [0x41, 0xC3, 0xA9] = Some 1 \<and> \<not> utf8_text [0x41, 0xC3]"
proof -
  have "utf8_text [0x41]"
  proof -
    have "list_all scalar [0x41]" "concat (map utf8_encode [0x41]) = [0x41]" by code_simp+
    then show ?thesis unfolding utf8_text_def by metis
  qed
  moreover have "scalar 0xE9" "utf8_encode 0xE9 = [0xC3, 0xA9]" by code_simp+
  ultimately show ?thesis using UTF8_validate_overrun [of "[0x41]" "0xE9" 1 "[]"]
    by (simp add: numeral_2_eq_2)
qed

end
