(* ===== verification/Packet.thy ===== *)
theory Packet
  imports CList
begin

unbundle bit_operations_syntax

text \<open>
  The wire format of \<^verbatim>\<open>MQTTPacket.c\<close> and the parsers of \<^verbatim>\<open>MQTTPacket.c\<close> and
  \<^verbatim>\<open>MQTTPacketOut.c\<close>: the bit fields of the fixed header, the remaining-length encoding, the
  read and write primitives, and one parser per packet type with the dispatch table
  \<^verbatim>\<open>new_packets\<close>.  A parser gets the whole buffer, so that a read beyond the packet but inside
  the buffer (stale bytes) and a read outside the buffer (\<open>None\<close>) are told apart.
\<close>

subsection \<open>Packet types and the header byte\<close>

definition CONNECT :: int where "CONNECT = 1"
definition CONNACK :: int where "CONNACK = 2"
definition PUBLISH :: int where "PUBLISH = 3"
definition PUBACK :: int where "PUBACK = 4"
definition PUBREC :: int where "PUBREC = 5"
definition PUBREL :: int where "PUBREL = 6"
definition PUBCOMP :: int where "PUBCOMP = 7"
definition SUBSCRIBE :: int where "SUBSCRIBE = 8"
definition SUBACK :: int where "SUBACK = 9"
definition UNSUBSCRIBE :: int where "UNSUBSCRIBE = 10"
definition UNSUBACK :: int where "UNSUBACK = 11"
definition PINGREQ :: int where "PINGREQ = 12"
definition PINGRESP :: int where "PINGRESP = 13"
definition DISCONNECT :: int where "DISCONNECT = 14"

lemmas msgTypes_defs [code_defs] = CONNECT_def CONNACK_def PUBLISH_def PUBACK_def PUBREC_def
  PUBREL_def PUBCOMP_def SUBSCRIBE_def SUBACK_def UNSUBSCRIBE_def UNSUBACK_def PINGREQ_def
  PINGRESP_def DISCONNECT_def

text \<open>The union \<^verbatim>\<open>Header\<close>: retain is bit 0, qos bits 1-2, dup bit 3, type bits 4-7.\<close>

definition header_retain :: "byte \<Rightarrow> int" where "header_retain h = ubyte h mod 2"
definition header_qos :: "byte \<Rightarrow> int" where "header_qos h = ubyte h div 2 mod 4"
definition header_dup :: "byte \<Rightarrow> int" where "header_dup h = ubyte h div 8 mod 2"
definition header_type :: "byte \<Rightarrow> int" where "header_type h = ubyte h div 16"

text \<open>Assigning the bit fields truncates each value to its width.\<close>

definition mk_header :: "int \<Rightarrow> int \<Rightarrow> int \<Rightarrow> int \<Rightarrow> byte" where
  "mk_header type dup qos retain =
     byte_of (16 * (type mod 16) + 8 * (dup mod 2) + 2 * (qos mod 4) + retain mod 2)"

lemma mk_header_fields [simp]:
  "header_type (mk_header t d q r) = t mod 16"
  "header_dup (mk_header t d q r) = d mod 2"
  "header_qos (mk_header t d q r) = q mod 4"
  "header_retain (mk_header t d q r) = r mod 2"
proof -
  define t' d' q' r' where "t' = t mod 16" and "d' = d mod 2" and "q' = q mod 4" and "r' = r mod 2"
  then have b: "0 \<le> t'" "t' < 16" "0 \<le> d'" "d' < 2" "0 \<le> q'" "q' < 4" "0 \<le> r'" "r' < 2" by simp_all
  define v where "v = 16 * t' + 8 * d' + 2 * q' + r'"
  have "ubyte (mk_header t d q r) = v mod 256"
    by (simp add: mk_header_def v_def t'_def d'_def q'_def r'_def)
  then have u: "ubyte (mk_header t d q r) = v" using b v_def by simp
  have "v = t' * 16 + (8 * d' + 2 * q' + r')" by (simp add: v_def)
  then have "v div 16 = t'" using b by (simp only: divmod_mult_add)
  then show "header_type (mk_header t d q r) = t mod 16" by (simp add: header_type_def u t'_def)
  have "v = (2 * t' + d') * 8 + (2 * q' + r')" by (simp add: v_def)
  then have "v div 8 = t' * 2 + d'" using b by (simp only: divmod_mult_add)
  then have "v div 8 mod 2 = d'" using b by (simp only: divmod_mult_add)
  then show "header_dup (mk_header t d q r) = d mod 2" by (simp add: header_dup_def u d'_def)
  have "v = (8 * t' + 4 * d' + q') * 2 + r'" by (simp add: v_def)
  then have "v div 2 = 8 * t' + 4 * d' + q'" and d2: "v mod 2 = r'"
    using b by (simp_all only: divmod_mult_add)
  then have d1: "v div 2 = (2 * t' + d') * 4 + q'" by simp
  from d1 have "v div 2 mod 4 = q'" using b by (simp only: divmod_mult_add)
  then show "header_qos (mk_header t d q r) = q mod 4" by (simp add: header_qos_def u q'_def)
  from d2 show "header_retain (mk_header t d q r) = r mod 2" by (simp add: header_retain_def u r'_def)
qed

lemma header_field_bounds:
  "0 \<le> header_type h" "header_type h < 16" "0 \<le> header_qos h" "header_qos h < 4"
  "0 \<le> header_dup h" "header_dup h < 2" "0 \<le> header_retain h" "header_retain h < 2"
  using ubyte_bounds [of h]
  by (auto simp: header_type_def header_qos_def header_dup_def header_retain_def simp del: ubyte_bounds)

definition packet_names :: "string list" where
  "packet_names = [''RESERVED'', ''CONNECT'', ''CONNACK'', ''PUBLISH'', ''PUBACK'', ''PUBREC'',
     ''PUBREL'', ''PUBCOMP'', ''SUBSCRIBE'', ''SUBACK'', ''UNSUBSCRIBE'', ''UNSUBACK'',
     ''PINGREQ'', ''PINGRESP'', ''DISCONNECT'']"

definition MQTTPacket_name :: "int \<Rightarrow> string" where
  "MQTTPacket_name ptype =
     (if ptype \<ge> 0 \<and> ptype \<le> DISCONNECT then packet_names ! nat ptype else ''UNKNOWN'')"

subsection \<open>The remaining length\<close>

text \<open>C division and remainder truncate towards zero.\<close>

definition c_div :: "int \<Rightarrow> int \<Rightarrow> int" where
  "c_div a b = sgn a * sgn b * (\<bar>a\<bar> div \<bar>b\<bar>)"

definition c_mod :: "int \<Rightarrow> int \<Rightarrow> int" where
  "c_mod a b = a - b * c_div a b"

lemma c_div_nonneg [simp]: "0 \<le> a \<Longrightarrow> 0 < b \<Longrightarrow> c_div a b = a div b"
  by (cases "a = 0") (simp_all add: c_div_def)

lemma c_mod_nonneg [simp]: "0 \<le> a \<Longrightarrow> 0 < b \<Longrightarrow> c_mod a b = a mod b"
  by (simp add: c_mod_def minus_mult_div_eq_mod)

lemma c_div_neg: "a \<le> 0 \<Longrightarrow> 0 < b \<Longrightarrow> c_div a b \<le> 0"
  by (cases "a = 0") (auto simp: c_div_def sgn_if pos_imp_zdiv_nonneg_iff)

function MQTTPacket_encode :: "int \<Rightarrow> byte list" where
  "MQTTPacket_encode len =
     (let d = byte_of (c_mod len 128); len1 = c_div len 128
      in if len1 > 0 then (d OR 0x80) # MQTTPacket_encode len1 else [d])"
  by pat_completeness auto
termination
proof (relation "measure nat")
  fix len d len1 :: int and d' :: byte
  assume "len1 = c_div len 128" "0 < len1"
  moreover from this have "0 < len" using c_div_neg [of len 128] by linarith
  ultimately show "(len1, len) \<in> measure nat" by auto
qed simp

declare MQTTPacket_encode.simps [simp del]

text \<open>
  One round of the decoding loop of \<^verbatim>\<open>MQTTPacket_decode\<close>: the byte's seven value bits at the
  current multiplier, and whether another byte follows.
\<close>

definition length_digit :: "byte \<Rightarrow> int" where "length_digit c = ubyte (c AND 127)"
definition length_more :: "byte \<Rightarrow> bool" where "length_more c \<longleftrightarrow> c AND 128 \<noteq> 0"

lemma length_byte_facts:
  "length_digit c = ubyte c mod 128" "length_more c \<longleftrightarrow> 128 \<le> ubyte c"
  "ubyte (c OR 0x80) = (if ubyte c < 128 then ubyte c + 128 else ubyte c)"
proof -
  have "\<forall>c. length_digit c = ubyte c mod 128 \<and> length_more c = (128 \<le> ubyte c) \<and>
      ubyte (c OR 0x80) = (if ubyte c < 128 then ubyte c + 128 else ubyte c)"
    unfolding all_byte by code_simp
  then show "length_digit c = ubyte c mod 128" "length_more c \<longleftrightarrow> 128 \<le> ubyte c"
    "ubyte (c OR 0x80) = (if ubyte c < 128 then ubyte c + 128 else ubyte c)" by blast+
qed

subsection \<open>Read and write primitives\<close>

text \<open>Readers take the buffer and a position and return the value and the new position.\<close>

definition readInt :: "byte list \<Rightarrow> nat \<Rightarrow> (int \<times> nat) option" where
  "readInt buf pos = do {
     hi \<leftarrow> rd buf pos;
     lo \<leftarrow> rd buf (pos + 1);
     Some (256 * ubyte hi + ubyte lo, pos + 2)
   }"

definition readChar :: "byte list \<Rightarrow> nat \<Rightarrow> (byte \<times> nat) option" where
  "readChar buf pos = do { c \<leftarrow> rd buf pos; Some (c, pos + 1) }"

text \<open>\<^verbatim>\<open>memcpy\<close> of \<open>n\<close> bytes from a position; reading outside the buffer is undefined.\<close>

definition rd_bytes :: "byte list \<Rightarrow> nat \<Rightarrow> nat \<Rightarrow> byte list option" where
  "rd_bytes buf pos n = (if pos + n \<le> length buf then Some (take n (drop pos buf)) else None)"

text \<open>
  The result: the string (\<open>None\<close> is NULL), the new position, and \<^verbatim>\<open>*len\<close>, which keeps its old
  value when not even the length could be read.
\<close>

definition readUTFlen ::
  "byte list \<Rightarrow> nat \<Rightarrow> nat \<Rightarrow> int \<Rightarrow> (byte list option \<times> nat \<times> int) option" where
  "readUTFlen buf pos enddata len =
     (if int enddata - int pos > 1 then do {
        (len1, pos1) \<leftarrow> readInt buf pos;
        if pos1 + nat len1 \<le> enddata then do {
          string \<leftarrow> rd_bytes buf pos1 (nat len1);
          Some (Some string, pos1 + nat len1, len1)
        } else Some (None, pos1, len1)
      } else Some (None, pos, len))"

definition readUTF :: "byte list \<Rightarrow> nat \<Rightarrow> nat \<Rightarrow> (byte list option \<times> nat) option" where
  "readUTF buf pos enddata = do {
     (s, pos1, _) \<leftarrow> readUTFlen buf pos enddata 0;
     Some (s, pos1)
   }"

text \<open>Writers return the bytes they store at the output pointer.\<close>

definition writeChar :: "byte \<Rightarrow> byte list" where
  "writeChar c = [c]"

definition writeInt :: "int \<Rightarrow> byte list" where
  "writeInt n = [byte_of (c_div n 256), byte_of (c_mod n 256)]"

definition writeUTF :: "byte list \<Rightarrow> byte list" where
  "writeUTF s = writeInt (int (strlen s)) @ c_str s"

subsection \<open>Packet structures and their parsers\<close>

text \<open>
  \<^verbatim>\<open>payload\<close> is the memory from the payload pointer to the end of the network buffer; the packet
  says how many of its bytes are payload, and that count is computed in \<^verbatim>\<open>int\<close>.  \<open>topic_heap\<close>
  records whether the topic was allocated by the library (the test \<^verbatim>\<open>Heap_findItem\<close> makes).
\<close>

record Publish =
  p_header :: byte
  topic :: "byte list option"
  topiclen :: int
  msgId :: int
  payload :: "byte list"
  payloadlen :: int
  topic_heap :: bool

record Ack =
  a_header :: byte
  a_msgId :: int

record Connack =
  c_header :: byte
  c_flags :: byte
  c_rc :: int

record Suback =
  s_header :: byte
  s_msgId :: int
  qoss :: "int clist"

datatype packet =
    PkConnack Connack
  | PkPublish Publish
  | PkAck Ack
  | PkSuback Suback
  | PkHeader byte

definition sessionPresent :: "Connack \<Rightarrow> int" where
  "sessionPresent p = ubyte (c_flags p) mod 2"

text \<open>A parser: header byte, buffer, length of the packet in it; NULL is \<open>Some None\<close>.\<close>

type_synonym parser = "byte \<Rightarrow> byte list \<Rightarrow> nat \<Rightarrow> packet option option"

definition MQTTPacket_header_only :: parser where
  "MQTTPacket_header_only h data datalen = Some (Some (PkHeader h))"

definition MQTTPacket_connack :: parser where
  "MQTTPacket_connack h data datalen = do {
     (flags, pos) \<leftarrow> readChar data 0;
     (rc, pos) \<leftarrow> readChar data pos;
     Some (Some (PkConnack \<lparr>c_header = h, c_flags = flags, c_rc = schar rc\<rparr>))
   }"

definition MQTTPacket_publish :: parser where
  "MQTTPacket_publish h data datalen = do {
     (t, pos, tlen) \<leftarrow> readUTFlen data 0 datalen 0;
     case t of
       None \<Rightarrow> Some None
     | Some s \<Rightarrow> do {
         (mid, pos) \<leftarrow> (if header_qos h > 0 then readInt data pos else Some (0, pos));
         Some (Some (PkPublish \<lparr>p_header = h, topic = Some s, topiclen = tlen, msgId = mid,
           payload = drop pos data, payloadlen = int datalen - int pos, topic_heap = True\<rparr>))
       }
   }"

definition MQTTPacket_ack :: parser where
  "MQTTPacket_ack h data datalen = do {
     (mid, pos) \<leftarrow> readInt data 0;
     Some (Some (PkAck \<lparr>a_header = h, a_msgId = mid\<rparr>))
   }"

text \<open>The loop of \<^verbatim>\<open>MQTTPacket_suback\<close> over the return codes; \<open>n\<close> counts the bytes left.\<close>

fun suback_loop :: "nat \<Rightarrow> byte list \<Rightarrow> nat \<Rightarrow> int clist \<Rightarrow> int clist option" where
  "suback_loop 0 data pos qs = Some qs"
| "suback_loop (Suc n) data pos qs = do {
     (c, pos1) \<leftarrow> readChar data pos;
     suback_loop n data pos1 (cl_add qs (ubyte c) 4)
   }"

definition MQTTPacket_suback :: parser where
  "MQTTPacket_suback h data datalen = do {
     (mid, pos) \<leftarrow> readInt data 0;
     qs \<leftarrow> suback_loop (datalen - pos) data pos cl_empty;
     Some (Some (PkSuback \<lparr>s_header = h, s_msgId = mid, qoss = qs\<rparr>))
   }"

definition new_packets :: "parser option list" where
  "new_packets =
    [None, None, Some MQTTPacket_connack, Some MQTTPacket_publish, Some MQTTPacket_ack,
     Some MQTTPacket_ack, Some MQTTPacket_ack, Some MQTTPacket_ack, None, Some MQTTPacket_suback,
     None, Some MQTTPacket_ack, Some MQTTPacket_header_only, Some MQTTPacket_header_only,
     Some MQTTPacket_header_only]"

text \<open>The lookup \<^verbatim>\<open>ptype < CONNECT || ptype > DISCONNECT || new_packets[ptype] == NULL\<close>.\<close>

definition packet_parser :: "int \<Rightarrow> parser option" where
  "packet_parser ptype =
     (if ptype < CONNECT \<or> ptype > DISCONNECT then None else new_packets ! nat ptype)"

subsection \<open>Facts about the encodings\<close>

lemma byte_of_or_128:
  assumes "0 \<le> d" "d < 128"
  shows "length_digit (byte_of d OR 0x80) = d" "length_more (byte_of d OR 0x80)"
    "length_digit (byte_of d) = d" "\<not> length_more (byte_of d)"
  using assms by (auto simp: length_byte_facts)

lemma encode_last: "0 \<le> n \<Longrightarrow> n < 128 \<Longrightarrow> MQTTPacket_encode n = [byte_of n]"
  by (subst MQTTPacket_encode.simps) (simp add: Let_def)

lemma encode_more:
  "128 \<le> n \<Longrightarrow> MQTTPacket_encode n = (byte_of (n mod 128) OR 0x80) # MQTTPacket_encode (n div 128)"
  by (subst MQTTPacket_encode.simps) (simp add: Let_def pos_imp_zdiv_pos_iff)

lemma encode_length:
  "0 \<le> n \<Longrightarrow> n < 128 ^ k \<Longrightarrow> 0 < k \<Longrightarrow> 0 < length (MQTTPacket_encode n) \<and> length (MQTTPacket_encode n) \<le> k"
proof (induction k arbitrary: n)
  case (Suc k)
  show ?case
  proof (cases "n < 128")
    case False
    then have "k \<noteq> 0" using Suc.prems(2) by (cases k) auto
    moreover have "n div 128 < 128 ^ k" using Suc.prems(2) by (simp add: div_less_iff_less_mult mult.commute)
    ultimately show ?thesis using False Suc.IH [of "n div 128"] Suc.prems by (simp add: encode_more)
  qed (use Suc in \<open>simp add: encode_last\<close>)
qed simp

lemma length_writers [simp]:
  "length (writeInt n) = 2" "length (writeChar b) = 1" "length (writeUTF s) = strlen s + 2"
  by (simp_all add: writeInt_def writeChar_def writeUTF_def)

lemma readInt_writeInt:
  assumes "0 \<le> n" "n < 65536"
  shows "readInt (xs @ writeInt n @ ys) (length xs) = Some (n, length xs + 2)"
proof -
  have "rd (xs @ writeInt n @ ys) (length xs) = Some (byte_of (n div 256))"
    "rd (xs @ writeInt n @ ys) (length xs + 1) = Some (byte_of (n mod 256))"
    using assms by (simp_all add: rd_def nth_append writeInt_def)
  moreover have "n div 256 mod 256 = n div 256"
    using assms by (simp add: pos_imp_zdiv_nonneg_iff div_less_iff_less_mult)
  moreover have "256 * (n div 256) + n mod 256 = n" by (rule mult_div_mod_eq)
  ultimately show ?thesis by (simp add: readInt_def)
qed

lemma rd_bytes_middle: "length xs = p \<Longrightarrow> length s = n \<Longrightarrow> rd_bytes (xs @ s @ ys) p n = Some s"
  by (simp add: rd_bytes_def)

lemma readUTFlen_writeUTF:
  assumes "strlen s < 65536" "length xs + strlen s + 2 \<le> e"
  shows "readUTFlen (xs @ writeUTF s @ ys) (length xs) e old =
    Some (Some (c_str s), length xs + strlen s + 2, int (strlen s))"
proof -
  have "readInt (xs @ writeInt (int (strlen s)) @ (c_str s @ ys)) (length xs) =
      Some (int (strlen s), length xs + 2)"
    using assms(1) by (intro readInt_writeInt) simp_all
  moreover have "rd_bytes ((xs @ writeInt (int (strlen s))) @ c_str s @ ys) (length xs + 2) (strlen s) =
      Some (c_str s)"
    by (rule rd_bytes_middle) simp_all
  ultimately show ?thesis using assms by (simp add: readUTFlen_def writeUTF_def)
qed

subsection \<open>Properties\<close>

text \<open>
  C9: reading a length-delimited string never looks past \<^verbatim>\<open>enddata\<close>.  For any bytes at all the
  call returns, what it returns depends only on the bytes before \<^verbatim>\<open>enddata\<close>, and a string it
  returns lies completely before \<^verbatim>\<open>enddata\<close> and has the length that was read.
\<close>

theorem readUTFlen_safe:
  assumes "e \<le> length buf" "pos \<le> e"
  shows "\<exists>r p n. readUTFlen buf pos e old = Some (r, p, n) \<and>
    readUTFlen (take e buf @ other) pos e old = Some (r, p, n) \<and>
    p \<le> e \<and> (\<forall>s. r = Some s \<longrightarrow> n = int (length s) \<and> p = pos + 2 + length s \<and>
      s = take (length s) (drop (pos + 2) buf))"
proof (cases "int e - int pos > 1")
  case False
  with assms show ?thesis by (simp add: readUTFlen_def)
next
  case True
  define n where "n = 256 * ubyte (buf ! pos) + ubyte (buf ! (pos + 1))"
  have n0: "0 \<le> n" by (simp add: n_def)
  have r: "readInt buf pos = Some (n, pos + 2)" "readInt (take e buf @ other) pos = Some (n, pos + 2)"
    using True assms by (simp_all add: readInt_def rd_def n_def nth_append)
  show ?thesis
  proof (cases "pos + 2 + nat n \<le> e")
    case False
    with True r assms show ?thesis by (simp add: readUTFlen_def)
  next
    case fits: True
    define s where "s = take (nat n) (drop (pos + 2) buf)"
    have s: "length s = nat n" "s = take (length s) (drop (pos + 2) buf)"
      using fits assms by (simp_all add: s_def)
    have "rd_bytes buf (pos + 2) (nat n) = Some s" "rd_bytes (take e buf @ other) (pos + 2) (nat n) = Some s"
      using fits assms by (simp_all add: rd_bytes_def drop_take min_def s_def)
    with True fits r n0 assms s show ?thesis by (simp add: readUTFlen_def)
  qed
qed

theorem readUTFlen_safe_witness:
  "\<exists>r p n. readUTFlen [0, 5, 0x41, 0x42] 0 4 0 = Some (r, p, n) \<and> p \<le> 4"
  using readUTFlen_safe [of 4 "[0, 5, 0x41, 0x42]" 0 0 "[]"] by auto

end
