(* ===== verification/SocketBuffer.thy ===== *)
theory SocketBuffer
  imports CList
begin

text \<open>
  \<^verbatim>\<open>SocketBuffer.c\<close>: the input queues that keep a packet whose read was interrupted, and the
  queue of writes the socket did not take completely.  The statics of the file are the record
  \<open>sbuf\<close>, which the later theories extend with the state of the other modules.

  A heap block is its initialised prefix together with its size: reading past the prefix or
  writing past the size is undefined (\<open>None\<close>).  \<open>junk_int\<close> is what a fresh block holds in a field
  the code does not initialise.
\<close>

subsection \<open>State\<close>

record socket_queue =
  q_socket :: int
  q_index :: int
  q_headerlen :: int
  q_fixed_header :: "byte list"
  q_buflen :: int
  q_datalen :: int
  q_buf :: "byte list"
  q_alloc :: nat

text \<open>An \<^verbatim>\<open>iobuf\<close> is the memory its base points to and the length.\<close>

type_synonym iobuf = "byte list \<times> nat"

record pending_writes =
  pw_socket :: int
  pw_total :: int
  pw_count :: int
  pw_bytes :: int
  pw_iovecs :: "iobuf list"
  pw_frees :: "bool list"

record sbuf =
  def_queue :: socket_queue
  queues :: "socket_queue clist"
  writes :: "pending_writes clist"
  junk_int :: int
  junk_header :: "byte list"

subsection \<open>The input queues\<close>

definition socketcompare :: "int \<Rightarrow> socket_queue \<Rightarrow> bool" where
  "socketcompare socket a \<longleftrightarrow> q_socket a = socket"

text \<open>The second assignment to \<^verbatim>\<open>buflen\<close> overwrites the size; \<^verbatim>\<open>headerlen\<close> is not initialised.\<close>

definition SocketBuffer_newDefQ :: "'m sbuf_scheme \<Rightarrow> 'm sbuf_scheme" where
  "SocketBuffer_newDefQ w = w\<lparr>def_queue := \<lparr>q_socket = 0, q_index = 0, q_headerlen = junk_int w,
     q_fixed_header = junk_header w, q_buflen = 0, q_datalen = 0, q_buf = [], q_alloc = 1000\<rparr>\<rparr>"

definition SocketBuffer_initialize :: "'m sbuf_scheme \<Rightarrow> 'm sbuf_scheme" where
  "SocketBuffer_initialize w =
     (SocketBuffer_newDefQ w)\<lparr>queues := cl_empty, writes := cl_empty\<rparr>"

definition SocketBuffer_terminate :: "'m sbuf_scheme \<Rightarrow> 'm sbuf_scheme" where
  "SocketBuffer_terminate w = w\<lparr>writes := cl_empty, queues := cl_empty\<rparr>"

text \<open>\<^verbatim>\<open>queue->socket = queue->index = queue->headerlen = queue->datalen = 0\<close>.\<close>

definition clear_queue :: "socket_queue \<Rightarrow> socket_queue" where
  "clear_queue q = q\<lparr>q_socket := 0, q_index := 0, q_headerlen := 0, q_datalen := 0\<rparr>"

definition SocketBuffer_cleanup :: "int \<Rightarrow> 'm sbuf_scheme \<Rightarrow> 'm sbuf_scheme" where
  "SocketBuffer_cleanup socket w = (
     let (e, qs) = cl_find (socketcompare socket) (queues w);
         w1 = w\<lparr>queues := (case e of None \<Rightarrow> qs | Some a \<Rightarrow> snd (cl_remove_at a qs))\<rparr>
     in if q_socket (def_queue w1) = socket then w1\<lparr>def_queue := clear_queue (def_queue w1)\<rparr>
        else w1)"

text \<open>
  The queue a call works on: an element of \<^verbatim>\<open>queues\<close>, or \<^verbatim>\<open>def_queue\<close>.  Reading and updating it
  in place stand for the accesses through the pointer \<^verbatim>\<open>queue\<close>.
\<close>

definition the_queue :: "addr option \<Rightarrow> 'm sbuf_scheme \<Rightarrow> socket_queue" where
  "the_queue e w = (case e of None \<Rightarrow> def_queue w
     | Some a \<Rightarrow> (case map_of (items (queues w)) a of None \<Rightarrow> def_queue w | Some q \<Rightarrow> q))"

definition upd_queue ::
  "addr option \<Rightarrow> (socket_queue \<Rightarrow> socket_queue) \<Rightarrow> 'm sbuf_scheme \<Rightarrow> 'm sbuf_scheme" where
  "upd_queue e f w = (case e of None \<Rightarrow> w\<lparr>def_queue := f (def_queue w)\<rparr>
     | Some a \<Rightarrow> w\<lparr>queues := cl_update a f (queues w)\<rparr>)"

text \<open>
  Enlarging a buffer: \<^verbatim>\<open>malloc\<close> and \<^verbatim>\<open>memcpy\<close> of the data when there is some (undefined when more
  than was written is copied), else \<^verbatim>\<open>realloc\<close>, which keeps the common prefix.
\<close>

definition enlarge :: "int \<Rightarrow> socket_queue \<Rightarrow> socket_queue option" where
  "enlarge bytes q =
     (if bytes > q_buflen q then
        if q_datalen q > 0 then
          (if q_datalen q \<le> int (length (q_buf q)) \<and> q_datalen q \<le> bytes
           then Some (q\<lparr>q_buf := take (nat (q_datalen q)) (q_buf q), q_alloc := nat bytes,
                        q_buflen := bytes\<rparr>)
           else None)
        else Some (q\<lparr>q_buf := take (nat bytes) (q_buf q), q_alloc := nat bytes, q_buflen := bytes\<rparr>)
      else Some q)"

text \<open>Returns the queue whose \<^verbatim>\<open>buf\<close> is the result, and \<^verbatim>\<open>*actual_len\<close>.\<close>

definition SocketBuffer_getQueuedData ::
  "int \<Rightarrow> int \<Rightarrow> 'm sbuf_scheme \<Rightarrow> ((addr option \<times> int) \<times> 'm sbuf_scheme) option" where
  "SocketBuffer_getQueuedData socket bytes w = (
     let (e, qs) = cl_find (socketcompare socket) (queues w);
         w1 = w\<lparr>queues := qs\<rparr>;
         actual_len = (case e of None \<Rightarrow> 0 | Some a \<Rightarrow> q_datalen (the_queue e w1))
     in do {
       q \<leftarrow> enlarge bytes (the_queue e w1);
       Some ((e, actual_len), upd_queue e (\<lambda>_. q) w1)
     })"

text \<open>
  The result is the completion code and \<^verbatim>\<open>*c\<close>; \<^verbatim>\<open>TCPSOCKET_INTERRUPTED\<close> says there was no queued
  character.  An index outside \<^verbatim>\<open>fixed_header\<close> is undefined.
\<close>

definition SocketBuffer_getQueuedChar ::
  "int \<Rightarrow> byte \<Rightarrow> 'm sbuf_scheme \<Rightarrow> ((int \<times> byte) \<times> 'm sbuf_scheme) option" where
  "SocketBuffer_getQueuedChar socket c w = (
     let (e, qs) = cl_find (socketcompare socket) (queues w);
         w1 = w\<lparr>queues := qs\<rparr>
     in case e of
          None \<Rightarrow> Some ((TCPSOCKET_INTERRUPTED, c), w1)
        | Some a \<Rightarrow>
            let queue = the_queue e w1
            in if q_index queue < q_headerlen queue then
                 (if q_index queue < 0 then None
                  else do {
                    c' \<leftarrow> rd (q_fixed_header queue) (nat (q_index queue));
                    Some ((TCPSOCKET_COMPLETE, c'), upd_queue e (\<lambda>q. q\<lparr>q_index := q_index q + 1\<rparr>) w1)
                  })
               else if q_index queue > 4 then Some ((SOCKET_ERROR, c), w1)
               else Some ((TCPSOCKET_INTERRUPTED, c), w1))"

definition SocketBuffer_interrupted :: "int \<Rightarrow> int \<Rightarrow> 'm sbuf_scheme \<Rightarrow> 'm sbuf_scheme" where
  "SocketBuffer_interrupted socket actual_len w = (
     let (e, qs) = cl_find (socketcompare socket) (queues w);
         w1 = w\<lparr>queues := qs\<rparr>;
         done_q = (\<lambda>q. q\<lparr>q_index := 0, q_datalen := actual_len\<rparr>)
     in case e of
          Some a \<Rightarrow> upd_queue e done_q w1
        | None \<Rightarrow> SocketBuffer_newDefQ
            (w1\<lparr>queues := cl_add qs (done_q (def_queue w1)) (40 + q_buflen (def_queue w1))\<rparr>))"

definition SocketBuffer_complete :: "int \<Rightarrow> 'm sbuf_scheme \<Rightarrow> 'm sbuf_scheme" where
  "SocketBuffer_complete socket w = (
     let (e, qs) = cl_find (socketcompare socket) (queues w);
         w1 = w\<lparr>queues := qs\<rparr>;
         w2 = (case e of None \<Rightarrow> w1
               | Some a \<Rightarrow> w1\<lparr>def_queue := the_queue e w1, queues := snd (cl_remove_at a qs)\<rparr>)
     in w2\<lparr>def_queue := clear_queue (def_queue w2)\<rparr>)"

definition SocketBuffer_queueChar ::
  "int \<Rightarrow> byte \<Rightarrow> 'm sbuf_scheme \<Rightarrow> 'm sbuf_scheme option" where
  "SocketBuffer_queueChar socket c w = (
     let (e, qs) = cl_find (socketcompare socket) (queues w);
         w1 = w\<lparr>queues := qs\<rparr>;
         w2 = (if e = None \<and> q_socket (def_queue w1) = 0
               then w1\<lparr>def_queue := (def_queue w1)\<lparr>q_socket := socket, q_index := 0, q_datalen := 0\<rparr>\<rparr>
               else w1);
         error = (e = None \<and> q_socket (def_queue w1) \<noteq> 0 \<and> q_socket (def_queue w1) \<noteq> socket);
         curq = the_queue e w2
     in if error \<or> q_index curq > 4 then Some w2
        else if q_index curq < 0 then None
        else Some (upd_queue e (\<lambda>q. q\<lparr>q_fixed_header := (q_fixed_header q)[nat (q_index q) := c],
               q_index := q_index q + 1, q_headerlen := q_index q + 1\<rparr>) w2))"

subsection \<open>The queue of incomplete writes\<close>

text \<open>The arrays of \<^verbatim>\<open>pending_writes\<close> have five entries; more than five buffers overflow them.\<close>

definition SocketBuffer_pendingWrite ::
  "int \<Rightarrow> int \<Rightarrow> iobuf list \<Rightarrow> bool list \<Rightarrow> int \<Rightarrow> int \<Rightarrow> 'm sbuf_scheme \<Rightarrow> 'm sbuf_scheme option" where
  "SocketBuffer_pendingWrite socket count iovecs frees total_len bytes w =
     (if count \<le> 5 \<and> count \<le> int (length iovecs) \<and> count \<le> int (length frees) then
        Some (w\<lparr>writes := cl_add (writes w)
          \<lparr>pw_socket = socket, pw_total = total_len, pw_count = count, pw_bytes = bytes,
           pw_iovecs = take (nat count) iovecs, pw_frees = take (nat count) frees\<rparr> (8 + total_len)\<rparr>)
      else None)"

definition pending_socketcompare :: "int \<Rightarrow> pending_writes \<Rightarrow> bool" where
  "pending_socketcompare socket a \<longleftrightarrow> pw_socket a = socket"

text \<open>The result is the element whose content the returned pointer is.\<close>

definition SocketBuffer_getWrite :: "int \<Rightarrow> 'm sbuf_scheme \<Rightarrow> addr option \<times> 'm sbuf_scheme" where
  "SocketBuffer_getWrite socket w = (
     let (le, ws) = cl_find (pending_socketcompare socket) (writes w) in (le, w\<lparr>writes := ws\<rparr>))"

definition SocketBuffer_writeComplete :: "int \<Rightarrow> 'm sbuf_scheme \<Rightarrow> int \<times> 'm sbuf_scheme" where
  "SocketBuffer_writeComplete socket w = (
     let (r, ws) = cl_unlink (pending_socketcompare socket) (writes w)
     in (if r = None then 0 else 1, w\<lparr>writes := ws\<rparr>))"

definition SocketBuffer_updateWrite ::
  "int \<Rightarrow> byte list \<Rightarrow> byte list \<Rightarrow> 'm sbuf_scheme \<Rightarrow> addr option \<times> 'm sbuf_scheme" where
  "SocketBuffer_updateWrite socket tpc payl w = (
     let (le, ws) = cl_find (pending_socketcompare socket) (writes w)
     in (le, w\<lparr>writes := (case le of None \<Rightarrow> ws
          | Some a \<Rightarrow> cl_update a (\<lambda>pw.
              if pw_count pw = 4
              then pw\<lparr>pw_iovecs := (pw_iovecs pw)[2 := (tpc, snd (pw_iovecs pw ! 2)),
                                                    3 := (payl, snd (pw_iovecs pw ! 3))]\<rparr>
              else pw) ws)\<rparr>))"

end
