(* ===== verification/Socket.thy ===== *)
theory Socket
  imports SocketBuffer
begin

text \<open>
  \<^verbatim>\<open>Socket.c\<close> on a scripted operating system: what \<^verbatim>\<open>recv\<close>, \<^verbatim>\<open>writev\<close>, \<^verbatim>\<open>select\<close>, \<^verbatim>\<open>socket\<close> and
  \<^verbatim>\<open>connect\<close> answer is part of the state and consumed by the calls, and the bytes the network
  accepted are logged in \<open>sent\<close>.  Every behaviour of the network within the documented results
  of these calls is one such state, so a theorem about all states is about all behaviours.
\<close>

subsection \<open>State\<close>

text \<open>
  \<^verbatim>\<open>recv\<close>: bytes that have arrived (what a call does not take stays; no bytes at all mean that
  the peer has shut down), or an error; at the end of the script nothing has arrived yet
  (\<^verbatim>\<open>EAGAIN\<close>).  \<^verbatim>\<open>writev\<close>: the most it takes, or an error; at the end of the script it takes
  everything.  \<^verbatim>\<open>select\<close>: an error, or the ready descriptors (how long it waits is not part of the
  state).  \<^verbatim>\<open>fcntl\<close> and \<^verbatim>\<open>connect\<close>: an \<^verbatim>\<open>errno\<close> per descriptor; \<^verbatim>\<open>socket\<close>: an \<^verbatim>\<open>errno\<close> or a new
  descriptor; \<^verbatim>\<open>getaddrinfo\<close>: its result and the address families found.
\<close>

datatype recv_reply = RecvData "byte list" | RecvError int
datatype write_reply = WriteMax nat | WriteError int
datatype select_reply = SelectError int | SelectReady "int set"

record sockets = sbuf +
  rset :: "int set"
  rset_saved :: "int set"
  wset :: "int set"
  pending_wset :: "int set"
  maxfdp1 :: int
  clientsds :: "int clist"
  cur_clientsds :: "addr option"
  connect_pending :: "int clist"
  write_pending :: "int clist"
  os_recv :: "int \<Rightarrow> recv_reply list"
  os_write :: "int \<Rightarrow> write_reply list"
  os_select :: "select_reply list"
  os_fcntl :: "int \<Rightarrow> int option"
  os_resolve :: "byte list \<Rightarrow> int \<times> int list"
  os_sockets :: "(int + int) list"
  os_connect :: "int \<Rightarrow> int"
  os_time :: int
  sent :: "int \<Rightarrow> byte list"

text \<open>Zeroed statics and a quiet operating system: nothing received, every write taken.\<close>

definition zero_queue :: socket_queue where
  "zero_queue = \<lparr>q_socket = 0, q_index = 0, q_headerlen = 0, q_fixed_header = [0, 0, 0, 0, 0],
     q_buflen = 0, q_datalen = 0, q_buf = [], q_alloc = 1000\<rparr>"

definition zero_sockets :: sockets where
  "zero_sockets = \<lparr>def_queue = zero_queue, queues = cl_empty, writes = cl_empty, junk_int = 0,
     junk_header = [0, 0, 0, 0, 0], rset = {}, rset_saved = {}, wset = {}, pending_wset = {},
     maxfdp1 = 0, clientsds = cl_empty, cur_clientsds = None, connect_pending = cl_empty,
     write_pending = cl_empty, os_recv = (\<lambda>_. []), os_write = (\<lambda>_. []), os_select = [],
     os_fcntl = (\<lambda>_. None), os_resolve = (\<lambda>_. (0, [])), os_sockets = [], os_connect = (\<lambda>_. 0),
     os_time = 0, sent = (\<lambda>_. [])\<rparr>"

definition EAGAIN :: int where "EAGAIN = 11"
definition EWOULDBLOCK :: int where "EWOULDBLOCK = 11"
definition EINPROGRESS :: int where "EINPROGRESS = 115"
definition EMFILE :: int where "EMFILE = 24"
definition AF_INET :: int where "AF_INET = 2"
definition AF_INET6 :: int where "AF_INET6 = 10"

lemmas errno_defs [code_defs] = EAGAIN_def EWOULDBLOCK_def EINPROGRESS_def EMFILE_def
  AF_INET_def AF_INET6_def

subsection \<open>System calls\<close>

definition sys_recv :: "int \<Rightarrow> nat \<Rightarrow> 'm sockets_scheme \<Rightarrow> (int + byte list) \<times> 'm sockets_scheme" where
  "sys_recv socket n w = (case os_recv w socket of
     [] \<Rightarrow> (Inl EAGAIN, w)
   | RecvError e # rs \<Rightarrow> (Inl e, w\<lparr>os_recv := (os_recv w)(socket := rs)\<rparr>)
   | RecvData bs # rs \<Rightarrow>
       (Inr (take n bs),
        w\<lparr>os_recv := (os_recv w)(socket :=
            (if length bs > n then RecvData (drop n bs) # rs else rs))\<rparr>))"

definition iov_bytes :: "iobuf list \<Rightarrow> byte list option" where
  "iov_bytes iovs = (if \<forall>(base, len)\<in>set iovs. len \<le> length base
     then Some (concat (map (\<lambda>(base, len). take len base) iovs)) else None)"

definition sys_writev ::
  "int \<Rightarrow> byte list \<Rightarrow> 'm sockets_scheme \<Rightarrow> (int + nat) \<times> 'm sockets_scheme" where
  "sys_writev socket bs w = (case os_write w socket of
     [] \<Rightarrow> (Inr (length bs), w\<lparr>sent := (sent w)(socket := sent w socket @ bs)\<rparr>)
   | WriteError e # rs \<Rightarrow> (Inl e, w\<lparr>os_write := (os_write w)(socket := rs)\<rparr>)
   | WriteMax n # rs \<Rightarrow>
       (Inr (min n (length bs)),
        w\<lparr>os_write := (os_write w)(socket := rs),
          sent := (sent w)(socket := sent w socket @ take n bs)\<rparr>))"

text \<open>Ready descriptors are among the ones asked for; an exhausted script is a timeout.\<close>

definition sys_select ::
  "int set \<Rightarrow> int set \<Rightarrow> 'm sockets_scheme \<Rightarrow> (int + int \<times> int set \<times> int set) \<times> 'm sockets_scheme" where
  "sys_select rs ws w = (case os_select w of
     [] \<Rightarrow> (Inr (0, {}, {}), w)
   | SelectError e # sel \<Rightarrow> (Inl e, w\<lparr>os_select := sel\<rparr>)
   | SelectReady fds # sel \<Rightarrow>
       (Inr (int (card (rs \<inter> fds)) + int (card (ws \<inter> fds)), rs \<inter> fds, ws \<inter> fds),
        w\<lparr>os_select := sel\<rparr>))"

definition sys_time :: "'m sockets_scheme \<Rightarrow> int" where
  "sys_time w = os_time w"

subsection \<open>The module\<close>

definition Socket_setnonblocking :: "int \<Rightarrow> 'm sockets_scheme \<Rightarrow> int" where
  "Socket_setnonblocking sock w = (if os_fcntl w sock = None then 0 else SOCKET_ERROR)"

definition Socket_outInitialize :: "'m sockets_scheme \<Rightarrow> 'm sockets_scheme" where
  "Socket_outInitialize w = (SocketBuffer_initialize w)\<lparr>clientsds := cl_empty,
     connect_pending := cl_empty, write_pending := cl_empty, cur_clientsds := None,
     rset := {}, pending_wset := {}, maxfdp1 := 0, rset_saved := {}\<rparr>"

definition Socket_outTerminate :: "'m sockets_scheme \<Rightarrow> 'm sockets_scheme" where
  "Socket_outTerminate w = SocketBuffer_terminate
     (w\<lparr>connect_pending := cl_empty, write_pending := cl_empty, clientsds := cl_empty\<rparr>)"

definition intcmp :: "int \<Rightarrow> int \<Rightarrow> bool" where
  "intcmp socket a \<longleftrightarrow> a = socket"

definition Socket_addSocket :: "int \<Rightarrow> 'm sockets_scheme \<Rightarrow> int \<times> 'm sockets_scheme" where
  "Socket_addSocket newSd w = (
     let (e, ds) = cl_find (intcmp newSd) (clientsds w)
     in if e = None then
          let w1 = w\<lparr>clientsds := cl_add ds newSd 4, rset_saved := insert newSd (rset_saved w),
                     maxfdp1 := max (maxfdp1 w) (newSd + 1)\<rparr>
          in (Socket_setnonblocking newSd w1, w1)
        else (0, w\<lparr>clientsds := ds\<rparr>))"

definition Socket_noPendingWrites :: "int \<Rightarrow> 'm sockets_scheme \<Rightarrow> bool \<times> 'm sockets_scheme" where
  "Socket_noPendingWrites socket w = (
     let (e, ps) = cl_find (intcmp socket) (write_pending w)
     in (e = None, w\<lparr>write_pending := ps\<rparr>))"

text \<open>\<^verbatim>\<open>&&\<close> evaluates its right operand only when the left one holds.\<close>

definition isReady ::
  "int \<Rightarrow> int set \<Rightarrow> int set \<Rightarrow> 'm sockets_scheme \<Rightarrow> bool \<times> 'm sockets_scheme" where
  "isReady socket read_set write_set w = (
     let (e, cp) = cl_find (intcmp socket) (connect_pending w);
         w1 = w\<lparr>connect_pending := cp\<rparr>
     in if e \<noteq> None \<and> socket \<in> write_set then
          (True, w1\<lparr>connect_pending := snd (cl_unlink (intcmp socket) cp)\<rparr>)
        else if socket \<in> read_set \<and> socket \<in> write_set then Socket_noPendingWrites socket w1
        else (False, w1))"

definition Socket_getch ::
  "int \<Rightarrow> byte \<Rightarrow> 'm sockets_scheme \<Rightarrow> ((int \<times> byte) \<times> 'm sockets_scheme) option" where
  "Socket_getch socket c w = do {
     ((rc, c1), w1) \<leftarrow> SocketBuffer_getQueuedChar socket c w;
     if rc \<noteq> TCPSOCKET_INTERRUPTED then Some ((rc, c1), w1)
     else case sys_recv socket 1 w1 of
       (Inl err, w2) \<Rightarrow>
         if err = EWOULDBLOCK \<or> err = EAGAIN
         then Some ((TCPSOCKET_INTERRUPTED, c1), SocketBuffer_interrupted socket 0 w2)
         else Some ((SOCKET_ERROR, c1), w2)
     | (Inr [], w2) \<Rightarrow> Some ((SOCKET_ERROR, c1), w2)
     | (Inr (b # _), w2) \<Rightarrow> do {
         w3 \<leftarrow> SocketBuffer_queueChar socket b w2;
         Some ((TCPSOCKET_COMPLETE, b), w3)
       }
   }"

text \<open>Storing received bytes at an offset of a queue's buffer.\<close>

definition store_at :: "nat \<Rightarrow> byte list \<Rightarrow> socket_queue \<Rightarrow> socket_queue option" where
  "store_at off bs q =
     (if off \<le> length (q_buf q) \<and> off + length bs \<le> q_alloc q
      then Some (q\<lparr>q_buf := take off (q_buf q) @ bs @ drop (off + length bs) (q_buf q)\<rparr>)
      else None)"

text \<open>
  The result is the buffer the code returns, as its contents on return (\<open>None\<close> is NULL), and
  \<^verbatim>\<open>*actual_len\<close>.  The size passed to \<^verbatim>\<open>recv\<close> is a \<^verbatim>\<open>size_t\<close>: a negative difference is undefined.
\<close>

definition Socket_getdata ::
  "int \<Rightarrow> int \<Rightarrow> int \<Rightarrow> 'm sockets_scheme \<Rightarrow> ((byte list option \<times> int) \<times> 'm sockets_scheme) option" where
  "Socket_getdata socket bytes actual_len w =
     (if bytes = 0 then
        let w1 = SocketBuffer_complete socket w
        in Some ((Some (q_buf (def_queue w1)), actual_len), w1)
      else do {
        ((e, alen), w1) \<leftarrow> SocketBuffer_getQueuedData socket bytes w;
        if bytes < alen \<or> alen < 0 then None
        else case sys_recv socket (nat (bytes - alen)) w1 of
          (Inl err, w2) \<Rightarrow>
            if err \<noteq> EAGAIN \<and> err \<noteq> EWOULDBLOCK then Some ((None, alen), w2)
            else let b = q_buf (the_queue e w2)
              in if alen = bytes then Some ((Some b, alen), SocketBuffer_complete socket w2)
                 else Some ((Some b, alen), SocketBuffer_interrupted socket alen w2)
        | (Inr bs, w2) \<Rightarrow>
            if bs = [] then Some ((None, alen), w2)
            else do {
              q \<leftarrow> store_at (nat alen) bs (the_queue e w2);
              let w3 = upd_queue e (\<lambda>_. q) w2;
              let alen' = alen + int (length bs);
              if alen' = bytes then Some ((Some (q_buf q), alen'), SocketBuffer_complete socket w3)
              else Some ((Some (q_buf q), alen'), SocketBuffer_interrupted socket alen' w3)
            }
      })"

text \<open>The result is the return code and \<^verbatim>\<open>*bytes\<close>.\<close>

definition Socket_writev ::
  "int \<Rightarrow> iobuf list \<Rightarrow> 'm sockets_scheme \<Rightarrow> ((int \<times> int) \<times> 'm sockets_scheme) option" where
  "Socket_writev socket iovecs w = do {
     bs \<leftarrow> iov_bytes iovecs;
     case sys_writev socket bs w of
       (Inl err, w1) \<Rightarrow>
         Some ((if err = EWOULDBLOCK \<or> err = EAGAIN then TCPSOCKET_INTERRUPTED else SOCKET_ERROR, 0), w1)
     | (Inr n, w1) \<Rightarrow> Some ((int n, int n), w1)
   }"

definition Socket_putdatas ::
  "int \<Rightarrow> byte list \<Rightarrow> byte list list \<Rightarrow> bool list \<Rightarrow> 'm sockets_scheme \<Rightarrow>
     (int \<times> 'm sockets_scheme) option" where
  "Socket_putdatas socket buf0 buffers frees w = (
     let (free_to_write, w0) = Socket_noPendingWrites socket w
     in if \<not> free_to_write then Some (SOCKET_ERROR, w0)
        else if length buffers > 4 then None
        else
          let total_len = int (length buf0) + sum_list (map (\<lambda>b. int (length b)) buffers);
              iovecs = map (\<lambda>b. (b, length b)) (buf0 # buffers);
              frees1 = True # frees
          in do {
            ((rc, bytes), w1) \<leftarrow> Socket_writev socket iovecs w0;
            if rc = SOCKET_ERROR then Some (rc, w1)
            else if total_len \<ge> 0 \<and> bytes = total_len then Some (TCPSOCKET_COMPLETE, w1)
            else do {
              w2 \<leftarrow> SocketBuffer_pendingWrite socket (int (length buffers) + 1) iovecs frees1 total_len bytes w1;
              Some (TCPSOCKET_INTERRUPTED,
                w2\<lparr>write_pending := cl_add (write_pending w2) socket 4,
                   pending_wset := insert socket (pending_wset w2)\<rparr>)
            }
          })"

definition Socket_addPendingWrite :: "int \<Rightarrow> 'm sockets_scheme \<Rightarrow> 'm sockets_scheme" where
  "Socket_addPendingWrite socket w = w\<lparr>pending_wset := insert socket (pending_wset w)\<rparr>"

definition Socket_clearPendingWrite :: "int \<Rightarrow> 'm sockets_scheme \<Rightarrow> 'm sockets_scheme" where
  "Socket_clearPendingWrite socket w =
     (if socket \<in> pending_wset w then w\<lparr>pending_wset := pending_wset w - {socket}\<rparr> else w)"

subsection \<open>Incomplete writes\<close>

text \<open>
  The loop of \<^verbatim>\<open>Socket_continueWrite\<close> that skips what was written: whole buffers from the first
  one that starts at or after the mark, or the rest of the buffer the mark is inside of, in which
  case the loop stops.
\<close>

fun rest_iovecs :: "int \<Rightarrow> int \<Rightarrow> iobuf list \<Rightarrow> iobuf list" where
  "rest_iovecs bytes curbuflen [] = []"
| "rest_iovecs bytes curbuflen ((base, len) # iovs) =
     (if bytes \<le> curbuflen then (base, len) # rest_iovecs bytes (curbuflen + int len) iovs
      else if bytes < curbuflen + int len then
        let offset = nat (bytes - curbuflen) in [(drop offset base, len - offset)]
      else rest_iovecs bytes (curbuflen + int len) iovs)"

definition Socket_continueWrite ::
  "int \<Rightarrow> 'm sockets_scheme \<Rightarrow> (int \<times> 'm sockets_scheme) option" where
  "Socket_continueWrite socket w = (
     let (le, w0) = SocketBuffer_getWrite socket w
     in case le of
          None \<Rightarrow> None
        | Some a \<Rightarrow> do {
            pw \<leftarrow> map_of (items (writes w0)) a;
            ((rc, bytes), w1) \<leftarrow> Socket_writev socket (rest_iovecs (pw_bytes pw) 0 (pw_iovecs pw)) w0;
            if rc = SOCKET_ERROR then Some (rc, w1)
            else
              let pw' = pw\<lparr>pw_bytes := pw_bytes pw + bytes\<rparr>
              in Some (if pw_total pw' \<ge> 0 \<and> pw_bytes pw' = pw_total pw' then 1 else 0,
                       w1\<lparr>writes := cl_update a (\<lambda>_. pw') (writes w1)\<rparr>)
          })"

text \<open>
  \<^verbatim>\<open>Socket_continueWrites\<close>: \<^verbatim>\<open>wc\<close> is the write-complete callback (the state transformer that
  returns its argument when none is set).  After a removal the walk goes on from the list's
  \<^verbatim>\<open>current\<close> element.
\<close>

partial_function (option) continueWrites_loop ::
  "(int \<Rightarrow> 'm sockets_scheme \<Rightarrow> 'm sockets_scheme option) \<Rightarrow> int set \<Rightarrow> addr option \<Rightarrow>
     'm sockets_scheme \<Rightarrow> 'm sockets_scheme option" where
  "continueWrites_loop wc pwset curpending w = (case curpending of
     None \<Rightarrow> Some w
   | Some a \<Rightarrow> Option.bind (map_of (items (write_pending w)) a) (\<lambda>socket.
       Option.bind (if socket \<in> pwset then Socket_continueWrite socket w else Some (0, w)) (\<lambda>(rc, w1).
         if rc \<noteq> 0 then
           let w2 = snd (SocketBuffer_writeComplete socket w1);
               w3 = w2\<lparr>pending_wset := pending_wset w2 - {socket},
                       write_pending := snd (cl_remove_at a (write_pending w2))\<rparr>
           in Option.bind (wc socket w3) (\<lambda>w4.
                continueWrites_loop wc pwset (cur (write_pending w3)) w4)
         else continueWrites_loop wc pwset (cl_next (write_pending w1) (Some a)) w1)))"

declare continueWrites_loop.simps [code]

definition Socket_continueWrites ::
  "(int \<Rightarrow> 'm sockets_scheme \<Rightarrow> 'm sockets_scheme option) \<Rightarrow> int set \<Rightarrow>
     'm sockets_scheme \<Rightarrow> (int \<times> 'm sockets_scheme) option" where
  "Socket_continueWrites wc pwset w = do {
     w1 \<leftarrow> continueWrites_loop wc pwset (hd_addr (items (write_pending w))) w;
     Some (0, w1)
   }"

subsection \<open>Waiting for work\<close>

text \<open>The loop that advances \<^verbatim>\<open>s.cur_clientsds\<close> to the next ready socket.\<close>

partial_function (option) ready_loop ::
  "int set \<Rightarrow> int set \<Rightarrow> 'm sockets_scheme \<Rightarrow> 'm sockets_scheme option" where
  "ready_loop read_set write_set w = (case cur_clientsds w of
     None \<Rightarrow> Some w
   | Some a \<Rightarrow> Option.bind (map_of (items (clientsds w)) a) (\<lambda>socket.
       case isReady socket read_set write_set w of (ready, w1) \<Rightarrow>
         if ready then Some w1
         else ready_loop read_set write_set
                (w1\<lparr>cur_clientsds := cl_next (clientsds w1) (Some a)\<rparr>)))"

declare ready_loop.simps [code]

text \<open>The end of the function: the socket the cursor is on, or 0; the cursor moves on.\<close>

definition take_ready :: "'m sockets_scheme \<Rightarrow> (int \<times> 'm sockets_scheme) option" where
  "take_ready w = (case cur_clientsds w of
     None \<Rightarrow> Some (0, w)
   | Some a \<Rightarrow> do {
       socket \<leftarrow> map_of (items (clientsds w)) a;
       Some (socket, w\<lparr>cur_clientsds := cl_next (clientsds w) (Some a)\<rparr>)
     })"

definition Socket_getReadySocket ::
  "(int \<Rightarrow> 'm sockets_scheme \<Rightarrow> 'm sockets_scheme option) \<Rightarrow>
     'm sockets_scheme \<Rightarrow> (int \<times> 'm sockets_scheme) option" where
  "Socket_getReadySocket wc w =
     (if cnt (clientsds w) = 0 then Some (0, w)
      else do {
        w1 \<leftarrow> ready_loop (rset w) (wset w) w;
        if cur_clientsds w1 \<noteq> None then take_ready w1
        else case sys_select (rset_saved w1) (pending_wset w1) w1 of
          (Inl _, w2) \<Rightarrow> Some (SOCKET_ERROR, w2\<lparr>rset := rset_saved w1\<rparr>)
        | (Inr (rc, rs, pwset), w2) \<Rightarrow> do {
            (rcw, w3) \<leftarrow> Socket_continueWrites wc pwset (w2\<lparr>rset := rs\<rparr>);
            if rcw = SOCKET_ERROR then Some (0, w3)
            else case sys_select {} (rset_saved w3) w3 of
              (Inl _, w4) \<Rightarrow> Some (SOCKET_ERROR, w4\<lparr>wset := rset_saved w3\<rparr>)
            | (Inr (rc1, _, ws), w4) \<Rightarrow>
                let w5 = w4\<lparr>wset := ws\<rparr>
                in if rc = 0 \<and> rc1 = 0 then Some (0, w5)
                   else do {
                     w6 \<leftarrow> ready_loop (rset w5) (wset w5)
                             (w5\<lparr>cur_clientsds := hd_addr (items (clientsds w5))\<rparr>);
                     take_ready w6
                   }
          }
      })"

subsection \<open>Closing and opening\<close>

text \<open>
  The system calls of \<^verbatim>\<open>Socket_close_only\<close> do not touch the module's state and their result is
  not used here.
\<close>

definition Socket_close :: "int \<Rightarrow> 'm sockets_scheme \<Rightarrow> 'm sockets_scheme" where
  "Socket_close socket w = (
     let w1 = w\<lparr>rset_saved := rset_saved w - {socket}, pending_wset := pending_wset w - {socket}\<rparr>;
         w2 = (case cur_clientsds w1 of None \<Rightarrow> w1
               | Some a \<Rightarrow> if map_of (items (clientsds w1)) a = Some socket
                           then w1\<lparr>cur_clientsds := cl_next (clientsds w1) (Some a)\<rparr> else w1);
         w3 = w2\<lparr>connect_pending := snd (cl_unlink (intcmp socket) (connect_pending w2)),
                 write_pending := snd (cl_unlink (intcmp socket) (write_pending w2))\<rparr>;
         w4 = SocketBuffer_cleanup socket w3;
         w5 = w4\<lparr>clientsds := snd (cl_unlink (intcmp socket) (clientsds w4))\<rparr>
     in if socket + 1 \<ge> maxfdp1 w5
        then w5\<lparr>maxfdp1 := fold max (contents (clientsds w5)) 0 + 1\<rparr>
        else w5)"

text \<open>The address family chosen: the first IPv4 one, else the first, which must be IPv6.\<close>

definition choose_family :: "int list \<Rightarrow> int option" where
  "choose_family fams = (if AF_INET \<in> set fams then Some AF_INET
     else case fams of [] \<Rightarrow> None | f # _ \<Rightarrow> if f = AF_INET6 then Some f else None)"

text \<open>The result is the completion code (an \<^verbatim>\<open>errno\<close> when a call failed) and \<^verbatim>\<open>*sock\<close>.\<close>

definition Socket_new :: "byte list \<Rightarrow> int \<Rightarrow> 'm sockets_scheme \<Rightarrow> (int \<times> int) \<times> 'm sockets_scheme" where
  "Socket_new addr port w = (
     let addr' = (case addr of b # bs \<Rightarrow> if b = 0x5B then bs else addr | [] \<Rightarrow> addr);
         (rc0, fams) = os_resolve w addr';
         rc = (if rc0 \<noteq> 0 then rc0 else if choose_family fams = None then -1 else 0)
     in if rc \<noteq> 0 then ((rc, -1), w)
        else case os_sockets w of
          [] \<Rightarrow> ((EMFILE, -1), w)
        | Inl e # ss \<Rightarrow> ((e, -1), w\<lparr>os_sockets := ss\<rparr>)
        | Inr sock # ss \<Rightarrow>
            let (arc, w1) = Socket_addSocket sock (w\<lparr>os_sockets := ss\<rparr>)
            in if arc = SOCKET_ERROR
               then ((case os_fcntl w1 sock of None \<Rightarrow> 0 | Some e \<Rightarrow> e, sock), w1)
               else let crc = os_connect w1 sock
                 in ((crc, sock),
                     if crc = EINPROGRESS \<or> crc = EWOULDBLOCK
                     then w1\<lparr>connect_pending := cl_add (connect_pending w1) sock 4\<rparr> else w1))"

end
