(* ===== verification/CStrings.thy ===== *)
theory CStrings
  imports Prelude "HOL-Library.Char_ord"
begin

text \<open>
  The C library's string functions the code uses on keys, file names and addresses:
  \<^verbatim>\<open>sprintf("%d")\<close>, \<^verbatim>\<open>atoi\<close>, \<^verbatim>\<open>strncmp\<close> against a prefix, \<^verbatim>\<open>strstr\<close>, \<^verbatim>\<open>strchr\<close>, \<^verbatim>\<open>strrchr\<close>.  Such strings
  are HOL strings (lists of 8-bit characters); strings that travel in packets are byte lists, and
  \<open>chars_of\<close> and \<open>bytes_of\<close> convert.
\<close>

definition chars_of :: "byte list \<Rightarrow> string" where
  "chars_of = map (\<lambda>b. char_of (unat b))"

definition bytes_of :: "string \<Rightarrow> byte list" where
  "bytes_of = map (\<lambda>c. byte_of (of_char c))"

lemma length_chars_bytes [simp]: "length (chars_of bs) = length bs" "length (bytes_of s) = length s"
  by (simp_all add: chars_of_def bytes_of_def)

subsection \<open>Decimal numbers\<close>

definition digit :: "nat \<Rightarrow> char" where
  "digit d = char_of (48 + d)"

fun nat_string :: "nat \<Rightarrow> string" where
  "nat_string n = (if n < 10 then [digit n] else nat_string (n div 10) @ [digit (n mod 10)])"

declare nat_string.simps [simp del]

definition dec_string :: "int \<Rightarrow> string" where
  "dec_string n = (if n < 0 then CHR ''-'' # nat_string (nat (- n)) else nat_string (nat n))"

definition digit_val :: "char \<Rightarrow> nat option" where
  "digit_val c = (let k = of_char c :: nat in if 48 \<le> k \<and> k < 58 then Some (k - 48) else None)"

text \<open>\<^verbatim>\<open>atoi\<close>: blanks, an optional sign, then digits; anything else ends the number.\<close>

fun read_digits :: "int \<Rightarrow> string \<Rightarrow> int" where
  "read_digits acc [] = acc"
| "read_digits acc (c # s) = (case digit_val c of None \<Rightarrow> acc
     | Some d \<Rightarrow> read_digits (10 * acc + int d) s)"

definition is_blank :: "char \<Rightarrow> bool" where
  "is_blank c = (let k = of_char c :: nat in k = 32 \<or> 9 \<le> k \<and> k \<le> 13)"

definition atoi :: "string \<Rightarrow> int" where
  "atoi s = (case dropWhile is_blank s of
     [] \<Rightarrow> 0
   | c # r \<Rightarrow> if c = CHR ''-'' then - read_digits 0 r
       else if c = CHR ''+'' then read_digits 0 r else read_digits 0 (c # r))"

lemma digit_val_digit: "d < 10 \<Longrightarrow> digit_val (digit d) = Some d"
  by (simp add: digit_val_def digit_def)

lemma is_blank_digit: "d < 10 \<Longrightarrow> \<not> is_blank (digit d)"
  by (simp add: is_blank_def digit_def)

lemma digit_not_sign: "d < 10 \<Longrightarrow> digit d \<noteq> CHR ''-'' \<and> digit d \<noteq> CHR ''+''"
proof -
  assume "d < 10"
  then have "of_char (digit d) = 48 + d" by (simp add: digit_def)
  moreover have "of_char (CHR ''-'') = (45 :: nat)" "of_char (CHR ''+'') = (43 :: nat)" by code_simp+
  ultimately show ?thesis by (auto dest: arg_cong [where f = "of_char :: char \<Rightarrow> nat"])
qed

lemma nat_string_ne: "nat_string n \<noteq> []"
  by (subst nat_string.simps) simp

lemma nat_string_digits: "c \<in> set (nat_string n) \<Longrightarrow> \<exists>d<10. c = digit d"
proof (induction n rule: nat_string.induct)
  case (1 n)
  show ?case
  proof (cases "n < 10")
    case True
    with 1(2) show ?thesis by (subst (asm) nat_string.simps) auto
  next
    case False
    with 1(2) have "c \<in> set (nat_string (n div 10)) \<or> c = digit (n mod 10)"
      by (subst (asm) nat_string.simps) auto
    with 1(1) False show ?thesis by (metis mod_less_divisor zero_less_numeral)
  qed
qed

lemma read_digits_append:
  "\<forall>c\<in>set s. digit_val c \<noteq> None \<Longrightarrow> read_digits acc (s @ t) = read_digits (read_digits acc s) t"
  by (induction s arbitrary: acc) (auto split: option.splits)

lemma read_nat_string: "read_digits 0 (nat_string n) = int n"
proof (induction n rule: nat_string.induct)
  case (1 n)
  show ?case
  proof (cases "n < 10")
    case True
    then show ?thesis by (subst nat_string.simps) (simp add: digit_val_digit)
  next
    case False
    have "\<forall>c\<in>set (nat_string (n div 10)). digit_val c \<noteq> None"
      using nat_string_digits digit_val_digit by fastforce
    moreover have "nat_string n = nat_string (n div 10) @ [digit (n mod 10)]"
      using False by (subst nat_string.simps) simp
    ultimately have "read_digits 0 (nat_string n) =
        read_digits (read_digits 0 (nat_string (n div 10))) [digit (n mod 10)]"
      by (simp only: read_digits_append)
    then have "read_digits 0 (nat_string n) = 10 * int (n div 10) + int (n mod 10)"
      using 1 [OF False] by (simp add: digit_val_digit)
    then show ?thesis by (metis mult_div_mod_eq of_nat_add of_nat_mult of_nat_numeral)
  qed
qed

lemma nat_string_hd: "\<exists>d r. d < 10 \<and> nat_string n = digit d # r"
  using nat_string_ne nat_string_digits by (metis list.set_intros(1) neq_Nil_conv)

theorem atoi_dec_string [simp]: "atoi (dec_string n) = n"
proof (cases "n < 0")
  case True
  moreover have "\<not> is_blank (CHR ''-'')" by code_simp
  ultimately show ?thesis by (simp add: atoi_def dec_string_def read_nat_string)
next
  case False
  obtain d r where "d < 10" "nat_string (nat n) = digit d # r" using nat_string_hd by blast
  with False show ?thesis using read_nat_string [of "nat n"]
    by (simp add: atoi_def dec_string_def is_blank_digit digit_not_sign)
qed

lemma dec_string_inject [simp]: "dec_string m = dec_string n \<longleftrightarrow> m = n"
  by (metis atoi_dec_string)

lemma dec_string_chars: "0 \<le> n \<Longrightarrow> c \<in> set (dec_string n) \<Longrightarrow> \<exists>d<10. c = digit d"
  by (auto simp: dec_string_def dest: nat_string_digits)

lemma length_nat_string: "n < 10 ^ k \<Longrightarrow> 0 < k \<Longrightarrow> length (nat_string n) \<le> k"
proof (induction k arbitrary: n)
  case (Suc k)
  show ?case
  proof (cases "n < 10")
    case False
    then have "0 < k" using Suc.prems(1) by (cases k) auto
    moreover have "n div 10 < 10 ^ k" using Suc.prems(1) by (simp add: div_less_iff_less_mult mult.commute)
    ultimately show ?thesis using Suc.IH [of "n div 10"] False by (subst nat_string.simps) simp
  qed (subst nat_string.simps, simp)
qed simp

lemma length_nat_string_ge: "10 ^ k \<le> n \<Longrightarrow> k < length (nat_string n)"
proof (induction k arbitrary: n)
  case (Suc k)
  have "(1 :: nat) \<le> 10 ^ k" by simp
  then have "(10 :: nat) \<le> 10 ^ Suc k" by simp
  with Suc.prems have "\<not> n < 10" by linarith
  moreover have "10 ^ k \<le> n div 10" using Suc.prems by (simp add: less_eq_div_iff_mult_less_eq mult.commute)
  moreover note Suc.IH [of "n div 10"]
  ultimately have "\<not> n < 10" "k < length (nat_string (n div 10))" by simp_all
  then show ?case by (subst nat_string.simps) simp
qed (simp add: nat_string_ne)

lemma length_dec_string:
  "0 \<le> n \<Longrightarrow> n < 10 ^ k \<Longrightarrow> 0 < k \<Longrightarrow> length (dec_string n) \<le> k"
  "10 ^ k \<le> n \<Longrightarrow> k < length (dec_string n)"
proof -
  assume "0 \<le> n" "n < 10 ^ k" "0 < k"
  then show "length (dec_string n) \<le> k"
    using length_nat_string [of "nat n" k] by (simp add: dec_string_def nat_less_iff)
next
  assume a: "10 ^ k \<le> n"
  have "(0 :: int) \<le> 10 ^ k" by simp
  with a have "0 \<le> n" by linarith
  moreover have "10 ^ k \<le> nat n" using a by (simp add: nat_le_iff le_nat_iff \<open>0 \<le> n\<close>)
  ultimately show "k < length (dec_string n)"
    using length_nat_string_ge [of k "nat n"] by (simp add: dec_string_def)
qed

subsection \<open>Searching\<close>

definition strncmp_prefix :: "string \<Rightarrow> string \<Rightarrow> bool" where
  "strncmp_prefix s p \<longleftrightarrow> take (length p) s = p"

text \<open>\<^verbatim>\<open>strstr(s, p)\<close>: the rest of \<open>s\<close> from the first occurrence of \<open>p\<close>.\<close>

fun strstr :: "string \<Rightarrow> string \<Rightarrow> string option" where
  "strstr [] p = (if p = [] then Some [] else None)"
| "strstr (c # s) p = (if take (length p) (c # s) = p then Some (c # s) else strstr s p)"

text \<open>Positions of the first and the last occurrence of a character.\<close>

fun strchr :: "'a list \<Rightarrow> 'a \<Rightarrow> nat option" where
  "strchr [] c = None"
| "strchr (x # s) c = (if x = c then Some 0 else map_option Suc (strchr s c))"

definition strrchr :: "'a list \<Rightarrow> 'a \<Rightarrow> nat option" where
  "strrchr s c = map_option (\<lambda>i. length s - 1 - i) (strchr (rev s) c)"

end
