(* ===== verification/Clients.thy ===== *)
theory Clients
  imports Socket Packet CStrings
begin

text \<open>
  The data of \<^verbatim>\<open>Clients.h\<close> and \<^verbatim>\<open>MQTTProtocol.h\<close> and the record of the module statics that the
  protocol code works on (\<^verbatim>\<open>state\<close> and \<^verbatim>\<open>bstate\<close>), an extension of the socket state.  A
  \<^verbatim>\<open>Clients*\<close> is the address of the client's element in \<^verbatim>\<open>bstate->clients\<close>, a \<^verbatim>\<open>networkHandles*\<close>
  the client it is part of, a \<^verbatim>\<open>Publications*\<close> an address of the store \<open>pubs\<close>: publications are
  shared between messages and counted, messages are owned by the one list they are in.
\<close>

subsection \<open>Data\<close>

text \<open>\<^verbatim>\<open>pub_topic\<close> is the memory at the topic pointer, so a C string inside it ends at a zero byte.\<close>

record Publications =
  pub_topic :: "byte list"
  pub_topiclen :: int
  pub_payload :: "byte list"
  pub_payloadlen :: int
  refcount :: int

record Messages =
  m_qos :: int
  m_retain :: int
  m_msgid :: int
  m_publish :: addr
  m_lastTouch :: int
  m_nextMessageType :: int
  m_len :: int

record willMessages =
  w_topic :: "byte list"
  w_msg :: "byte list"
  w_retained :: int
  w_qos :: int

record MQTTPersistence_message =
  pm_payloadlen :: int
  pm_payload :: "byte list"
  pm_qos :: int
  pm_retained :: int
  pm_dup :: int
  pm_msgid :: int

record MQTTPersistence_qEntry =
  qe_msg :: MQTTPersistence_message
  qe_topicName :: "byte list"
  qe_topicLen :: int
  qe_seqno :: int

text \<open>
  \<^verbatim>\<open>MQTTClient_persistence\<close>: the operations of a persistence implementation on its handle.  The
  default one is theory PersistenceDefault; a user may supply another.
\<close>

record 's MQTTClient_persistence =
  popen :: "string \<Rightarrow> string \<Rightarrow> (int \<times> 's) option"
  pclose :: "'s \<Rightarrow> int"
  pput :: "'s \<Rightarrow> string \<Rightarrow> byte list list \<Rightarrow> int \<times> 's"
  pget :: "'s \<Rightarrow> string \<Rightarrow> int \<times> byte list"
  premove :: "'s \<Rightarrow> string \<Rightarrow> int \<times> 's"
  pkeys :: "'s \<Rightarrow> int \<times> string list"
  pclear :: "'s \<Rightarrow> int \<times> 's"
  pcontainskey :: "'s \<Rightarrow> string \<Rightarrow> int"

record 's Clients =
  clientID :: "byte list"
  username :: "byte list option"
  password :: "byte list option"
  cleansession :: int
  connected :: int
  good :: int
  ping_outstanding :: int
  connect_state :: int
  net_socket :: int
  lastSent :: int
  lastReceived :: int
  msgID :: int
  keepAliveInterval :: int
  retryInterval :: int
  maxInflightMessages :: int
  will :: "willMessages option"
  inboundMsgs :: "Messages clist"
  outboundMsgs :: "Messages clist"
  messageQueue :: "MQTTPersistence_qEntry clist"
  qentry_seqno :: int
  phandle :: "'s option"
  persistence :: "'s MQTTClient_persistence option"
  MQTTVersion :: int

record pending_write =
  pq_socket :: int
  pq_p :: addr

record 's proto = sockets +
  publications :: "addr clist"
  pubs :: "addr \<rightharpoonup> Publications"
  next_pub :: addr
  msgs_received :: int
  msgs_sent :: int
  pending_qos0 :: "pending_write clist"
  clients :: "'s Clients clist"

text \<open>Zeroed statics, and a freshly allocated client (\<^verbatim>\<open>memset\<close> to 0).\<close>

definition zero_state :: "'s proto" where
  "zero_state = sockets.extend zero_sockets (proto.fields cl_empty Map.empty 0 0 0 cl_empty cl_empty)"

lemma zero_state_simps [simp]:
  "def_queue (zero_state :: 's proto) = zero_queue" "queues (zero_state :: 's proto) = cl_empty"
  "writes (zero_state :: 's proto) = cl_empty" "write_pending (zero_state :: 's proto) = cl_empty"
  "os_recv (zero_state :: 's proto) = (\<lambda>_. [])" "os_write (zero_state :: 's proto) = (\<lambda>_. [])"
  "sent (zero_state :: 's proto) = (\<lambda>_. [])" "publications (zero_state :: 's proto) = cl_empty"
  "pubs (zero_state :: 's proto) = Map.empty" "clients (zero_state :: 's proto) = cl_empty"
  by (simp_all add: zero_state_def zero_sockets_def sockets.extend_def proto.fields_def sockets.more_def)

definition zero_client :: "'s Clients" where
  "zero_client = \<lparr>clientID = [], username = None, password = None, cleansession = 0, connected = 0,
     good = 0, ping_outstanding = 0, connect_state = 0, net_socket = 0, lastSent = 0,
     lastReceived = 0, msgID = 0, keepAliveInterval = 0, retryInterval = 0,
     maxInflightMessages = 0, will = None, inboundMsgs = cl_empty, outboundMsgs = cl_empty,
     messageQueue = cl_empty, qentry_seqno = 0, phandle = None, persistence = None,
     MQTTVersion = 0\<rparr>"

text \<open>One client, the element 1 of the list.\<close>

definition one_client :: "'s Clients \<Rightarrow> 's proto" where
  "one_client c = zero_state\<lparr>clients := cl_add cl_empty c 0\<rparr>"

definition MAX_MSG_ID :: int where "MAX_MSG_ID = 65535"
definition MAX_CLIENTID_LEN :: int where "MAX_CLIENTID_LEN = 65535"

lemmas limits_defs [code_defs] = MAX_MSG_ID_def MAX_CLIENTID_LEN_def

text \<open>\<^verbatim>\<open>Clients.c\<close>\<close>

definition clientIDCompare :: "byte list \<Rightarrow> 's Clients \<Rightarrow> bool" where
  "clientIDCompare b c \<longleftrightarrow> c_str (clientID c) = c_str b"

definition clientSocketCompare :: "int \<Rightarrow> 's Clients \<Rightarrow> bool" where
  "clientSocketCompare b c \<longleftrightarrow> net_socket c = b"

subsection \<open>Access\<close>

definition get_client :: "addr \<Rightarrow> ('s, 'm) proto_scheme \<Rightarrow> 's Clients option" where
  "get_client a w = map_of (items (clients w)) a"

definition upd_client ::
  "addr \<Rightarrow> ('s Clients \<Rightarrow> 's Clients) \<Rightarrow> ('s, 'm) proto_scheme \<Rightarrow> ('s, 'm) proto_scheme" where
  "upd_client a f w = w\<lparr>clients := cl_update a f (clients w)\<rparr>"

text \<open>
  \<^verbatim>\<open>(Clients*)(ListFindItem(bstate->clients, &sock, clientSocketCompare)->content)\<close>: no client for
  the socket means a NULL dereference.
\<close>

definition find_client ::
  "int \<Rightarrow> ('s, 'm) proto_scheme \<Rightarrow> (addr \<times> ('s, 'm) proto_scheme) option" where
  "find_client socket w = (case cl_find (clientSocketCompare socket) (clients w) of
     (None, _) \<Rightarrow> None
   | (Some a, cs) \<Rightarrow> Some (a, w\<lparr>clients := cs\<rparr>))"

lemma get_one_client [simp]: "get_client (Suc 0) (one_client c) = Some c"
  by (simp add: get_client_def one_client_def cl_add_def cl_append_def cl_empty_def cl_fresh_def)

definition messageIDCompare :: "int \<Rightarrow> Messages \<Rightarrow> bool" where
  "messageIDCompare b m \<longleftrightarrow> m_msgid m = b"

subsection \<open>Publications\<close>

definition sizeof_Messages :: int where "sizeof_Messages = 40"
definition sizeof_Publications :: int where "sizeof_Publications = 32"

text \<open>
  \<^verbatim>\<open>Heap_findItem\<close> tells whether the topic is a block the library allocated; then the pointer is
  taken over, else the string is copied.  Copying more payload than there is memory, or a
  negative count, is undefined.  The result is the new publication and \<^verbatim>\<open>*len\<close>.
\<close>

definition MQTTProtocol_storePublication ::
  "Publish \<Rightarrow> ('s, 'm) proto_scheme \<Rightarrow> ((addr \<times> int) \<times> ('s, 'm) proto_scheme) option" where
  "MQTTProtocol_storePublication publish w = do {
     t \<leftarrow> topic publish;
     pl \<leftarrow> (if payloadlen publish < 0 then None
            else rd_bytes (payload publish) 0 (nat (payloadlen publish)));
     let len = int (strlen t) + 1 + sizeof_Publications + payloadlen publish;
     let a = next_pub w;
     let p = \<lparr>pub_topic = (if topic_heap publish then t else c_str t),
              pub_topiclen = topiclen publish, pub_payload = pl,
              pub_payloadlen = payloadlen publish, refcount = 1\<rparr>;
     Some ((a, len), w\<lparr>pubs := (pubs w)(a \<mapsto> p), next_pub := a + 1,
       publications := cl_add (publications w) a len\<rparr>)
   }"

text \<open>Removal from the list is by content pointer, here the publication's address.\<close>

definition MQTTProtocol_removePublication ::
  "addr \<Rightarrow> ('s, 'm) proto_scheme \<Rightarrow> ('s, 'm) proto_scheme option" where
  "MQTTProtocol_removePublication a w = do {
     p \<leftarrow> pubs w a;
     if refcount p - 1 = 0
     then Some (w\<lparr>pubs := (pubs w)(a := None),
                  publications := snd (cl_unlink (\<lambda>x. x = a) (publications w))\<rparr>)
     else Some (w\<lparr>pubs := (pubs w)(a \<mapsto> p\<lparr>refcount := refcount p - 1\<rparr>)\<rparr>)
   }"

text \<open>
  \<^verbatim>\<open>*mm\<close> is NULL or a message to share the publication with.  \<^verbatim>\<open>nextMessageType\<close> of a message that is
  not QoS 2 stays uninitialised.
\<close>

definition MQTTProtocol_createMessage ::
  "Publish \<Rightarrow> Messages option \<Rightarrow> int \<Rightarrow> int \<Rightarrow> ('s, 'm) proto_scheme \<Rightarrow>
     (Messages \<times> ('s, 'm) proto_scheme) option" where
  "MQTTProtocol_createMessage publish mm qos retained w = do {
     ((a, len1), w1) \<leftarrow> (case mm of
         None \<Rightarrow> MQTTProtocol_storePublication publish w
       | Some m0 \<Rightarrow> do {
           p \<leftarrow> pubs w (m_publish m0);
           Some ((m_publish m0, 0),
             w\<lparr>pubs := (pubs w)(m_publish m0 \<mapsto> p\<lparr>refcount := refcount p + 1\<rparr>)\<rparr>)
         });
     Some (\<lparr>m_qos = qos, m_retain = retained, m_msgid = msgId publish, m_publish = a,
            m_lastTouch = sys_time w1,
            m_nextMessageType = (if qos = 2 then PUBREC else junk_int w1),
            m_len = sizeof_Messages + len1\<rparr>, w1)
   }"

end
