(* ===== verification/Persistence.thy ===== *)
theory Persistence
  imports Clients
begin

text \<open>
  \<^verbatim>\<open>MQTTPersistence.c\<close>, the part that writes: the keys, \<^verbatim>\<open>put\<close> and \<^verbatim>\<open>remove\<close> for packets in flight,
  and the queue entries of received messages with their byte format.  Theory Restore has the part
  that reads the store back.  Keys are printed into blocks of
  \<^verbatim>\<open>MESSAGE_FILENAME_LENGTH + 1\<close> or \<^verbatim>\<open>PERSISTENCE_MAX_KEY_LENGTH + 1\<close> bytes; a longer one overflows.
\<close>

subsection \<open>Keys\<close>

definition PERSISTENCE_PUBLISH_SENT :: string where "PERSISTENCE_PUBLISH_SENT = ''s-''"
definition PERSISTENCE_PUBREL :: string where "PERSISTENCE_PUBREL = ''sc-''"
definition PERSISTENCE_PUBLISH_RECEIVED :: string where "PERSISTENCE_PUBLISH_RECEIVED = ''r-''"
definition PERSISTENCE_COMMAND_KEY :: string where "PERSISTENCE_COMMAND_KEY = ''c-''"
definition PERSISTENCE_QUEUE_KEY :: string where "PERSISTENCE_QUEUE_KEY = ''q-''"
definition PERSISTENCE_MAX_KEY_LENGTH :: nat where "PERSISTENCE_MAX_KEY_LENGTH = 8"
definition MESSAGE_FILENAME_LENGTH :: nat where "MESSAGE_FILENAME_LENGTH = 8"

lemmas key_defs [code_defs] = PERSISTENCE_PUBLISH_SENT_def PERSISTENCE_PUBREL_def
  PERSISTENCE_PUBLISH_RECEIVED_def PERSISTENCE_COMMAND_KEY_def PERSISTENCE_QUEUE_KEY_def
  PERSISTENCE_MAX_KEY_LENGTH_def MESSAGE_FILENAME_LENGTH_def

text \<open>\<^verbatim>\<open>sprintf(key, "%s%d", stem, n)\<close> into a block of \<open>sz0 + 1\<close> bytes.\<close>

definition sprintf_key :: "nat \<Rightarrow> string \<Rightarrow> int \<Rightarrow> string option" where
  "sprintf_key sz0 stem n =
     (let key = stem @ dec_string n in if length key \<le> sz0 then Some key else None)"

subsection \<open>Messages in flight\<close>

text \<open>The operation of the client's store behind a function pointer; a NULL handle is undefined.\<close>

definition with_store ::
  "addr \<Rightarrow> ('s MQTTClient_persistence \<Rightarrow> 's \<Rightarrow> int \<times> 's) \<Rightarrow> ('s, 'm) proto_scheme \<Rightarrow>
     (int \<times> ('s, 'm) proto_scheme) option" where
  "with_store c f w = do {
     client \<leftarrow> get_client c w;
     case persistence client of
       None \<Rightarrow> Some (0, w)
     | Some per \<Rightarrow> do {
         s \<leftarrow> phandle client;
         let (rc, s') = f per s;
         Some (rc, upd_client c (\<lambda>cl. cl\<lparr>phandle := Some s'\<rparr>) w)
       }
   }"

definition put_key :: "int \<Rightarrow> int \<Rightarrow> int \<Rightarrow> string option" where
  "put_key htype msgid scr =
     (if scr = 1 then sprintf_key MESSAGE_FILENAME_LENGTH PERSISTENCE_PUBLISH_RECEIVED msgid
      else if scr = 0 \<and> htype = PUBREL then
        sprintf_key MESSAGE_FILENAME_LENGTH PERSISTENCE_PUBREL msgid
      else if scr = 0 \<and> htype = PUBLISH then
        sprintf_key MESSAGE_FILENAME_LENGTH PERSISTENCE_PUBLISH_SENT msgid
      else None)"

definition MQTTPersistence_put ::
  "int \<Rightarrow> byte list \<Rightarrow> byte list list \<Rightarrow> int \<Rightarrow> int \<Rightarrow> int \<Rightarrow> ('s, 'm) proto_scheme \<Rightarrow>
     (int \<times> ('s, 'm) proto_scheme) option" where
  "MQTTPersistence_put socket buf0 buffers htype msgid scr w = do {
     (c, w1) \<leftarrow> find_client socket w;
     client \<leftarrow> get_client c w1;
     if persistence client = None then Some (0, w1)
     else do {
       key \<leftarrow> put_key htype msgid scr;
       with_store c (\<lambda>per s. pput per s key (buf0 # buffers)) w1
     }
   }"

definition MQTTPersistence_remove ::
  "addr \<Rightarrow> string \<Rightarrow> int \<Rightarrow> int \<Rightarrow> ('s, 'm) proto_scheme \<Rightarrow> (int \<times> ('s, 'm) proto_scheme) option" where
  "MQTTPersistence_remove c type qos msgid w = do {
     client \<leftarrow> get_client c w;
     if persistence client = None then Some (0, w)
     else if type = PERSISTENCE_PUBLISH_SENT \<and> qos = 2 then do {
       key \<leftarrow> sprintf_key MESSAGE_FILENAME_LENGTH PERSISTENCE_PUBLISH_SENT msgid;
       (rc, w1) \<leftarrow> with_store c (\<lambda>per s. premove per s key) w;
       key2 \<leftarrow> sprintf_key MESSAGE_FILENAME_LENGTH PERSISTENCE_PUBREL msgid;
       with_store c (\<lambda>per s. premove per s key2) w1
     } else do {
       key \<leftarrow> sprintf_key MESSAGE_FILENAME_LENGTH type msgid;
       with_store c (\<lambda>per s. premove per s key) w
     }
   }"

definition MQTTPersistence_clear ::
  "addr \<Rightarrow> ('s, 'm) proto_scheme \<Rightarrow> (int \<times> ('s, 'm) proto_scheme) option" where
  "MQTTPersistence_clear c w = with_store c (\<lambda>per s. pclear per s) w"

definition MQTTPersistence_close ::
  "addr \<Rightarrow> ('s, 'm) proto_scheme \<Rightarrow> (int \<times> ('s, 'm) proto_scheme) option" where
  "MQTTPersistence_close c w = do {
     client \<leftarrow> get_client c w;
     case persistence client of
       None \<Rightarrow> Some (0, w)
     | Some per \<Rightarrow> do {
         s \<leftarrow> phandle client;
         Some (pclose per s, upd_client c (\<lambda>cl. cl\<lparr>phandle := None, persistence := None\<rparr>) w)
       }
   }"

subsection \<open>Queue entries\<close>

text \<open>An \<^verbatim>\<open>int\<close> in memory: four bytes, two's complement, least significant first.\<close>

definition int_bytes :: "int \<Rightarrow> byte list" where
  "int_bytes n = [byte_of n, byte_of (n div 256), byte_of (n div 65536), byte_of (n div 16777216)]"

definition signed32 :: "int \<Rightarrow> int" where
  "signed32 n = (n + 2147483648) mod 4294967296 - 2147483648"

definition read_int32 :: "byte list \<Rightarrow> nat \<Rightarrow> int option" where
  "read_int32 b p = do {
     b0 \<leftarrow> rd b p; b1 \<leftarrow> rd b (p + 1); b2 \<leftarrow> rd b (p + 2); b3 \<leftarrow> rd b (p + 3);
     Some (signed32 (ubyte b0 + 256 * ubyte b1 + 65536 * ubyte b2 + 16777216 * ubyte b3))
   }"

definition MQTTPersistence_unpersistQueueEntry ::
  "addr \<Rightarrow> MQTTPersistence_qEntry \<Rightarrow> ('s, 'm) proto_scheme \<Rightarrow> (int \<times> ('s, 'm) proto_scheme) option" where
  "MQTTPersistence_unpersistQueueEntry c qe w = do {
     key \<leftarrow> sprintf_key PERSISTENCE_MAX_KEY_LENGTH PERSISTENCE_QUEUE_KEY (signed32 (qe_seqno qe));
     client \<leftarrow> get_client c w;
     _ \<leftarrow> persistence client;
     with_store c (\<lambda>per s. premove per s key) w
   }"

text \<open>The eight buffers of a queue entry; the payload is read through its length.\<close>

definition queue_entry_bufs :: "MQTTPersistence_qEntry \<Rightarrow> byte list list option" where
  "queue_entry_bufs qe = (let m = qe_msg qe in
     if pm_payloadlen m < 0 then None
     else do {
       pl \<leftarrow> rd_bytes (pm_payload m) 0 (nat (pm_payloadlen m));
       Some [int_bytes (pm_payloadlen m), pl, int_bytes (pm_qos m), int_bytes (pm_retained m),
             int_bytes (pm_dup m), int_bytes (pm_msgid m), c_str (qe_topicName qe) @ [0],
             int_bytes (qe_topicLen qe)]
     })"

text \<open>The result carries the entry, whose sequence number is set, with the state.\<close>

definition MQTTPersistence_persistQueueEntry ::
  "addr \<Rightarrow> MQTTPersistence_qEntry \<Rightarrow> ('s, 'm) proto_scheme \<Rightarrow>
     ((int \<times> MQTTPersistence_qEntry) \<times> ('s, 'm) proto_scheme) option" where
  "MQTTPersistence_persistQueueEntry c qe w = do {
     client \<leftarrow> get_client c w;
     bufs \<leftarrow> queue_entry_bufs qe;
     let seq = (qentry_seqno client + 1) mod 4294967296;
     key \<leftarrow> sprintf_key PERSISTENCE_MAX_KEY_LENGTH PERSISTENCE_QUEUE_KEY (signed32 seq);
     let w1 = upd_client c (\<lambda>cl. cl\<lparr>qentry_seqno := seq\<rparr>) w;
     _ \<leftarrow> persistence client;
     (rc, w2) \<leftarrow> with_store c (\<lambda>per s. pput per s key bufs) w1;
     Some ((rc, qe\<lparr>qe_seqno := seq\<rparr>), w2)
   }"

text \<open>\<^verbatim>\<open>strlen(ptr) + 1\<close> needs a zero byte inside the buffer.\<close>

definition read_c_string :: "byte list \<Rightarrow> nat \<Rightarrow> byte list option" where
  "read_c_string b p = (if p \<le> length b \<and> 0 \<in> set (drop p b) then Some (c_str (drop p b)) else None)"

definition MQTTPersistence_restoreQueueEntry :: "byte list \<Rightarrow> MQTTPersistence_qEntry option" where
  "MQTTPersistence_restoreQueueEntry buffer = do {
     plen \<leftarrow> read_int32 buffer 0;
     pl \<leftarrow> (if plen < 0 then None else rd_bytes buffer 4 (nat plen));
     let p = 4 + nat plen;
     qos \<leftarrow> read_int32 buffer p;
     retained \<leftarrow> read_int32 buffer (p + 4);
     dup \<leftarrow> read_int32 buffer (p + 8);
     msgid \<leftarrow> read_int32 buffer (p + 12);
     name \<leftarrow> read_c_string buffer (p + 16);
     tlen \<leftarrow> read_int32 buffer (p + 16 + length name + 1);
     Some \<lparr>qe_msg = \<lparr>pm_payloadlen = plen, pm_payload = pl, pm_qos = qos, pm_retained = retained,
                     pm_dup = dup, pm_msgid = msgid\<rparr>,
           qe_topicName = name, qe_topicLen = tlen, qe_seqno = 0\<rparr>
   }"

subsection \<open>Facts about the byte format\<close>

definition int32 :: "int \<Rightarrow> bool" where
  "int32 n \<longleftrightarrow> - 2147483648 \<le> n \<and> n < 2147483648"

lemma length_int_bytes [simp]: "length (int_bytes n) = 4"
  by (simp add: int_bytes_def)

lemma signed32_id [simp]: "int32 n \<Longrightarrow> signed32 n = n"
  by (simp add: int32_def signed32_def)

lemma signed32_mod [simp]: "signed32 (n mod 4294967296) = signed32 n"
  by (simp add: signed32_def mod_simps)

lemma int_bytes_value:
  "n mod 256 + 256 * (n div 256 mod 256) + 65536 * (n div 65536 mod 256) +
     16777216 * (n div 16777216 mod 256) = n mod (4294967296 :: int)"
proof -
  have e: "16777216 * 256 = (4294967296 :: int)" "65536 * 256 = (16777216 :: int)"
    "256 * 256 = (65536 :: int)" by simp_all
  have nn: "0 \<le> (256 :: int)" by simp
  note s = zmod_zmult2_eq [OF nn, of n 16777216, unfolded e]
    zmod_zmult2_eq [OF nn, of n 65536, unfolded e] zmod_zmult2_eq [OF nn, of n 256, unfolded e]
  show ?thesis by (simp only: s add_ac)
qed

lemma read_int32_at:
  assumes "length xs = p" "int32 n"
  shows "read_int32 (xs @ int_bytes n @ ys) p = Some n"
proof -
  have "rd (xs @ int_bytes n @ ys) (p + k) = rd (int_bytes n @ ys) k" for k
    using assms(1) rd_append_right [of xs "int_bytes n @ ys" k] by simp
  from this [of 0] this [of 1] this [of 2] this [of 3]
  have "read_int32 (xs @ int_bytes n @ ys) p = Some (signed32 (n mod 256 + 256 * (n div 256 mod 256) +
      65536 * (n div 65536 mod 256) + 16777216 * (n div 16777216 mod 256)))"
    by (simp add: read_int32_def int_bytes_def rd_def)
  then show ?thesis using assms(2) by (simp only: int_bytes_value signed32_mod signed32_id)
qed

lemma read_c_string_at:
  assumes "length xs = p" "0 \<notin> set s"
  shows "read_c_string (xs @ s @ 0 # ys) p = Some s"
proof -
  have "c_str (s @ 0 # ys) = s" using assms(2) by (auto simp: c_str_def takeWhile_append)
  with assms(1) show ?thesis by (simp add: read_c_string_def)
qed

lemma sprintf_key_fits:
  "0 \<le> n \<Longrightarrow> n < 100000 \<Longrightarrow> length stem \<le> 3 \<Longrightarrow>
     sprintf_key MESSAGE_FILENAME_LENGTH stem n = Some (stem @ dec_string n)"
  using length_dec_string(1) [of n 5] by (simp add: sprintf_key_def MESSAGE_FILENAME_LENGTH_def)

subsection \<open>Properties\<close>

text \<open>
  C16: a queue entry is restored as it was stored.  For any message and topic whose numbers fit an
  \<^verbatim>\<open>int\<close>, reading back the concatenated buffers gives the same lengths, payload, QoS, flags, message
  id and topic; the sequence number is not part of the record.
\<close>

theorem queue_entry_roundtrip:
  assumes "queue_entry_bufs qe = Some bufs"
    "int32 (pm_payloadlen (qe_msg qe))" "int32 (pm_qos (qe_msg qe))" "int32 (pm_retained (qe_msg qe))"
    "int32 (pm_dup (qe_msg qe))" "int32 (pm_msgid (qe_msg qe))" "int32 (qe_topicLen qe)"
  shows "MQTTPersistence_restoreQueueEntry (concat bufs) = Some \<lparr>qe_msg = (qe_msg qe)
      \<lparr>pm_payload := take (nat (pm_payloadlen (qe_msg qe))) (pm_payload (qe_msg qe))\<rparr>,
    qe_topicName = c_str (qe_topicName qe), qe_topicLen = qe_topicLen qe, qe_seqno = 0\<rparr>"
proof -
  define m where "m = qe_msg qe"
  define n where "n = nat (pm_payloadlen m)"
  define pl where "pl = take n (pm_payload m)"
  define s where "s = c_str (qe_topicName qe)"
  have bufs: "concat bufs = int_bytes (pm_payloadlen m) @ pl @ int_bytes (pm_qos m) @
      int_bytes (pm_retained m) @ int_bytes (pm_dup m) @ int_bytes (pm_msgid m) @ s @ 0 # int_bytes (qe_topicLen qe)"
    and len: "length pl = n" "0 \<le> pm_payloadlen m"
    using assms(1)
    by (auto simp: queue_entry_bufs_def Let_def bind_Some_conv rd_bytes_def m_def n_def pl_def s_def
        split: if_splits)
  have r0: "read_int32 (concat bufs) 0 = Some (pm_payloadlen m)"
    using read_int32_at [of "[]" 0] assms(2) unfolding bufs by (simp add: m_def)
  have rp: "rd_bytes (concat bufs) 4 n = Some pl"
    unfolding bufs by (rule rd_bytes_middle) (simp_all add: len)
  have r1: "read_int32 (concat bufs) (4 + n) = Some (pm_qos m)"
    using read_int32_at [of "int_bytes (pm_payloadlen m) @ pl" "4 + n"] assms(3) len
    unfolding bufs by (simp add: m_def)
  have r2: "read_int32 (concat bufs) (4 + n + 4) = Some (pm_retained m)"
    using read_int32_at [of "int_bytes (pm_payloadlen m) @ pl @ int_bytes (pm_qos m)" "4 + n + 4"]
      assms(4) len unfolding bufs by (simp add: m_def)
  have r3: "read_int32 (concat bufs) (4 + n + 8) = Some (pm_dup m)"
    using read_int32_at [of "int_bytes (pm_payloadlen m) @ pl @ int_bytes (pm_qos m) @
        int_bytes (pm_retained m)" "4 + n + 8"] assms(5) len unfolding bufs by (simp add: m_def)
  have r4: "read_int32 (concat bufs) (4 + n + 12) = Some (pm_msgid m)"
    using read_int32_at [of "int_bytes (pm_payloadlen m) @ pl @ int_bytes (pm_qos m) @
        int_bytes (pm_retained m) @ int_bytes (pm_dup m)" "4 + n + 12"] assms(6) len
    unfolding bufs by (simp add: m_def)
  have rs: "read_c_string (concat bufs) (4 + n + 16) = Some s"
    using read_c_string_at [of "int_bytes (pm_payloadlen m) @ pl @ int_bytes (pm_qos m) @
        int_bytes (pm_retained m) @ int_bytes (pm_dup m) @ int_bytes (pm_msgid m)" "4 + n + 16" s] len
    unfolding bufs by (simp add: s_def)
  have r5: "read_int32 (concat bufs) (4 + n + 16 + length s + 1) = Some (qe_topicLen qe)"
    using read_int32_at [of "int_bytes (pm_payloadlen m) @ pl @ int_bytes (pm_qos m) @
        int_bytes (pm_retained m) @ int_bytes (pm_dup m) @ int_bytes (pm_msgid m) @ s @ [0]"
        "4 + n + 16 + length s + 1" "qe_topicLen qe" "[]"] assms(7) len
    unfolding bufs by simp
  show ?thesis
    using r0 rp r1 r2 r3 r4 rs r5 len(2)
    by (simp add: MQTTPersistence_restoreQueueEntry_def n_def [symmetric] m_def [symmetric]
        pl_def [symmetric] s_def [symmetric] Let_def)
qed

theorem queue_entry_roundtrip_witness:
  "MQTTPersistence_restoreQueueEntry [2, 0, 0, 0, 0x68, 0x69, 1, 0, 0, 0, 0, 0, 0, 0, 0, 0, 0, 0,
     7, 0, 0, 0, 0x74, 0, 1, 0, 0, 0] =
   Some \<lparr>qe_msg = \<lparr>pm_payloadlen = 2, pm_payload = [0x68, 0x69], pm_qos = 1, pm_retained = 0, pm_dup = 0,
     pm_msgid = 7\<rparr>, qe_topicName = [0x74], qe_topicLen = 1, qe_seqno = 0\<rparr>"
proof -
  let ?qe = "\<lparr>qe_msg = \<lparr>pm_payloadlen = 2, pm_payload = [0x68, 0x69], pm_qos = 1, pm_retained = 0,
    pm_dup = 0, pm_msgid = 7\<rparr>, qe_topicName = [0x74], qe_topicLen = 1, qe_seqno = 9\<rparr>"
  have b: "queue_entry_bufs ?qe = Some [[2, 0, 0, 0], [0x68, 0x69], [1, 0, 0, 0], [0, 0, 0, 0], [0, 0, 0, 0],
     [7, 0, 0, 0], [0x74, 0], [1, 0, 0, 0]]" by code_simp
  from queue_entry_roundtrip [OF b] show ?thesis by (simp add: int32_def)
qed

text \<open>
  Message keys.  For every 16-bit message id the key of a sent PUBLISH, a sent PUBREL and a
  received PUBLISH is printed without overflowing its block, and no two of these keys are equal: a
  stored packet can only be overwritten by one of the same kind with the same id.
\<close>

theorem message_keys_distinct:
  assumes "0 \<le> m" "m \<le> MAX_MSG_ID" "0 \<le> n" "n \<le> MAX_MSG_ID"
    "(ht, scr) \<in> {(PUBLISH, 0), (PUBREL, 0), (PUBLISH, 1)}"
    "(ht', scr') \<in> {(PUBLISH, 0), (PUBREL, 0), (PUBLISH, 1)}"
  shows "put_key ht m scr \<noteq> None \<and>
    (put_key ht m scr = put_key ht' n scr' \<longleftrightarrow> (ht, m, scr) = (ht', n, scr'))"
proof -
  have b: "m < 100000" "n < 100000" using assms by (simp_all add: MAX_MSG_ID_def)
  have stems: "length PERSISTENCE_PUBLISH_SENT \<le> 3" "length PERSISTENCE_PUBREL \<le> 3"
    "length PERSISTENCE_PUBLISH_RECEIVED \<le> 3" by (simp_all add: key_defs)
  note fits = sprintf_key_fits [OF assms(1) b(1)] sprintf_key_fits [OF assms(3) b(2)]
  show ?thesis
    using assms(5,6) by (auto simp: put_key_def fits stems msgTypes_defs) (auto simp: key_defs)
qed

theorem message_keys_distinct_witness:
  "put_key PUBLISH 7 0 \<noteq> None \<and> (put_key PUBLISH 7 0 = put_key PUBREL 7 0 \<longleftrightarrow> False)"
  using message_keys_distinct [of 7 7 PUBLISH 0 PUBREL 0] by (simp add: msgTypes_defs MAX_MSG_ID_def)

text \<open>
  The key of the millionth queue entry overflows.  Once the sequence number reaches 999999, storing
  another entry prints eleven bytes or more into the nine-byte array \<^verbatim>\<open>key\<close>: undefined behaviour,
  whatever the entry, as long as the number stays in the positive \<^verbatim>\<open>int\<close> range.
\<close>

theorem queue_key_overflow:
  assumes "get_client c w = Some client" "999999 \<le> qentry_seqno client" "qentry_seqno client < 2147483647"
  shows "MQTTPersistence_persistQueueEntry c qe w = None"
proof -
  let ?s = "qentry_seqno client + 1"
  have s: "signed32 (?s mod 4294967296) = ?s"
    using assms(2,3) by (simp add: int32_def)
  have "6 < length (dec_string ?s)" using assms(2) by (intro length_dec_string(2)) simp
  then have "sprintf_key PERSISTENCE_MAX_KEY_LENGTH PERSISTENCE_QUEUE_KEY ?s = None"
    by (simp add: sprintf_key_def key_defs)
  then show ?thesis
    using assms(1) s by (cases "queue_entry_bufs qe") (simp_all add: MQTTPersistence_persistQueueEntry_def Let_def)
qed

theorem queue_key_overflow_witness:
  "MQTTPersistence_persistQueueEntry (Suc 0) \<lparr>qe_msg = \<lparr>pm_payloadlen = 0, pm_payload = [], pm_qos = 0,
     pm_retained = 0, pm_dup = 0, pm_msgid = 0\<rparr>, qe_topicName = [], qe_topicLen = 0, qe_seqno = 0\<rparr>
     (one_client (zero_client\<lparr>qentry_seqno := 999999\<rparr>) :: unit proto) = None"
  by (rule queue_key_overflow [where client = "zero_client\<lparr>qentry_seqno := 999999\<rparr>"]) simp_all

end
