(* ===== verification/PacketOut.thy ===== *)
theory PacketOut
  imports Persistence
begin

text \<open>
  Packets on the network: reading one (\<^verbatim>\<open>MQTTPacket_decode\<close>, \<^verbatim>\<open>MQTTPacket_Factory\<close>), sending one
  (\<^verbatim>\<open>MQTTPacket_send\<close>, \<^verbatim>\<open>MQTTPacket_sends\<close>) and the builders of \<^verbatim>\<open>MQTTPacket.c\<close> and
  \<^verbatim>\<open>MQTTPacketOut.c\<close>.  A builder fills a block whose size it computed first; the model sends the
  bytes written when they are exactly that many, else it is undefined (an overflow, or a packet
  with uninitialised bytes).  \<open>c\<close> is the client whose \<^verbatim>\<open>net\<close> is passed.
\<close>

subsection \<open>Reading a packet\<close>

text \<open>The \<^verbatim>\<open>do\<close> loop; \<open>n\<close> is how many more length bytes are allowed.\<close>

fun decode_loop ::
  "nat \<Rightarrow> int \<Rightarrow> int \<Rightarrow> int \<Rightarrow> 'm sockets_scheme \<Rightarrow> ((int \<times> int) \<times> 'm sockets_scheme) option" where
  "decode_loop 0 socket val multiplier w = Some ((SOCKET_ERROR, val), w)"
| "decode_loop (Suc n) socket val multiplier w = do {
     ((rc, c), w1) \<leftarrow> Socket_getch socket 0 w;
     if rc \<noteq> TCPSOCKET_COMPLETE then Some ((rc, val), w1)
     else
       let val' = val + length_digit c * multiplier
       in if length_more c then decode_loop n socket val' (multiplier * 128) w1
          else Some ((rc, val'), w1)
   }"

definition MAX_NO_OF_REMAINING_LENGTH_BYTES :: nat where
  "MAX_NO_OF_REMAINING_LENGTH_BYTES = 4"

definition MQTTPacket_decode ::
  "int \<Rightarrow> 'm sockets_scheme \<Rightarrow> ((int \<times> int) \<times> 'm sockets_scheme) option" where
  "MQTTPacket_decode socket w = decode_loop MAX_NO_OF_REMAINING_LENGTH_BYTES socket 0 1 w"

text \<open>
  The first half of \<^verbatim>\<open>MQTTPacket_Factory\<close>: the completion code and, when the whole packet is there,
  the header byte, the buffer the data is in and the remaining length.
\<close>

definition read_packet ::
  "int \<Rightarrow> 'm sockets_scheme \<Rightarrow> ((int \<times> (byte \<times> byte list \<times> nat) option) \<times> 'm sockets_scheme) option" where
  "read_packet socket w = do {
     ((rc, header), w1) \<leftarrow> Socket_getch socket 0 w;
     if rc \<noteq> TCPSOCKET_COMPLETE then Some ((rc, None), w1)
     else do {
       ((rc, remaining_length), w2) \<leftarrow> MQTTPacket_decode socket w1;
       if rc \<noteq> TCPSOCKET_COMPLETE then Some ((rc, None), w2)
       else do {
         ((data, actual_len), w3) \<leftarrow> Socket_getdata socket remaining_length 0 w2;
         case data of
           None \<Rightarrow> Some ((SOCKET_ERROR, None), w3)
         | Some d \<Rightarrow>
             if actual_len \<noteq> remaining_length then Some ((TCPSOCKET_INTERRUPTED, None), w3)
             else Some ((rc, Some (header, d, nat remaining_length)), w3)
       }
     }
   }"

fun packet_msgId :: "packet \<Rightarrow> int" where
  "packet_msgId (PkPublish p) = msgId p"
| "packet_msgId (PkAck a) = a_msgId a"
| "packet_msgId (PkSuback s) = s_msgId s"
| "packet_msgId _ = 0"

definition MQTTPacket_Factory ::
  "addr \<Rightarrow> ('s, 'm) proto_scheme \<Rightarrow> ((int \<times> packet option) \<times> ('s, 'm) proto_scheme) option" where
  "MQTTPacket_Factory c w = do {
     client \<leftarrow> get_client c w;
     ((rc, r), w1) \<leftarrow> read_packet (net_socket client) w;
     case r of
       None \<Rightarrow> Some ((rc, None), w1)
     | Some (header, data, remaining_length) \<Rightarrow>
         (case packet_parser (header_type header) of
            None \<Rightarrow> Some ((rc, None), w1)
          | Some parse \<Rightarrow> do {
              pack \<leftarrow> parse header data remaining_length;
              case pack of
                None \<Rightarrow> Some ((BAD_MQTT_PACKET, None), w1)
              | Some p \<Rightarrow> do {
                  (rc, w2) \<leftarrow>
                    (if header_type header = PUBLISH \<and> header_qos header = 2
                     then MQTTPersistence_put (net_socket client)
                            (header # MQTTPacket_encode (int remaining_length))
                            [take remaining_length data] (header_type header) (packet_msgId p) 1 w1
                     else Some (rc, w1));
                  Some ((rc, Some p), upd_client c (\<lambda>cl. cl\<lparr>lastReceived := sys_time w2\<rparr>) w2)
                }
            })
   }"

subsection \<open>Sending a packet\<close>

definition MQTTPacket_send ::
  "addr \<Rightarrow> byte \<Rightarrow> byte list \<Rightarrow> bool \<Rightarrow> ('s, 'm) proto_scheme \<Rightarrow> (int \<times> ('s, 'm) proto_scheme) option" where
  "MQTTPacket_send c header buffer free w = do {
     client \<leftarrow> get_client c w;
     let buf = header # MQTTPacket_encode (int (length buffer));
     w1 \<leftarrow> (if header_type header = PUBREL then do {
          (msgid, _) \<leftarrow> readInt buffer 0;
          (_, w1) \<leftarrow> MQTTPersistence_put (net_socket client) buf [buffer] (header_type header) msgid 0 w;
          Some w1
        } else Some w);
     (rc, w2) \<leftarrow> Socket_putdatas (net_socket client) buf [buffer] [free] w1;
     Some (rc, if rc = TCPSOCKET_COMPLETE
               then upd_client c (\<lambda>cl. cl\<lparr>lastSent := sys_time w2\<rparr>) w2 else w2)
   }"

definition MQTTPacket_sends ::
  "addr \<Rightarrow> byte \<Rightarrow> byte list list \<Rightarrow> bool list \<Rightarrow> ('s, 'm) proto_scheme \<Rightarrow>
     (int \<times> ('s, 'm) proto_scheme) option" where
  "MQTTPacket_sends c header buffers frees w = do {
     client \<leftarrow> get_client c w;
     let buf = header # MQTTPacket_encode (sum_list (map (\<lambda>b. int (length b)) buffers));
     w1 \<leftarrow> (if header_type header = PUBLISH \<and> header_qos header \<noteq> 0 then do {
          b \<leftarrow> (if 2 < length buffers then Some (buffers ! 2) else None);
          (msgid, _) \<leftarrow> readInt b 0;
          (_, w1) \<leftarrow> MQTTPersistence_put (net_socket client) buf buffers (header_type header) msgid 0 w;
          Some w1
        } else Some w);
     (rc, w2) \<leftarrow> Socket_putdatas (net_socket client) buf buffers frees w1;
     Some (rc, if rc = TCPSOCKET_COMPLETE
               then upd_client c (\<lambda>cl. cl\<lparr>lastSent := sys_time w2\<rparr>) w2 else w2)
   }"

subsection \<open>Acknowledgements and packets without data\<close>

definition MQTTPacket_send_ack ::
  "int \<Rightarrow> int \<Rightarrow> int \<Rightarrow> addr \<Rightarrow> ('s, 'm) proto_scheme \<Rightarrow> (int \<times> ('s, 'm) proto_scheme) option" where
  "MQTTPacket_send_ack type msgid dup c w =
     MQTTPacket_send c (mk_header type dup (if type = PUBREL then 1 else 0) 0) (writeInt msgid) True w"

definition MQTTPacket_send_puback where "MQTTPacket_send_puback msgid c w = MQTTPacket_send_ack PUBACK msgid 0 c w"
definition MQTTPacket_send_pubrec where "MQTTPacket_send_pubrec msgid c w = MQTTPacket_send_ack PUBREC msgid 0 c w"
definition MQTTPacket_send_pubrel where
  "MQTTPacket_send_pubrel msgid dup c w = MQTTPacket_send_ack PUBREL msgid dup c w"
definition MQTTPacket_send_pubcomp where "MQTTPacket_send_pubcomp msgid c w = MQTTPacket_send_ack PUBCOMP msgid 0 c w"

definition MQTTPacket_send_pingreq ::
  "addr \<Rightarrow> ('s, 'm) proto_scheme \<Rightarrow> (int \<times> ('s, 'm) proto_scheme) option" where
  "MQTTPacket_send_pingreq c w = MQTTPacket_send c (mk_header PINGREQ 0 0 0) [] False w"

definition MQTTPacket_send_disconnect ::
  "addr \<Rightarrow> ('s, 'm) proto_scheme \<Rightarrow> (int \<times> ('s, 'm) proto_scheme) option" where
  "MQTTPacket_send_disconnect c w = MQTTPacket_send c (mk_header DISCONNECT 0 0 0) [] False w"

subsection \<open>PUBLISH\<close>

text \<open>The buffers after the fixed header; \<^verbatim>\<open>strlen\<close> of a NULL topic is undefined.\<close>

definition publish_bufs :: "Publish \<Rightarrow> int \<Rightarrow> (byte list list \<times> bool list) option" where
  "publish_bufs pack qos = do {
     t \<leftarrow> topic pack;
     pl \<leftarrow> (if payloadlen pack < 0 then None
            else rd_bytes (payload pack) 0 (nat (payloadlen pack)));
     let topiclen = writeInt (int (strlen t));
     Some (if qos > 0
       then ([topiclen, c_str t, writeInt (msgId pack), pl], [True, False, True, False])
       else ([topiclen, c_str t, pl], [True, False, False]))
   }"

definition MQTTPacket_send_publish ::
  "Publish \<Rightarrow> int \<Rightarrow> int \<Rightarrow> int \<Rightarrow> addr \<Rightarrow> ('s, 'm) proto_scheme \<Rightarrow>
     (int \<times> ('s, 'm) proto_scheme) option" where
  "MQTTPacket_send_publish pack dup qos retained c w = do {
     (bufs, frees) \<leftarrow> publish_bufs pack qos;
     MQTTPacket_sends c (mk_header PUBLISH dup qos retained) bufs frees w
   }"

subsection \<open>CONNECT\<close>

definition opt_len :: "byte list option \<Rightarrow> int" where
  "opt_len s = (case s of None \<Rightarrow> 0 | Some t \<Rightarrow> int (strlen t) + 2)"

definition connect_len :: "'s Clients \<Rightarrow> int \<Rightarrow> int" where
  "connect_len client version =
     (if version = 3 then 12 else 10) + int (strlen (clientID client)) + 2 +
     (case will client of None \<Rightarrow> 0
      | Some wl \<Rightarrow> int (strlen (w_topic wl)) + 2 + (int (strlen (w_msg wl)) + 2)) +
     opt_len (username client) + opt_len (password client)"

text \<open>The flags byte: cleanstart bit 1, will 2, will QoS 3-4, will retain 5, password 6, username 7.\<close>

definition connect_flags :: "'s Clients \<Rightarrow> byte" where
  "connect_flags client = byte_of (
     2 * (cleansession client mod 2) +
     (case will client of None \<Rightarrow> 0
      | Some wl \<Rightarrow> 4 + 8 * (w_qos wl mod 4) + 32 * (w_retained wl mod 2)) +
     (if password client = None then 0 else 64) + (if username client = None then 0 else 128))"

definition opt_utf :: "byte list option \<Rightarrow> byte list" where
  "opt_utf s = (case s of None \<Rightarrow> [] | Some t \<Rightarrow> writeUTF t)"

definition connect_bytes :: "'s Clients \<Rightarrow> int \<Rightarrow> byte list" where
  "connect_bytes client version =
     (if version = 3 then writeUTF (bytes_of ''MQIsdp'') @ writeChar 3
      else writeUTF (bytes_of ''MQTT'') @ writeChar 4) @
     writeChar (connect_flags client) @ writeInt (keepAliveInterval client) @
     writeUTF (clientID client) @
     (case will client of None \<Rightarrow> [] | Some wl \<Rightarrow> writeUTF (w_topic wl) @ writeUTF (w_msg wl)) @
     opt_utf (username client) @ opt_utf (password client)"

definition MQTTPacket_send_connect ::
  "addr \<Rightarrow> int \<Rightarrow> ('s, 'm) proto_scheme \<Rightarrow> (int \<times> ('s, 'm) proto_scheme) option" where
  "MQTTPacket_send_connect c version w = do {
     client \<leftarrow> get_client c w;
     if version \<noteq> 3 \<and> version \<noteq> 4 then Some (-1, w)
     else if int (length (connect_bytes client version)) \<noteq> connect_len client version then None
     else MQTTPacket_send c (mk_header CONNECT 0 0 0) (connect_bytes client version) True w
   }"

subsection \<open>SUBSCRIBE and UNSUBSCRIBE\<close>

text \<open>\<^verbatim>\<open>qosElem\<close> walks along; running out of QoS values is a NULL dereference.\<close>

fun subscribe_topics :: "byte list list \<Rightarrow> int list \<Rightarrow> byte list option" where
  "subscribe_topics [] qs = Some []"
| "subscribe_topics (t # ts) [] = None"
| "subscribe_topics (t # ts) (q # qs) = do {
     rest \<leftarrow> subscribe_topics ts qs;
     Some (writeUTF t @ writeChar (byte_of q) @ rest)
   }"

definition MQTTPacket_send_subscribe ::
  "byte list clist \<Rightarrow> int clist \<Rightarrow> int \<Rightarrow> int \<Rightarrow> addr \<Rightarrow> ('s, 'm) proto_scheme \<Rightarrow>
     (int \<times> ('s, 'm) proto_scheme) option" where
  "MQTTPacket_send_subscribe topics qs msgid dup c w = do {
     let datalen = 2 + cnt topics * 3 + sum_list (map (\<lambda>t. int (strlen t)) (contents topics));
     ts \<leftarrow> subscribe_topics (contents topics) (contents qs);
     let data = writeInt msgid @ ts;
     if int (length data) \<noteq> datalen then None
     else MQTTPacket_send c (mk_header SUBSCRIBE dup 1 0) data True w
   }"

definition MQTTPacket_send_unsubscribe ::
  "byte list clist \<Rightarrow> int \<Rightarrow> int \<Rightarrow> addr \<Rightarrow> ('s, 'm) proto_scheme \<Rightarrow>
     (int \<times> ('s, 'm) proto_scheme) option" where
  "MQTTPacket_send_unsubscribe topics msgid dup c w = do {
     let datalen = 2 + cnt topics * 2 + sum_list (map (\<lambda>t. int (strlen t)) (contents topics));
     let data = writeInt msgid @ concat (map writeUTF (contents topics));
     if int (length data) \<noteq> datalen then None
     else MQTTPacket_send c (mk_header UNSUBSCRIBE dup 1 0) data True w
   }"

subsection \<open>Facts about the builders\<close>

lemma length_opt_utf: "int (length (opt_utf s)) = opt_len s"
  by (simp add: opt_utf_def opt_len_def split: option.split)

lemma strlen_bytes_of: "0 \<notin> set (bytes_of s) \<Longrightarrow> strlen (bytes_of s) = length s"
  by simp

lemma connect_bytes_length:
  assumes "version = 3 \<or> version = 4"
  shows "int (length (connect_bytes client version)) = connect_len client version"
proof -
  have p: "strlen (bytes_of ''MQIsdp'') = 6" "strlen (bytes_of ''MQTT'') = 4" by code_simp+
  have "int (length (case will client of None \<Rightarrow> []
        | Some wl \<Rightarrow> writeUTF (w_topic wl) @ writeUTF (w_msg wl))) =
      (case will client of None \<Rightarrow> 0
        | Some wl \<Rightarrow> int (strlen (w_topic wl)) + 2 + (int (strlen (w_msg wl)) + 2))"
    by (simp split: option.split)
  with assms p show ?thesis
    by (auto simp: connect_bytes_def connect_len_def length_opt_utf)
qed

lemma subscribe_topics_length:
  "length ts \<le> length qs \<Longrightarrow> \<exists>b. subscribe_topics ts qs = Some b \<and>
     int (length b) = 3 * int (length ts) + sum_list (map (\<lambda>t. int (strlen t)) ts)"
proof (induction ts qs rule: subscribe_topics.induct)
  case (3 t ts q qs)
  then obtain b where "subscribe_topics ts qs = Some b"
    "int (length b) = 3 * int (length ts) + sum_list (map (\<lambda>t. int (strlen t)) ts)" by auto
  then show ?case by simp
qed simp_all

lemma unsubscribe_topics_length:
  "int (length (concat (map writeUTF ts))) = 2 * int (length ts) + sum_list (map (\<lambda>t. int (strlen t)) ts)"
  by (induction ts) auto

lemma publish_bufs_cases:
  assumes "publish_bufs pack qos = Some (bufs, frees)"
  obtains t pl where "topic pack = Some t" "0 \<le> payloadlen pack"
    "rd_bytes (payload pack) 0 (nat (payloadlen pack)) = Some pl"
    "concat bufs = writeUTF t @ (if qos > 0 then writeInt (msgId pack) else []) @ pl"
    "length bufs = length frees" "length bufs = (if qos > 0 then 4 else 3)"
  using assms
  by (auto simp: publish_bufs_def bind_Some_conv writeUTF_def Let_def split: if_splits)

subsection \<open>Properties\<close>



text \<open>
  SUBSCRIBE and UNSUBSCRIBE fit their blocks.  With at least as many QoS values as topics, the
  size computed from the list's count is the number of bytes written.
\<close>

theorem send_subscribe_fits:
  assumes "cl_wf topics" "length (items topics) \<le> length (items qs)"
  shows "\<exists>ts. subscribe_topics (contents topics) (contents qs) = Some ts \<and>
    MQTTPacket_send_subscribe topics qs msgid dup c w =
      MQTTPacket_send c (mk_header SUBSCRIBE dup 1 0) (writeInt msgid @ ts) True w \<and>
    MQTTPacket_send_unsubscribe topics msgid dup c w =
      MQTTPacket_send c (mk_header UNSUBSCRIBE dup 1 0)
        (writeInt msgid @ concat (map writeUTF (contents topics))) True w"
proof -
  have n: "cnt topics = int (length (contents topics))" using assms(1) by (simp add: cl_wf_def)
  obtain ts where ts: "subscribe_topics (contents topics) (contents qs) = Some ts"
    "int (length ts) = 3 * cnt topics + sum_list (map (\<lambda>t. int (strlen t)) (contents topics))"
    using subscribe_topics_length [of "contents topics" "contents qs"] assms(2) n by auto
  moreover have "int (length (concat (map writeUTF (contents topics)))) =
      2 * cnt topics + sum_list (map (\<lambda>t. int (strlen t)) (contents topics))"
    using unsubscribe_topics_length [of "contents topics"] n by simp
  ultimately show ?thesis
    by (simp add: MQTTPacket_send_subscribe_def MQTTPacket_send_unsubscribe_def Let_def)
qed

theorem send_subscribe_fits_witness:
  "\<exists>ts. subscribe_topics [[0x61]] [1] = Some ts \<and>
     MQTTPacket_send_subscribe (cl_add cl_empty [0x61] 1) (cl_add cl_empty 1 4) 7 0 0 (zero_state :: unit proto) =
       MQTTPacket_send 0 (mk_header SUBSCRIBE 0 1 0) (writeInt 7 @ ts) True zero_state"
proof -
  have "cl_wf (cl_add cl_empty [0x61 :: byte] 1)" by (intro wf_intros)
  moreover have "contents (cl_add cl_empty [0x61 :: byte] 1) = [[0x61]]"
    "contents (cl_add cl_empty (1 :: int) 4) = [1]"
    by (simp_all add: cl_add_def cl_append_def cl_empty_def)
  ultimately show ?thesis
    using send_subscribe_fits [of "cl_add cl_empty [0x61] 1" "cl_add cl_empty 1 4" 7 0 0
        "zero_state :: unit proto"]
    by (auto simp: cl_add_def cl_append_def cl_empty_def)
qed

text \<open>
  C11: a PUBLISH that is built parses back.  For topics below 64K and message ids of 16 bits, the
  parser applied to the bytes sent after the fixed header gives the same topic, message id (0 for
  QoS 0), payload and header bits, whatever is in memory behind the packet.
\<close>

theorem publish_roundtrip:
  assumes "publish_bufs pack qos = Some (bufs, frees)" "topic pack = Some t" "strlen t < 65536"
    "0 \<le> msgId pack" "msgId pack < 65536" "0 \<le> qos" "qos < 4"
  shows "\<exists>p. MQTTPacket_publish (mk_header PUBLISH dup qos retained) (concat bufs @ stale) (length (concat bufs)) =
      Some (Some (PkPublish p)) \<and>
    topic p = Some (c_str t) \<and> topiclen p = int (strlen t) \<and>
    msgId p = (if qos > 0 then msgId pack else 0) \<and> payloadlen p = payloadlen pack \<and>
    take (nat (payloadlen p)) (payload p) = take (nat (payloadlen pack)) (payload pack) \<and>
    header_qos (p_header p) = qos \<and> header_dup (p_header p) = dup mod 2 \<and>
    header_retain (p_header p) = retained mod 2"
proof -
  obtain pl where pl: "0 \<le> payloadlen pack"
    "rd_bytes (payload pack) 0 (nat (payloadlen pack)) = Some pl"
    "concat bufs = writeUTF t @ (if qos > 0 then writeInt (msgId pack) else []) @ pl"
    using assms(1,2) by (elim publish_bufs_cases) auto
  then have l: "int (length pl) = payloadlen pack" "pl = take (nat (payloadlen pack)) (payload pack)"
    by (auto simp: rd_bytes_def split: if_splits)
  let ?h = "mk_header PUBLISH dup qos retained"
  have q: "header_qos ?h = qos" using assms(6,7) by simp
  define rest where "rest = (if qos > 0 then writeInt (msgId pack) else []) @ pl @ stale"
  have b: "concat bufs @ stale = writeUTF t @ rest" by (simp add: pl(3) rest_def)
  have u: "readUTFlen (concat bufs @ stale) 0 (length (concat bufs)) 0 =
      Some (Some (c_str t), strlen t + 2, int (strlen t))"
    using readUTFlen_writeUTF [of t "[]" "length (concat bufs)" rest 0] assms(3)
    by (simp add: b) (simp add: pl(3))
  show ?thesis
  proof (cases "qos > 0")
    case True
    have "readInt (writeUTF t @ writeInt (msgId pack) @ pl @ stale) (length (writeUTF t)) =
        Some (msgId pack, length (writeUTF t) + 2)"
      using assms(4,5) by (rule readInt_writeInt)
    then have "readInt (concat bufs @ stale) (strlen t + 2) = Some (msgId pack, strlen t + 4)"
      using True by (simp add: pl(3))
    then show ?thesis
      using True u q l assms(6,7) pl by (simp add: MQTTPacket_publish_def)
  next
    case False
    then show ?thesis
      using u q l assms(6,7) pl by (simp add: MQTTPacket_publish_def)
  qed
qed

theorem publish_roundtrip_witness:
  "\<exists>p. MQTTPacket_publish (mk_header PUBLISH 0 1 0) ([0, 1, 0x74, 0, 7, 0x68, 0x69] @ [0xFF])
       (length [0 :: byte, 1, 0x74, 0, 7, 0x68, 0x69]) =
     Some (Some (PkPublish p)) \<and> topic p = Some [0x74] \<and> msgId p = 7 \<and> payloadlen p = 2"
proof -
  let ?p = "\<lparr>p_header = 0, topic = Some [0x74], topiclen = 1, msgId = 7, payload = [0x68, 0x69],
    payloadlen = 2, topic_heap = False\<rparr>"
  have "publish_bufs ?p 1 = Some ([[0, 1], [0x74], [0, 7], [0x68, 0x69]], [True, False, True, False])"
    by code_simp
  from publish_roundtrip [OF this, of "[0x74]" 0 0 "[0xFF]"] show ?thesis by auto
qed

end
