(* ===== verification/SocketWrite.thy ===== *)
theory SocketWrite
  imports Socket
begin

text \<open>
  What the write path of \<^verbatim>\<open>Socket.c\<close> puts on the wire.  \<open>writing\<close> is the state of a socket with a
  partial write: the entry of \<^verbatim>\<open>writes\<close> for the socket holds the whole packet and the count of
  bytes that are on the wire.  \<^verbatim>\<open>Socket_putdatas\<close> establishes it, \<^verbatim>\<open>Socket_continueWrite\<close> keeps it
  until the last byte is out.
\<close>

subsection \<open>Buffers\<close>

definition iov_ok :: "iobuf list \<Rightarrow> bool" where
  "iov_ok iovs \<longleftrightarrow> (\<forall>x\<in>set iovs. snd x = length (fst x))"

definition iov_data :: "iobuf list \<Rightarrow> byte list" where
  "iov_data iovs = concat (map fst iovs)"

lemma iov_simps [simp]:
  "iov_ok []" "iov_ok (x # xs) \<longleftrightarrow> snd x = length (fst x) \<and> iov_ok xs"
  "iov_data [] = []" "iov_data (x # xs) = fst x @ iov_data xs"
  by (simp_all add: iov_ok_def iov_data_def)

lemma iov_bytes_ok: "iov_ok iovs \<Longrightarrow> iov_bytes iovs = Some (iov_data iovs)"
  by (induction iovs) (auto simp: iov_bytes_def split: if_splits)

lemma iov_of_buffers [simp]:
  "iov_ok (map (\<lambda>b. (b, length b)) bs)" "iov_data (map (\<lambda>b. (b, length b)) bs) = concat bs"
  by (induction bs) auto

lemma rest_all: "bytes \<le> off \<Longrightarrow> rest_iovecs bytes off iovs = iovs"
proof (induction iovs arbitrary: off)
  case (Cons x iovs)
  obtain b n where x: "x = (b, n)" by force
  have "bytes \<le> off + int n" using Cons.prems by linarith
  from Cons.IH [OF this] Cons.prems x show ?case by simp
qed simp

text \<open>The buffers of the next attempt are a prefix of what is left, empty only if nothing is.\<close>

lemma rest_prefix:
  assumes "iov_ok iovs"
  shows "iov_ok (rest_iovecs bytes off iovs) \<and>
    (\<exists>ys. drop (nat (bytes - off)) (iov_data iovs) = iov_data (rest_iovecs bytes off iovs) @ ys)"
  using assms
proof (induction iovs arbitrary: off)
  case (Cons x iovs)
  obtain b n where x: "x = (b, n)" by force
  then have n: "n = length b" and ok: "iov_ok iovs" using Cons.prems by simp_all
  consider "bytes \<le> off" | "off < bytes" "bytes < off + int n" | "off + int n \<le> bytes" by linarith
  then show ?case
  proof cases
    case 1
    with Cons.prems show ?thesis by (simp add: rest_all)
  next
    case 2
    then have "nat (bytes - off) \<le> length b" using n by linarith
    with 2 x n show ?thesis by (auto simp: Let_def)
  next
    case 3
    have d: "nat (bytes - (off + int n)) = nat (bytes - off) - n" "n \<le> nat (bytes - off)"
      using 3 by linarith+
    show ?thesis
    proof (cases "bytes \<le> off")
      case True
      with Cons.prems show ?thesis by (simp add: rest_all)
    next
      case False
      with 3 have r: "rest_iovecs bytes off (x # iovs) = rest_iovecs bytes (off + int n) iovs"
        by (simp add: x)
      have "drop (nat (bytes - off)) (iov_data (x # iovs)) = drop (nat (bytes - (off + int n))) (iov_data iovs)"
        using d n by (simp add: x)
      with Cons.IH [OF ok, of "off + int n"] show ?thesis unfolding r by simp
    qed
  qed
qed simp

subsection \<open>The outcome of one system call\<close>

lemma Socket_writev_cases:
  assumes "iov_ok iovs"
  obtains (wrote) n w' where "Socket_writev socket iovs w = Some ((int n, int n), w')"
      "n \<le> length (iov_data iovs)" "sent w' socket = sent w socket @ take n (iov_data iovs)"
      "\<And>s. s \<noteq> socket \<Longrightarrow> sent w' s = sent w s" "writes w' = writes w"
      "write_pending w' = write_pending w" "pending_wset w' = pending_wset w"
  | (failed) rc w' where "Socket_writev socket iovs w = Some ((rc, 0), w')"
      "rc = SOCKET_ERROR \<or> rc = TCPSOCKET_INTERRUPTED" "sent w' = sent w" "writes w' = writes w"
      "write_pending w' = write_pending w" "pending_wset w' = pending_wset w"
proof -
  note iov = iov_bytes_ok [OF assms]
  show thesis
  proof (cases "os_write w socket")
    case Nil
    then show thesis
      by (intro wrote [of "length (iov_data iovs)"
            "w\<lparr>sent := (sent w)(socket := sent w socket @ iov_data iovs)\<rparr>"])
        (simp_all add: Socket_writev_def sys_writev_def iov)
  next
    case (Cons r rs)
    show thesis
    proof (cases r)
      case (WriteMax n)
      with Cons show thesis
        by (intro wrote [of "min n (length (iov_data iovs))"
              "w\<lparr>os_write := (os_write w)(socket := rs),
                 sent := (sent w)(socket := sent w socket @ take n (iov_data iovs))\<rparr>"])
          (auto simp: Socket_writev_def sys_writev_def iov min_def)
    next
      case (WriteError e)
      with Cons show thesis
        by (intro failed [of "if e = EWOULDBLOCK \<or> e = EAGAIN then TCPSOCKET_INTERRUPTED else SOCKET_ERROR"
              "w\<lparr>os_write := (os_write w)(socket := rs)\<rparr>"])
          (auto simp: Socket_writev_def sys_writev_def iov)
    qed
  qed
qed

subsection \<open>A partial write\<close>

text \<open>
  \<open>a\<close> is the entry, \<open>pre\<close> what the socket had sent before the packet, \<open>data\<close> the packet, \<open>n\<close> how much
  of it is on the wire.
\<close>

definition writing ::
  "int \<Rightarrow> addr \<Rightarrow> byte list \<Rightarrow> byte list \<Rightarrow> nat \<Rightarrow> 'm sockets_scheme \<Rightarrow> bool" where
  "writing socket a pre data n w \<longleftrightarrow>
     cl_wf (writes w) \<and> fst (cl_find (pending_socketcompare socket) (writes w)) = Some a \<and>
     (\<exists>pw. map_of (items (writes w)) a = Some pw \<and> pw_socket pw = socket \<and> iov_ok (pw_iovecs pw) \<and>
        iov_data (pw_iovecs pw) = data \<and> pw_total pw = int (length data) \<and> pw_bytes pw = int n) \<and>
     n \<le> length data \<and> sent w socket = pre @ take n data"

text \<open>A new entry is the one found when the socket had none.\<close>

lemma find_added:
  assumes "cl_wf l" "\<forall>c\<in>set (contents l). \<not> P c" "P x"
  shows "fst (cl_find P (cl_add l x s)) = Some (cl_fresh l)"
    "map_of (items (cl_add l x s)) (cl_fresh l) = Some x"
proof -
  have notin: "cl_fresh l \<notin> fst ` set (items l)" using cl_fresh_notin [of l] by simp
  show m: "map_of (items (cl_add l x s)) (cl_fresh l) = Some x"
  proof -
    have "map_of (items l) (cl_fresh l) = None" using notin by (simp add: map_of_eq_None_iff)
    then show ?thesis by (simp add: cl_add_def cl_append_def map_add_def)
  qed
  have wf: "cl_wf (cl_add l x s)" using assms(1) by (rule cl_wf_add)
  obtain p l' where f: "cl_find P (cl_add l x s) = (p, l')" by force
  have "x \<in> set (contents (cl_add l x s))" by (simp add: cl_add_def cl_append_def)
  with cl_find_None_iff [OF wf, of P] assms(3) f obtain a where a: "p = Some a" by auto
  then obtain c where c: "map_of (items (cl_add l x s)) a = Some c" "P c"
    using cl_find_SomeD [of P _ a l'] f wf by (auto simp: cl_wf_def)
  then have "(a, c) \<in> set (items (cl_add l x s))" by (auto dest: map_of_SomeD)
  with c(2) assms(2) have "a = cl_fresh l" by (force simp: cl_add_def cl_append_def)
  with f a show "fst (cl_find P (cl_add l x s)) = Some (cl_fresh l)" by simp
qed

lemma noPendingWrites_frame:
  assumes "Socket_noPendingWrites socket w = (r, w')"
  shows "\<exists>ps. w' = w\<lparr>write_pending := ps\<rparr>"
  using assms by (auto simp: Socket_noPendingWrites_def split: prod.splits)

text \<open>The packet as one array of buffers, its length, and the step that queues what was not written.\<close>

definition packet_iov :: "byte list \<Rightarrow> byte list list \<Rightarrow> (byte list \<times> nat) list" where
  "packet_iov buf0 buffers = map (\<lambda>b. (b, length b)) (buf0 # buffers)"

definition packet_length :: "byte list \<Rightarrow> byte list list \<Rightarrow> int" where
  "packet_length buf0 buffers = int (length buf0) + sum_list (map (\<lambda>b. int (length b)) buffers)"

definition queue_rest ::
  "int \<Rightarrow> byte list \<Rightarrow> byte list list \<Rightarrow> bool list \<Rightarrow> int \<Rightarrow> 'm sockets_scheme \<Rightarrow> (int \<times> 'm sockets_scheme) option" where
  "queue_rest socket buf0 buffers frees bytes w1 = do {
     w2 \<leftarrow> SocketBuffer_pendingWrite socket (int (length buffers) + 1) (packet_iov buf0 buffers) (True # frees)
       (packet_length buf0 buffers) bytes w1;
     Some (TCPSOCKET_INTERRUPTED,
       w2\<lparr>write_pending := cl_add (write_pending w2) socket 4, pending_wset := insert socket (pending_wset w2)\<rparr>) }"

lemma packet_iov_right:
  "iov_ok (packet_iov buf0 buffers)" "iov_data (packet_iov buf0 buffers) = buf0 @ concat buffers"
  "length (packet_iov buf0 buffers) = length buffers + 1"
  unfolding packet_iov_def iov_of_buffers by simp_all

lemma packet_length_right: "packet_length buf0 buffers = int (length (buf0 @ concat buffers))"
proof -
  have "sum_list (map (\<lambda>b. int (length b)) bs) = int (length (concat bs))" for bs :: "byte list list"
    by (induction bs) auto
  then show ?thesis by (simp add: packet_length_def)
qed

lemma putdatas_steps:
  assumes "length buffers \<le> 4" "Socket_noPendingWrites socket w = (r, w0)"
  shows "Socket_putdatas socket buf0 buffers frees w = (if \<not> r then Some (SOCKET_ERROR, w0)
      else do {
        ((rc, bytes), w1) \<leftarrow> Socket_writev socket (packet_iov buf0 buffers) w0;
        if rc = SOCKET_ERROR then Some (rc, w1)
        else if packet_length buf0 buffers \<ge> 0 \<and> bytes = packet_length buf0 buffers then Some (TCPSOCKET_COMPLETE, w1)
        else queue_rest socket buf0 buffers frees bytes w1})"
  unfolding Socket_putdatas_def assms(2) packet_iov_def packet_length_def queue_rest_def Let_def using assms(1) by simp

lemma queue_rest_right:
  assumes "cl_wf (writes w1)" "\<forall>pw\<in>set (contents (writes w1)). pw_socket pw \<noteq> socket"
    "length buffers \<le> 4" "length frees = length buffers"
    "n \<le> length (buf0 @ concat buffers)" "sent w1 socket = before @ take n (buf0 @ concat buffers)"
  shows "\<exists>w' a. queue_rest socket buf0 buffers frees (int n) w1 = Some (TCPSOCKET_INTERRUPTED, w') \<and> sent w' = sent w1 \<and>
    writing socket a before (buf0 @ concat buffers) n w'"
proof -
  let ?len = "packet_length buf0 buffers" and ?iov = "packet_iov buf0 buffers"
  define pw where "pw = \<lparr>pw_socket = socket, pw_total = ?len, pw_count = int (length buffers) + 1,
    pw_bytes = int n, pw_iovecs = ?iov, pw_frees = True # frees\<rparr>"
  let ?w = "w1\<lparr>writes := cl_add (writes w1) pw (8 + ?len), write_pending := cl_add (write_pending w1) socket 4,
    pending_wset := insert socket (pending_wset w1)\<rparr>"
  have e: "nat (int (length buffers) + 1) = length buffers + 1" by simp
  have "queue_rest socket buf0 buffers frees (int n) w1 = Some (TCPSOCKET_INTERRUPTED, ?w)"
    using assms(3,4) packet_iov_right(3) by (simp add: queue_rest_def SocketBuffer_pendingWrite_def e pw_def)
  moreover have nof: "\<forall>c\<in>set (contents (writes w1)). \<not> pending_socketcompare socket c"
    using assms(2) by (simp add: pending_socketcompare_def)
  have pwc: "pending_socketcompare socket pw" by (simp add: pending_socketcompare_def pw_def)
  have "writing socket (cl_fresh (writes w1)) before (buf0 @ concat buffers) n ?w"
    using find_added [OF assms(1) nof pwc, of "8 + ?len"] assms(1,5,6) packet_iov_right packet_length_right
    by (simp add: writing_def cl_wf_add) (simp add: pw_def)
  ultimately show ?thesis by (intro exI [of _ ?w]) auto
qed

subsection \<open>Properties\<close>



text \<open>Writing on: the bytes that follow, and the entry with its count kept up.\<close>

lemma written_next:
  assumes "drop n data = rest @ ys" "k \<le> length rest" "n \<le> length data"
  shows "take (n + k) data = take n data @ take k rest" "n + k \<le> length data"
proof -
  have "take k (drop n data) = take k rest" using assms(1,2) by simp
  then show "take (n + k) data = take n data @ take k rest" by (simp add: take_add)
  have "length rest \<le> length data - n" using arg_cong [OF assms(1), of length] by simp
  then show "n + k \<le> length data" using assms(2,3) by simp
qed

lemma writing_on:
  assumes "cl_find (pending_socketcompare socket) ws = (Some a, ws)" "cl_wf ws" "map_of (items ws) a = Some pw"
    "pw_socket pw = socket" "iov_ok (pw_iovecs pw)" "iov_data (pw_iovecs pw) = data" "pw_total pw = int (length data)"
    "writes w = ws" "n \<le> length data" "sent w socket = pre @ take n data"
  shows "writing socket a pre data n (w\<lparr>writes := cl_update a (\<lambda>_. pw\<lparr>pw_bytes := int n\<rparr>) (writes w)\<rparr>)"
proof -
  have "fst (cl_find (pending_socketcompare socket) (cl_update a (\<lambda>_. pw\<lparr>pw_bytes := int n\<rparr>) ws)) = Some a"
    using cl_find_update [of ws a "pending_socketcompare socket"] assms(1-4)
    by (simp add: pending_socketcompare_def cl_wf_def)
  with assms show ?thesis by (simp add: writing_def cl_wf_update map_of_update)
qed

text \<open>
  C14: continuing a partial write.  From a state where \<open>n\<close> bytes of the packet are on the wire, the
  call returns; unless the network reports an error (which leaves everything as it was), the bytes
  that follow on the wire are the next bytes of the packet, the count is kept up, and the result is
  1 exactly when the whole packet is out.
\<close>

theorem continueWrite_progress:
  assumes "writing socket a pre data n w"
  shows "\<exists>rc w'. Socket_continueWrite socket w = Some (rc, w') \<and>
    (\<forall>s. s \<noteq> socket \<longrightarrow> sent w' s = sent w s) \<and>
    (rc = SOCKET_ERROR \<and> writing socket a pre data n w' \<or>
     (\<exists>n'\<ge>n. writing socket a pre data n' w' \<and> rc = (if n' = length data then 1 else 0)))"
proof -
  obtain ws where f: "cl_find (pending_socketcompare socket) (writes w) = (Some a, ws)"
    using assms by (cases "cl_find (pending_socketcompare socket) (writes w)") (auto simp: writing_def)
  obtain pw where pw: "map_of (items (writes w)) a = Some pw" "pw_socket pw = socket"
    "iov_ok (pw_iovecs pw)" "iov_data (pw_iovecs pw) = data" "pw_total pw = int (length data)"
    "pw_bytes pw = int n" and n: "n \<le> length data" "sent w socket = pre @ take n data"
    and wf: "cl_wf (writes w)"
    using assms by (auto simp: writing_def)
  define w0 where "w0 = w\<lparr>writes := ws\<rparr>"
  have ws: "items ws = items (writes w)" using cl_find_frame [OF f] by simp
  have wfs: "cl_wf ws" using wf f by (rule cl_wf_find)
  define rest where "rest = rest_iovecs (pw_bytes pw) 0 (pw_iovecs pw)"
  obtain ys where rest: "iov_ok rest" "drop n data = iov_data rest @ ys"
    using rest_prefix [OF pw(3), of "pw_bytes pw" 0] pw(4,6) by (auto simp: rest_def)
  have step: "Socket_continueWrite socket w = do {
      ((rc, bytes), w1) \<leftarrow> Socket_writev socket rest w0;
      if rc = SOCKET_ERROR then Some (rc, w1)
      else
        let pw' = pw\<lparr>pw_bytes := pw_bytes pw + bytes\<rparr>
        in Some (if pw_total pw' \<ge> 0 \<and> pw_bytes pw' = pw_total pw' then 1 else 0,
                 w1\<lparr>writes := cl_update a (\<lambda>_. pw') (writes w1)\<rparr>) }"
    using f pw(1) ws by (simp add: Socket_continueWrite_def SocketBuffer_getWrite_def w0_def rest_def)
  have again: "cl_find (pending_socketcompare socket) ws = (Some a, ws)" using cl_find_again [OF f] .
  note after = writing_on [OF again wfs pw(1) [folded ws] pw(2-5)]
  show ?thesis
  proof (cases rule: Socket_writev_cases [OF rest(1), of socket w0, case_names wrote failed])
    case (wrote k w1)
    note k = written_next [OF rest(2) wrote(2) n(1)]
    have ne: "int k \<noteq> SOCKET_ERROR" by (simp add: rc_defs)
    have s: "sent w1 socket = pre @ take (n + k) data" using wrote(3) n(2) k by (simp add: w0_def)
    have "writes w1 = ws" using wrote(5) by (simp add: w0_def)
    from after [OF this k(2) s] wrote ne pw show ?thesis
      by (intro exI conjI) (auto simp: step w0_def Let_def intro!: exI [of _ "n + k"])
  next
    case (failed rc w1)
    have w1: "writes w1 = ws" "sent w1 socket = pre @ take n data"
      using failed n(2) by (simp_all add: w0_def)
    show ?thesis
    proof (cases "rc = SOCKET_ERROR")
      case True
      have "writing socket a pre data n w1"
        using w1 again wfs pw ws n by (simp add: writing_def)
      with failed True show ?thesis by (simp add: step w0_def)
    next
      case False
      from after [OF w1(1) n(1) w1(2)] failed False pw show ?thesis
        by (intro exI conjI) (auto simp: step w0_def Let_def intro!: exI [of _ n])
    qed
  qed
qed

text \<open>An example state: one of two bytes of a packet is out on socket 3, the next write takes one byte.\<close>

definition half_sent :: sockets where
  "half_sent = zero_sockets\<lparr>writes := cl_add cl_empty
     \<lparr>pw_socket = 3, pw_total = 2, pw_count = 1, pw_bytes = 1, pw_iovecs = [([7, 8], 2)], pw_frees = [True]\<rparr> 0,
     sent := (\<lambda>_. [7]), os_write := (\<lambda>_. [WriteMax 1])\<rparr>"

lemma writing_half_sent: "writing 3 1 [] [7, 8] 1 half_sent"
proof -
  let ?pw = "\<lparr>pw_socket = 3, pw_total = 2, pw_count = 1, pw_bytes = 1, pw_iovecs = [([7 :: byte, 8], 2)], pw_frees = [True]\<rparr>"
  have "cl_fresh (cl_empty :: pending_writes clist) = 1" by code_simp
  then show ?thesis
    using find_added [of cl_empty "pending_socketcompare 3" ?pw 0] cl_wf_add [of cl_empty ?pw 0]
    by (simp add: writing_def half_sent_def) (simp add: cl_empty_def pending_socketcompare_def)
qed

theorem continueWrite_progress_witness:
  "\<exists>rc w'. Socket_continueWrite 3 half_sent = Some (rc, w') \<and> (\<forall>s. s \<noteq> 3 \<longrightarrow> sent w' s = [7])"
  using continueWrite_progress [OF writing_half_sent] by (auto simp: half_sent_def)

lemma find_append_Some: "List.find P xs = Some y \<Longrightarrow> List.find P (xs @ ys) = Some y"
  by (induction xs) (auto split: if_splits)

lemma find_kept:
  assumes "fst (cl_find P l) = Some a" "cl_wf l"
  shows "fst (cl_find P (cl_add l x s)) = Some a" "map_of (items (cl_add l x s)) a = map_of (items l) a"
proof -
  have it: "items (cl_add l x s) = items l @ [(cl_fresh l, x)]" "cur (cl_add l x s) = cur l"
    by (simp_all add: cl_add_def cl_append_def)
  have old: "map_of (items (cl_add l x s)) b = map_of (items l) b" if "b \<in> set (addrs l)" for b
  proof -
    have "b \<noteq> cl_fresh l" using that cl_fresh_notin [of l] by blast
    then show ?thesis by (simp add: it map_add_def split: option.split)
  qed
  have content: "cl_content (cl_add l x s) (cur l) = cl_content l (cur l)"
    using assms(2) old by (auto simp: cl_content_def cl_wf_def split: option.splits)
  show "fst (cl_find P (cl_add l x s)) = Some a"
  proof (cases "\<exists>c\<in>set_option (cl_content l (cur l)). P c")
    case True
    with assms(1) content show ?thesis by (auto simp: cl_find_def it)
  next
    case False
    with assms(1) obtain y where "List.find (\<lambda>x. P (snd x)) (items l) = Some y" "a = fst y"
      by (auto simp: cl_find_def split: option.splits)
    then show ?thesis using False content by (simp add: cl_find_def it find_append_Some)
  qed
  obtain l' where "cl_find P l = (Some a, l')" using assms(1) by (cases "cl_find P l") auto
  then obtain c where "map_of (items l) a = Some c"
    using cl_find_SomeD assms(2) unfolding cl_wf_def by blast
  then have "a \<in> set (addrs l)" by (metis domI dom_map_of_conv_image_fst set_map)
  then show "map_of (items (cl_add l x s)) a = map_of (items l) a" by (rule old)
qed

lemma close_writes: "writes (Socket_close socket w) = writes w"
  by (auto simp: Socket_close_def SocketBuffer_cleanup_def Let_def split: prod.splits option.splits)



end
