(* ===== verification/SocketRead.thy ===== *)
theory SocketRead
  imports PacketOut
begin

text \<open>
  Reading a packet that arrives in pieces.  The bytes of a packet may be split over any number of
  \<^verbatim>\<open>recv\<close> results with \<^verbatim>\<open>EAGAIN\<close> in between; \<^verbatim>\<open>SocketBuffer.c\<close> keeps the header bytes and the data
  read so far and replays them in the next call.  \<open>reading\<close> is the invariant of one socket's queue
  during a call and between calls; the main result is that repeated calls return the packet, the
  same as if it had come at once, and leave the stream at the next packet.
\<close>

subsection \<open>The queue of one socket\<close>

definition mine :: "int \<Rightarrow> 'm sbuf_scheme \<Rightarrow> (addr \<times> socket_queue) list" where
  "mine socket w = filter (\<lambda>x. q_socket (snd x) = socket) (items (queues w))"

definition queue_ok :: "socket_queue \<Rightarrow> bool" where
  "queue_ok q \<longleftrightarrow> length (q_fixed_header q) = 5 \<and> length (q_buf q) \<le> q_alloc q \<and>
     q_buflen q \<le> int (q_alloc q)"

definition spare :: "socket_queue \<Rightarrow> bool" where
  "spare q \<longleftrightarrow> queue_ok q \<and> q_socket q = 0 \<and> q_datalen q = 0"

text \<open>The queue \<open>q\<close> serves the socket: an element of the list, or the default queue.\<close>

definition serving :: "int \<Rightarrow> addr option \<Rightarrow> socket_queue \<Rightarrow> 'm sbuf_scheme \<Rightarrow> bool" where
  "serving socket e q w \<longleftrightarrow> socket \<noteq> 0 \<and> cl_wf (queues w) \<and> length (junk_header w) = 5 \<and> queue_ok q \<and>
     (case e of
        None \<Rightarrow> mine socket w = [] \<and> def_queue w = q
      | Some a \<Rightarrow> mine socket w = [(a, q)] \<and> spare (def_queue w))"

lemma serving_find:
  assumes "serving socket e q w"
  shows "\<exists>qs. cl_find (socketcompare socket) (queues w) = (e, qs) \<and> serving socket e q (w\<lparr>queues := qs\<rparr>) \<and>
    items qs = items (queues w) \<and> cl_wf qs"
proof -
  have wf: "cl_wf (queues w)" using assms by (simp add: serving_def)
  obtain p qs where f: "cl_find (socketcompare socket) (queues w) = (p, qs)" by force
  note fr = cl_find_frame [OF f] and wf' = cl_wf_find [OF wf f]
  have "p = e"
  proof (cases e)
    case None
    with assms have "\<forall>c\<in>set (contents (queues w)). \<not> socketcompare socket c"
      by (auto simp: serving_def mine_def filter_empty_conv socketcompare_def)
    with cl_find_None_iff [OF wf, of "socketcompare socket"] f None show ?thesis by auto
  next
    case (Some a)
    with assms have m: "mine socket w = [(a, q)]" by (simp add: serving_def)
    then have "(a, q) \<in> set (items (queues w))" "q_socket q = socket"
      by (auto simp: mine_def filter_eq_Cons_iff)
    then have "p \<noteq> None"
      using cl_find_None_iff [OF wf, of "socketcompare socket"] f by (auto simp: socketcompare_def)
    then obtain b where b: "p = Some b" by auto
    with f cl_find_SomeD [of "socketcompare socket" "queues w" b qs] wf
    obtain c where "map_of (items (queues w)) b = Some c" "socketcompare socket c"
      by (auto simp: cl_wf_def)
    then have "(b, c) \<in> set (mine socket w)"
      by (auto simp: mine_def socketcompare_def dest: map_of_SomeD)
    with m b Some show ?thesis by simp
  qed
  with f fr wf' assms show ?thesis by (auto simp: serving_def mine_def split: option.splits)
qed

lemma serving_queue:
  assumes "serving socket e q w"
  shows "the_queue e w = q"
proof (cases e)
  case (Some a)
  with assms have "mine socket w = [(a, q)]" "cl_wf (queues w)" by (simp_all add: serving_def)
  then have "map_of (items (queues w)) a = Some q"
    by (auto simp: mine_def filter_eq_Cons_iff cl_wf_def)
  with Some show ?thesis by (simp add: the_queue_def)
qed (use assms in \<open>simp add: the_queue_def serving_def\<close>)

lemma serving_upd:
  assumes s: "serving socket e q w" and ok: "queue_ok (f q)"
    and sock: "e \<noteq> None \<Longrightarrow> q_socket (f q) = socket"
  shows "serving socket e (f q) (upd_queue e f w)"
proof (cases e)
  case (Some a)
  with s have m: "mine socket w = [(a, q)]" and wf: "cl_wf (queues w)" by (simp_all add: serving_def)
  have mq: "map_of (items (queues w)) a = Some q"
    using m wf by (auto simp: mine_def filter_eq_Cons_iff cl_wf_def)
  let ?g = "\<lambda>(b, c). (b, if b = a then f c else c)"
  have "filter (\<lambda>x. q_socket (snd x) = socket) (map ?g xs) = map ?g (filter (\<lambda>x. q_socket (snd x) = socket) xs)"
    if "\<And>b c. (b, c) \<in> set xs \<Longrightarrow> b = a \<Longrightarrow> c = q" for xs
    using that
  proof (induction xs)
    case (Cons x xs)
    obtain b c where x: "x = (b, c)" by force
    have qs: "q_socket q = socket" using m by (auto simp: mine_def filter_eq_Cons_iff)
    have "filter (\<lambda>x. q_socket (snd x) = socket) (map ?g xs) =
        map ?g (filter (\<lambda>x. q_socket (snd x) = socket) xs)" using Cons by auto
    moreover have "b = a \<Longrightarrow> c = q" using Cons.prems x by auto
    ultimately show ?case using x qs sock Some by auto
  qed simp
  moreover have "c = q" if "(b, c) \<in> set (items (queues w))" "b = a" for b c
    using that mq wf by (auto simp: cl_wf_def)
  ultimately have "mine socket (upd_queue e f w) = map ?g (mine socket w)"
    using Some by (simp add: mine_def upd_queue_def cl_update_def)
  with Some s ok m wf show ?thesis
    by (auto simp: serving_def upd_queue_def cl_wf_update)
qed (use s ok in \<open>auto simp: serving_def upd_queue_def mine_def\<close>)

lemma os_upd_queue [simp]:
  "os_recv (upd_queue e f w) = os_recv w" "junk_header (upd_queue e f w) = junk_header w"
  by (simp_all add: upd_queue_def split: option.split)

lemma interrupted_serving:
  assumes s: "serving socket e q w" and qs: "q_socket q = socket"
  shows "\<exists>a. serving socket (Some a) (q\<lparr>q_index := 0, q_datalen := n\<rparr>) (SocketBuffer_interrupted socket n w)"
proof -
  obtain l where f: "cl_find (socketcompare socket) (queues w) = (e, l)"
    and s': "serving socket e q (w\<lparr>queues := l\<rparr>)" and wf: "cl_wf l"
    using serving_find [OF s] by blast
  let ?g = "\<lambda>q. q\<lparr>q_index := 0, q_datalen := n\<rparr>"
  have ok: "queue_ok (?g q)" using s by (simp add: serving_def queue_ok_def)
  show ?thesis
  proof (cases e)
    case (Some a)
    with serving_upd [OF s', of ?g] ok qs f show ?thesis
      by (auto simp: SocketBuffer_interrupted_def)
  next
    case None
    with s' have q: "def_queue w = q" "mine socket (w\<lparr>queues := l\<rparr>) = []" "length (junk_header w) = 5"
      "socket \<noteq> 0" by (simp_all add: serving_def)
    let ?l = "cl_add l (?g q) (40 + q_buflen q)"
    have "filter (\<lambda>x. q_socket (snd x) = socket) (items ?l) = [(cl_fresh l, ?g q)]"
      using q(2) qs by (simp add: mine_def cl_add_def cl_append_def)
    moreover have "cl_wf ?l" using wf by (rule cl_wf_add)
    ultimately have "serving socket (Some (cl_fresh l)) (?g q)
        (SocketBuffer_newDefQ (w\<lparr>queues := ?l\<rparr>))"
      using q ok by (simp add: serving_def mine_def SocketBuffer_newDefQ_def spare_def queue_ok_def)
    with f None q(1) show ?thesis by (auto simp: SocketBuffer_interrupted_def)
  qed
qed

lemma interrupted_idle:
  assumes s: "serving socket None q w" and qs: "q_socket q = 0"
  shows "\<exists>q'. spare q' \<and> serving socket None q' (SocketBuffer_interrupted socket n w)"
proof -
  obtain l where f: "cl_find (socketcompare socket) (queues w) = (None, l)"
    and s': "serving socket None q (w\<lparr>queues := l\<rparr>)" and wf: "cl_wf l"
    using serving_find [OF s] by blast
  from s' have q: "def_queue w = q" "mine socket (w\<lparr>queues := l\<rparr>) = []" "length (junk_header w) = 5"
    "socket \<noteq> 0" by (simp_all add: serving_def)
  let ?l = "cl_add l (q\<lparr>q_index := 0, q_datalen := n\<rparr>) (40 + q_buflen q)"
  have "filter (\<lambda>x. q_socket (snd x) = socket) (items ?l) = []"
    using q(2,4) qs by (simp add: mine_def cl_add_def cl_append_def)
  moreover have "cl_wf ?l" using wf by (rule cl_wf_add)
  ultimately have "serving socket None (def_queue (SocketBuffer_newDefQ (w\<lparr>queues := ?l\<rparr>)))
      (SocketBuffer_newDefQ (w\<lparr>queues := ?l\<rparr>)) \<and> spare (def_queue (SocketBuffer_newDefQ (w\<lparr>queues := ?l\<rparr>)))"
    using q by (simp add: serving_def mine_def SocketBuffer_newDefQ_def spare_def queue_ok_def)
  with f q(1) show ?thesis by (auto simp: SocketBuffer_interrupted_def)
qed

lemma complete_serving:
  assumes s: "serving socket e q w"
  shows "serving socket None (clear_queue q) (SocketBuffer_complete socket w)"
proof -
  obtain l where f: "cl_find (socketcompare socket) (queues w) = (e, l)"
    and s': "serving socket e q (w\<lparr>queues := l\<rparr>)" and wf: "cl_wf l"
    using serving_find [OF s] by blast
  have ok: "queue_ok (clear_queue q)" using s by (simp add: serving_def queue_ok_def clear_queue_def)
  show ?thesis
  proof (cases e)
    case None
    with f s' ok show ?thesis
      by (simp add: SocketBuffer_complete_def serving_def mine_def)
  next
    case (Some a)
    with s' have m: "filter (\<lambda>x. q_socket (snd x) = socket) (items l) = [(a, q)]"
      by (simp add: serving_def mine_def)
    then obtain xs ys where sp: "items l = xs @ (a, q) # ys"
      "filter (\<lambda>x. q_socket (snd x) = socket) xs = []" "filter (\<lambda>x. q_socket (snd x) = socket) ys = []"
      by (auto simp: filter_eq_Cons_iff)
    obtain l' where l': "cl_remove_at a l = (Some q, l')" "items l' = xs @ ys"
      using cl_remove_at_split [OF sp(1) wf] by auto
    have wf': "cl_wf l'" using wf l'(1) by (rule cl_wf_remove_at)
    have tq: "the_queue (Some a) (w\<lparr>queues := l\<rparr>) = q" using serving_queue [OF s'] Some by simp
    show ?thesis
      using f Some l' wf' sp ok s' tq
      by (simp add: SocketBuffer_complete_def serving_def mine_def)
  qed
qed

subsection \<open>The header bytes\<close>

text \<open>
  \<open>hdr\<close> are the header bytes received so far, \<open>i\<close> how many of them the current call has consumed, \<open>d\<close>
  the data received so far.
\<close>

definition progress :: "int \<Rightarrow> addr option \<Rightarrow> nat \<Rightarrow> byte list \<Rightarrow> byte list \<Rightarrow> socket_queue \<Rightarrow> bool" where
  "progress socket e i hdr d q \<longleftrightarrow> length hdr \<le> 5 \<and> take (length hdr) (q_fixed_header q) = hdr \<and> i \<le> length hdr \<and>
     (case e of
        None \<Rightarrow> i = length hdr \<and> d = [] \<and> q_datalen q = 0 \<and>
          (if hdr = [] then q_socket q = 0
           else q_socket q = socket \<and> q_index q = int i \<and> q_headerlen q = int i)
      | Some a \<Rightarrow> q_socket q = socket \<and> q_index q = int i \<and> q_headerlen q = int (length hdr) \<and>
          q_datalen q = int (length d) \<and> length d \<le> length (q_buf q) \<and> take (length d) (q_buf q) = d)"

definition reading ::
  "int \<Rightarrow> addr option \<Rightarrow> nat \<Rightarrow> byte list \<Rightarrow> byte list \<Rightarrow> 'm sbuf_scheme \<Rightarrow> bool" where
  "reading socket e i hdr d w \<longleftrightarrow> (\<exists>q. serving socket e q w \<and> progress socket e i hdr d q)"

lemma getQueuedChar_replay:
  assumes "reading socket e i hdr d w" "i < length hdr"
  shows "\<exists>w'. SocketBuffer_getQueuedChar socket c w = Some ((TCPSOCKET_COMPLETE, hdr ! i), w') \<and>
    reading socket e (Suc i) hdr d w'"
proof -
  obtain q where s: "serving socket e q w" and p: "progress socket e i hdr d q"
    using assms(1) by (auto simp: reading_def)
  obtain l where f: "cl_find (socketcompare socket) (queues w) = (e, l)"
    and s': "serving socket e q (w\<lparr>queues := l\<rparr>)"
    using serving_find [OF s] by blast
  obtain a where e: "e = Some a" using p assms(2) by (cases e) (auto simp: progress_def)
  let ?g = "\<lambda>q. q\<lparr>q_index := q_index q + 1\<rparr>"
  have fh: "rd (q_fixed_header q) i = Some (hdr ! i)"
  proof -
    have "length (q_fixed_header q) = 5" using s by (simp add: serving_def queue_ok_def)
    moreover have "hdr ! i = q_fixed_header q ! i" using p assms(2)
      by (metis progress_def nth_take)
    ultimately show ?thesis using p assms(2) by (simp add: rd_def progress_def)
  qed
  have "queue_ok (?g q)" using s by (simp add: serving_def queue_ok_def)
  with serving_upd [OF s', of ?g] p e have "serving socket e (?g q) (upd_queue e ?g (w\<lparr>queues := l\<rparr>))"
    by (simp add: progress_def)
  moreover have "progress socket e (Suc i) hdr d (?g q)" using p e assms(2) by (simp add: progress_def)
  ultimately have "reading socket e (Suc i) hdr d (upd_queue e ?g (w\<lparr>queues := l\<rparr>))"
    unfolding reading_def by blast
  moreover have "q_index q = int i" "q_headerlen q = int (length hdr)" using p e by (simp_all add: progress_def)
  ultimately show ?thesis
    using f e serving_queue [OF s'] assms(2) fh
    by (simp add: SocketBuffer_getQueuedChar_def Let_def)
qed

lemma getQueuedChar_end:
  assumes "reading socket e (length hdr) hdr d w" "length hdr < 5"
  shows "\<exists>w'. SocketBuffer_getQueuedChar socket c w = Some ((TCPSOCKET_INTERRUPTED, c), w') \<and>
    reading socket e (length hdr) hdr d w'"
proof -
  obtain q where s: "serving socket e q w" and p: "progress socket e (length hdr) hdr d q"
    using assms(1) by (auto simp: reading_def)
  obtain l where f: "cl_find (socketcompare socket) (queues w) = (e, l)"
    and s': "serving socket e q (w\<lparr>queues := l\<rparr>)"
    using serving_find [OF s] by blast
  have "reading socket e (length hdr) hdr d (w\<lparr>queues := l\<rparr>)" using s' p unfolding reading_def by blast
  with f serving_queue [OF s'] p assms(2) show ?thesis
    by (auto simp: SocketBuffer_getQueuedChar_def progress_def Let_def split: option.split)
qed

lemma queueChar_stores:
  assumes "reading socket e (length hdr) hdr [] w" "length hdr < 5"
  shows "\<exists>w'. SocketBuffer_queueChar socket b w = Some w' \<and>
    reading socket e (Suc (length hdr)) (hdr @ [b]) [] w'"
proof -
  obtain q where s: "serving socket e q w" and p: "progress socket e (length hdr) hdr [] q"
    using assms(1) by (auto simp: reading_def)
  obtain l where f: "cl_find (socketcompare socket) (queues w) = (e, l)"
    and s': "serving socket e q (w\<lparr>queues := l\<rparr>)"
    using serving_find [OF s] by blast
  let ?h = "length hdr"
  let ?g = "\<lambda>q. q\<lparr>q_fixed_header := (q_fixed_header q)[nat (q_index q) := b],
     q_index := q_index q + 1, q_headerlen := q_index q + 1\<rparr>"
  have l5: "length (q_fixed_header q) = 5" using s by (simp add: serving_def queue_ok_def)
  have nz: "socket \<noteq> 0" using s by (simp add: serving_def)
  have fh: "take (Suc ?h) ((q_fixed_header q)[?h := b]) = hdr @ [b]"
    using p assms(2) l5 by (simp add: progress_def take_Suc_conv_app_nth)
  define q1 where "q1 = (if e = None \<and> hdr = []
    then q\<lparr>q_socket := socket, q_index := 0, q_datalen := 0\<rparr> else q)"
  have q1: "q_index q1 = int ?h" "q_socket q1 = socket" "q_fixed_header q1 = q_fixed_header q"
    "q_datalen q1 = 0" "queue_ok q1"
    using p s by (cases e; force simp: q1_def progress_def serving_def queue_ok_def)+
  define w2 where "w2 = (if e = None \<and> hdr = [] then w\<lparr>queues := l, def_queue := q1\<rparr> else w\<lparr>queues := l\<rparr>)"
  have s2: "serving socket e q1 w2"
    using s' q1(5) by (cases e) (auto simp: serving_def mine_def w2_def q1_def)
  have "queue_ok (?g q1)" using q1(5) by (simp add: queue_ok_def)
  with serving_upd [OF s2, of ?g] q1(2) have s3: "serving socket e (?g q1) (upd_queue e ?g w2)" by simp
  have "progress socket e (Suc ?h) (hdr @ [b]) [] (?g q1)"
    using q1 fh assms(2) by (simp add: progress_def split: option.split)
  with s3 have r: "reading socket e (Suc ?h) (hdr @ [b]) [] (upd_queue e ?g w2)"
    unfolding reading_def by blast
  have dq: "e = None \<Longrightarrow> def_queue (w\<lparr>queues := l\<rparr>) = q" using s' by (simp add: serving_def)
  have sock: "e = None \<Longrightarrow> hdr \<noteq> [] \<Longrightarrow> q_socket q = socket" "e = None \<Longrightarrow> hdr = [] \<Longrightarrow> q_socket q = 0"
    using p by (auto simp: progress_def)
  have tq: "the_queue e w2 = q1" by (rule serving_queue [OF s2])
  have "SocketBuffer_queueChar socket b w = Some (upd_queue e ?g w2)"
  proof (cases "e = None \<and> hdr = []")
    case True
    with f dq sock tq q1(1) assms(2) show ?thesis
      by (simp add: SocketBuffer_queueChar_def Let_def w2_def q1_def)
  next
    case False
    then have "w2 = w\<lparr>queues := l\<rparr>" by (auto simp: w2_def)
    moreover have "e = None \<Longrightarrow> q_socket q = socket" using sock False by auto
    ultimately show ?thesis using f dq nz tq q1(1) assms(2)
      by (auto simp: SocketBuffer_queueChar_def Let_def)
  qed
  with r show ?thesis by blast
qed

subsection \<open>The network\<close>

text \<open>No errors and no end of the stream; the bytes that are to come.\<close>

definition calm :: "recv_reply list \<Rightarrow> bool" where
  "calm rs \<longleftrightarrow> (\<forall>r\<in>set rs. case r of RecvData bs \<Rightarrow> bs \<noteq> [] | RecvError e \<Rightarrow> e = EAGAIN)"

fun arriving :: "recv_reply list \<Rightarrow> byte list" where
  "arriving [] = []"
| "arriving (RecvData bs # rs) = bs @ arriving rs"
| "arriving (RecvError e # rs) = arriving rs"

lemma recv_calm:
  assumes "calm (os_recv w socket)" "0 < n" "arriving (os_recv w socket) \<noteq> []"
  obtains (again) rs where "sys_recv socket n w = (Inl EAGAIN, w\<lparr>os_recv := (os_recv w)(socket := rs)\<rparr>)"
      "calm rs" "arriving rs = arriving (os_recv w socket)" "length rs < length (os_recv w socket)"
  | (some) bs rs where "sys_recv socket n w = (Inr bs, w\<lparr>os_recv := (os_recv w)(socket := rs)\<rparr>)"
      "calm rs" "arriving (os_recv w socket) = bs @ arriving rs" "bs \<noteq> []" "length bs \<le> n"
      "length rs \<le> length (os_recv w socket)"
      "length bs < n \<Longrightarrow> length rs < length (os_recv w socket)"
proof (cases "os_recv w socket")
  case Nil
  with assms(3) show thesis by simp
next
  case (Cons r rs)
  show thesis
  proof (cases r)
    case (RecvError e)
    with Cons assms(1) show thesis
      by (intro again [of rs]) (auto simp: sys_recv_def calm_def)
  next
    case (RecvData bs)
    show thesis
    proof (cases "length bs > n")
      case True
      with RecvData Cons assms show thesis
        by (intro some [of "take n bs" "RecvData (drop n bs) # rs"]) (auto simp: sys_recv_def calm_def)
    next
      case False
      with RecvData Cons assms show thesis
        by (intro some [of bs rs]) (auto simp: sys_recv_def calm_def)
    qed
  qed
qed

lemma reading_os [simp]:
  "mine socket (w\<lparr>os_recv := x\<rparr>) = mine socket w"
  "reading socket e i hdr d (w\<lparr>os_recv := x\<rparr>) = reading socket e i hdr d w"
  "serving socket e q (w\<lparr>os_recv := x\<rparr>) = serving socket e q w"
  by (simp_all add: reading_def serving_def mine_def split: option.split)

lemma sbuf_os:
  "SocketBuffer_getQueuedChar socket c w = Some (r, w') \<Longrightarrow> os_recv w' = os_recv w"
  "SocketBuffer_queueChar socket c w = Some w' \<Longrightarrow> os_recv w' = os_recv w"
  "os_recv (SocketBuffer_interrupted socket n w) = os_recv w"
  "os_recv (SocketBuffer_complete socket w) = os_recv w"
  by (auto simp: SocketBuffer_getQueuedChar_def SocketBuffer_queueChar_def SocketBuffer_interrupted_def
      SocketBuffer_complete_def SocketBuffer_newDefQ_def Let_def bind_Some_conv
      split: prod.splits option.splits if_splits)

lemma mk_byte: "length bs \<le> Suc 0 \<Longrightarrow> bs \<noteq> [] \<Longrightarrow> \<exists>b. bs = [b]"
  by (cases bs) auto

text \<open>
  The whole invariant: \<open>H\<close> is the header of the packet that is arriving, \<open>P\<close> its data, \<open>later\<close> what
  follows it.
\<close>

definition arrival ::
  "int \<Rightarrow> byte list \<Rightarrow> byte list \<Rightarrow> byte list \<Rightarrow> addr option \<Rightarrow> nat \<Rightarrow> byte list \<Rightarrow> byte list \<Rightarrow>
     'm sockets_scheme \<Rightarrow> bool" where
  "arrival socket H P later e i hdr d w \<longleftrightarrow>
     reading socket e i hdr d w \<and> calm (os_recv w socket) \<and> length H \<le> 5 \<and>
     hdr @ d @ arriving (os_recv w socket) = H @ P @ later \<and> length hdr \<le> length H \<and>
     (d \<noteq> [] \<longrightarrow> hdr = H)"

text \<open>Between two calls: nothing consumed, the packet not complete.\<close>

definition resting ::
  "int \<Rightarrow> byte list \<Rightarrow> byte list \<Rightarrow> byte list \<Rightarrow> 'm sockets_scheme \<Rightarrow> bool" where
  "resting socket H P later w \<longleftrightarrow> (\<exists>e hdr d. arrival socket H P later e 0 hdr d w \<and>
     (hdr = H \<longrightarrow> length d < length P))"

lemma getch_step:
  assumes a: "arrival socket H P later e i hdr d w" and i: "i < length H"
  shows "\<exists>rc c w'. Socket_getch socket c0 w = Some ((rc, c), w') \<and>
    (rc = TCPSOCKET_COMPLETE \<and> c = H ! i \<and>
       (\<exists>hdr'. arrival socket H P later e (Suc i) hdr' d w' \<and> (hdr' = hdr \<or> length hdr' = Suc i \<and> d = [])) \<and>
       length (os_recv w' socket) \<le> length (os_recv w socket) \<or>
     rc = TCPSOCKET_INTERRUPTED \<and> resting socket H P later w' \<and>
       length (os_recv w' socket) < length (os_recv w socket))"
proof -
  have r: "reading socket e i hdr d w" and eq: "hdr @ d @ arriving (os_recv w socket) = H @ P @ later"
    and calm: "calm (os_recv w socket)" and lH: "length H \<le> 5" and lh: "length hdr \<le> length H"
    and dH: "d \<noteq> [] \<longrightarrow> hdr = H"
    using a by (auto simp: arrival_def)
  have pre: "hdr = take (length hdr) H"
    using arg_cong [OF eq, of "take (length hdr)"] lh by simp
  have ile: "i \<le> length hdr" using r by (auto simp: reading_def progress_def)
  show ?thesis
  proof (cases "i < length hdr")
    case True
    from getQueuedChar_replay [OF r True] obtain w1 where
      w1: "SocketBuffer_getQueuedChar socket c0 w = Some ((TCPSOCKET_COMPLETE, hdr ! i), w1)"
      "reading socket e (Suc i) hdr d w1" by blast
    have "hdr ! i = H ! i" using pre True by (metis nth_take)
    moreover have "arrival socket H P later e (Suc i) hdr d w1"
      using a w1 sbuf_os(1) [OF w1(1)] by (simp add: arrival_def)
    ultimately show ?thesis using w1(1) sbuf_os(1) [OF w1(1)]
      by (auto simp: Socket_getch_def rc_defs)
  next
    case False
    with ile have ih: "i = length hdr" by simp
    have d: "d = []" using dH ih i by auto
    have h5: "length hdr < 5" using ih i lH by simp
    from getQueuedChar_end [of socket e hdr d w c0] r ih h5 obtain w1 where
      w1: "SocketBuffer_getQueuedChar socket c0 w = Some ((TCPSOCKET_INTERRUPTED, c0), w1)"
      "reading socket e (length hdr) hdr d w1" by blast
    have os: "os_recv w1 = os_recv w" by (rule sbuf_os(1) [OF w1(1)])
    have ne: "arriving (os_recv w1 socket) \<noteq> []"
      using arg_cong [OF eq, of length] ih i d os by auto
    show ?thesis
    proof (cases rule: recv_calm [of w1 socket 1, case_names calm pos ne again some])
      case calm
      with \<open>calm (os_recv w socket)\<close> os show ?case by simp
    next
      case pos
      show ?case by simp
    next
      case ne
      from \<open>arriving (os_recv w1 socket) \<noteq> []\<close> show ?case .
    next
      case (again rs)
      let ?w2 = "w1\<lparr>os_recv := (os_recv w1)(socket := rs)\<rparr>"
      have w2: "reading socket e (length hdr) hdr d ?w2" using w1(2) by simp
      then obtain q where s: "serving socket e q ?w2" and p: "progress socket e (length hdr) hdr d q"
        by (auto simp: reading_def)
      have "\<exists>e'. reading socket e' 0 hdr [] (SocketBuffer_interrupted socket 0 ?w2)"
      proof (cases "e = None \<and> hdr = []")
        case True
        with s p interrupted_idle [of socket q ?w2 0] obtain q' where
          "spare q'" "serving socket None q' (SocketBuffer_interrupted socket 0 ?w2)"
          by (auto simp: progress_def)
        with True show ?thesis
          by (auto simp: reading_def progress_def spare_def intro!: exI [of _ None] exI [of _ q'])
      next
        case False
        with p have "q_socket q = socket" by (auto simp: progress_def split: option.splits)
        from interrupted_serving [OF s this, of 0] obtain b where
          "serving socket (Some b) (q\<lparr>q_index := 0, q_datalen := 0\<rparr>) (SocketBuffer_interrupted socket 0 ?w2)" by blast
        moreover have "progress socket (Some b) 0 hdr [] (q\<lparr>q_index := 0, q_datalen := 0\<rparr>)"
          using p False d by (auto simp: progress_def split: option.splits)
        ultimately show ?thesis unfolding reading_def by blast
      qed
      then obtain e' where "reading socket e' 0 hdr [] (SocketBuffer_interrupted socket 0 ?w2)" by blast
      then have "arrival socket H P later e' 0 hdr [] (SocketBuffer_interrupted socket 0 ?w2)"
        using again eq d lH lh os by (simp add: arrival_def sbuf_os(3))
      moreover have "hdr \<noteq> H" using ih i by auto
      ultimately have "resting socket H P later (SocketBuffer_interrupted socket 0 ?w2)"
        unfolding resting_def by blast
      with w1 again os show ?thesis
        by (simp add: Socket_getch_def rc_defs sbuf_os(3))
    next
      case (some bs rs)
      then obtain b where b: "bs = [b]" using mk_byte by fastforce
      let ?w2 = "w1\<lparr>os_recv := (os_recv w1)(socket := rs)\<rparr>"
      have "reading socket e (length hdr) hdr [] ?w2" using w1(2) d by simp
      from queueChar_stores [OF this h5, of b] obtain w3 where
        w3: "SocketBuffer_queueChar socket b ?w2 = Some w3"
        "reading socket e (Suc (length hdr)) (hdr @ [b]) [] w3" by blast
      have os3: "os_recv w3 = (os_recv w1)(socket := rs)" using sbuf_os(2) [OF w3(1)] by simp
      have eq': "(hdr @ [b]) @ arriving rs = H @ P @ later" using eq d some b os by simp
      then have "b = H ! i" using ih i by (metis append_Cons append_assoc nth_append nth_append_length self_append_conv2)
      moreover have "arrival socket H P later e (Suc i) (hdr @ [b]) d w3"
        using w3(2) os3 some eq' ih i d lH by (simp add: arrival_def)
      ultimately show ?thesis using w1 some w3 os os3 b ih d
        by (auto simp: Socket_getch_def rc_defs intro!: exI [of _ "hdr @ [b]"])
    qed
  qed
qed

subsection \<open>The remaining length\<close>

lemma arrival_header_done:
  "arrival socket H P later e (length H) hdr d w \<Longrightarrow> hdr = H"
proof -
  assume a: "arrival socket H P later e (length H) hdr d w"
  then have "length H \<le> length hdr" by (auto simp: arrival_def reading_def progress_def)
  with a have "length hdr = length H" by (simp add: arrival_def)
  moreover have "hdr @ d @ arriving (os_recv w socket) = H @ P @ later" using a by (simp add: arrival_def)
  ultimately show ?thesis by simp
qed

lemma decode_steps:
  "arrival socket H P later e (length pre) hdr d w \<Longrightarrow> H = pre @ MQTTPacket_encode m \<Longrightarrow> 0 \<le> m \<Longrightarrow>
   m < 128 ^ k \<Longrightarrow> 0 < k \<Longrightarrow>
   \<exists>rc v w'. decode_loop k socket val mult w = Some ((rc, v), w') \<and>
    (rc = TCPSOCKET_COMPLETE \<and> v = val + m * mult \<and>
       arrival socket H P later e (length H) H d w' \<and> length (os_recv w' socket) \<le> length (os_recv w socket) \<or>
     rc = TCPSOCKET_INTERRUPTED \<and> resting socket H P later w' \<and>
       length (os_recv w' socket) < length (os_recv w socket))"
proof (induction k arbitrary: pre hdr m val mult w)
  case (Suc k)
  have ne: "MQTTPacket_encode m \<noteq> []" using encode_length [OF Suc.prems(3,4,5)] by auto
  then have i: "length pre < length H" and hi: "H ! length pre = hd (MQTTPacket_encode m)"
    using Suc.prems(2) by (simp_all add: nth_append hd_conv_nth)
  from getch_step [OF Suc.prems(1) i, of 0] obtain rc c w1 where
    g: "Socket_getch socket 0 w = Some ((rc, c), w1)" and
    d: "rc = TCPSOCKET_COMPLETE \<and> c = H ! length pre \<and>
       (\<exists>hdr'. arrival socket H P later e (Suc (length pre)) hdr' d w1) \<and>
       length (os_recv w1 socket) \<le> length (os_recv w socket) \<or>
     rc = TCPSOCKET_INTERRUPTED \<and> resting socket H P later w1 \<and>
       length (os_recv w1 socket) < length (os_recv w socket)" by blast
  from d show ?case
  proof
    assume "rc = TCPSOCKET_INTERRUPTED \<and> resting socket H P later w1 \<and>
       length (os_recv w1 socket) < length (os_recv w socket)"
    with g show ?thesis by (simp add: rc_defs)
  next
    assume ok: "rc = TCPSOCKET_COMPLETE \<and> c = H ! length pre \<and>
       (\<exists>hdr'. arrival socket H P later e (Suc (length pre)) hdr' d w1) \<and>
       length (os_recv w1 socket) \<le> length (os_recv w socket)"
    then obtain hdr' where a: "arrival socket H P later e (Suc (length pre)) hdr' d w1" by blast
    show ?thesis
    proof (cases "m < 128")
      case True
      then have "c = byte_of m" "length H = Suc (length pre)"
        using ok hi Suc.prems(2,3) by (simp_all add: encode_last)
      with a byte_of_or_128 [of m] True Suc.prems(3) arrival_header_done [of socket H P later e hdr' d w1] ok g
      show ?thesis by (simp add: Let_def)
    next
      case False
      then have c: "c = byte_of (m mod 128) OR 0x80"
        and H: "H = (pre @ [c]) @ MQTTPacket_encode (m div 128)"
        using ok hi Suc.prems(2) by (simp_all add: encode_more)
      have k: "0 < k" using False Suc.prems(4) by (cases k) auto
      have lt: "m div 128 < 128 ^ k" using Suc.prems(4) by (simp add: div_less_iff_less_mult mult.commute)
      have nn: "0 \<le> m div 128" using Suc.prems(3) by simp
      have a1: "arrival socket H P later e (length (pre @ [c])) hdr' d w1" using a by simp
      obtain rc' v w2 where
        r: "decode_loop k socket (val + length_digit c * mult) (mult * 128) w1 = Some ((rc', v), w2)" and
        d2: "rc' = TCPSOCKET_COMPLETE \<and> v = (val + length_digit c * mult) + (m div 128) * (mult * 128) \<and>
           arrival socket H P later e (length H) H d w2 \<and> length (os_recv w2 socket) \<le> length (os_recv w1 socket) \<or>
         rc' = TCPSOCKET_INTERRUPTED \<and> resting socket H P later w2 \<and>
           length (os_recv w2 socket) < length (os_recv w1 socket)"
        using Suc.IH [OF a1 H nn lt k, of "val + length_digit c * mult" "mult * 128"] by blast
      have dig: "length_digit c = m mod 128" "length_more c" using byte_of_or_128 [of "m mod 128"] c by simp_all
      have "val + y * mult + x * (mult * 128) = val + (128 * x + y) * mult" for x y :: int
        by (simp add: algebra_simps)
      from this [of "m mod 128" "m div 128"]
      have "val + m mod 128 * mult + m div 128 * (mult * 128) = val + m * mult"
        by (simp only: mult_div_mod_eq)
      with d2 r g ok dig show ?thesis by (auto simp: Let_def)
    qed
  qed
qed simp

subsection \<open>The data\<close>

lemma enlarge_ok:
  assumes "queue_ok q" "0 < bytes" "q_datalen q = int n" "n \<le> length (q_buf q)" "int n \<le> bytes"
  shows "\<exists>q'. enlarge bytes q = Some q' \<and> queue_ok q' \<and> bytes \<le> int (q_alloc q') \<and>
    n \<le> length (q_buf q') \<and> take n (q_buf q') = take n (q_buf q) \<and> q_socket q' = q_socket q \<and>
    q_index q' = q_index q \<and> q_headerlen q' = q_headerlen q \<and> q_datalen q' = q_datalen q \<and>
    q_fixed_header q' = q_fixed_header q"
  using assms by (auto simp: enlarge_def queue_ok_def min_def)

text \<open>\<open>q_buf\<close> after \<open>bs\<close> was received behind the first \<open>n\<close> bytes.\<close>

lemma store_ok:
  assumes "queue_ok q" "n \<le> length (q_buf q)" "n + length bs \<le> q_alloc q"
  shows "\<exists>q'. store_at n bs q = Some q' \<and> queue_ok q' \<and> n + length bs \<le> length (q_buf q') \<and>
    take (n + length bs) (q_buf q') = take n (q_buf q) @ bs \<and> q_socket q' = q_socket q \<and>
    q_headerlen q' = q_headerlen q \<and> q_fixed_header q' = q_fixed_header q"
  using assms by (auto simp: store_at_def queue_ok_def)

text \<open>Between packets: nothing is held for the socket.\<close>

definition idle :: "int \<Rightarrow> 'm sockets_scheme \<Rightarrow> bool" where
  "idle socket w \<longleftrightarrow> reading socket None 0 [] [] w"

lemma complete_idle: "serving socket e q w \<Longrightarrow> idle socket (SocketBuffer_complete socket w)"
  using complete_serving [of socket e q w]
  by (auto simp: idle_def reading_def progress_def clear_queue_def)

lemma getdata_step:
  assumes a: "arrival socket H P later e (length H) H d w" and H: "H \<noteq> []"
    and inc: "length d < length P \<or> P = [] \<and> d = []"
  shows "\<exists>r alen w'. Socket_getdata socket (int (length P)) 0 w = Some ((Some r, alen), w') \<and>
    (alen = int (length P) \<and> take (length P) r = P \<and> idle socket w' \<and> calm (os_recv w' socket) \<and>
       arriving (os_recv w' socket) = later \<or>
     alen \<noteq> int (length P) \<and> resting socket H P later w' \<and>
       length (os_recv w' socket) < length (os_recv w socket))"
proof -
  obtain q where s: "serving socket e q w" and p: "progress socket e (length H) H d q"
    using a by (auto simp: arrival_def reading_def)
  have eq: "d @ arriving (os_recv w socket) = P @ later" and calm: "calm (os_recv w socket)"
    and lH: "length H \<le> 5" using a by (auto simp: arrival_def)
  show ?thesis
  proof (cases "P = []")
    case True
    with inc eq calm complete_idle [OF s] show ?thesis
      by (simp add: Socket_getdata_def Let_def sbuf_os(4))
  next
    case False
    with inc have lt: "length d < length P" by simp
    obtain l where f: "cl_find (socketcompare socket) (queues w) = (e, l)"
      and s': "serving socket e q (w\<lparr>queues := l\<rparr>)"
      using serving_find [OF s] by blast
    have dl: "q_datalen q = int (length d)" "length d \<le> length (q_buf q)" "take (length d) (q_buf q) = d"
      using p by (auto simp: progress_def split: option.splits)
    have qs: "q_socket q = socket" using p H by (auto simp: progress_def split: option.splits)
    have qh: "q_headerlen q = int (length H)" "take (length H) (q_fixed_header q) = H"
      using p H by (auto simp: progress_def split: option.splits)
    have "queue_ok q" using s by (simp add: serving_def)
    from enlarge_ok [OF this _ dl(1,2), of "int (length P)"] lt obtain q1 where
      en: "enlarge (int (length P)) q = Some q1" and q1: "queue_ok q1" "int (length P) \<le> int (q_alloc q1)"
      "length d \<le> length (q_buf q1)" "take (length d) (q_buf q1) = d" "q_socket q1 = socket"
      "q_headerlen q1 = int (length H)" "take (length H) (q_fixed_header q1) = H"
      using dl qs qh False by auto
    define w1 where "w1 = upd_queue e (\<lambda>_. q1) (w\<lparr>queues := l\<rparr>)"
    have s1: "serving socket e q1 w1"
      using serving_upd [OF s', of "\<lambda>_. q1"] q1 by (simp add: w1_def)
    have os1: "os_recv w1 = os_recv w" by (simp add: w1_def)
    have alen: "(case e of None \<Rightarrow> 0 | Some a \<Rightarrow> q_datalen (the_queue e (w\<lparr>queues := l\<rparr>))) = int (length d)"
      using serving_queue [OF s'] dl p by (auto simp: progress_def split: option.splits)
    have gq: "SocketBuffer_getQueuedData socket (int (length P)) w = Some ((e, int (length d)), w1)"
      using f en alen serving_queue [OF s'] by (simp add: SocketBuffer_getQueuedData_def w1_def)
    have nat: "nat (int (length P) - int (length d)) = length P - length d" using lt by linarith
    have ne: "arriving (os_recv w1 socket) \<noteq> []"
      using arg_cong [OF eq, of length] lt os1 by auto
    have held: "resting socket H P later (SocketBuffer_interrupted socket (int (length d')) w2)"
      if h: "serving socket e q' w2" "q_socket q' = socket" "q_headerlen q' = int (length H)"
        "take (length H) (q_fixed_header q') = H" "length d' \<le> length (q_buf q')"
        "take (length d') (q_buf q') = d'" "length d' < length P" "calm (os_recv w2 socket)"
        "d' @ arriving (os_recv w2 socket) = P @ later" for q' d' w2
    proof -
      obtain b where "serving socket (Some b) (q'\<lparr>q_index := 0, q_datalen := int (length d')\<rparr>)
          (SocketBuffer_interrupted socket (int (length d')) w2)"
        using interrupted_serving [OF h(1,2)] by blast
      moreover have "progress socket (Some b) 0 H d' (q'\<lparr>q_index := 0, q_datalen := int (length d')\<rparr>)"
        using h lH by (simp add: progress_def)
      ultimately have "reading socket (Some b) 0 H d' (SocketBuffer_interrupted socket (int (length d')) w2)"
        unfolding reading_def by blast
      then have "arrival socket H P later (Some b) 0 H d' (SocketBuffer_interrupted socket (int (length d')) w2)"
        using h lH by (simp add: arrival_def sbuf_os(3))
      with h(7) show ?thesis unfolding resting_def by blast
    qed
    show ?thesis
    proof (cases rule: recv_calm [of w1 socket "length P - length d", case_names calm pos ne again some])
      case calm
      with \<open>calm (os_recv w socket)\<close> os1 show ?case by simp
    next
      case pos
      with lt show ?case by simp
    next
      case ne
      from \<open>arriving (os_recv w1 socket) \<noteq> []\<close> show ?case .
    next
      case (again rs)
      let ?w2 = "w1\<lparr>os_recv := (os_recv w1)(socket := rs)\<rparr>"
      have "resting socket H P later (SocketBuffer_interrupted socket (int (length d)) ?w2)"
        using q1 lt again os1 eq s1 by (intro held [of q1]) simp_all
      with again gq nat lt os1 False show ?thesis
        by (auto simp: Socket_getdata_def Let_def rc_defs sbuf_os(3))
    next
      case (some bs rs)
      let ?w2 = "w1\<lparr>os_recv := (os_recv w1)(socket := rs)\<rparr>"
      have s2: "serving socket e q1 ?w2" using s1 by simp
      have "length d + length bs \<le> q_alloc q1" using some(5) lt q1(2) by linarith
      from store_ok [OF q1(1,3) this] obtain q2 where
        st: "store_at (length d) bs q1 = Some q2" and q2: "queue_ok q2"
        "length d + length bs \<le> length (q_buf q2)" "take (length d + length bs) (q_buf q2) = d @ bs"
        "q_socket q2 = socket" "q_headerlen q2 = int (length H)" "take (length H) (q_fixed_header q2) = H"
        using q1 by auto
      define w3 where "w3 = upd_queue e (\<lambda>_. q2) ?w2"
      have s3: "serving socket e q2 w3"
        using serving_upd [OF s2, of "\<lambda>_. q2"] q2 by (simp add: w3_def)
      have os3: "os_recv w3 socket = rs" by (simp add: w3_def)
      have eq3: "(d @ bs) @ arriving rs = P @ later" using eq some(3) os1 by simp
      show ?thesis
      proof (cases "length d + length bs = length P")
        case True
        have "length (d @ bs) = length P" using True by simp
        from append_eq_append_conv [OF disjI1 [OF this], of "arriving rs" later] eq3
        have "d @ bs = P" "arriving rs = later" by blast+
        with True some gq nat lt st q2 False complete_idle [OF s3] os3 serving_queue [OF s2] show ?thesis
          by (simp add: Socket_getdata_def Let_def sbuf_os(4) w3_def [symmetric])
      next
        case short: False
        then have lt3: "length (d @ bs) < length P" using some(5) lt by simp
        have "resting socket H P later (SocketBuffer_interrupted socket (int (length (d @ bs))) w3)"
          using q2 lt3 some os3 eq3 s3 by (intro held [of q2]) simp_all
        have gd: "Socket_getdata socket (int (length P)) 0 w = Some ((Some (q_buf q2), int (length (d @ bs))),
            SocketBuffer_interrupted socket (int (length (d @ bs))) w3)"
          using short some(1,4) gq nat lt st False serving_queue [OF s2]
          by (simp add: Socket_getdata_def Let_def w3_def)
        have "length rs < length (os_recv w socket)" using some(5,7) short lt3 os1 by simp
        with \<open>resting socket H P later (SocketBuffer_interrupted socket (int (length (d @ bs))) w3)\<close>
        show ?thesis unfolding gd using short os3 by (auto simp: sbuf_os(3))
      qed
    qed
  qed
qed

subsection \<open>Whole packets\<close>

text \<open>The caller's loop: read again while the packet is not complete.\<close>

fun read_calls ::
  "nat \<Rightarrow> int \<Rightarrow> 'm sockets_scheme \<Rightarrow> ((int \<times> (byte \<times> byte list \<times> nat) option) \<times> 'm sockets_scheme) option" where
  "read_calls 0 socket w = Some ((TCPSOCKET_INTERRUPTED, None), w)"
| "read_calls (Suc k) socket w = do {
     ((rc, r), w1) \<leftarrow> read_packet socket w;
     if rc = TCPSOCKET_INTERRUPTED then read_calls k socket w1 else Some ((rc, r), w1)
   }"

lemma read_packet_step:
  assumes r: "resting socket H P later w" and H: "H = h # MQTTPacket_encode (int (length P))"
    and n: "length P < 268435456"
  shows "\<exists>rc r w'. read_packet socket w = Some ((rc, r), w') \<and>
    (rc = TCPSOCKET_COMPLETE \<and> (\<exists>b. r = Some (h, b, length P) \<and> take (length P) b = P) \<and>
       idle socket w' \<and> calm (os_recv w' socket) \<and> arriving (os_recv w' socket) = later \<or>
     rc = TCPSOCKET_INTERRUPTED \<and> resting socket H P later w' \<and>
       length (os_recv w' socket) < length (os_recv w socket))"
proof -
  obtain e hdr d where a: "arrival socket H P later e 0 hdr d w" and inc: "hdr = H \<longrightarrow> length d < length P"
    using r by (auto simp: resting_def)
  have d: "length d < length P \<or> P = [] \<and> d = []" using a inc by (cases "d = []") (auto simp: arrival_def)
  have i: "0 < length H" by (simp add: H)
  from getch_step [OF a i, of 0] obtain rc c w1 where
    g: "Socket_getch socket 0 w = Some ((rc, c), w1)" and
    c1: "rc = TCPSOCKET_COMPLETE \<and> c = H ! 0 \<and> (\<exists>hdr'. arrival socket H P later e (Suc 0) hdr' d w1) \<and>
       length (os_recv w1 socket) \<le> length (os_recv w socket) \<or>
     rc = TCPSOCKET_INTERRUPTED \<and> resting socket H P later w1 \<and>
       length (os_recv w1 socket) < length (os_recv w socket)" by blast
  from c1 show ?thesis
  proof
    assume "rc = TCPSOCKET_INTERRUPTED \<and> resting socket H P later w1 \<and>
       length (os_recv w1 socket) < length (os_recv w socket)"
    with g show ?thesis by (simp add: read_packet_def rc_defs)
  next
    assume ok: "rc = TCPSOCKET_COMPLETE \<and> c = H ! 0 \<and> (\<exists>hdr'. arrival socket H P later e (Suc 0) hdr' d w1) \<and>
       length (os_recv w1 socket) \<le> length (os_recv w socket)"
    then obtain hdr' where a1: "arrival socket H P later e (length [h]) hdr' d w1" by auto
    have H1: "H = [h] @ MQTTPacket_encode (int (length P))" by (simp add: H)
    have lt: "int (length P) < 128 ^ 4" using n by simp
    obtain rc2 v w2 where
      dec: "decode_loop 4 socket 0 1 w1 = Some ((rc2, v), w2)" and
      c2: "rc2 = TCPSOCKET_COMPLETE \<and> v = int (length P) \<and> arrival socket H P later e (length H) H d w2 \<and>
         length (os_recv w2 socket) \<le> length (os_recv w1 socket) \<or>
       rc2 = TCPSOCKET_INTERRUPTED \<and> resting socket H P later w2 \<and>
         length (os_recv w2 socket) < length (os_recv w1 socket)"
      using decode_steps [OF a1 H1 _ lt, of 0 1] by auto
    from c2 show ?thesis
    proof
      assume "rc2 = TCPSOCKET_INTERRUPTED \<and> resting socket H P later w2 \<and>
         length (os_recv w2 socket) < length (os_recv w1 socket)"
      with g ok dec show ?thesis
        by (auto simp: read_packet_def MQTTPacket_decode_def MAX_NO_OF_REMAINING_LENGTH_BYTES_def rc_defs)
    next
      assume ok2: "rc2 = TCPSOCKET_COMPLETE \<and> v = int (length P) \<and> arrival socket H P later e (length H) H d w2 \<and>
         length (os_recv w2 socket) \<le> length (os_recv w1 socket)"
      have "H \<noteq> []" by (simp add: H)
      with getdata_step [of socket H P later e d w2] ok2 d obtain b alen w3 where
        gd: "Socket_getdata socket (int (length P)) 0 w2 = Some ((Some b, alen), w3)" and
        c3: "alen = int (length P) \<and> take (length P) b = P \<and> idle socket w3 \<and> calm (os_recv w3 socket) \<and>
           arriving (os_recv w3 socket) = later \<or>
         alen \<noteq> int (length P) \<and> resting socket H P later w3 \<and>
           length (os_recv w3 socket) < length (os_recv w2 socket)" by blast
      have c: "c = h" using ok by (simp add: H)
      from c3 g ok dec ok2 gd c show ?thesis
        by (auto simp: read_packet_def MQTTPacket_decode_def MAX_NO_OF_REMAINING_LENGTH_BYTES_def rc_defs)
    qed
  qed
qed

lemma idle_resting:
  assumes "idle socket w" "calm (os_recv w socket)" "arriving (os_recv w socket) = H @ P @ later"
    "H \<noteq> []" "length H \<le> 5"
  shows "resting socket H P later w"
proof -
  have "arrival socket H P later None 0 [] [] w" using assms by (simp add: arrival_def idle_def)
  with assms(4) show ?thesis unfolding resting_def by blast
qed

subsection \<open>Properties\<close>

text \<open>
  C12: a packet is read the same however it is cut up.  If the bytes still to arrive on an idle socket
  begin with a packet of less than 256 MB, and come in any pieces with any number of \<^verbatim>\<open>EAGAIN\<close>s in
  between, then reading again while the result is \<^verbatim>\<open>TCPSOCKET_INTERRUPTED\<close> ends after no more calls
  than there are pieces, with the header byte and the packet's data; the socket is idle again and
  the stream stands at the byte after the packet.
\<close>

theorem read_packet_resumes:
  assumes "idle socket w" "calm (os_recv w socket)"
    "arriving (os_recv w socket) = h # MQTTPacket_encode (int (length P)) @ P @ later"
    "length P < 268435456" "length (os_recv w socket) < k"
  shows "\<exists>b w'. read_calls k socket w = Some ((TCPSOCKET_COMPLETE, Some (h, b, length P)), w') \<and>
    take (length P) b = P \<and> idle socket w' \<and> calm (os_recv w' socket) \<and>
    arriving (os_recv w' socket) = later"
proof -
  define H where "H = h # MQTTPacket_encode (int (length P))"
  have "length (MQTTPacket_encode (int (length P))) \<le> 4"
    using encode_length [of "int (length P)" 4] assms(4) by simp
  then have "resting socket H P later w"
    using assms(1-3) by (intro idle_resting) (simp_all add: H_def)
  then show ?thesis using assms(5)
  proof (induction k arbitrary: w)
    case (Suc k)
    from read_packet_step [OF Suc.prems(1) H_def assms(4)] obtain rc r w1 where
      r: "read_packet socket w = Some ((rc, r), w1)" and
      c: "rc = TCPSOCKET_COMPLETE \<and> (\<exists>b. r = Some (h, b, length P) \<and> take (length P) b = P) \<and>
         idle socket w1 \<and> calm (os_recv w1 socket) \<and> arriving (os_recv w1 socket) = later \<or>
       rc = TCPSOCKET_INTERRUPTED \<and> resting socket H P later w1 \<and>
         length (os_recv w1 socket) < length (os_recv w socket)" by blast
    from c show ?case
    proof
      assume "rc = TCPSOCKET_INTERRUPTED \<and> resting socket H P later w1 \<and>
         length (os_recv w1 socket) < length (os_recv w socket)"
      with r Suc.IH [of w1] Suc.prems(2) show ?thesis by simp
    next
      assume "rc = TCPSOCKET_COMPLETE \<and> (\<exists>b. r = Some (h, b, length P) \<and> take (length P) b = P) \<and>
         idle socket w1 \<and> calm (os_recv w1 socket) \<and> arriving (os_recv w1 socket) = later"
      with r show ?thesis by (auto simp: rc_defs)
    qed
  qed simp
qed

theorem read_packet_resumes_witness:
  "\<exists>b w'. read_calls 5 3 (zero_sockets\<lparr>os_recv := (\<lambda>_. [RecvData [0x40, 2], RecvError 11, RecvData [0], RecvData [7, 9]])\<rparr>) =
     Some ((TCPSOCKET_COMPLETE, Some (0x40, b, 2)), w') \<and> take 2 b = [0, 7] \<and> arriving (os_recv w' 3) = [9]"
proof -
  let ?w = "zero_sockets\<lparr>os_recv := (\<lambda>_. [RecvData [0x40, 2], RecvError 11, RecvData [0], RecvData [7, 9]])\<rparr>"
  have "idle 3 ?w"
    by (simp add: idle_def reading_def serving_def progress_def mine_def zero_sockets_def zero_queue_def
        queue_ok_def cl_empty_def cl_wf_def)
  moreover have "calm (os_recv ?w 3)" by (simp add: calm_def EAGAIN_def)
  moreover have "MQTTPacket_encode 2 = [2]" by (simp add: encode_last byte_of_def)
  ultimately show ?thesis
    using read_packet_resumes [of 3 ?w "0x40" "[0, 7]" "[9]" 5] by (auto simp: numeral_2_eq_2)
qed

end
