(* ===== verification/PersistenceDefault.thy ===== *)
theory PersistenceDefault
  imports Persistence
begin

text \<open>
  \<^verbatim>\<open>MQTTPersistenceDefault.c\<close> on a file system: directories and regular files under parsed path
  names (\<^verbatim>\<open>.\<close> and empty components are dropped, so that \<^verbatim>\<open>./a\<close> and \<^verbatim>\<open>a\<close> are the same file, relative
  to the working directory).  A file may have a capacity, which is how a write comes up short.
  The Unix branches of the file are modelled.
\<close>

subsection \<open>Path names and the file system\<close>

text \<open>Absolute or relative, and the components.\<close>

type_synonym path = "bool \<times> string list"

text \<open>\<^verbatim>\<open>strtok_r\<close>: the non-empty pieces between separators.\<close>

fun tokens :: "(char \<Rightarrow> bool) \<Rightarrow> string \<Rightarrow> string \<Rightarrow> string list" where
  "tokens sep acc [] = (if acc = [] then [] else [acc])"
| "tokens sep acc (c # s) =
     (if sep c then (if acc = [] then tokens sep [] s else acc # tokens sep [] s)
      else tokens sep (acc @ [c]) s)"

definition parse_path :: "string \<Rightarrow> path" where
  "parse_path s = (take 1 s = ''/'', filter (\<lambda>t. t \<noteq> ''.'') (tokens (\<lambda>c. c = CHR ''/'') [] s))"

record filesys =
  fs_dirs :: "path list"
  fs_files :: "(path \<times> byte list) list"
  fs_capacity :: "path \<Rightarrow> nat option"

text \<open>The working directory and the root always exist.\<close>

definition is_dir :: "filesys \<Rightarrow> path \<Rightarrow> bool" where
  "is_dir fs p \<longleftrightarrow> snd p = [] \<or> p \<in> set (fs_dirs fs)"

definition is_reg :: "filesys \<Rightarrow> path \<Rightarrow> bool" where
  "is_reg fs p \<longleftrightarrow> map_of (fs_files fs) p \<noteq> None"

definition parent :: "path \<Rightarrow> path" where
  "parent p = (fst p, butlast (snd p))"

text \<open>\<^verbatim>\<open>mkdir\<close>: 0, or an error number (\<^verbatim>\<open>EEXIST\<close> when the name is taken, else \<^verbatim>\<open>ENOENT\<close>).\<close>

definition sys_mkdir :: "path \<Rightarrow> filesys \<Rightarrow> int \<times> filesys" where
  "sys_mkdir p fs =
     (if is_dir fs p \<or> is_reg fs p then (17, fs)
      else if is_dir fs (parent p) then (0, fs\<lparr>fs_dirs := fs_dirs fs @ [p]\<rparr>)
      else (2, fs))"

text \<open>
  \<^verbatim>\<open>fopen(\<dots>, "wb")\<close> and the writes: \<open>None\<close> when the file cannot be opened, else how much of the data
  was written, which is what the file then holds.
\<close>

fun file_update :: "path \<Rightarrow> byte list \<Rightarrow> (path \<times> byte list) list \<Rightarrow> (path \<times> byte list) list" where
  "file_update p b [] = [(p, b)]"
| "file_update p b (x # xs) = (if fst x = p then (p, b) # xs else x # file_update p b xs)"

definition sys_write_file :: "path \<Rightarrow> byte list \<Rightarrow> filesys \<Rightarrow> (nat \<times> filesys) option" where
  "sys_write_file p data fs =
     (if is_dir fs p \<or> \<not> is_dir fs (parent p) then None
      else let b = (case fs_capacity fs p of None \<Rightarrow> data | Some n \<Rightarrow> take n data)
        in Some (length b, fs\<lparr>fs_files := file_update p b (fs_files fs)\<rparr>))"

text \<open>\<^verbatim>\<open>unlink\<close>: 0 or an error number.\<close>

definition file_delete :: "path \<Rightarrow> (path \<times> byte list) list \<Rightarrow> (path \<times> byte list) list" where
  "file_delete p xs = filter (\<lambda>x. fst x \<noteq> p) xs"

definition sys_unlink :: "path \<Rightarrow> filesys \<Rightarrow> int \<times> filesys" where
  "sys_unlink p fs =
     (if is_reg fs p then (0, fs\<lparr>fs_files := file_delete p (fs_files fs)\<rparr>)
      else if is_dir fs p then (21, fs) else (2, fs))"

text \<open>\<^verbatim>\<open>rmdir\<close>: \<^verbatim>\<open>ENOENT\<close> (2), \<^verbatim>\<open>ENOTEMPTY\<close> (39), \<^verbatim>\<open>EBUSY\<close> for the working directory or the root.\<close>

definition sys_rmdir :: "path \<Rightarrow> filesys \<Rightarrow> int \<times> filesys" where
  "sys_rmdir p fs =
     (if snd p = [] then (16, fs)
      else if p \<notin> set (fs_dirs fs) then (2, fs)
      else if (\<exists>x\<in>set (fs_files fs). parent (fst x) = p) \<or> (\<exists>d\<in>set (fs_dirs fs). parent d = p)
        then (39, fs)
      else (0, fs\<lparr>fs_dirs := filter (\<lambda>d. d \<noteq> p) (fs_dirs fs)\<rparr>))"

text \<open>\<^verbatim>\<open>readdir\<close>: the entries of a directory other than \<^verbatim>\<open>.\<close> and \<^verbatim>\<open>..\<close>, which come first.\<close>

definition regular_names :: "path \<Rightarrow> filesys \<Rightarrow> string list" where
  "regular_names d fs =
     map (\<lambda>x. last (snd (fst x))) (filter (\<lambda>x. parent (fst x) = d \<and> snd (fst x) \<noteq> []) (fs_files fs))"

definition dir_names :: "path \<Rightarrow> filesys \<Rightarrow> string list" where
  "dir_names d fs =
     map (\<lambda>p. last (snd p)) (filter (\<lambda>p. parent p = d \<and> snd p \<noteq> []) (fs_dirs fs))"

definition child :: "path \<Rightarrow> string \<Rightarrow> path" where
  "child d name = (fst d, snd d @ [name])"

subsection \<open>The functions\<close>

definition MQTTCLIENT_PERSISTENCE_ERROR :: int where "MQTTCLIENT_PERSISTENCE_ERROR = -2"
definition MESSAGE_FILENAME_EXTENSION :: string where "MESSAGE_FILENAME_EXTENSION = ''.msg''"

lemmas pst_defs [code_defs] = MQTTCLIENT_PERSISTENCE_ERROR_def MESSAGE_FILENAME_EXTENSION_def

text \<open>The handle: the file system and the client's directory, which is a C string.\<close>

record pst =
  pst_fs :: filesys
  clientDir :: string

definition pstmkdir :: "string \<Rightarrow> filesys \<Rightarrow> int \<times> filesys" where
  "pstmkdir pathname fs = (case sys_mkdir (parse_path pathname) fs of (err, fs1) \<Rightarrow>
     (if err = 0 \<or> err = 17 then 0 else MQTTCLIENT_PERSISTENCE_ERROR, fs1))"

text \<open>
  Creating the directories level by level.  The tokens do not include a leading \<^verbatim>\<open>/\<close>, so the names
  built up are relative even when \<^verbatim>\<open>clientDir\<close> is absolute.
\<close>

fun mkdirs :: "string \<Rightarrow> string list \<Rightarrow> filesys \<Rightarrow> int \<times> filesys" where
  "mkdirs crt [] fs = (0, fs)"
| "mkdirs crt (t # ts) fs = (
     let crt' = crt @ ''/'' @ t; (rc, fs1) = pstmkdir crt' fs
     in if rc = 0 then mkdirs crt' ts fs1 else (rc, fs1))"

definition subst_colon :: "string \<Rightarrow> string option" where
  "subst_colon uri = (case strchr uri (CHR '':'') of None \<Rightarrow> None
     | Some i \<Rightarrow> Some (uri[i := CHR ''-'']))"

definition is_slash :: "char \<Rightarrow> bool" where
  "is_slash c \<longleftrightarrow> c = CHR 0x5C \<or> c = CHR ''/''"

definition pstopen :: "filesys \<Rightarrow> string \<Rightarrow> string \<Rightarrow> string \<Rightarrow> (int \<times> pst) option" where
  "pstopen fs context cid serverURI = do {
     uri \<leftarrow> subst_colon serverURI;
     let dir = context @ ''/'' @ cid @ ''-'' @ uri;
     case tokens is_slash [] dir of
       [] \<Rightarrow> None
     | t # ts \<Rightarrow>
         let (rc, fs1) = pstmkdir t fs;
             (rc, fs2) = (if rc = 0 then mkdirs t ts fs1 else (rc, fs1))
         in Some (rc, \<lparr>pst_fs = fs2, clientDir = dir\<rparr>)
   }"

definition pst_file :: "pst \<Rightarrow> string \<Rightarrow> path" where
  "pst_file h key = parse_path (clientDir h @ ''/'' @ key @ MESSAGE_FILENAME_EXTENSION)"

definition pstremove :: "pst \<Rightarrow> string \<Rightarrow> int \<times> pst" where
  "pstremove h key = (case sys_unlink (pst_file h key) (pst_fs h) of (err, fs1) \<Rightarrow>
     (if err = 0 \<or> err = 2 then 0 else MQTTCLIENT_PERSISTENCE_ERROR, h\<lparr>pst_fs := fs1\<rparr>))"

text \<open>
  The writes of the buffers in order; \<^verbatim>\<open>bytesWritten\<close> is what the file took of all of them.  When
  the file cannot be opened the totals agree (both 0) and only the error remains.
\<close>

definition pstput :: "pst \<Rightarrow> string \<Rightarrow> byte list list \<Rightarrow> int \<times> pst" where
  "pstput h key buffers = (
     case sys_write_file (pst_file h key) (concat buffers) (pst_fs h) of
       None \<Rightarrow> (MQTTCLIENT_PERSISTENCE_ERROR, h)
     | Some (bytesWritten, fs1) \<Rightarrow>
         if bytesWritten \<noteq> length (concat buffers)
         then (MQTTCLIENT_PERSISTENCE_ERROR, snd (pstremove (h\<lparr>pst_fs := fs1\<rparr>) key))
         else (0, h\<lparr>pst_fs := fs1\<rparr>))"

definition pstget :: "pst \<Rightarrow> string \<Rightarrow> int \<times> byte list" where
  "pstget h key = (case map_of (fs_files (pst_fs h)) (pst_file h key) of
     None \<Rightarrow> (MQTTCLIENT_PERSISTENCE_ERROR, [])
   | Some b \<Rightarrow> (0, b))"

definition pstclose :: "pst \<Rightarrow> int \<times> filesys" where
  "pstclose h = (case sys_rmdir (parse_path (clientDir h)) (pst_fs h) of (err, fs1) \<Rightarrow>
     (if err = 0 \<or> err = 2 \<or> err = 39 then 0 else MQTTCLIENT_PERSISTENCE_ERROR, fs1))"

text \<open>A file name with everything from the first \<^verbatim>\<open>.msg\<close> on cut off.\<close>

fun strip_ext :: "string \<Rightarrow> string" where
  "strip_ext [] = []"
| "strip_ext (c # s) =
     (if take (length MESSAGE_FILENAME_EXTENSION) (c # s) = MESSAGE_FILENAME_EXTENSION then []
      else c # strip_ext s)"

definition keysUnix :: "string \<Rightarrow> filesys \<Rightarrow> int \<times> string list" where
  "keysUnix dirname fs = (let d = parse_path dirname in
     if is_dir fs d then (0, map strip_ext (regular_names d fs))
     else (MQTTCLIENT_PERSISTENCE_ERROR, []))"

definition pstkeys :: "pst \<Rightarrow> int \<times> string list" where
  "pstkeys h = keysUnix (clientDir h) (pst_fs h)"

definition containskeyUnix :: "string \<Rightarrow> string \<Rightarrow> filesys \<Rightarrow> int" where
  "containskeyUnix dirname key fs = (let d = parse_path dirname in
     if is_dir fs d \<and> list_ex (\<lambda>n. strip_ext n = key) (regular_names d fs) then 0
     else MQTTCLIENT_PERSISTENCE_ERROR)"

definition pstcontainskey :: "pst \<Rightarrow> string \<Rightarrow> int" where
  "pstcontainskey h key = containskeyUnix (clientDir h) key (pst_fs h)"

text \<open>
  The loop of \<^verbatim>\<open>clearUnix\<close>.  \<^verbatim>\<open>lstat\<close> and \<^verbatim>\<open>remove\<close> get the bare entry name, which the system looks
  up in the working directory; \<open>reg\<close> is whether \<^verbatim>\<open>stat_info\<close> last described a regular file, which
  stays when \<^verbatim>\<open>lstat\<close> fails.
\<close>

fun clear_loop :: "bool \<Rightarrow> string list \<Rightarrow> filesys \<Rightarrow> int \<times> filesys" where
  "clear_loop reg [] fs = (0, fs)"
| "clear_loop reg (name # names) fs = (
     let p = parse_path name;
         reg' = (if is_reg fs p then True else if is_dir fs p then False else reg)
     in if reg' then
          (case sys_unlink p fs of (err, fs1) \<Rightarrow>
             if err = 0 then clear_loop reg' names fs1 else (MQTTCLIENT_PERSISTENCE_ERROR, fs1))
        else clear_loop reg' names fs)"

definition clearUnix :: "string \<Rightarrow> filesys \<Rightarrow> int \<times> filesys" where
  "clearUnix dirname fs = (let d = parse_path dirname in
     if is_dir fs d then clear_loop False (regular_names d fs @ dir_names d fs) fs
     else (MQTTCLIENT_PERSISTENCE_ERROR, fs))"

definition pstclear :: "pst \<Rightarrow> int \<times> pst" where
  "pstclear h = (case clearUnix (clientDir h) (pst_fs h) of (rc, fs1) \<Rightarrow> (rc, h\<lparr>pst_fs := fs1\<rparr>))"

text \<open>The implementation \<^verbatim>\<open>MQTTPersistence_create\<close> makes for \<^verbatim>\<open>MQTTCLIENT_PERSISTENCE_DEFAULT\<close>.\<close>

definition default_persistence :: "filesys \<Rightarrow> string \<Rightarrow> pst MQTTClient_persistence" where
  "default_persistence fs context = \<lparr>popen = pstopen fs context, pclose = fst \<circ> pstclose,
     pput = pstput, pget = pstget, premove = pstremove, pkeys = pstkeys, pclear = pstclear,
     pcontainskey = pstcontainskey\<rparr>"

text \<open>
  \<^verbatim>\<open>MQTTPersistence_create\<close>: \<^verbatim>\<open>type\<close> 0 is the default, 1 none, 2 the user's, whose function pointers
  must all be there (here they always are).
\<close>

datatype 's pers_type = PersDefault | PersNone | PersUser "'s MQTTClient_persistence option" | PersOther

definition MQTTPersistence_create ::
  "filesys \<Rightarrow> pst pers_type \<Rightarrow> string option \<Rightarrow> int \<times> pst MQTTClient_persistence option" where
  "MQTTPersistence_create fs type context = (case type of
     PersNone \<Rightarrow> (0, None)
   | PersDefault \<Rightarrow> (0, Some (default_persistence fs (case context of None \<Rightarrow> ''.'' | Some d \<Rightarrow> d)))
   | PersUser (Some per) \<Rightarrow> (0, Some per)
   | PersUser None \<Rightarrow> (MQTTCLIENT_PERSISTENCE_ERROR, None)
   | PersOther \<Rightarrow> (MQTTCLIENT_PERSISTENCE_ERROR, None))"

end
