(* ===== verification/Store.thy ===== *)
theory Store
  imports PersistenceDefault
begin

text \<open>
  What a persistence implementation promises the client library, as a locale, with what follows for
  its clients: the store is a map from keys to records, whatever the sequence of operations, failed
  writes included.  The default implementation on files keeps the promise for every key without
  slashes and dots (all keys the library makes) once its directory exists; two of its functions,
  \<^verbatim>\<open>pstclear\<close> and \<^verbatim>\<open>pstopen\<close> on an absolute directory, do not do what they are for.
\<close>

subsection \<open>The interface\<close>

datatype store_op = Put string "byte list list" | Remove string

fun op_key :: "store_op \<Rightarrow> string" where
  "op_key (Put k bufs) = k"
| "op_key (Remove k) = k"

fun apply_op :: "('s \<Rightarrow> string \<Rightarrow> byte list list \<Rightarrow> int \<times> 's) \<Rightarrow> ('s \<Rightarrow> string \<Rightarrow> int \<times> 's) \<Rightarrow>
    's \<Rightarrow> store_op \<Rightarrow> int \<times> 's" where
  "apply_op put remove s (Put k bufs) = put s k bufs"
| "apply_op put remove s (Remove k) = remove s k"

text \<open>A run, with the completion codes.\<close>

fun store_run :: "('s \<Rightarrow> string \<Rightarrow> byte list list \<Rightarrow> int \<times> 's) \<Rightarrow> ('s \<Rightarrow> string \<Rightarrow> int \<times> 's) \<Rightarrow>
    's \<Rightarrow> store_op list \<Rightarrow> int list \<times> 's" where
  "store_run put remove s [] = ([], s)"
| "store_run put remove s (x # xs) =
     (let (rc, s1) = apply_op put remove s x; (rcs, s2) = store_run put remove s1 xs in (rc # rcs, s2))"

text \<open>The record a run leaves under a key when all its operations succeed.\<close>

fun last_put :: "string \<Rightarrow> byte list option \<Rightarrow> store_op list \<Rightarrow> byte list option" where
  "last_put k b [] = b"
| "last_put k b (Put k' bufs # xs) = last_put k (if k' = k then Some (concat bufs) else b) xs"
| "last_put k b (Remove k' # xs) = last_put k (if k' = k then None else b) xs"

locale msg_store =
  fixes put :: "'s \<Rightarrow> string \<Rightarrow> byte list list \<Rightarrow> int \<times> 's"
    and get :: "'s \<Rightarrow> string \<Rightarrow> int \<times> byte list"
    and remove :: "'s \<Rightarrow> string \<Rightarrow> int \<times> 's"
    and has :: "'s \<Rightarrow> string \<Rightarrow> int"
    and keys :: "'s \<Rightarrow> int \<times> string list"
    and key_ok :: "string \<Rightarrow> bool"
    and ok :: "'s \<Rightarrow> bool"
    and records :: "'s \<Rightarrow> string \<rightharpoonup> byte list"
  assumes put_law: "ok s \<Longrightarrow> key_ok k \<Longrightarrow> ok (snd (put s k bufs)) \<and>
      (fst (put s k bufs) = 0 \<longrightarrow> records (snd (put s k bufs)) = (records s)(k \<mapsto> concat bufs)) \<and>
      (fst (put s k bufs) \<noteq> 0 \<longrightarrow> records (snd (put s k bufs)) = (records s)(k := None))"
    and remove_law: "ok s \<Longrightarrow> key_ok k \<Longrightarrow> ok (snd (remove s k)) \<and> fst (remove s k) = 0 \<and>
      records (snd (remove s k)) = (records s)(k := None)"
    and get_law: "ok s \<Longrightarrow> key_ok k \<Longrightarrow>
      (case records s k of None \<Rightarrow> fst (get s k) \<noteq> 0 | Some b \<Rightarrow> get s k = (0, b))"
    and has_law: "ok s \<Longrightarrow> key_ok k \<Longrightarrow> has s k = 0 \<longleftrightarrow> k \<in> dom (records s)"
    and keys_law: "ok s \<Longrightarrow> fst (keys s) = 0 \<and> set (snd (keys s)) = dom (records s)"
begin

lemma run_ok: "ok s \<Longrightarrow> \<forall>x\<in>set xs. key_ok (op_key x) \<Longrightarrow> ok (snd (store_run put remove s xs))"
proof (induction xs arbitrary: s)
  case (Cons x xs)
  then have "ok (snd (apply_op put remove s x))" using put_law remove_law by (cases x) auto
  with Cons show ?case by (simp add: Let_def case_prod_beta)
qed simp

lemma run_records:
  "ok s \<Longrightarrow> \<forall>x\<in>set xs. key_ok (op_key x) \<Longrightarrow> \<forall>rc\<in>set (fst (store_run put remove s xs)). rc = 0 \<Longrightarrow>
     records (snd (store_run put remove s xs)) k = last_put k (records s k) xs"
proof (induction xs arbitrary: s)
  case (Cons x xs)
  let ?s = "snd (apply_op put remove s x)"
  have rc: "fst (apply_op put remove s x) = 0" and rest: "\<forall>rc\<in>set (fst (store_run put remove ?s xs)). rc = 0"
    using Cons.prems(3) by (simp_all add: Let_def case_prod_beta)
  have ok: "ok ?s" and rec: "records ?s k = last_put k (records s k) [x]"
    using Cons.prems(1,2) rc put_law remove_law by (cases x; auto)+
  have "records (snd (store_run put remove ?s xs)) k = last_put k (records ?s k) xs"
    using ok Cons.prems(2) rest by (intro Cons.IH) simp_all
  with rec show ?case by (cases x) (simp_all add: Let_def case_prod_beta)
qed simp

lemma get_after_run:
  assumes "ok s" "\<forall>x\<in>set xs. key_ok (op_key x)" "\<forall>rc\<in>set (fst (store_run put remove s xs)). rc = 0" "key_ok k"
  shows "case last_put k (records s k) xs of
      None \<Rightarrow> fst (get (snd (store_run put remove s xs)) k) \<noteq> 0 \<and> has (snd (store_run put remove s xs)) k \<noteq> 0
    | Some b \<Rightarrow> get (snd (store_run put remove s xs)) k = (0, b) \<and> has (snd (store_run put remove s xs)) k = 0"
  using get_law [OF run_ok [OF assms(1,2)] assms(4)] has_law [OF run_ok [OF assms(1,2)] assms(4)]
    run_records [OF assms(1-3), of k]
  by (auto split: option.splits)

text \<open>A failed write never leaves a part of a record, and never touches another key.\<close>

lemma failed_put:
  assumes "ok s" "key_ok k" "fst (put s k bufs) \<noteq> 0"
  shows "fst (get (snd (put s k bufs)) k) \<noteq> 0" "k' \<noteq> k \<Longrightarrow> records (snd (put s k bufs)) k' = records s k'"
  using put_law [OF assms(1,2), of bufs] assms(3) get_law [of "snd (put s k bufs)" k] assms(2)
  by (auto split: option.splits)

end

subsection \<open>Path names\<close>

lemma tokens_one: "acc @ b \<noteq> [] \<Longrightarrow> \<forall>x\<in>set b. \<not> sep x \<Longrightarrow> tokens sep acc b = [acc @ b]"
proof (induction b arbitrary: acc)
  case (Cons x b)
  from Cons.IH [of "acc @ [x]"] Cons.prems show ?case by simp
qed simp

lemma tokens_last:
  "sep c \<Longrightarrow> \<forall>x\<in>set b. \<not> sep x \<Longrightarrow> b \<noteq> [] \<Longrightarrow> tokens sep acc (s @ c # b) = tokens sep acc s @ [b]"
proof (induction s arbitrary: acc)
  case Nil
  from tokens_one [of "[]" b] Nil show ?case by simp
next
  case (Cons x s)
  then show ?case by simp
qed

lemma tokens_mem: "x \<in> set acc \<or> x \<in> set s \<Longrightarrow> \<not> sep x \<Longrightarrow> \<exists>t\<in>set (tokens sep acc s). x \<in> set t"
  by (induction sep acc s rule: tokens.induct) (auto split: if_splits)

text \<open>Keys the library makes: a short stem, digits.\<close>

definition key_ok :: "string \<Rightarrow> bool" where
  "key_ok k \<longleftrightarrow> CHR ''/'' \<notin> set k \<and> CHR ''.'' \<notin> set k"

definition dir_path :: "pst \<Rightarrow> path" where
  "dir_path h = parse_path (clientDir h)"

definition file_name :: "string \<Rightarrow> string" where
  "file_name k = k @ MESSAGE_FILENAME_EXTENSION"

lemma pst_file_child:
  assumes "key_ok k" "clientDir h \<noteq> []"
  shows "pst_file h k = child (dir_path h) (file_name k)"
proof -
  let ?s = "\<lambda>c. c = CHR ''/''"
  have n: "\<forall>x\<in>set (file_name k). \<not> ?s x" "file_name k \<noteq> []" "file_name k \<noteq> ''.''"
    using assms(1) by (auto simp: key_ok_def file_name_def MESSAGE_FILENAME_EXTENSION_def)
  have e: "clientDir h @ ''/'' @ k @ MESSAGE_FILENAME_EXTENSION = clientDir h @ CHR ''/'' # file_name k"
    by (simp add: file_name_def)
  have "tokens ?s [] (clientDir h @ CHR ''/'' # file_name k) = tokens ?s [] (clientDir h) @ [file_name k]"
    using n(1,2) by (intro tokens_last) simp_all
  moreover have "take 1 (clientDir h @ CHR ''/'' # file_name k) = take 1 (clientDir h)"
    using assms(2) by (cases "clientDir h") simp_all
  ultimately show ?thesis
    using n(3) unfolding pst_file_def e by (simp add: parse_path_def child_def dir_path_def)
qed

lemma child_simps [simp]:
  "parent (child d n) = d" "child d n = child d m \<longleftrightarrow> n = m" "snd (child d n) \<noteq> []" "last (snd (child d n)) = n"
  by (auto simp: parent_def child_def)

lemma file_name_inj [simp]: "file_name k = file_name j \<longleftrightarrow> k = j"
  by (simp add: file_name_def)

lemma strip_ext_file_name:
  assumes "key_ok k"
  shows "strip_ext (file_name k) = k"
proof -
  have "strip_ext (k @ MESSAGE_FILENAME_EXTENSION) = k" if "CHR ''.'' \<notin> set k" for k
    using that by (induction k) (auto simp: MESSAGE_FILENAME_EXTENSION_def)
  then show ?thesis using assms by (simp add: key_ok_def file_name_def)
qed

subsection \<open>The files as a store\<close>

text \<open>
  The client's directory exists and holds only files that the library made; nothing else is asked of
  the file system.
\<close>

definition pst_ok :: "pst \<Rightarrow> bool" where
  "pst_ok h \<longleftrightarrow> clientDir h \<noteq> [] \<and> is_dir (pst_fs h) (dir_path h) \<and>
     (\<forall>d\<in>set (fs_dirs (pst_fs h)). parent d = dir_path h \<longrightarrow> snd d = []) \<and>
     distinct (map fst (fs_files (pst_fs h))) \<and>
     (\<forall>f\<in>set (fs_files (pst_fs h)). parent (fst f) = dir_path h \<longrightarrow>
        (\<exists>k. key_ok k \<and> fst f = child (dir_path h) (file_name k)))"

definition pst_records :: "pst \<Rightarrow> string \<rightharpoonup> byte list" where
  "pst_records h k = (if key_ok k then map_of (fs_files (pst_fs h)) (child (dir_path h) (file_name k)) else None)"

lemma map_of_mem: "map_of xs p \<noteq> None \<longleftrightarrow> (\<exists>x\<in>set xs. fst x = p)"
  by (induction xs) auto

lemma map_of_file_update: "map_of (file_update p b xs) = (map_of xs)(p \<mapsto> b)"
  by (induction xs) (auto simp: fun_eq_iff)

lemma map_of_file_delete: "map_of (file_delete p xs) = (map_of xs)(p := None)"
  by (induction xs) (auto simp: file_delete_def fun_eq_iff)

lemma addrs_file_update:
  "map fst (file_update p b xs) = (if p \<in> fst ` set xs then map fst xs else map fst xs @ [p])"
  by (induction xs) auto

lemma set_file_update: "set (file_update p b xs) \<subseteq> insert (p, b) (set xs)"
  by (induction xs) auto

lemma pst_ok_update:
  assumes "pst_ok h" "key_ok k"
  shows "pst_ok (h\<lparr>pst_fs := (pst_fs h)\<lparr>fs_files := file_update (pst_file h k) b (fs_files (pst_fs h))\<rparr>\<rparr>)"
proof -
  have f: "pst_file h k = child (dir_path h) (file_name k)" using assms by (auto simp: pst_ok_def pst_file_child)
  have "distinct (map fst (file_update (pst_file h k) b (fs_files (pst_fs h))))"
    using assms(1) by (auto simp: pst_ok_def addrs_file_update)
  moreover have "\<exists>j. key_ok j \<and> fst x = child (dir_path h) (file_name j)"
    if "x \<in> set (file_update (pst_file h k) b (fs_files (pst_fs h)))" "parent (fst x) = dir_path h" for x
  proof -
    have "x = (pst_file h k, b) \<or> x \<in> set (fs_files (pst_fs h))" using that(1) set_file_update by fastforce
    then show ?thesis using assms that(2) f by (auto simp: pst_ok_def)
  qed
  ultimately show ?thesis using assms(1) by (simp add: pst_ok_def dir_path_def is_dir_def)
qed

lemma pst_ok_delete:
  "pst_ok h \<Longrightarrow> pst_ok (h\<lparr>pst_fs := (pst_fs h)\<lparr>fs_files := file_delete p (fs_files (pst_fs h))\<rparr>\<rparr>)"
  by (auto simp: pst_ok_def dir_path_def is_dir_def file_delete_def distinct_map_filter)

lemma not_a_dir:
  assumes "pst_ok h" "key_ok k"
  shows "\<not> is_dir (pst_fs h) (pst_file h k)" "is_dir (pst_fs h) (parent (pst_file h k))"
proof -
  have f: "pst_file h k = child (dir_path h) (file_name k)" using assms by (auto simp: pst_ok_def pst_file_child)
  show "\<not> is_dir (pst_fs h) (pst_file h k)" "is_dir (pst_fs h) (parent (pst_file h k))"
    using assms(1) unfolding f by (auto simp: is_dir_def pst_ok_def)
qed

lemma put_files:
  assumes "pst_ok h" "key_ok k"
  shows "let p = pst_file h k; data = concat bufs;
      b = (case fs_capacity (pst_fs h) p of None \<Rightarrow> data | Some n \<Rightarrow> take n data)
    in pstput h k bufs = (if length b \<noteq> length data
      then (MQTTCLIENT_PERSISTENCE_ERROR, snd (pstremove
             (h\<lparr>pst_fs := (pst_fs h)\<lparr>fs_files := file_update p b (fs_files (pst_fs h))\<rparr>\<rparr>) k))
      else (0, h\<lparr>pst_fs := (pst_fs h)\<lparr>fs_files := file_update p b (fs_files (pst_fs h))\<rparr>\<rparr>))"
  using not_a_dir [OF assms] by (simp add: pstput_def sys_write_file_def Let_def)

lemma remove_files:
  assumes "pst_ok h" "key_ok k"
  shows "fst (pstremove h k) = 0" "pst_ok (snd (pstremove h k))"
    "pst_records (snd (pstremove h k)) = (pst_records h)(k := None)"
proof -
  have f: "pst_file h k = child (dir_path h) (file_name k)" using assms by (auto simp: pst_ok_def pst_file_child)
  note nd = not_a_dir [OF assms]
  have r: "pstremove h k = (0, if is_reg (pst_fs h) (pst_file h k) then
      h\<lparr>pst_fs := (pst_fs h)\<lparr>fs_files := file_delete (pst_file h k) (fs_files (pst_fs h))\<rparr>\<rparr> else h)"
    using nd(1) by (simp add: pstremove_def sys_unlink_def)
  show "fst (pstremove h k) = 0" by (simp add: r)
  show "pst_ok (snd (pstremove h k))" using pst_ok_delete [OF assms(1)] assms(1) by (simp add: r)
  show "pst_records (snd (pstremove h k)) = (pst_records h)(k := None)"
    using assms(2)
    by (auto simp: r pst_records_def dir_path_def fun_eq_iff map_of_file_delete is_reg_def f [unfolded dir_path_def])
qed

lemma put_law_files:
  assumes "pst_ok h" "key_ok k"
  shows "pst_ok (snd (pstput h k bufs)) \<and>
    (fst (pstput h k bufs) = 0 \<longrightarrow> pst_records (snd (pstput h k bufs)) = (pst_records h)(k \<mapsto> concat bufs)) \<and>
    (fst (pstput h k bufs) \<noteq> 0 \<longrightarrow> pst_records (snd (pstput h k bufs)) = (pst_records h)(k := None))"
proof -
  define b where "b = (case fs_capacity (pst_fs h) (pst_file h k) of None \<Rightarrow> concat bufs | Some n \<Rightarrow> take n (concat bufs))"
  define h1 where "h1 = h\<lparr>pst_fs := (pst_fs h)\<lparr>fs_files := file_update (pst_file h k) b (fs_files (pst_fs h))\<rparr>\<rparr>"
  have f: "pst_file h k = child (dir_path h) (file_name k)" using assms by (auto simp: pst_ok_def pst_file_child)
  have p: "pstput h k bufs = (if length b \<noteq> length (concat bufs)
      then (MQTTCLIENT_PERSISTENCE_ERROR, snd (pstremove h1 k)) else (0, h1))"
    using put_files [OF assms, of bufs] by (simp add: Let_def b_def h1_def)
  have ok1: "pst_ok h1" unfolding h1_def using assms by (rule pst_ok_update)
  have r1: "pst_records h1 = (pst_records h)(k \<mapsto> b)"
    using assms(2) by (auto simp: h1_def pst_records_def fun_eq_iff map_of_file_update f dir_path_def)
  show ?thesis
  proof (cases "length b = length (concat bufs)")
    case True
    then have "b = concat bufs" by (auto simp: b_def split: option.splits)
    with True p ok1 r1 show ?thesis by simp
  next
    case False
    have "pst_ok (snd (pstremove h1 k))" "pst_records (snd (pstremove h1 k)) = (pst_records h)(k := None)"
      using remove_files(2,3) [OF ok1 assms(2)] by (simp_all add: r1)
    with False p show ?thesis by (simp add: MQTTCLIENT_PERSISTENCE_ERROR_def)
  qed
qed

lemma get_law_files:
  assumes "pst_ok h" "key_ok k"
  shows "case pst_records h k of None \<Rightarrow> fst (pstget h k) \<noteq> 0 | Some b \<Rightarrow> pstget h k = (0, b)"
proof -
  have "pst_file h k = child (dir_path h) (file_name k)" using assms by (auto simp: pst_ok_def pst_file_child)
  then show ?thesis
    using assms(2) by (auto simp: pst_records_def pstget_def MQTTCLIENT_PERSISTENCE_ERROR_def split: option.splits)
qed

lemma keys_files:
  assumes "pst_ok h"
  shows "strip_ext ` set (regular_names (dir_path h) (pst_fs h)) = dom (pst_records h)"
proof -
  let ?fs = "fs_files (pst_fs h)"
  have made: "\<exists>k. key_ok k \<and> fst x = child (dir_path h) (file_name k)"
    if "x \<in> set ?fs" "parent (fst x) = dir_path h" for x using assms that by (auto simp: pst_ok_def)
  have "k \<in> dom (pst_records h) \<longleftrightarrow> key_ok k \<and> (\<exists>x\<in>set ?fs. fst x = child (dir_path h) (file_name k))" for k
    unfolding domIff pst_records_def
    using map_of_mem [of ?fs "child (dir_path h) (file_name k)"] by (cases "key_ok k") (simp_all only: if_True if_False simp_thms)
  moreover have "k \<in> strip_ext ` set (regular_names (dir_path h) (pst_fs h)) \<longleftrightarrow>
      key_ok k \<and> (\<exists>x\<in>set ?fs. fst x = child (dir_path h) (file_name k))" for k
  proof
    assume "k \<in> strip_ext ` set (regular_names (dir_path h) (pst_fs h))"
    then obtain x where x: "x \<in> set ?fs" "parent (fst x) = dir_path h" "k = strip_ext (last (snd (fst x)))"
      by (auto simp: regular_names_def)
    from made [OF x(1,2)] obtain j where "key_ok j" "fst x = child (dir_path h) (file_name j)" by blast
    with x show "key_ok k \<and> (\<exists>x\<in>set ?fs. fst x = child (dir_path h) (file_name k))"
      by (auto simp: strip_ext_file_name)
  next
    assume "key_ok k \<and> (\<exists>x\<in>set ?fs. fst x = child (dir_path h) (file_name k))"
    then obtain x where x: "key_ok k" "x \<in> set ?fs" "fst x = child (dir_path h) (file_name k)" by blast
    then have "file_name k \<in> set (regular_names (dir_path h) (pst_fs h))"
      unfolding regular_names_def by (auto intro!: image_eqI [of _ _ x])
    then show "k \<in> strip_ext ` set (regular_names (dir_path h) (pst_fs h))"
      using strip_ext_file_name [OF x(1)] by (metis image_eqI)
  qed
  ultimately show ?thesis by blast
qed

interpretation files: msg_store pstput pstget pstremove pstcontainskey pstkeys key_ok pst_ok pst_records
proof
  fix h k assume ok: "pst_ok h" and k: "key_ok k"
  have d: "is_dir (pst_fs h) (dir_path h)" using ok by (simp add: pst_ok_def)
  show "pstcontainskey h k = 0 \<longleftrightarrow> k \<in> dom (pst_records h)"
    using d unfolding keys_files [OF ok, symmetric]
    by (auto simp: pstcontainskey_def containskeyUnix_def dir_path_def Let_def list_ex_iff
        MQTTCLIENT_PERSISTENCE_ERROR_def)
next
  fix h assume ok: "pst_ok h"
  then have d: "is_dir (pst_fs h) (dir_path h)" by (simp add: pst_ok_def)
  then show "fst (pstkeys h) = 0 \<and> set (snd (pstkeys h)) = dom (pst_records h)"
    using keys_files [OF ok] by (simp add: pstkeys_def keysUnix_def dir_path_def Let_def)
qed (use put_law_files remove_files get_law_files in blast)+

subsection \<open>Opening and clearing\<close>

text \<open>Relative names stay relative.\<close>

lemma parse_path_append:
  assumes "CHR ''/'' \<notin> set t" "t \<noteq> []" "crt \<noteq> []"
  shows "parse_path (crt @ ''/'' @ t) = (fst (parse_path crt), snd (parse_path crt) @ (if t = ''.'' then [] else [t]))"
proof -
  have "tokens (\<lambda>c. c = CHR ''/'') [] (crt @ CHR ''/'' # t) = tokens (\<lambda>c. c = CHR ''/'') [] crt @ [t]"
    using assms(1,2) by (intro tokens_last) auto
  moreover have "take 1 (crt @ CHR ''/'' # t) = take 1 crt" using assms(3) by (cases crt) simp_all
  ultimately show ?thesis by (simp add: parse_path_def)
qed

lemma pstmkdir_dirs:
  assumes "pstmkdir s fs = (rc, fs')"
  shows "set (fs_dirs fs') \<subseteq> insert (parse_path s) (set (fs_dirs fs))" "set (fs_dirs fs) \<subseteq> set (fs_dirs fs')"
    "fs_files fs' = fs_files fs" "rc = 0 \<Longrightarrow> \<not> is_reg fs (parse_path s) \<Longrightarrow> is_dir fs' (parse_path s)"
  using assms by (auto simp: pstmkdir_def sys_mkdir_def is_dir_def is_reg_def MQTTCLIENT_PERSISTENCE_ERROR_def
      split: if_splits prod.splits)

lemma mkdirs_dirs:
  assumes "mkdirs crt ts fs = (rc, fs')" "crt \<noteq> []" "\<forall>t\<in>set ts. CHR ''/'' \<notin> set t \<and> t \<noteq> []"
  shows "\<forall>d\<in>set (fs_dirs fs') - set (fs_dirs fs). fst d = fst (parse_path crt)"
    "fs_files fs' = fs_files fs" "set (fs_dirs fs) \<subseteq> set (fs_dirs fs')"
proof -
  have "(\<forall>d\<in>set (fs_dirs fs') - set (fs_dirs fs). fst d = fst (parse_path crt)) \<and> fs_files fs' = fs_files fs \<and>
      set (fs_dirs fs) \<subseteq> set (fs_dirs fs')"
    using assms
  proof (induction crt ts fs rule: mkdirs.induct)
    case (2 crt t ts fs)
    let ?c = "crt @ ''/'' @ t"
    obtain rc1 fs1 where 1: "pstmkdir ?c fs = (rc1, fs1)" by force
    have c: "fst (parse_path ?c) = fst (parse_path crt)"
      using parse_path_append [of t crt] 2(3,4) by auto
    note m = pstmkdir_dirs(1-3) [OF 1]
    show ?case
    proof (cases "rc1 = 0")
      case True
      with 1 2(2) have "mkdirs ?c ts fs1 = (rc, fs')" by simp
      from 2(1) [OF refl 1 [symmetric] refl True this] 2(4)
      have "(\<forall>d\<in>set (fs_dirs fs') - set (fs_dirs fs1). fst d = fst (parse_path ?c)) \<and> fs_files fs' = fs_files fs1 \<and>
          set (fs_dirs fs1) \<subseteq> set (fs_dirs fs')" by simp
      with m c show ?thesis by auto
    next
      case False
      with 1 2(2) have "fs' = fs1" by simp
      with m c show ?thesis by auto
    qed
  qed simp
  then show "\<forall>d\<in>set (fs_dirs fs') - set (fs_dirs fs). fst d = fst (parse_path crt)"
    "fs_files fs' = fs_files fs" "set (fs_dirs fs) \<subseteq> set (fs_dirs fs')" by blast+
qed

text \<open>The directories made are the prefixes of the last one, which is there when all calls succeed.\<close>

lemma is_dir_mono: "set (fs_dirs fs) \<subseteq> set (fs_dirs fs') \<Longrightarrow> is_dir fs p \<Longrightarrow> is_dir fs' p"
  by (auto simp: is_dir_def)

lemma is_reg_cong: "fs_files fs' = fs_files fs \<Longrightarrow> is_reg fs' p = is_reg fs p"
  by (simp add: is_reg_def)

definition path_after :: "string \<Rightarrow> string list \<Rightarrow> string list" where
  "path_after crt ts = snd (parse_path crt) @ filter (\<lambda>t. t \<noteq> ''.'') ts"

lemma mkdirs_path:
  assumes "mkdirs crt ts fs = (rc, fs')" "crt \<noteq> []" "\<forall>t\<in>set ts. CHR ''/'' \<notin> set t \<and> t \<noteq> []"
  shows "\<forall>d\<in>set (fs_dirs fs') - set (fs_dirs fs). \<exists>n. d = (fst (parse_path crt), take n (path_after crt ts))"
    "rc = 0 \<Longrightarrow> is_dir fs (parse_path crt) \<Longrightarrow>
       (\<And>n. \<not> is_reg fs (fst (parse_path crt), take n (path_after crt ts))) \<Longrightarrow>
       is_dir fs' (fst (parse_path crt), path_after crt ts)"
proof -
  have "(\<forall>d\<in>set (fs_dirs fs') - set (fs_dirs fs). \<exists>n. d = (fst (parse_path crt), take n (path_after crt ts))) \<and>
      (rc = 0 \<longrightarrow> is_dir fs (parse_path crt) \<longrightarrow> (\<forall>n. \<not> is_reg fs (fst (parse_path crt), take n (path_after crt ts))) \<longrightarrow>
       is_dir fs' (fst (parse_path crt), path_after crt ts))"
    using assms
  proof (induction crt ts fs rule: mkdirs.induct)
    case (1 crt fs)
    then show ?case by (auto simp: path_after_def)
  next
    case (2 crt t ts fs)
    let ?c = "crt @ ''/'' @ t"
    obtain rc1 fs1 where 1: "pstmkdir ?c fs = (rc1, fs1)" by force
    have c: "parse_path ?c = (fst (parse_path crt), snd (parse_path crt) @ (if t = ''.'' then [] else [t]))"
      using parse_path_append [of t crt] 2(3,4) by auto
    then have pa: "path_after crt (t # ts) = path_after ?c ts" by (simp add: path_after_def)
    have pre: "parse_path ?c = (fst (parse_path crt), take (length (snd (parse_path ?c))) (path_after crt (t # ts)))"
      unfolding pa path_after_def c by simp
    note m = pstmkdir_dirs [OF 1]
    show ?case
    proof (cases "rc1 = 0")
      case True
      with 1 2(2) have mk: "mkdirs ?c ts fs1 = (rc, fs')" by simp
      from 2(1) [OF refl 1 [symmetric] refl True mk] 2(4)
      have new: "\<forall>d\<in>set (fs_dirs fs') - set (fs_dirs fs1). \<exists>n. d = (fst (parse_path ?c), take n (path_after ?c ts))"
        and dir: "rc = 0 \<Longrightarrow> is_dir fs1 (parse_path ?c) \<Longrightarrow>
          \<forall>n. \<not> is_reg fs1 (fst (parse_path ?c), take n (path_after ?c ts)) \<Longrightarrow>
          is_dir fs' (fst (parse_path ?c), path_after ?c ts)" by simp_all
      have fc: "fst (parse_path ?c) = fst (parse_path crt)" using c by simp
      have "\<exists>n. d = (fst (parse_path crt), take n (path_after crt (t # ts)))"
        if "d \<in> set (fs_dirs fs') - set (fs_dirs fs)" for d
      proof (cases "d \<in> set (fs_dirs fs1)")
        case True
        then have "d = parse_path ?c" using m(1) that by blast
        then show ?thesis using pre by blast
      next
        case False
        then show ?thesis using new that unfolding fc pa by blast
      qed
      moreover have "is_dir fs' (fst (parse_path crt), path_after crt (t # ts))"
        if "rc = 0" "\<forall>n. \<not> is_reg fs (fst (parse_path crt), take n (path_after crt (t # ts)))"
      proof -
        have "\<not> is_reg fs (parse_path ?c)" using that(2) pre by metis
        then have "is_dir fs1 (parse_path ?c)" by (rule m(4) [OF True])
        with dir that show ?thesis unfolding fc pa is_reg_cong [OF m(3)] by blast
      qed
      ultimately show ?thesis by blast
    next
      case False
      with 1 2(2) have "fs' = fs1" "rc \<noteq> 0" by auto
      with m(1) pre show ?thesis by blast
    qed
  qed
  then show "\<forall>d\<in>set (fs_dirs fs') - set (fs_dirs fs). \<exists>n. d = (fst (parse_path crt), take n (path_after crt ts))"
    "rc = 0 \<Longrightarrow> is_dir fs (parse_path crt) \<Longrightarrow>
       (\<And>n. \<not> is_reg fs (fst (parse_path crt), take n (path_after crt ts))) \<Longrightarrow>
       is_dir fs' (fst (parse_path crt), path_after crt ts)" by blast+
qed

lemma tokens_sep_free:
  "\<forall>x\<in>set acc. \<not> sep x \<Longrightarrow> \<forall>t\<in>set (tokens sep acc s). t \<noteq> [] \<and> (\<forall>x\<in>set t. \<not> sep x)"
proof (induction s arbitrary: acc)
  case (Cons c s)
  show ?case
  proof (cases "sep c")
    case True
    have "set (tokens sep acc (c # s)) = (if acc = [] then {} else {acc}) \<union> set (tokens sep [] s)"
      using True by simp
    then have "t = acc \<and> acc \<noteq> [] \<or> t \<in> set (tokens sep [] s)" if "t \<in> set (tokens sep acc (c # s))" for t
      using that by (simp only: split: if_splits) blast+
    moreover have "\<forall>t\<in>set (tokens sep [] s). t \<noteq> [] \<and> (\<forall>x\<in>set t. \<not> sep x)" by (rule Cons.IH) simp
    ultimately show ?thesis using Cons.prems by metis
  next
    case False
    with Cons.prems have a: "\<forall>x\<in>set (acc @ [c]). \<not> sep x" unfolding set_append list.set by blast
    have e: "tokens sep acc (c # s) = tokens sep (acc @ [c]) s" using False by simp
    show ?thesis unfolding e using a by (rule Cons.IH)
  qed
qed simp

lemma relative_token:
  assumes "CHR ''/'' \<notin> set t" "t \<noteq> []"
  shows "fst (parse_path t) = False"
  using assms by (cases t) (auto simp: parse_path_def)

lemma clear_loop_nothing:
  "\<forall>n\<in>set names. \<not> is_reg fs (parse_path n) \<Longrightarrow> clear_loop False names fs = (0, fs)"
  by (induction names) (auto simp: Let_def)

subsection \<open>Properties\<close>

text \<open>A directory that exists, on a file system that gives one file room for two bytes only.\<close>

definition example_fs :: filesys where
  "example_fs = \<lparr>fs_dirs = [(False, [''d''])], fs_files = [((False, [''d'', ''x.msg'']), [7])],
     fs_capacity = (\<lambda>p. if p = (False, [''d'', ''f.msg'']) then Some 2 else None)\<rparr>"

definition example_pst :: pst where
  "example_pst = \<lparr>pst_fs = example_fs, clientDir = ''d''\<rparr>"

lemmas pst_code_defs = pstput_def pstget_def pstremove_def pstopen_def subst_colon_def is_slash_def pstmkdir_def
  sys_write_file_def sys_unlink_def sys_mkdir_def file_delete_def pst_file_def MQTTCLIENT_PERSISTENCE_ERROR_def
  Let_def

lemmas example_pst_defs = example_pst_def example_fs_def pst_ok_def dir_path_def parse_path_def is_dir_def is_reg_def
  key_ok_def file_name_def parent_def child_def MESSAGE_FILENAME_EXTENSION_def pst_records_def

lemma example_pst_ok: "pst_ok example_pst"
  by (simp add: example_pst_defs exI [of _ "''x''"])



definition example_run :: "int list \<times> pst" where
  "example_run = store_run pstput pstremove example_pst [Put ''a'' [[1], [2, 3]], Put ''b'' [[9]], Remove ''x'', Put ''a'' [[4]]]"




text \<open>
  C21: \<^verbatim>\<open>pstclear\<close> clears nothing.  Unless the working directory has files of the same names, it returns
  success with every file still there: \<^verbatim>\<open>lstat\<close> and \<^verbatim>\<open>remove\<close> get the names without the directory.
\<close>

theorem pstclear_clears_nothing:
  assumes "is_dir (pst_fs h) (parse_path (clientDir h))"
    "\<forall>n\<in>set (regular_names (parse_path (clientDir h)) (pst_fs h) @ dir_names (parse_path (clientDir h)) (pst_fs h)).
       \<not> is_reg (pst_fs h) (parse_path n)"
  shows "pstclear h = (0, h)"
  using assms(1) clear_loop_nothing [OF assms(2)] by (simp add: pstclear_def clearUnix_def Let_def)

lemma pstclear_clears_nothing_witness:
  "pstclear example_pst = (0, example_pst) \<and> is_reg (pst_fs example_pst) (False, [''d'', ''x.msg''])"
proof -
  have "pstclear example_pst = (0, example_pst)"
    by (rule pstclear_clears_nothing) (simp_all add: example_pst_defs regular_names_def dir_names_def)
  then show ?thesis by (simp add: example_pst_defs)
qed

text \<open>
  An absolute persistence directory is never created.  When \<^verbatim>\<open>context\<close> begins with a slash,
  \<^verbatim>\<open>pstopen\<close> makes relative directories (the tokens lose the slash) and may report success; if the
  file system had no directories below the root, every \<^verbatim>\<open>pstput\<close> on the handle then fails.
\<close>

theorem pstopen_absolute_unusable:
  assumes "pstopen fs (CHR ''/'' # rest) cid uri = Some (rc, h)" "\<forall>d\<in>set (fs_dirs fs). \<not> fst d" "key_ok k"
  shows "pstput h k bufs = (MQTTCLIENT_PERSISTENCE_ERROR, h)"
proof -
  from assms(1) obtain u where u: "subst_colon uri = Some u" by (auto simp: pstopen_def bind_Some_conv)
  let ?dir = "(CHR ''/'' # rest) @ ''/'' @ cid @ ''-'' @ u"
  have "CHR ''-'' \<in> set ?dir" by simp
  then have "\<exists>t\<in>set (tokens is_slash [] ?dir). CHR ''-'' \<in> set t"
    by (intro tokens_mem) (simp_all add: is_slash_def)
  then obtain t ts where ts: "tokens is_slash [] ?dir = t # ts" by (cases "tokens is_slash [] ?dir") auto
  have free: "CHR ''/'' \<notin> set x \<and> x \<noteq> []" if "x \<in> set (t # ts)" for x
    using tokens_sep_free [of "[]" is_slash ?dir] that ts by (auto simp: is_slash_def)
  obtain rc1 fs1 where 1: "pstmkdir t fs = (rc1, fs1)" by force
  obtain rc2 fs2 where 2: "(if rc1 = 0 then mkdirs t ts fs1 else (rc1, fs1)) = (rc2, fs2)" by force
  have h: "h = \<lparr>pst_fs = fs2, clientDir = ?dir\<rparr>"
    using assms(1) u ts 1 2 by (simp add: pstopen_def Let_def)
  have rel: "\<not> fst (parse_path t)" using relative_token free by simp
  have d1: "\<forall>d\<in>set (fs_dirs fs1). \<not> fst d" using pstmkdir_dirs(1) [OF 1] assms(2) rel by auto
  have d2: "\<forall>d\<in>set (fs_dirs fs2). \<not> fst d"
  proof (cases "rc1 = 0")
    case True
    then have "mkdirs t ts fs1 = (rc2, fs2)" using 2 by simp
    from mkdirs_dirs(1) [OF this] free d1 rel show ?thesis by auto
  next
    case False
    with 2 d1 show ?thesis by simp
  qed
  have f: "pst_file h k = child (dir_path h) (file_name k)" using assms(3) h by (intro pst_file_child) simp_all
  have abs: "fst (dir_path h)" using h by (simp add: dir_path_def parse_path_def)
  have "\<exists>t\<in>set (tokens (\<lambda>c. c = CHR ''/'') [] ?dir). CHR ''-'' \<in> set t" by (intro tokens_mem) simp_all
  then obtain t' where "t' \<in> set (tokens (\<lambda>c. c = CHR ''/'') [] ?dir)" "CHR ''-'' \<in> set t'" by blast
  then have "t' \<in> set (tokens (\<lambda>c. c = CHR ''/'') [] ?dir) \<and> t' \<noteq> ''.''" by auto
  then have "snd (dir_path h) \<noteq> []" using h by (auto simp: dir_path_def parse_path_def filter_empty_conv)
  with abs d2 have "\<not> is_dir (pst_fs h) (dir_path h)" using h by (auto simp: is_dir_def)
  then show ?thesis using f by (simp add: pstput_def sys_write_file_def)
qed

lemma pstopen_absolute_unusable_witness:
  "\<exists>h. pstopen example_fs ''/p'' ''c'' ''h:1'' = Some (0, h) \<and>
     pstput h ''k'' [[1]] = (MQTTCLIENT_PERSISTENCE_ERROR, h)"
proof -
  have "\<exists>h. pstopen example_fs ''/p'' ''c'' ''h:1'' = Some (0, h)"
    by (simp add: example_pst_defs pst_code_defs)
  then obtain h where h: "pstopen example_fs ''/p'' ''c'' ''h:1'' = Some (0, h)" by blast
  have "pstput h ''k'' [[1]] = (MQTTCLIENT_PERSISTENCE_ERROR, h)"
    by (rule pstopen_absolute_unusable [OF h]) (simp_all add: example_fs_def key_ok_def)
  with h show ?thesis by blast
qed

text \<open>
  A relative persistence directory is ready for use.  When \<^verbatim>\<open>pstopen\<close> returns 0 for a context
  that does not begin with a slash, and no regular file is in the way of the directories and none is
  in the client's directory yet, then the directory exists and is an empty store.
\<close>

theorem pstopen_relative_ready:
  assumes "pstopen fs context cid uri = Some (0, h)" "context \<noteq> []" "hd context \<noteq> CHR ''/''"
    "CHR 0x5C \<notin> set context \<union> set cid \<union> set uri"
    "\<And>n. \<not> is_reg fs (False, take n (snd (dir_path h)))" "distinct (map fst (fs_files fs))"
    "\<forall>f\<in>set (fs_files fs). parent (fst f) \<noteq> dir_path h"
    "\<forall>d\<in>set (fs_dirs fs). parent d = dir_path h \<longrightarrow> snd d = []"
  shows "pst_ok h \<and> pst_records h = Map.empty"
proof -
  from assms(1) obtain u where u: "subst_colon uri = Some u" by (auto simp: pstopen_def bind_Some_conv)
  let ?dir = "context @ ''/'' @ cid @ ''-'' @ u"
  have "set u \<subseteq> insert (CHR ''-'') (set uri)"
    using u by (auto simp: subst_colon_def split: option.splits dest!: set_mp [OF set_update_subset_insert])
  then have nb: "CHR 0x5C \<notin> set ?dir" using assms(4) by auto
  have "tokens is_slash acc s = tokens (\<lambda>c. c = CHR ''/'') acc s" if "CHR 0x5C \<notin> set s" for acc s
    using that by (induction s arbitrary: acc) (auto simp: is_slash_def)
  then have tk: "tokens is_slash [] ?dir = tokens (\<lambda>c. c = CHR ''/'') [] ?dir" using nb by blast
  obtain x xs where ctx: "context = x # xs" "x \<noteq> CHR ''/''" using assms(2,3) by (cases "context") auto
  have "\<exists>t\<in>set (tokens (\<lambda>c. c = CHR ''/'') [] ?dir). CHR ''-'' \<in> set t" by (intro tokens_mem) simp_all
  then obtain t ts where ts: "tokens (\<lambda>c. c = CHR ''/'') [] ?dir = t # ts"
    by (cases "tokens (\<lambda>c. c = CHR ''/'') [] ?dir") auto
  have free: "CHR ''/'' \<notin> set y \<and> y \<noteq> []" if "y \<in> set (t # ts)" for y
    using tokens_sep_free [of "[]" "\<lambda>c. c = CHR ''/''" ?dir] that ts by auto
  obtain rc1 fs1 where 1: "pstmkdir t fs = (rc1, fs1)" by force
  obtain rc2 fs2 where 2: "(if rc1 = 0 then mkdirs t ts fs1 else (rc1, fs1)) = (rc2, fs2)" by force
  have h: "h = \<lparr>pst_fs = fs2, clientDir = ?dir\<rparr>" "rc2 = 0"
    using assms(1) u ts tk 1 2 by (simp_all add: pstopen_def Let_def)
  then have z: "rc1 = 0" and mk: "mkdirs t ts fs1 = (0, fs2)" using 2 by (auto split: if_splits)
  have dp: "dir_path h = (False, filter (\<lambda>t. t \<noteq> ''.'') (t # ts))"
    using h ts ctx by (simp add: dir_path_def parse_path_def)
  have ft: "CHR ''/'' \<notin> set t" "t \<noteq> []" using free [of t] by simp_all
  have "tokens (\<lambda>c. c = CHR ''/'') [] t = [t]" using ft by (subst tokens_one) auto
  then have pt: "parse_path t = (False, filter (\<lambda>t. t \<noteq> ''.'') [t])"
    using ft relative_token [of t] by (simp add: parse_path_def)
  have pa: "(False, path_after t ts) = dir_path h" unfolding dp by (simp add: path_after_def pt)
  have cl: "\<forall>y\<in>set ts. CHR ''/'' \<notin> set y \<and> y \<noteq> []" "t \<noteq> []" using free by auto
  note m1 = pstmkdir_dirs [OF 1] and m2 = mkdirs_dirs [OF mk cl(2,1)] and m3 = mkdirs_path [OF mk cl(2,1)]
  have nr: "\<not> is_reg fs (False, take n (path_after t ts))" for n using assms(5) pa by (metis snd_conv)
  have "\<not> is_reg fs (parse_path t)" using nr [of "length (snd (parse_path t))"] by (simp add: pt path_after_def)
  then have d1: "is_dir fs1 (parse_path t)" by (rule m1(4) [OF z])
  have "is_dir fs2 (False, path_after t ts)"
    using m3(2) [OF refl d1] nr pt is_reg_cong [OF m1(3)] by simp
  then have dir: "is_dir (pst_fs h) (dir_path h)" using h pa by simp
  have files: "fs_files (pst_fs h) = fs_files fs" using h m1(3) m2(2) by simp
  have pre: "snd d = []" if "d \<in> set (fs_dirs fs2)" "parent d = dir_path h" for d
  proof (rule ccontr)
    assume ne: "snd d \<noteq> []"
    have old: "d \<notin> set (fs_dirs fs)" using assms(8) that(2) ne by blast
    have "\<exists>n. d = (False, take n (path_after t ts))"
    proof (cases "d \<in> set (fs_dirs fs1)")
      case True
      with old m1(1) have "d = (False, take (length (snd (parse_path t))) (path_after t ts))"
        by (auto simp: pt path_after_def)
      then show ?thesis by blast
    next
      case False
      with m3(1) that(1) pt show ?thesis by simp
    qed
    then obtain n where n: "d = (False, take n (path_after t ts))" by blast
    have "length (snd (parent d)) < length (snd d)" using ne by (simp add: parent_def)
    also have "\<dots> \<le> length (path_after t ts)" by (simp add: n)
    also have "\<dots> = length (snd (dir_path h))" by (simp add: pa [symmetric])
    finally show False using that(2) by simp
  qed
  have "pst_ok h"
    using dir pre files assms(6,7) h by (auto simp: pst_ok_def)
  moreover have "pst_records h k = None" for k
    using assms(7) files by (auto simp: pst_records_def map_of_eq_None_iff) (metis child_simps(1) fst_conv)
  ultimately show ?thesis by blast
qed

lemma pstopen_relative_ready_witness:
  "\<exists>h. pstopen example_fs ''p'' ''c'' ''h:1'' = Some (0, h) \<and> pst_ok h \<and> pst_records h = Map.empty"
proof -
  have "\<exists>h. pstopen example_fs ''p'' ''c'' ''h:1'' = Some (0, h) \<and> dir_path h = (False, [''p'', ''c-h-1''])"
    by (simp add: example_pst_defs pst_code_defs)
  then obtain h where h: "pstopen example_fs ''p'' ''c'' ''h:1'' = Some (0, h)"
    "dir_path h = (False, [''p'', ''c-h-1''])" by blast
  have "pst_ok h \<and> pst_records h = Map.empty"
  proof (rule pstopen_relative_ready [OF h(1)])
    show "\<not> is_reg example_fs (False, take n (snd (dir_path h)))" for n
      by (cases n; cases "n - 1") (simp_all add: h(2) example_fs_def is_reg_def)
  qed (simp_all add: h(2) example_fs_def parent_def)
  with h(1) show ?thesis by blast
qed


end
