(* ===== verification/ProtocolClient.thy ===== *)
theory ProtocolClient
  imports PacketOut
begin

text \<open>
  \<^verbatim>\<open>MQTTProtocolClient.c\<close>: message ids, starting a publish exchange, the handlers of the incoming
  packets of the QoS 1 and QoS 2 exchanges, keep-alive and retries.  The two functions the file
  leaves to the client library, \<^verbatim>\<open>Protocol_processPublication\<close> and \<^verbatim>\<open>MQTTProtocol_closeSession\<close>,
  are the arguments \<open>process\<close> and \<open>closesess\<close>.
\<close>

type_synonym ('s, 'm) process_hook =
  "Publish \<Rightarrow> addr \<Rightarrow> ('s, 'm) proto_scheme \<Rightarrow> ('s, 'm) proto_scheme option"
type_synonym ('s, 'm) close_hook =
  "addr \<Rightarrow> int \<Rightarrow> ('s, 'm) proto_scheme \<Rightarrow> ('s, 'm) proto_scheme option"

subsection \<open>Message ids\<close>

definition next_msgid :: "int \<Rightarrow> int" where
  "next_msgid msgid = (if msgid = MAX_MSG_ID then 1 else msgid + 1)"

text \<open>The \<^verbatim>\<open>while\<close> loop; the search moves the list's cursor.\<close>

partial_function (option) msgid_loop ::
  "int \<Rightarrow> int \<Rightarrow> Messages clist \<Rightarrow> (int \<times> Messages clist) option" where
  "msgid_loop start msgid l = (case cl_find (messageIDCompare msgid) l of
     (None, l1) \<Rightarrow> Some (msgid, l1)
   | (Some _, l1) \<Rightarrow>
       if next_msgid msgid = start then Some (0, l1)
       else msgid_loop start (next_msgid msgid) l1)"

declare msgid_loop.simps [code]

definition MQTTProtocol_assignMsgId ::
  "addr \<Rightarrow> ('s, 'm) proto_scheme \<Rightarrow> (int \<times> ('s, 'm) proto_scheme) option" where
  "MQTTProtocol_assignMsgId c w = do {
     client \<leftarrow> get_client c w;
     (msgid, l) \<leftarrow> msgid_loop (msgID client) (next_msgid (msgID client)) (outboundMsgs client);
     Some (msgid, upd_client c (\<lambda>cl. cl\<lparr>outboundMsgs := l,
       msgID := (if msgid \<noteq> 0 then msgid else msgID cl)\<rparr>) w)
   }"

subsection \<open>Publishing\<close>

definition MQTTProtocol_storeQoS0 ::
  "addr \<Rightarrow> Publish \<Rightarrow> ('s, 'm) proto_scheme \<Rightarrow> ('s, 'm) proto_scheme option" where
  "MQTTProtocol_storeQoS0 c publish w = do {
     client \<leftarrow> get_client c w;
     ((a, len), w1) \<leftarrow> MQTTProtocol_storePublication publish w;
     let w2 = w1\<lparr>pending_qos0 := cl_add (pending_qos0 w1)
                  \<lparr>pq_socket = net_socket client, pq_p = a\<rparr> (16 + len)\<rparr>;
     p \<leftarrow> pubs w2 a;
     Some (snd (SocketBuffer_updateWrite (net_socket client) (pub_topic p) (pub_payload p) w2))
   }"

definition MQTTProtocol_startPublishCommon ::
  "addr \<Rightarrow> Publish \<Rightarrow> int \<Rightarrow> int \<Rightarrow> ('s, 'm) proto_scheme \<Rightarrow> (int \<times> ('s, 'm) proto_scheme) option" where
  "MQTTProtocol_startPublishCommon c publish qos retained w = do {
     (rc, w1) \<leftarrow> MQTTPacket_send_publish publish 0 qos retained c w;
     w2 \<leftarrow> (if qos = 0 \<and> rc = TCPSOCKET_INTERRUPTED then MQTTProtocol_storeQoS0 c publish w1
            else Some w1);
     Some (rc, w2)
   }"

text \<open>The result is the completion code and \<^verbatim>\<open>*mm\<close>.\<close>

definition MQTTProtocol_startPublish ::
  "addr \<Rightarrow> Publish \<Rightarrow> int \<Rightarrow> int \<Rightarrow> Messages option \<Rightarrow> ('s, 'm) proto_scheme \<Rightarrow>
     ((int \<times> Messages option) \<times> ('s, 'm) proto_scheme) option" where
  "MQTTProtocol_startPublish c publish qos retained mm w = do {
     (p, mm1, w1) \<leftarrow> (if qos > 0 then do {
          (m, w1) \<leftarrow> MQTTProtocol_createMessage publish mm qos retained w;
          let w2 = upd_client c (\<lambda>cl. cl\<lparr>outboundMsgs := cl_add (outboundMsgs cl) m (m_len m)\<rparr>) w1;
          pub \<leftarrow> pubs w2 (m_publish m);
          Some (publish\<lparr>topic := Some (pub_topic pub), payload := pub_payload pub\<rparr>, Some m, w2)
        } else Some (publish, mm, w));
     (rc, w3) \<leftarrow> MQTTProtocol_startPublishCommon c p qos retained w1;
     Some ((rc, mm1), w3)
   }"

subsection \<open>Messages in the lists of a client\<close>

definition find_outbound ::
  "int \<Rightarrow> addr \<Rightarrow> ('s, 'm) proto_scheme \<Rightarrow> ((addr \<times> Messages) option \<times> ('s, 'm) proto_scheme) option" where
  "find_outbound msgid c w = do {
     client \<leftarrow> get_client c w;
     let (e, l) = cl_find (messageIDCompare msgid) (outboundMsgs client);
     let w1 = upd_client c (\<lambda>cl. cl\<lparr>outboundMsgs := l\<rparr>) w;
     case e of None \<Rightarrow> Some (None, w1)
     | Some a \<Rightarrow> do { m \<leftarrow> map_of (items l) a; Some (Some (a, m), w1) }
   }"

definition find_inbound ::
  "int \<Rightarrow> addr \<Rightarrow> ('s, 'm) proto_scheme \<Rightarrow> ((addr \<times> Messages) option \<times> ('s, 'm) proto_scheme) option" where
  "find_inbound msgid c w = do {
     client \<leftarrow> get_client c w;
     let (e, l) = cl_find (messageIDCompare msgid) (inboundMsgs client);
     let w1 = upd_client c (\<lambda>cl. cl\<lparr>inboundMsgs := l\<rparr>) w;
     case e of None \<Rightarrow> Some (None, w1)
     | Some a \<Rightarrow> do { m \<leftarrow> map_of (items l) a; Some (Some (a, m), w1) }
   }"

definition remove_outbound :: "addr \<Rightarrow> addr \<Rightarrow> ('s, 'm) proto_scheme \<Rightarrow> ('s, 'm) proto_scheme" where
  "remove_outbound a c w =
     upd_client c (\<lambda>cl. cl\<lparr>outboundMsgs := snd (cl_remove_at a (outboundMsgs cl))\<rparr>) w"

definition remove_inbound :: "addr \<Rightarrow> addr \<Rightarrow> ('s, 'm) proto_scheme \<Rightarrow> ('s, 'm) proto_scheme" where
  "remove_inbound a c w =
     upd_client c (\<lambda>cl. cl\<lparr>inboundMsgs := snd (cl_remove_at a (inboundMsgs cl))\<rparr>) w"

definition uint_inc :: "int \<Rightarrow> int" where
  "uint_inc n = (n + 1) mod 4294967296"

subsection \<open>Incoming packets\<close>

text \<open>
  QoS 2: the message replaces a stored one with the same id (inserted before it, then the old one
  is removed) or is appended; it waits for the PUBREL.  Its \<^verbatim>\<open>lastTouch\<close> and \<^verbatim>\<open>len\<close> are not set.
\<close>

definition store_inbound ::
  "Publish \<Rightarrow> addr \<Rightarrow> ('s, 'm) proto_scheme \<Rightarrow> ('s, 'm) proto_scheme option" where
  "store_inbound publish c w = do {
     ((p, len), w1) \<leftarrow> MQTTProtocol_storePublication publish w;
     let m = \<lparr>m_qos = header_qos (p_header publish), m_retain = header_retain (p_header publish),
              m_msgid = msgId publish, m_publish = p, m_lastTouch = junk_int w1,
              m_nextMessageType = PUBREL, m_len = junk_int w1\<rparr>;
     (found, w2) \<leftarrow> find_inbound (msgId publish) c w1;
     case found of
       Some (a, old) \<Rightarrow> do {
         w3 \<leftarrow> MQTTProtocol_removePublication (m_publish old) w2;
         Some (remove_inbound a c (upd_client c (\<lambda>cl. cl\<lparr>inboundMsgs :=
           cl_add_before (inboundMsgs cl) m (sizeof_Messages + len) (Some a)\<rparr>) w3))
       }
     | None \<Rightarrow> Some (upd_client c (\<lambda>cl. cl\<lparr>inboundMsgs :=
           cl_add (inboundMsgs cl) m (sizeof_Messages + len)\<rparr>) w2)
   }"

definition MQTTProtocol_handlePublishes ::
  "('s, 'm) process_hook \<Rightarrow> Publish \<Rightarrow> int \<Rightarrow> ('s, 'm) proto_scheme \<Rightarrow>
     (int \<times> ('s, 'm) proto_scheme) option" where
  "MQTTProtocol_handlePublishes process publish sock w = do {
     (c, w1) \<leftarrow> find_client sock w;
     if header_qos (p_header publish) = 0 then do {
       w2 \<leftarrow> process publish c w1;
       Some (TCPSOCKET_COMPLETE, w2)
     } else if header_qos (p_header publish) = 1 then do {
       (rc, w2) \<leftarrow> MQTTPacket_send_puback (msgId publish) c w1;
       w3 \<leftarrow> process publish c w2;
       Some (rc, w3)
     } else if header_qos (p_header publish) = 2 then do {
       w2 \<leftarrow> store_inbound publish c w1;
       MQTTPacket_send_pubrec (msgId publish) c w2
     } else Some (TCPSOCKET_COMPLETE, w1)
   }"

definition MQTTProtocol_handlePubacks ::
  "Ack \<Rightarrow> int \<Rightarrow> ('s, 'm) proto_scheme \<Rightarrow> (int \<times> ('s, 'm) proto_scheme) option" where
  "MQTTProtocol_handlePubacks puback sock w = do {
     (c, w1) \<leftarrow> find_client sock w;
     (found, w2) \<leftarrow> find_outbound (a_msgId puback) c w1;
     case found of
       None \<Rightarrow> Some (TCPSOCKET_COMPLETE, w2)
     | Some (a, m) \<Rightarrow>
         if m_qos m \<noteq> 1 then Some (TCPSOCKET_COMPLETE, w2)
         else do {
           (rc, w3) \<leftarrow> MQTTPersistence_remove c PERSISTENCE_PUBLISH_SENT (m_qos m) (a_msgId puback) w2;
           w4 \<leftarrow> MQTTProtocol_removePublication (m_publish m) w3;
           Some (rc, remove_outbound a c w4)
         }
   }"

definition MQTTProtocol_handlePubrecs ::
  "Ack \<Rightarrow> int \<Rightarrow> ('s, 'm) proto_scheme \<Rightarrow> (int \<times> ('s, 'm) proto_scheme) option" where
  "MQTTProtocol_handlePubrecs pubrec sock w = do {
     (c, w1) \<leftarrow> find_client sock w;
     let w1 = upd_client c (\<lambda>cl. cl\<lparr>outboundMsgs := (outboundMsgs cl)\<lparr>cur := None\<rparr>\<rparr>) w1;
     (found, w2) \<leftarrow> find_outbound (a_msgId pubrec) c w1;
     case found of
       None \<Rightarrow> Some (TCPSOCKET_COMPLETE, w2)
     | Some (a, m) \<Rightarrow>
         if m_qos m \<noteq> 2 then Some (TCPSOCKET_COMPLETE, w2)
         else if m_nextMessageType m \<noteq> PUBREC then Some (TCPSOCKET_COMPLETE, w2)
         else do {
           (rc, w3) \<leftarrow> MQTTPacket_send_pubrel (a_msgId pubrec) 0 c w2;
           Some (rc, upd_client c (\<lambda>cl. cl\<lparr>outboundMsgs := cl_update a
             (\<lambda>m. m\<lparr>m_nextMessageType := PUBCOMP, m_lastTouch := sys_time w3\<rparr>) (outboundMsgs cl)\<rparr>) w3)
         }
   }"

text \<open>
  The message goes to the application with the header bits the code sets (the others are
  uninitialised); then the publication is removed from the list and freed whatever its count.
\<close>

definition stored_publish :: "Messages \<Rightarrow> Publications \<Rightarrow> Publish" where
  "stored_publish m p = \<lparr>p_header = mk_header 0 0 (m_qos m) (m_retain m), topic = Some (pub_topic p),
     topiclen = pub_topiclen p, msgId = m_msgid m, payload = pub_payload p,
     payloadlen = pub_payloadlen p, topic_heap = True\<rparr>"

definition drop_publication :: "addr \<Rightarrow> ('s, 'm) proto_scheme \<Rightarrow> ('s, 'm) proto_scheme" where
  "drop_publication a w = (case cl_unlink (\<lambda>x. x = a) (publications w) of
     (None, l) \<Rightarrow> w\<lparr>publications := l\<rparr>
   | (Some _, l) \<Rightarrow> w\<lparr>publications := l, pubs := (pubs w)(a := None)\<rparr>)"

definition MQTTProtocol_handlePubrels ::
  "('s, 'm) process_hook \<Rightarrow> Ack \<Rightarrow> int \<Rightarrow> ('s, 'm) proto_scheme \<Rightarrow>
     (int \<times> ('s, 'm) proto_scheme) option" where
  "MQTTProtocol_handlePubrels process pubrel sock w = do {
     (c, w1) \<leftarrow> find_client sock w;
     (found, w2) \<leftarrow> find_inbound (a_msgId pubrel) c w1;
     case found of
       None \<Rightarrow> (if header_dup (a_header pubrel) = 0 then Some (TCPSOCKET_COMPLETE, w2)
                else MQTTPacket_send_pubcomp (a_msgId pubrel) c w2)
     | Some (a, m) \<Rightarrow>
         if m_qos m \<noteq> 2 then Some (TCPSOCKET_COMPLETE, w2)
         else if m_nextMessageType m \<noteq> PUBREL then Some (TCPSOCKET_COMPLETE, w2)
         else do {
           (rc, w3) \<leftarrow> MQTTPacket_send_pubcomp (a_msgId pubrel) c w2;
           p \<leftarrow> pubs w3 (m_publish m);
           w4 \<leftarrow> process (stored_publish m p) c w3;
           (rc2, w5) \<leftarrow> MQTTPersistence_remove c PERSISTENCE_PUBLISH_RECEIVED (m_qos m) (a_msgId pubrel) w4;
           let w6 = remove_inbound a c (drop_publication (m_publish m) w5);
           Some (rc + rc2, w6\<lparr>msgs_received := uint_inc (msgs_received w6)\<rparr>)
         }
   }"

definition MQTTProtocol_handlePubcomps ::
  "Ack \<Rightarrow> int \<Rightarrow> ('s, 'm) proto_scheme \<Rightarrow> (int \<times> ('s, 'm) proto_scheme) option" where
  "MQTTProtocol_handlePubcomps pubcomp sock w = do {
     (c, w1) \<leftarrow> find_client sock w;
     (found, w2) \<leftarrow> find_outbound (a_msgId pubcomp) c w1;
     case found of
       None \<Rightarrow> Some (TCPSOCKET_COMPLETE, w2)
     | Some (a, m) \<Rightarrow>
         if m_qos m \<noteq> 2 then Some (TCPSOCKET_COMPLETE, w2)
         else if m_nextMessageType m \<noteq> PUBCOMP then Some (TCPSOCKET_COMPLETE, w2)
         else do {
           (rc, w3) \<leftarrow> MQTTPersistence_remove c PERSISTENCE_PUBLISH_SENT (m_qos m) (a_msgId pubcomp) w2;
           w4 \<leftarrow> MQTTProtocol_removePublication (m_publish m) w3;
           let w5 = remove_outbound a c w4;
           Some (rc, w5\<lparr>msgs_sent := uint_inc (msgs_sent w5)\<rparr>)
         }
   }"

subsection \<open>Keep-alive\<close>

definition keepalive_client ::
  "('s, 'm) close_hook \<Rightarrow> int \<Rightarrow> addr \<Rightarrow> ('s, 'm) proto_scheme \<Rightarrow> ('s, 'm) proto_scheme option" where
  "keepalive_client closesess now c w = do {
     client \<leftarrow> get_client c w;
     if connected client \<noteq> 0 \<and> keepAliveInterval client > 0 \<and>
        (now - lastSent client \<ge> keepAliveInterval client \<or>
         now - lastReceived client \<ge> keepAliveInterval client)
     then if ping_outstanding client = 0 then
         (case Socket_noPendingWrites (net_socket client) w of
            (False, w1) \<Rightarrow> Some w1
          | (True, w1) \<Rightarrow> do {
              (rc, w2) \<leftarrow> MQTTPacket_send_pingreq c w1;
              if rc \<noteq> TCPSOCKET_COMPLETE then closesess c 1 w2
              else Some (upd_client c (\<lambda>cl. cl\<lparr>lastSent := now, ping_outstanding := 1\<rparr>) w2)
            })
       else closesess c 1 w
     else Some w
   }"

text \<open>The walk over the clients; the next element is taken before the client is looked at.\<close>

partial_function (option) clients_loop ::
  "(addr \<Rightarrow> ('s, 'm) proto_scheme \<Rightarrow> ('s, 'm) proto_scheme option) \<Rightarrow> addr option \<Rightarrow>
     ('s, 'm) proto_scheme \<Rightarrow> ('s, 'm) proto_scheme option" where
  "clients_loop f pos w = (case pos of
     None \<Rightarrow> Some w
   | Some c \<Rightarrow> Option.bind (f c w) (\<lambda>w1. clients_loop f (cl_next (clients w) (Some c)) w1))"

declare clients_loop.simps [code]

definition MQTTProtocol_keepalive ::
  "('s, 'm) close_hook \<Rightarrow> int \<Rightarrow> ('s, 'm) proto_scheme \<Rightarrow> ('s, 'm) proto_scheme option" where
  "MQTTProtocol_keepalive closesess now w =
     clients_loop (keepalive_client closesess now) (hd_addr (items (clients w))) w"

subsection \<open>Retries\<close>

definition touch_outbound :: "addr \<Rightarrow> addr \<Rightarrow> ('s, 'm) proto_scheme \<Rightarrow> ('s, 'm) proto_scheme" where
  "touch_outbound a c w = upd_client c (\<lambda>cl. cl\<lparr>outboundMsgs :=
     cl_update a (\<lambda>m. m\<lparr>m_lastTouch := sys_time w\<rparr>) (outboundMsgs cl)\<rparr>) w"

text \<open>
  One message: send it again when it is due.  The flag says whether the client is still usable
  (\<^verbatim>\<open>client = NULL\<close> after the session was closed).  The resent PUBLISH has no valid \<^verbatim>\<open>topiclen\<close> or
  header, which \<^verbatim>\<open>MQTTPacket_send_publish\<close> does not read; its test for QoS 0 cannot hold here.
\<close>

definition retry_message ::
  "('s, 'm) close_hook \<Rightarrow> int \<Rightarrow> addr \<Rightarrow> bool \<Rightarrow> addr \<Rightarrow> Messages \<Rightarrow> ('s, 'm) proto_scheme \<Rightarrow>
     (bool \<times> ('s, 'm) proto_scheme) option" where
  "retry_message closesess now c regardless a m w = do {
     client \<leftarrow> get_client c w;
     if \<not> (regardless \<or> now - m_lastTouch m > max (retryInterval client) 10) then Some (True, w)
     else if m_qos m = 1 \<or> m_qos m = 2 \<and> m_nextMessageType m = PUBREC then do {
       p \<leftarrow> pubs w (m_publish m);
       (rc, w1) \<leftarrow> MQTTPacket_send_publish (stored_publish m p) 1 (m_qos m) (m_retain m) c w;
       if rc = SOCKET_ERROR then do {
         w2 \<leftarrow> closesess c 1 (upd_client c (\<lambda>cl. cl\<lparr>good := 0\<rparr>) w1);
         Some (False, w2)
       } else Some (True, touch_outbound a c w1)
     }
     else if m_qos m \<noteq> 0 \<and> m_nextMessageType m = PUBCOMP then do {
       (rc, w1) \<leftarrow> MQTTPacket_send_pubrel (m_msgid m) 0 c w;
       if rc \<noteq> TCPSOCKET_COMPLETE then do {
         w2 \<leftarrow> closesess c 1 (upd_client c (\<lambda>cl. cl\<lparr>good := 0\<rparr>) w1);
         Some (False, w2)
       } else Some (True, touch_outbound a c w1)
     }
     else Some (True, w)
   }"

partial_function (option) retries_loop ::
  "('s, 'm) close_hook \<Rightarrow> int \<Rightarrow> addr \<Rightarrow> bool \<Rightarrow> addr option \<Rightarrow> ('s, 'm) proto_scheme \<Rightarrow>
     ('s, 'm) proto_scheme option" where
  "retries_loop closesess now c regardless outcurrent w =
     Option.bind (get_client c w) (\<lambda>client.
       case cl_next (outboundMsgs client) outcurrent of
         None \<Rightarrow> Some w
       | Some a \<Rightarrow>
           if connected client = 0 \<or> good client = 0 then Some w
           else case Socket_noPendingWrites (net_socket client) w of (np, w1) \<Rightarrow>
             if \<not> np then Some w1
             else Option.bind (map_of (items (outboundMsgs client)) a) (\<lambda>m.
               Option.bind (retry_message closesess now c regardless a m w1) (\<lambda>(alive, w2).
                 if alive then retries_loop closesess now c regardless (Some a) w2 else Some w2)))"

declare retries_loop.simps [code]

definition MQTTProtocol_retries ::
  "('s, 'm) close_hook \<Rightarrow> int \<Rightarrow> addr \<Rightarrow> bool \<Rightarrow> ('s, 'm) proto_scheme \<Rightarrow> ('s, 'm) proto_scheme option" where
  "MQTTProtocol_retries closesess now c regardless w = do {
     client \<leftarrow> get_client c w;
     if \<not> regardless \<and> retryInterval client \<le> 0 then Some w
     else retries_loop closesess now c regardless None w
   }"

definition retry_client ::
  "('s, 'm) close_hook \<Rightarrow> int \<Rightarrow> bool \<Rightarrow> bool \<Rightarrow> addr \<Rightarrow> ('s, 'm) proto_scheme \<Rightarrow> ('s, 'm) proto_scheme option" where
  "retry_client closesess now doRetry regardless c w = do {
     client \<leftarrow> get_client c w;
     if connected client = 0 then Some w
     else if good client = 0 then closesess c 1 w
     else case Socket_noPendingWrites (net_socket client) w of
       (False, w1) \<Rightarrow> Some w1
     | (True, w1) \<Rightarrow> if doRetry then MQTTProtocol_retries closesess now c regardless w1 else Some w1
   }"

definition MQTTProtocol_retry ::
  "('s, 'm) close_hook \<Rightarrow> int \<Rightarrow> bool \<Rightarrow> bool \<Rightarrow> ('s, 'm) proto_scheme \<Rightarrow> ('s, 'm) proto_scheme option" where
  "MQTTProtocol_retry closesess now doRetry regardless w =
     clients_loop (retry_client closesess now doRetry regardless) (hd_addr (items (clients w))) w"

subsection \<open>Freeing messages\<close>

fun remove_publications :: "Messages list \<Rightarrow> ('s, 'm) proto_scheme \<Rightarrow> ('s, 'm) proto_scheme option" where
  "remove_publications [] w = Some w"
| "remove_publications (m # ms) w = do {
     w1 \<leftarrow> MQTTProtocol_removePublication (m_publish m) w;
     remove_publications ms w1
   }"

text \<open>
  \<^verbatim>\<open>MQTTProtocol_emptyMessageList\<close> and \<^verbatim>\<open>MQTTProtocol_freeMessageList\<close> on a list passed by pointer:
  the publications of its messages are released; the emptied list is what the caller stores.
\<close>

definition MQTTProtocol_emptyMessageList ::
  "Messages clist \<Rightarrow> ('s, 'm) proto_scheme \<Rightarrow> (Messages clist \<times> ('s, 'm) proto_scheme) option" where
  "MQTTProtocol_emptyMessageList l w = do {
     w1 \<leftarrow> remove_publications (contents l) w;
     Some (cl_empty, w1)
   }"

definition MQTTProtocol_freeClient ::
  "addr \<Rightarrow> ('s, 'm) proto_scheme \<Rightarrow> ('s, 'm) proto_scheme option" where
  "MQTTProtocol_freeClient c w = do {
     client \<leftarrow> get_client c w;
     (l1, w1) \<leftarrow> MQTTProtocol_emptyMessageList (outboundMsgs client) w;
     (l2, w2) \<leftarrow> MQTTProtocol_emptyMessageList (inboundMsgs client) w1;
     Some (upd_client c (\<lambda>cl. cl\<lparr>outboundMsgs := l1, inboundMsgs := l2, messageQueue := cl_empty,
       will := None\<rparr>) w2)
   }"

subsection \<open>String copies\<close>

text \<open>
  The bytes \<^verbatim>\<open>MQTTStrncpy\<close> stores, in order, from a source that must hold a zero byte when the
  count does not end the copy.  A source that fits gets two terminators.
\<close>

fun strncpy_loop :: "nat \<Rightarrow> byte list \<Rightarrow> byte list option" where
  "strncpy_loop n [] = (if n > 1 then None else Some [0])"
| "strncpy_loop n (b # bs) =
     (if n > 1 then if b = 0 then Some [0, 0] else map_option ((#) b) (strncpy_loop (n - 1) bs)
      else Some [0])"

definition MQTTStrncpy :: "byte list \<Rightarrow> nat \<Rightarrow> byte list option" where
  "MQTTStrncpy src dest_size =
     (case strncpy_loop dest_size src of None \<Rightarrow> None
      | Some bs \<Rightarrow> if length bs \<le> dest_size then Some bs else None)"

definition MQTTStrdup :: "byte list \<Rightarrow> byte list option" where
  "MQTTStrdup src = MQTTStrncpy src (strlen src + 1)"

end
