(* ===== verification/Frames.thy ===== *)
theory Frames
  imports ProtocolClient
begin

text \<open>
  What sending a packet leaves alone.  A step is \<open>quiet\<close> when it only touches the sockets, the
  cursors that searches leave behind, the times of the last packets and the contents of the store:
  the messages of every client, the publications and the counters stay.  All the sending functions,
  the searches and the store operations are quiet; the handlers are looked at through their few
  other steps.
\<close>

subsection \<open>Quiet steps\<close>

definition moved :: "'c clist \<Rightarrow> 'c clist \<Rightarrow> bool" where
  "moved l l' \<longleftrightarrow> items l' = items l \<and> cnt l' = cnt l \<and> sz l' = sz l \<and> (cl_wf l \<longrightarrow> cl_wf l')"

definition quiet_client :: "'s Clients \<Rightarrow> 's Clients \<Rightarrow> bool" where
  "quiet_client a b \<longleftrightarrow> b = a\<lparr>lastSent := lastSent b, lastReceived := lastReceived b,
       phandle := phandle b, inboundMsgs := inboundMsgs b, outboundMsgs := outboundMsgs b\<rparr> \<and>
     moved (inboundMsgs a) (inboundMsgs b) \<and> moved (outboundMsgs a) (outboundMsgs b) \<and>
     (phandle a \<noteq> None \<longrightarrow> phandle b \<noteq> None)"

definition quiet :: "('s, 'm) proto_scheme \<Rightarrow> ('s, 'm) proto_scheme \<Rightarrow> bool" where
  "quiet w w' \<longleftrightarrow>
     addrs (clients w') = addrs (clients w) \<and>
     (\<forall>c. rel_option quiet_client (get_client c w) (get_client c w')) \<and>
     (cl_wf (clients w) \<longrightarrow> cl_wf (clients w')) \<and>
     publications w' = publications w \<and> pubs w' = pubs w \<and> next_pub w' = next_pub w \<and>
     msgs_received w' = msgs_received w \<and> msgs_sent w' = msgs_sent w \<and>
     pending_qos0 w' = pending_qos0 w \<and> proto.more w' = proto.more w"

lemma moved_refl [simp]: "moved l l"
  by (simp add: moved_def)

lemma moved_trans: "moved l l1 \<Longrightarrow> moved l1 l2 \<Longrightarrow> moved l l2"
  by (simp add: moved_def)

lemma moved_find: "cl_find P l = (p, l') \<Longrightarrow> moved l l'"
  unfolding moved_def using cl_find_frame [of P l p l'] cl_wf_find [of l P p l'] by blast

lemma quiet_client_refl [simp]: "quiet_client a a"
  by (simp add: quiet_client_def)

lemma quiet_clientE:
  assumes "quiet_client a b"
  obtains ls lr ph i out where "b = a\<lparr>lastSent := ls, lastReceived := lr, phandle := ph, inboundMsgs := i,
    outboundMsgs := out\<rparr>" "moved (inboundMsgs a) i" "moved (outboundMsgs a) out" "phandle a \<noteq> None \<longrightarrow> ph \<noteq> None"
  using assms unfolding quiet_client_def by blast

lemma quiet_client_trans: "quiet_client a b \<Longrightarrow> quiet_client b c \<Longrightarrow> quiet_client a c"
proof -
  assume ab: "quiet_client a b" and bc: "quiet_client b c"
  from ab obtain ls lr ph i out where b: "b = a\<lparr>lastSent := ls, lastReceived := lr, phandle := ph,
    inboundMsgs := i, outboundMsgs := out\<rparr>" and m: "moved (inboundMsgs a) i" "moved (outboundMsgs a) out"
    "phandle a \<noteq> None \<longrightarrow> ph \<noteq> None" by (rule quiet_clientE)
  from bc show ?thesis
    unfolding b using m by (elim quiet_clientE) (simp add: quiet_client_def, blast intro: moved_trans)
qed

lemma quiet_client_fields:
  assumes "quiet_client a b"
  shows "net_socket b = net_socket a" "persistence b = persistence a" "connected b = connected a"
    "good b = good a" "msgID b = msgID a" "messageQueue b = messageQueue a"
    "items (inboundMsgs b) = items (inboundMsgs a)" "items (outboundMsgs b) = items (outboundMsgs a)"
    "cl_wf (inboundMsgs a) \<Longrightarrow> cl_wf (inboundMsgs b)" "cl_wf (outboundMsgs a) \<Longrightarrow> cl_wf (outboundMsgs b)"
    "phandle a \<noteq> None \<Longrightarrow> phandle b \<noteq> None" "qentry_seqno b = qentry_seqno a"
    "connect_state b = connect_state a" "cleansession b = cleansession a"
proof -
  from assms obtain ls lr ph i out where b: "b = a\<lparr>lastSent := ls, lastReceived := lr, phandle := ph,
    inboundMsgs := i, outboundMsgs := out\<rparr>" and m: "moved (inboundMsgs a) i" "moved (outboundMsgs a) out"
    "phandle a \<noteq> None \<longrightarrow> ph \<noteq> None" by (rule quiet_clientE)
  then show "net_socket b = net_socket a" "persistence b = persistence a" "connected b = connected a"
    "good b = good a" "msgID b = msgID a" "messageQueue b = messageQueue a"
    "items (inboundMsgs b) = items (inboundMsgs a)" "items (outboundMsgs b) = items (outboundMsgs a)"
    "cl_wf (inboundMsgs a) \<Longrightarrow> cl_wf (inboundMsgs b)" "cl_wf (outboundMsgs a) \<Longrightarrow> cl_wf (outboundMsgs b)"
    "phandle a \<noteq> None \<Longrightarrow> phandle b \<noteq> None" "qentry_seqno b = qentry_seqno a"
    "connect_state b = connect_state a" "cleansession b = cleansession a"
    unfolding b by (simp_all add: moved_def)
qed

lemma quiet_refl [simp]: "quiet w w"
  by (simp add: quiet_def option.rel_refl)

lemma rel_quiet_trans:
  "rel_option quiet_client a b \<Longrightarrow> rel_option quiet_client b c \<Longrightarrow> rel_option quiet_client a c"
  by (cases a; cases b; cases c) (auto intro: quiet_client_trans)

lemma quiet_trans [trans]: "quiet w w1 \<Longrightarrow> quiet w1 w2 \<Longrightarrow> quiet w w2"
  unfolding quiet_def
  by (auto intro: rel_quiet_trans)

lemma quiet_clients:
  assumes "quiet w w'" "get_client c w = Some cl"
  obtains cl' where "get_client c w' = Some cl'" "quiet_client cl cl'"
  using assms unfolding quiet_def by (metis option.rel_cases option.discI option.inject)

lemma quiet_fields:
  assumes "quiet w w'"
  shows "publications w' = publications w" "pubs w' = pubs w" "next_pub w' = next_pub w"
    "msgs_received w' = msgs_received w" "msgs_sent w' = msgs_sent w"
    "pending_qos0 w' = pending_qos0 w" "proto.more w' = proto.more w"
    "cl_wf (clients w) \<Longrightarrow> cl_wf (clients w')"
  using assms by (simp_all add: quiet_def)

lemma quiet_addrs: "quiet w w' \<Longrightarrow> addrs (clients w') = addrs (clients w)"
  by (simp add: quiet_def)

lemma quiet_sockets:
  assumes "sockets.more w' = sockets.more w"
  shows "quiet w w'"
  using assms by (cases w, cases w') (simp add: quiet_def get_client_def option.rel_refl)

lemma get_upd_client:
  "get_client c (upd_client d f w) = map_option (\<lambda>cl. if c = d then f cl else cl) (get_client c w)"
  by (simp add: get_client_def upd_client_def map_of_update)

lemma quiet_upd_client:
  assumes "\<And>cl. get_client c w = Some cl \<Longrightarrow> quiet_client cl (f cl)"
  shows "quiet w (upd_client c f w)"
proof -
  have "rel_option quiet_client (get_client d w) (get_client d (upd_client c f w))" for d
    using assms by (cases "get_client d w") (auto simp: get_upd_client)
  moreover have "cl_wf (clients w) \<longrightarrow> cl_wf (clients (upd_client c f w))"
    by (simp add: upd_client_def cl_wf_update)
  ultimately show ?thesis by (simp add: quiet_def upd_client_def)
qed

lemma get_client_simps [simp]:
  "get_client c (w\<lparr>pubs := x\<rparr>) = get_client c w" "get_client c (w\<lparr>publications := y\<rparr>) = get_client c w"
  "get_client c (w\<lparr>next_pub := n\<rparr>) = get_client c w" "get_client c (w\<lparr>msgs_received := i\<rparr>) = get_client c w"
  "get_client c (w\<lparr>msgs_sent := i\<rparr>) = get_client c w"
  by (simp_all add: get_client_def)

lemma upd_client_simps [simp]:
  "pubs (upd_client c f w) = pubs w" "publications (upd_client c f w) = publications w"
  "next_pub (upd_client c f w) = next_pub w" "msgs_received (upd_client c f w) = msgs_received w"
  "msgs_sent (upd_client c f w) = msgs_sent w" "proto.more (upd_client c f w) = proto.more w"
  "pending_qos0 (upd_client c f w) = pending_qos0 w"
  by (simp_all add: upd_client_def)

subsection \<open>The sockets\<close>

lemma noPendingWrites_more:
  "sockets.more (snd (Socket_noPendingWrites socket w)) = sockets.more w"
  by (simp add: Socket_noPendingWrites_def split: prod.split)

lemma writev_more: "Socket_writev socket iovs w = Some (r, w') \<Longrightarrow> sockets.more w' = sockets.more w"
  by (auto simp: Socket_writev_def sys_writev_def bind_Some_conv
      split: prod.splits list.splits write_reply.splits sum.splits)

lemma pendingWrite_more:
  "SocketBuffer_pendingWrite s n iovs frees len bytes w = Some w' \<Longrightarrow> sockets.more w' = sockets.more w"
  for w :: "'m sockets_scheme"
  by (auto simp: SocketBuffer_pendingWrite_def split: if_splits)

lemma putdatas_more:
  assumes "Socket_putdatas socket buf bufs frees w = Some (rc, w')"
  shows "sockets.more w' = sockets.more w"
proof -
  obtain np w0 where np: "Socket_noPendingWrites socket w = (np, w0)" by force
  then have w0: "sockets.more w0 = sockets.more w" using noPendingWrites_more [of socket w] by simp
  show ?thesis
  proof (cases "np \<and> \<not> length bufs > 4")
    case True
    with assms np obtain rc1 n w1 where
      wr: "Socket_writev socket ((buf, length buf) # map (\<lambda>b. (b, length b)) bufs) w0 = Some ((rc1, n), w1)"
      by (auto simp: Socket_putdatas_def Let_def bind_Some_conv)
    from writev_more [OF this] w0 have "sockets.more w1 = sockets.more w" by simp
    with assms np True wr show ?thesis
      by (auto simp: Socket_putdatas_def Let_def bind_Some_conv split: if_splits dest!: pendingWrite_more)
  next
    case False
    with assms np w0 show ?thesis by (auto simp: Socket_putdatas_def split: if_splits)
  qed
qed

lemma writev_defined: "\<exists>rc n w'. Socket_writev socket (map (\<lambda>b. (b, length b)) xs) w = Some ((rc, n), w')"
  by (auto simp: Socket_writev_def iov_bytes_def split: prod.split sum.split)

lemma putdatas_defined:
  assumes "length bufs \<le> 4" "length frees = length bufs"
  shows "\<exists>rc w'. Socket_putdatas socket buf bufs frees w = Some (rc, w')"
proof -
  obtain np w0 where np: "Socket_noPendingWrites socket w = (np, w0)" by force
  obtain rc n w1 where wr: "Socket_writev socket ((buf, length buf) # map (\<lambda>b. (b, length b)) bufs) w0 =
      Some ((rc, n), w1)"
    using writev_defined [of socket "buf # bufs" w0] by auto
  show ?thesis
    using assms np wr by (auto simp: Socket_putdatas_def SocketBuffer_pendingWrite_def Let_def)
qed

subsection \<open>The store\<close>

lemma quiet_phandle: "quiet w (upd_client c (\<lambda>cl. cl\<lparr>phandle := Some s\<rparr>) w)"
  by (rule quiet_upd_client) (simp add: quiet_client_def)

lemma quiet_lastSent [simp]: "quiet w (upd_client c (\<lambda>cl. cl\<lparr>lastSent := t\<rparr>) w)"
  by (rule quiet_upd_client) (simp add: quiet_client_def)

lemma with_store_quiet: "with_store c f w = Some (rc, w') \<Longrightarrow> quiet w w'"
  by (auto simp: with_store_def bind_Some_conv quiet_phandle case_prod_beta Let_def split: option.splits)

lemma with_store_defined:
  assumes "get_client c w = Some client" "persistence client \<noteq> None \<longrightarrow> phandle client \<noteq> None"
  shows "\<exists>rc w'. with_store c f w = Some (rc, w')"
  using assms by (auto simp: with_store_def split: option.split prod.split)

subsection \<open>Searches\<close>

lemma find_client_quiet: "find_client socket w = Some (c, w') \<Longrightarrow> quiet w w'"
  by (auto simp: find_client_def quiet_def get_client_def option.rel_refl dest: cl_find_frame cl_wf_find
      split: prod.splits option.splits)

lemma cl_find_cases:
  assumes "cl_wf l"
  obtains (absent) l' where "cl_find P l = (None, l')" "moved l l'" "\<forall>c\<in>set (contents l). \<not> P c"
  | (found) a c l' where "cl_find P l = (Some a, l')" "moved l l'" "map_of (items l) a = Some c" "P c"
proof (cases "cl_find P l")
  case (Pair p l')
  show ?thesis
  proof (cases p)
    case None
    with Pair show ?thesis
      using absent moved_find [OF Pair] cl_find_None_iff [OF assms, of P] by simp
  next
    case (Some a)
    with Pair show ?thesis
      using found moved_find [OF Pair] cl_find_SomeD [of P l a l'] assms by (auto simp: cl_wf_def)
  qed
qed

lemma find_outbound_cases:
  assumes "get_client c w = Some cl" "cl_wf (outboundMsgs cl)"
  obtains (absent) w' where "find_outbound msgid c w = Some (None, w')" "quiet w w'"
    "\<forall>m\<in>set (contents (outboundMsgs cl)). m_msgid m \<noteq> msgid"
  | (found) a m w' where "find_outbound msgid c w = Some (Some (a, m), w')" "quiet w w'"
    "map_of (items (outboundMsgs cl)) a = Some m" "m_msgid m = msgid"
proof -
  have q: "quiet w (upd_client c (\<lambda>cl. cl\<lparr>outboundMsgs := l\<rparr>) w)" if "moved (outboundMsgs cl) l" for l
    using assms(1) that by (auto intro!: quiet_upd_client simp: quiet_client_def)
  show ?thesis
    using assms(2)
  proof (cases rule: cl_find_cases [where P = "messageIDCompare msgid", case_names n f])
    case (n l)
    with assms(1) q [OF n(2)] show ?thesis
      by (intro absent) (auto simp: find_outbound_def messageIDCompare_def)
  next
    case (f a m l)
    then have "map_of (items l) a = Some m" by (simp add: moved_def)
    with f assms(1) q [OF f(2)] show ?thesis
      by (intro found) (auto simp: find_outbound_def messageIDCompare_def)
  qed
qed

lemma find_inbound_cases:
  assumes "get_client c w = Some cl" "cl_wf (inboundMsgs cl)"
  obtains (absent) w' where "find_inbound msgid c w = Some (None, w')" "quiet w w'"
    "\<forall>m\<in>set (contents (inboundMsgs cl)). m_msgid m \<noteq> msgid"
  | (found) a m w' where "find_inbound msgid c w = Some (Some (a, m), w')" "quiet w w'"
    "map_of (items (inboundMsgs cl)) a = Some m" "m_msgid m = msgid"
proof -
  have q: "quiet w (upd_client c (\<lambda>cl. cl\<lparr>inboundMsgs := l\<rparr>) w)" if "moved (inboundMsgs cl) l" for l
    using assms(1) that by (auto intro!: quiet_upd_client simp: quiet_client_def)
  show ?thesis
    using assms(2)
  proof (cases rule: cl_find_cases [where P = "messageIDCompare msgid", case_names n f])
    case (n l)
    with assms(1) q [OF n(2)] show ?thesis
      by (intro absent) (auto simp: find_inbound_def messageIDCompare_def)
  next
    case (f a m l)
    then have "map_of (items l) a = Some m" by (simp add: moved_def)
    with f assms(1) q [OF f(2)] show ?thesis
      by (intro found) (auto simp: find_inbound_def messageIDCompare_def)
  qed
qed

text \<open>The client of a socket is found when it is the only one with that socket.\<close>

definition owns :: "int \<Rightarrow> addr \<Rightarrow> ('s, 'm) proto_scheme \<Rightarrow> bool" where
  "owns sock c w \<longleftrightarrow> cl_wf (clients w) \<and> (\<exists>cl. get_client c w = Some cl \<and> net_socket cl = sock) \<and>
     (\<forall>d cl. get_client d w = Some cl \<and> net_socket cl = sock \<longrightarrow> d = c)"

lemma find_client_owner:
  assumes "owns sock c w"
  obtains w' where "find_client sock w = Some (c, w')" "quiet w w'"
proof -
  from assms obtain cl where cl: "get_client c w = Some cl" "net_socket cl = sock" by (auto simp: owns_def)
  have "\<exists>w'. find_client sock w = Some (c, w')"
    using assms [unfolded owns_def, THEN conjunct1]
  proof (cases rule: cl_find_cases [where P = "clientSocketCompare sock", case_names n f])
    case (n l)
    with cl show ?thesis
      by (auto simp: clientSocketCompare_def get_client_def dest!: map_of_SomeD)
  next
    case (f a b l)
    with assms have "a = c" by (auto simp: owns_def get_client_def clientSocketCompare_def)
    with f show ?thesis by (simp add: find_client_def)
  qed
  then show ?thesis using that find_client_quiet by blast
qed

lemma quiet_owns: "quiet w w' \<Longrightarrow> owns sock c w \<Longrightarrow> owns sock c w'"
proof -
  assume q: "quiet w w'" and o: "owns sock c w"
  have bk: "\<exists>cl. get_client d w = Some cl \<and> net_socket cl = net_socket cl'" if "get_client d w' = Some cl'" for d cl'
  proof -
    from q have "rel_option quiet_client (get_client d w) (get_client d w')" by (simp add: quiet_def)
    with that show ?thesis by (cases "get_client d w") (auto simp: quiet_client_fields(1))
  qed
  from o obtain cl where "get_client c w = Some cl" "net_socket cl = sock" by (auto simp: owns_def)
  moreover from quiet_clients [OF q this(1)] obtain cl' where "get_client c w' = Some cl'" "quiet_client cl cl'" .
  ultimately have "\<exists>cl'. get_client c w' = Some cl' \<and> net_socket cl' = sock"
    using quiet_client_fields(1) [of cl cl'] by auto
  moreover have "d = c" if "get_client d w' = Some cl'" "net_socket cl' = sock" for d cl'
    using o bk [OF that(1)] that(2) by (auto simp: owns_def)
  ultimately show ?thesis using o quiet_fields(8) [OF q] by (auto simp: owns_def)
qed

lemma owns_cong: "clients w' = clients w \<Longrightarrow> owns sock c w' \<longleftrightarrow> owns sock c w"
  by (simp add: owns_def get_client_def)

lemma owns_upd_client:
  "(\<And>cl. net_socket (f cl) = net_socket cl) \<Longrightarrow> owns sock c w \<Longrightarrow> owns sock c (upd_client d f w)"
proof -
  assume f: "\<And>cl. net_socket (f cl) = net_socket cl" and o: "owns sock c w"
  have "map_option net_socket (get_client e (upd_client d f w)) = map_option net_socket (get_client e w)" for e
    using f by (cases "get_client e w") (simp_all add: get_upd_client)
  then have "(\<exists>cl. get_client e (upd_client d f w) = Some cl \<and> net_socket cl = s) \<longleftrightarrow>
      (\<exists>cl. get_client e w = Some cl \<and> net_socket cl = s)" for e s
    by (metis (no_types, lifting) map_option_eq_Some)
  moreover have "cl_wf (clients (upd_client d f w))"
    using o by (simp add: owns_def upd_client_def cl_wf_update)
  ultimately show ?thesis using o unfolding owns_def by blast
qed

subsection \<open>Sending\<close>

lemma put_quiet: "MQTTPersistence_put socket buf0 bufs t i scr w = Some (rc, w') \<Longrightarrow> quiet w w'"
  by (auto simp: MQTTPersistence_put_def bind_Some_conv split: if_splits
      intro: quiet_trans find_client_quiet with_store_quiet)

lemma send_quiet: "MQTTPacket_send c h b f w = Some (rc, w') \<Longrightarrow> quiet w w'"
  by (auto simp: MQTTPacket_send_def bind_Some_conv Let_def split: if_splits
      dest!: put_quiet putdatas_more [THEN quiet_sockets] intro: quiet_trans)

lemma sends_quiet: "MQTTPacket_sends c h bufs f w = Some (rc, w') \<Longrightarrow> quiet w w'"
  by (auto simp: MQTTPacket_sends_def bind_Some_conv Let_def split: if_splits
      dest!: put_quiet putdatas_more [THEN quiet_sockets] intro: quiet_trans)

lemma send_acks_quiet:
  "MQTTPacket_send_puback i c w = Some (rc, w') \<Longrightarrow> quiet w w'"
  "MQTTPacket_send_pubrec i c w = Some (rc, w') \<Longrightarrow> quiet w w'"
  "MQTTPacket_send_pubrel i d c w = Some (rc, w') \<Longrightarrow> quiet w w'"
  "MQTTPacket_send_pubcomp i c w = Some (rc, w') \<Longrightarrow> quiet w w'"
  "MQTTPacket_send_pingreq c w = Some (rc, w') \<Longrightarrow> quiet w w'"
  by (auto simp: MQTTPacket_send_puback_def MQTTPacket_send_pubrec_def MQTTPacket_send_pubrel_def
      MQTTPacket_send_pubcomp_def MQTTPacket_send_pingreq_def MQTTPacket_send_ack_def intro: send_quiet)

lemma send_publish_quiet: "MQTTPacket_send_publish p d q r c w = Some (rc, w') \<Longrightarrow> quiet w w'"
  by (auto simp: MQTTPacket_send_publish_def bind_Some_conv intro: sends_quiet)

end
