(* ===== verification/Inbound.thy ===== *)
theory Inbound
  imports Frames
begin

text \<open>
  QoS 2 on the receiving side.  The abstract object is an inbox: the messages that wait for their
  PUBREL, by message id, and the messages handed to the application, in order.  A PUBLISH enters its
  message (replacing one with the same id), the PUBREL hands it over and forgets it, so that a
  message is delivered exactly once however often its PUBLISH or PUBREL is repeated.  The handlers
  of \<^verbatim>\<open>MQTTProtocolClient.c\<close> simulate this object, for every answer of the network and the store.

  How the application gets a message is an argument, \<open>process\<close>, with \<open>obs\<close> what it has been given so
  far; \<open>hook_ok\<close> is what is asked of it, which theory ClientQueue shows of
  \<^verbatim>\<open>Protocol_processPublication\<close>.
\<close>

subsection \<open>The inbox\<close>

type_synonym 'v inbox = "(int \<rightharpoonup> 'v) \<times> 'v list"

datatype in_packet = InPublish Publish | InPubrel Ack

text \<open>The message as it is handed over: without dup, with its own copy of topic and payload.\<close>

definition as_stored :: "Publish \<Rightarrow> Publish" where
  "as_stored p = p\<lparr>p_header := mk_header 0 0 (header_qos (p_header p)) (header_retain (p_header p)),
     topic := map_option (\<lambda>t. if topic_heap p then t else c_str t) (topic p),
     payload := take (nat (payloadlen p)) (payload p), topic_heap := True\<rparr>"

fun in_spec :: "(Publish \<Rightarrow> 'v) \<Rightarrow> 'v inbox \<Rightarrow> in_packet \<Rightarrow> unit \<times> 'v inbox" where
  "in_spec view (pend, given) (InPublish p) = ((), pend(msgId p \<mapsto> view (as_stored p)), given)"
| "in_spec view (pend, given) (InPubrel a) = (case pend (a_msgId a) of
     None \<Rightarrow> ((), pend, given)
   | Some v \<Rightarrow> ((), pend(a_msgId a := None), given @ [v]))"

text \<open>What the parser delivers: a topic, a payload within its memory, a 16-bit message id.\<close>

definition deliverable :: "Publish \<Rightarrow> bool" where
  "deliverable p \<longleftrightarrow> topic p \<noteq> None \<and> 0 \<le> payloadlen p \<and> payloadlen p \<le> int (length (payload p)) \<and>
     0 \<le> msgId p \<and> msgId p \<le> MAX_MSG_ID \<and> header_qos (p_header p) = 2"

fun in_ok :: "'v inbox \<Rightarrow> in_packet \<Rightarrow> bool" where
  "in_ok i (InPublish p) = deliverable p"
| "in_ok i (InPubrel a) = True"

subsection \<open>The handlers as steps\<close>

fun in_step ::
  "('s, 'm) process_hook \<Rightarrow> int \<Rightarrow> ('s, 'm) proto_scheme \<Rightarrow> in_packet \<Rightarrow> (unit \<times> ('s, 'm) proto_scheme) option" where
  "in_step process sock w (InPublish p) =
     map_option (\<lambda>r. ((), snd r)) (MQTTProtocol_handlePublishes process p sock w)"
| "in_step process sock w (InPubrel a) =
     map_option (\<lambda>r. ((), snd r)) (MQTTProtocol_handlePubrels process a sock w)"

definition inbound_client :: "(addr \<rightharpoonup> Publications) \<Rightarrow> 's Clients \<Rightarrow> bool" where
  "inbound_client ps cl \<longleftrightarrow> cl_wf (inboundMsgs cl) \<and> (persistence cl \<noteq> None \<longrightarrow> phandle cl \<noteq> None) \<and>
     distinct (map m_msgid (contents (inboundMsgs cl))) \<and>
     distinct (map m_publish (contents (inboundMsgs cl))) \<and>
     (\<forall>m\<in>set (contents (inboundMsgs cl)). m_qos m = 2 \<and> m_nextMessageType m = PUBREL \<and>
        (\<exists>pub. ps (m_publish m) = Some pub \<and> deliverable (stored_publish m pub)))"

definition inbound_ok :: "int \<Rightarrow> addr \<Rightarrow> ('s, 'm) proto_scheme \<Rightarrow> bool" where
  "inbound_ok sock c w \<longleftrightarrow> owns sock c w \<and> cl_wf (publications w) \<and> (\<forall>a\<in>dom (pubs w). a < next_pub w) \<and>
     (\<exists>cl. get_client c w = Some cl \<and> inbound_client (pubs w) cl)"

definition waiting :: "(Publish \<Rightarrow> 'v) \<Rightarrow> (addr \<rightharpoonup> Publications) \<Rightarrow> Messages list \<Rightarrow> int \<rightharpoonup> 'v" where
  "waiting view ps ms = map_of (map (\<lambda>m. (m_msgid m, view (stored_publish m (the (ps (m_publish m)))))) ms)"

definition inbox_of :: "(Publish \<Rightarrow> 'v) \<Rightarrow> addr \<Rightarrow> ('s, 'm) proto_scheme \<Rightarrow> int \<rightharpoonup> 'v" where
  "inbox_of view c w = waiting view (pubs w)
     (case get_client c w of None \<Rightarrow> [] | Some cl \<Rightarrow> contents (inboundMsgs cl))"

text \<open>The application's part of the state: its own extension, the client's message queue and its store.\<close>

type_synonym ('s, 'm) app_view =
  "'m \<times> (MQTTPersistence_qEntry clist \<times> 's MQTTClient_persistence option) option"

definition app_view :: "addr \<Rightarrow> ('s, 'm) proto_scheme \<Rightarrow> ('s, 'm) app_view" where
  "app_view c w = (proto.more w, map_option (\<lambda>cl. (messageQueue cl, persistence cl)) (get_client c w))"

text \<open>
  What handing over a message may change: anything but the messages being received, the
  publications and the client's socket.
\<close>

definition hands_over :: "int \<Rightarrow> addr \<Rightarrow> ('s, 'm) proto_scheme \<Rightarrow> ('s, 'm) proto_scheme \<Rightarrow> bool" where
  "hands_over sock c w w' \<longleftrightarrow> pubs w' = pubs w \<and> next_pub w' = next_pub w \<and>
     publications w' = publications w \<and> (owns sock c w \<longrightarrow> owns sock c w') \<and>
     (\<forall>cl. get_client c w = Some cl \<longrightarrow> (\<exists>cl'. get_client c w' = Some cl' \<and>
        inboundMsgs cl' = inboundMsgs cl \<and> persistence cl' = persistence cl \<and>
        (phandle cl \<noteq> None \<longrightarrow> phandle cl' \<noteq> None)))"

text \<open>\<open>pre\<close> is an invariant of the application's part that the hook may rely on and keeps.\<close>

definition hook_ok ::
  "(('s, 'm) app_view \<Rightarrow> bool) \<Rightarrow> ('s, 'm) process_hook \<Rightarrow> (Publish \<Rightarrow> 'v) \<Rightarrow> (('s, 'm) app_view \<Rightarrow> 'v list) \<Rightarrow>
     int \<Rightarrow> addr \<Rightarrow> bool" where
  "hook_ok pre process view obs sock c \<longleftrightarrow>
     (\<forall>p w. deliverable p \<and> inbound_ok sock c w \<and> pre (app_view c w) \<longrightarrow>
       (\<exists>w'. process p c w = Some w' \<and> hands_over sock c w w' \<and> pre (app_view c w') \<and>
          obs (app_view c w') = obs (app_view c w) @ [view p]))"

definition in_rep ::
  "(('s, 'm) app_view \<Rightarrow> bool) \<Rightarrow> (Publish \<Rightarrow> 'v) \<Rightarrow> (('s, 'm) app_view \<Rightarrow> 'v list) \<Rightarrow> int \<Rightarrow> addr \<Rightarrow>
     ('s, 'm) proto_scheme \<Rightarrow> 'v inbox \<Rightarrow> bool" where
  "in_rep pre view obs sock c w i \<longleftrightarrow>
     inbound_ok sock c w \<and> pre (app_view c w) \<and> fst i = inbox_of view c w \<and> snd i = obs (app_view c w)"

subsection \<open>Quiet steps and the inbox\<close>

lemma quiet_inbound:
  assumes "quiet w w'" "inbound_ok sock c w"
  shows "inbound_ok sock c w'" "inbox_of view c w' = inbox_of view c w" "app_view c w' = app_view c w"
proof -
  from assms(2) obtain cl where cl: "get_client c w = Some cl" "inbound_client (pubs w) cl"
    by (auto simp: inbound_ok_def)
  from quiet_clients [OF assms(1) cl(1)] obtain cl' where
    cl': "get_client c w' = Some cl'" "quiet_client cl cl'" .
  note qf = quiet_client_fields [OF cl'(2)] and q = quiet_fields [OF assms(1)]
  have "inbound_client (pubs w') cl'" using cl(2) qf q by (auto simp: inbound_client_def)
  then show "inbound_ok sock c w'"
    using assms cl'(1) q quiet_owns [OF assms(1)] by (auto simp: inbound_ok_def)
  show "inbox_of view c w' = inbox_of view c w" using cl cl' qf q by (simp add: inbox_of_def)
  show "app_view c w' = app_view c w" using cl cl' qf q by (simp add: app_view_def)
qed

lemma send_ack_defined:
  assumes "get_client c w = Some cl" "0 \<le> t" "t < 16" "t \<noteq> PUBREL"
  shows "\<exists>rc w'. MQTTPacket_send_ack t i d c w = Some (rc, w')"
proof -
  have "header_type (mk_header t d 0 0) = t" using assms(2,3) by simp
  moreover obtain rc w' where "Socket_putdatas (net_socket cl) (mk_header t d 0 0 #
      MQTTPacket_encode (int (length (writeInt i)))) [writeInt i] [True] w = Some (rc, w')"
    using putdatas_defined [of "[writeInt i]" "[True]" "net_socket cl" "mk_header t d 0 0 #
      MQTTPacket_encode (int (length (writeInt i)))" w] by auto
  ultimately show ?thesis
    using assms by (simp add: MQTTPacket_send_ack_def MQTTPacket_send_def Let_def)
qed

lemma waiting_update:
  assumes "distinct (map m_msgid ms)" "xs @ ys = filter (\<lambda>x. m_msgid x \<noteq> m_msgid m) ms"
    "\<And>x. x \<in> set ms \<Longrightarrow> m_msgid x \<noteq> m_msgid m \<Longrightarrow> ps' (m_publish x) = ps (m_publish x)"
  shows "waiting view ps' (xs @ m # ys) =
    (waiting view ps ms)(m_msgid m \<mapsto> view (stored_publish m (the (ps' (m_publish m)))))"
proof -
  let ?f = "\<lambda>ps m. (m_msgid m, view (stored_publish m (the (ps (m_publish m)))))"
  have "m_msgid m \<notin> m_msgid ` set (xs @ ys)" using assms(2) by auto
  then have 1: "map_of (map (?f ps') (xs @ m # ys)) = (map_of (map (?f ps') (xs @ ys)))(m_msgid m \<mapsto> snd (?f ps' m))"
    by (induction xs) (auto simp: fun_upd_twist)
  have "map_of (map (?f ps') (filter (\<lambda>x. m_msgid x \<noteq> m_msgid m) ms)) =
      (map_of (map (?f ps) ms))(m_msgid m := None)"
    using assms(3)
  proof (induction ms)
    case (Cons x ms)
    then show ?case by (cases "m_msgid x = m_msgid m") (auto simp: fun_eq_iff)
  qed simp
  with 1 assms(2) show ?thesis by (simp add: waiting_def)
qed

lemma waiting_remove:
  assumes "\<And>x. x \<in> set ms \<Longrightarrow> m_msgid x \<noteq> i \<Longrightarrow> ps' (m_publish x) = ps (m_publish x)"
  shows "waiting view ps' (filter (\<lambda>x. m_msgid x \<noteq> i) ms) = (waiting view ps ms)(i := None)"
  using assms unfolding waiting_def
proof (induction ms)
  case (Cons x ms)
  then show ?case by (cases "m_msgid x = i") (auto simp: fun_eq_iff)
qed simp

lemma waiting_Some:
  "distinct (map m_msgid ms) \<Longrightarrow> m \<in> set ms \<Longrightarrow>
     waiting view ps ms (m_msgid m) = Some (view (stored_publish m (the (ps (m_publish m)))))"
  unfolding waiting_def by (auto simp: map_of_eq_Some_iff comp_def)

lemma waiting_None: "\<forall>m\<in>set ms. m_msgid m \<noteq> i \<Longrightarrow> waiting view ps ms i = None"
  by (auto simp: waiting_def map_of_eq_None_iff)

subsection \<open>The PUBLISH handler\<close>

lemma stored_deliverable:
  assumes "deliverable p" "stored_publish m pub = as_stored p"
  shows "deliverable (stored_publish m pub)"
  using assms by (auto simp: deliverable_def as_stored_def)

lemma storePublication_deliverable:
  assumes "deliverable p"
  obtains len w' pub where "MQTTProtocol_storePublication p w = Some ((next_pub w, len), w')"
    "w' = w\<lparr>pubs := (pubs w)(next_pub w \<mapsto> pub), next_pub := next_pub w + 1,
       publications := cl_add (publications w) (next_pub w) len\<rparr>"
    "\<forall>m. m_qos m = header_qos (p_header p) \<and> m_retain m = header_retain (p_header p) \<and>
       m_msgid m = msgId p \<longrightarrow> stored_publish m pub = as_stored p"
proof -
  from assms obtain t where t: "topic p = Some t" by (auto simp: deliverable_def)
  let ?pub = "\<lparr>pub_topic = (if topic_heap p then t else c_str t), pub_topiclen = topiclen p,
    pub_payload = take (nat (payloadlen p)) (payload p), pub_payloadlen = payloadlen p, refcount = 1\<rparr>"
  have n: "nat (payloadlen p) \<le> length (payload p)" "0 \<le> payloadlen p" using assms by (auto simp: deliverable_def)
  show ?thesis
  proof (rule that)
    show "MQTTProtocol_storePublication p w = Some ((next_pub w, int (strlen t) + 1 + sizeof_Publications +
      payloadlen p), w\<lparr>pubs := (pubs w)(next_pub w \<mapsto> ?pub), next_pub := next_pub w + 1,
       publications := cl_add (publications w) (next_pub w) (int (strlen t) + 1 + sizeof_Publications + payloadlen p)\<rparr>)"
      using t n by (simp add: MQTTProtocol_storePublication_def rd_bytes_def Let_def)
    show "\<forall>m. m_qos m = header_qos (p_header p) \<and> m_retain m = header_retain (p_header p) \<and>
       m_msgid m = msgId p \<longrightarrow> stored_publish m ?pub = as_stored p"
      using t by (auto simp: stored_publish_def as_stored_def)
  qed (rule refl)
qed

lemma removePublication_some:
  assumes "pubs w a = Some p" "cl_wf (publications w)"
  obtains w' where "MQTTProtocol_removePublication a w = Some w'" "clients w' = clients w"
    "\<And>b. b \<noteq> a \<Longrightarrow> pubs w' b = pubs w b" "dom (pubs w') \<subseteq> dom (pubs w)" "next_pub w' = next_pub w"
    "cl_wf (publications w')" "proto.more w' = proto.more w"
proof -
  have "cl_wf (snd (cl_unlink (\<lambda>x. x = a) (publications w)))"
    using assms(2) by (metis cl_wf_unlink prod.collapse)
  then show ?thesis
    using that assms
    by (cases "refcount p - 1 = 0") (auto simp: MQTTProtocol_removePublication_def)
qed

lemma cl_replace_at:
  assumes "cl_wf l" "map_of (items l) a = Some old"
  obtains xs ys where "items l = xs @ (a, old) # ys"
    "contents (snd (cl_remove_at a (cl_add_before l m s (Some a)))) = map snd xs @ m # map snd ys"
    "cl_wf (snd (cl_remove_at a (cl_add_before l m s (Some a))))"
proof -
  have "a \<in> fst ` set (items l)" using assms(2) by (force dest: map_of_SomeD)
  moreover have d: "distinct (addrs l)" using assms(1) by (simp add: cl_wf_def)
  ultimately obtain xs c ys where sp: "items l = xs @ (a, c) # ys" "a \<notin> fst ` set xs" "a \<notin> fst ` set ys"
    by (metis items_splitE)
  have c: "c = old" using assms(2) sp map_of_split [OF sp(2)] by simp
  have wf: "cl_wf (cl_add_before l m s (Some a))"
    using assms(1) sp(1) by (intro cl_wf_add_before) auto
  have it: "items (cl_add_before l m s (Some a)) = (xs @ [(cl_fresh l, m)]) @ (a, c) # ys"
    using sp by (simp add: cl_add_before_def cl_insert_def insert_before_split)
  from cl_remove_at_split [OF it wf]
  have "contents (snd (cl_remove_at a (cl_add_before l m s (Some a)))) = map snd xs @ m # map snd ys" by simp
  moreover have "cl_wf (snd (cl_remove_at a (cl_add_before l m s (Some a))))"
    using cl_wf_remove_at [OF wf] by (metis prod.collapse)
  ultimately show ?thesis using that sp c by blast
qed

lemma filter_others:
  "distinct (map m_msgid (xs @ x # ys)) \<Longrightarrow>
     filter (\<lambda>y. m_msgid y \<noteq> m_msgid x) (xs @ x # ys) = xs @ ys"
proof -
  assume d: "distinct (map m_msgid (xs @ x # ys))"
  have "m_msgid y \<noteq> m_msgid x" if "y \<in> set (xs @ ys)" for y
  proof
    assume "m_msgid y = m_msgid x"
    then have "m_msgid x \<in> m_msgid ` set (xs @ ys)" using that by (metis imageI)
    with d show False by auto
  qed
  then have "filter (\<lambda>y. m_msgid y \<noteq> m_msgid x) (xs @ ys) = xs @ ys" by (simp only: filter_id_conv) blast
  then show ?thesis by simp
qed

text \<open>
  The step of the QoS 2 branch: the message list is the old one without the messages of this id,
  with the new message put in somewhere, and its publication is a new one.
\<close>

lemma inbound_replaced:
  assumes ok: "inbound_ok sock c w" and cl: "get_client c w = Some cl" and p: "deliverable p"
    and cl': "get_client c w' = Some cl'" "cl_wf (inboundMsgs cl')" "persistence cl' = persistence cl"
      "phandle cl \<noteq> None \<longrightarrow> phandle cl' \<noteq> None" "messageQueue cl' = messageQueue cl"
    and ms: "contents (inboundMsgs cl') = xs @ m # ys"
      "xs @ ys = filter (\<lambda>x. m_msgid x \<noteq> msgId p) (contents (inboundMsgs cl))"
    and m: "m_msgid m = msgId p" "m_qos m = 2" "m_nextMessageType m = PUBREL" "m_publish m = next_pub w"
    and w': "owns sock c w'" "cl_wf (publications w')" "next_pub w' = Suc (next_pub w)"
      "dom (pubs w') \<subseteq> insert (next_pub w) (dom (pubs w))" "proto.more w' = proto.more w"
    and ps: "pubs w' (next_pub w) = Some pub" "stored_publish m pub = as_stored p"
      "\<forall>x\<in>set (xs @ ys). pubs w' (m_publish x) = pubs w (m_publish x)"
  shows "inbound_ok sock c w'" "inbox_of view c w' = (inbox_of view c w)(msgId p \<mapsto> view (as_stored p))"
    "app_view c w' = app_view c w"
proof -
  let ?ms = "contents (inboundMsgs cl)"
  have inb: "inbound_client (pubs w) cl" and bound: "\<forall>a\<in>dom (pubs w). a < next_pub w"
    using ok cl by (auto simp: inbound_ok_def)
  have sub: "x \<in> set ?ms \<and> m_msgid x \<noteq> msgId p" if "x \<in> set (xs @ ys)" for x using that ms(2) by auto
  have good: "m_qos x = 2 \<and> m_nextMessageType x = PUBREL \<and>
      (\<exists>pub. pubs w (m_publish x) = Some pub \<and> deliverable (stored_publish x pub))" if "x \<in> set (xs @ ys)" for x
    using sub [OF that] inb unfolding inbound_client_def by blast
  then have old: "pubs w (m_publish x) \<noteq> None" if "x \<in> set (xs @ ys)" for x using that by blast
  have "m_publish x < next_pub w" if "x \<in> set (xs @ ys)" for x using old [OF that] bound by auto
  then have np: "m_publish m \<notin> m_publish ` set (xs @ ys)" using m(4) by fastforce
  have ni: "m_msgid m \<notin> m_msgid ` set (xs @ ys)" using sub m(1) by force
  have d: "distinct (map f (xs @ m # ys))" if "f m \<notin> f ` set (xs @ ys)" "distinct (map f ?ms)" for f :: "Messages \<Rightarrow> 'z"
  proof -
    have "distinct (map f (xs @ ys))" using that(2) ms(2) by (simp add: distinct_map_filter)
    with that(1) show ?thesis by auto
  qed
  have all: "m_qos x = 2 \<and> m_nextMessageType x = PUBREL \<and>
      (\<exists>pub. pubs w' (m_publish x) = Some pub \<and> deliverable (stored_publish x pub))" if "x \<in> set (xs @ m # ys)" for x
  proof (cases "x = m")
    case True
    moreover have "deliverable (stored_publish m pub)" using p ps(2) by (rule stored_deliverable)
    ultimately show ?thesis using m ps(1) by simp
  next
    case False
    then have "x \<in> set (xs @ ys)" using that by simp
    then show ?thesis using good [of x] ps(3) by simp
  qed
  have store: "persistence cl' \<noteq> None \<longrightarrow> phandle cl' \<noteq> None"
    using inb cl'(3,4) by (simp add: inbound_client_def)
  have dd: "distinct (map m_msgid (xs @ m # ys))" "distinct (map m_publish (xs @ m # ys))"
    using inb by (intro d ni np; simp only: inbound_client_def)+
  have ic: "inbound_client (pubs w') cl'"
    unfolding inbound_client_def ms(1) by (intro conjI ballI cl'(2) store dd all)
  have nb: "\<forall>a\<in>dom (pubs w'). a < next_pub w'" 
  proof
    fix a assume "a \<in> dom (pubs w')"
    then have "a = next_pub w \<or> a \<in> dom (pubs w)" using w'(4) by blast
    then show "a < next_pub w'" using w'(3) bound by (elim disjE) (simp, drule (1) bspec, simp)
  qed
  show "inbound_ok sock c w'" unfolding inbound_ok_def
    by (intro conjI exI [of _ cl']) (fact w'(1) w'(2) nb cl'(1) ic)+
  have "waiting view (pubs w') (xs @ m # ys) = (waiting view (pubs w) ?ms)
      (m_msgid m \<mapsto> view (stored_publish m (the (pubs w' (m_publish m)))))"
  proof (rule waiting_update)
    show "distinct (map m_msgid ?ms)" using inb by (simp add: inbound_client_def)
    show "xs @ ys = filter (\<lambda>x. m_msgid x \<noteq> m_msgid m) ?ms" using ms(2) m(1) by simp
    show "pubs w' (m_publish x) = pubs w (m_publish x)" if "x \<in> set ?ms" "m_msgid x \<noteq> m_msgid m" for x
    proof -
      have "x \<in> set (xs @ ys)" unfolding ms(2) using that m(1) by simp
      then show ?thesis using ps(3) by blast
    qed
  qed
  then show "inbox_of view c w' = (inbox_of view c w)(msgId p \<mapsto> view (as_stored p))"
    using cl cl'(1) ms(1) m ps by (simp add: inbox_of_def)
  show "app_view c w' = app_view c w" using cl cl' w'(5) by (simp add: app_view_def)
qed

lemma store_inbound_step:
  assumes ok: "inbound_ok sock c w" and p: "deliverable p"
  obtains w' where "store_inbound p c w = Some w'" "inbound_ok sock c w'"
    "inbox_of view c w' = (inbox_of view c w)(msgId p \<mapsto> view (as_stored p))" "app_view c w' = app_view c w"
proof -
  from ok obtain cl where cl: "get_client c w = Some cl" and inb: "inbound_client (pubs w) cl"
    by (auto simp: inbound_ok_def)
  obtain len w1 pub where st: "MQTTProtocol_storePublication p w = Some ((next_pub w, len), w1)"
    and w1: "w1 = w\<lparr>pubs := (pubs w)(next_pub w \<mapsto> pub), next_pub := next_pub w + 1,
       publications := cl_add (publications w) (next_pub w) len\<rparr>"
    and sp: "\<forall>m. m_qos m = header_qos (p_header p) \<and> m_retain m = header_retain (p_header p) \<and>
       m_msgid m = msgId p \<longrightarrow> stored_publish m pub = as_stored p"
    using p by (rule storePublication_deliverable [where w = w])
  define m where "m = \<lparr>m_qos = header_qos (p_header p), m_retain = header_retain (p_header p), m_msgid = msgId p,
    m_publish = next_pub w, m_lastTouch = junk_int w1, m_nextMessageType = PUBREL, m_len = junk_int w1\<rparr>"
  have m: "m_msgid m = msgId p" "m_qos m = 2" "m_nextMessageType m = PUBREL" "m_publish m = next_pub w"
    "stored_publish m pub = as_stored p"
    using p sp [THEN spec, of m] by (simp_all add: m_def deliverable_def)
  let ?ms = "contents (inboundMsgs cl)"
  have fresh: "pubs w (next_pub w) = None" and wfp: "cl_wf (publications w1)"
    using ok w1 by (auto simp: inbound_ok_def intro: cl_wf_add)
  have cl1: "get_client c w1 = Some cl" and ow1: "owns sock c w1" and wf: "cl_wf (inboundMsgs cl)"
    using cl w1 ok inb owns_cong [of w1 w] by (auto simp: inbound_ok_def inbound_client_def)
  show thesis
    using cl1 wf
  proof (cases rule: find_inbound_cases [where msgid = "msgId p", case_names absent found])
    case (absent w2)
    from quiet_clients [OF absent(2) cl1] obtain cl2 where cl2: "get_client c w2 = Some cl2" "quiet_client cl cl2" .
    note qf = quiet_client_fields [OF cl2(2)] and q = quiet_fields [OF absent(2)]
    let ?f = "\<lambda>cl. cl\<lparr>inboundMsgs := cl_add (inboundMsgs cl) m (sizeof_Messages + len)\<rparr>"
    have s: "store_inbound p c w = Some (upd_client c ?f w2)"
      using st absent(1) by (simp add: store_inbound_def m_def)
    have g: "get_client c (upd_client c ?f w2) = Some (?f cl2)" using cl2(1) by (simp add: get_upd_client)
    have wf2: "cl_wf (inboundMsgs (?f cl2))" using qf(9) wf by (simp add: cl_wf_add)
    have fl: "?ms @ [] = filter (\<lambda>x. m_msgid x \<noteq> msgId p) ?ms" using absent(3) by (simp add: filter_id_conv)
    have con: "contents (inboundMsgs (?f cl2)) = ?ms @ [m]" using qf(7) by (simp add: cl_add_def cl_append_def)
    have ow: "owns sock c (upd_client c ?f w2)" using quiet_owns [OF absent(2) ow1] by (intro owns_upd_client) simp_all
    have old: "\<forall>x\<in>set (?ms @ []). pubs (upd_client c ?f w2) (m_publish x) = pubs w (m_publish x)"
      using inb fresh q w1 by (auto simp: inbound_client_def)
    note R = inbound_replaced [OF ok cl p g wf2 _ _ _ con fl m(1-4) ow _ _ _ _ _ m(5) old]
    show thesis
      by (rule that [OF s R]) (use qf(2,6,11) q(1-3,7) w1 wfp in auto)
  next
    case (found a old w2)
    from quiet_clients [OF found(2) cl1] obtain cl2 where cl2: "get_client c w2 = Some cl2" "quiet_client cl cl2" .
    note qf = quiet_client_fields [OF cl2(2)] and q = quiet_fields [OF found(2)]
    have oldin: "old \<in> set ?ms" using found(3) by (force dest: map_of_SomeD)
    with inb obtain po where po: "pubs w (m_publish old) = Some po" by (auto simp: inbound_client_def)
    have on: "m_publish old \<noteq> next_pub w" using po fresh by auto
    have "pubs w2 (m_publish old) = Some po" "cl_wf (publications w2)" using q w1 po on wfp by simp_all
    then obtain w3 where w3: "MQTTProtocol_removePublication (m_publish old) w2 = Some w3" "clients w3 = clients w2"
      "\<And>b. b \<noteq> m_publish old \<Longrightarrow> pubs w3 b = pubs w2 b" "dom (pubs w3) \<subseteq> dom (pubs w2)"
      "next_pub w3 = next_pub w2" "cl_wf (publications w3)" "proto.more w3 = proto.more w2"
      by (rule removePublication_some) blast
    let ?l = "snd (cl_remove_at a (cl_add_before (inboundMsgs cl2) m (sizeof_Messages + len) (Some a)))"
    let ?f = "\<lambda>cl. cl\<lparr>inboundMsgs := snd (cl_remove_at a (cl_add_before (inboundMsgs cl) m (sizeof_Messages + len) (Some a)))\<rparr>"
    have uu: "remove_inbound a c (upd_client c (\<lambda>cl. cl\<lparr>inboundMsgs :=
        cl_add_before (inboundMsgs cl) m (sizeof_Messages + len) (Some a)\<rparr>) w3) = upd_client c ?f w3"
      by (simp add: remove_inbound_def upd_client_def cl_update_def case_prod_beta comp_def)
    have s: "store_inbound p c w = Some (upd_client c ?f w3)"
      using st found(1) w3(1) uu by (simp add: store_inbound_def m_def)
    have g3: "get_client c w3 = Some cl2" using cl2(1) w3(2) by (simp add: get_client_def)
    then have g: "get_client c (upd_client c ?f w3) = Some (?f cl2)" by (simp add: get_upd_client)
    obtain xs ys where xy: "items (inboundMsgs cl2) = xs @ (a, old) # ys"
      "contents ?l = map snd xs @ m # map snd ys" "cl_wf ?l"
      using cl_replace_at [of "inboundMsgs cl2" a old m "sizeof_Messages + len"] qf(7,9) wf found(3) by metis
    have ms: "?ms = map snd xs @ old # map snd ys" using xy(1) qf(7) by simp
    have dm: "distinct (map m_msgid ?ms)" "distinct (map m_publish ?ms)" using inb by (simp_all add: inbound_client_def)
    have fl: "map snd xs @ map snd ys = filter (\<lambda>x. m_msgid x \<noteq> msgId p) ?ms"
      using filter_others [of "map snd xs" old "map snd ys"] dm(1) found(4) unfolding ms by simp
    have con: "contents (inboundMsgs (?f cl2)) = map snd xs @ m # map snd ys" using xy(2) by simp
    have ow: "owns sock c (upd_client c ?f w3)"
      using quiet_owns [OF found(2) ow1] owns_cong [OF w3(2)] by (intro owns_upd_client) simp_all
    have neq: "m_publish x \<noteq> m_publish old \<and> m_publish x \<noteq> next_pub w" if "x \<in> set (map snd xs @ map snd ys)" for x
    proof -
      have "x \<in> set ?ms" using that unfolding ms by auto
      then have "pubs w (m_publish x) \<noteq> None" using inb by (auto simp: inbound_client_def)
      moreover have "m_publish x \<noteq> m_publish old" using dm(2) that unfolding ms by (auto simp: rev_image_eqI)
      ultimately show ?thesis using fresh by auto
    qed
    have old': "\<forall>x\<in>set (map snd xs @ map snd ys). pubs (upd_client c ?f w3) (m_publish x) = pubs w (m_publish x)"
      using neq w3(3) q(2) w1 by simp
    have pn: "pubs (upd_client c ?f w3) (next_pub w) = Some pub" using w3(3) on q(2) w1 by simp
    have dm3: "dom (pubs (upd_client c ?f w3)) \<subseteq> insert (next_pub w) (dom (pubs w))"
      using w3(4) q(2) w1 by auto
    note R = inbound_replaced [OF ok cl p g _ _ _ _ con fl m(1-4) ow _ _ dm3 _ pn m(5) old']
    show thesis
      by (rule that [OF s R]) (use qf(2,6,11) q(3,7) w1 w3(5-7) xy(3) pn in auto)
  qed
qed

lemma publish_step:
  assumes ok: "inbound_ok sock c w" and p: "deliverable p"
  obtains rc w' where "MQTTProtocol_handlePublishes process p sock w = Some (rc, w')" "inbound_ok sock c w'"
    "inbox_of view c w' = (inbox_of view c w)(msgId p \<mapsto> view (as_stored p))" "app_view c w' = app_view c w"
proof -
  from ok have "owns sock c w" by (simp add: inbound_ok_def)
  then obtain w1 where w1: "find_client sock w = Some (c, w1)" "quiet w w1" by (rule find_client_owner)
  note q1 = quiet_inbound(1) [OF w1(2) ok] quiet_inbound(2) [OF w1(2) ok, of view]
      quiet_inbound(3) [OF w1(2) ok]
  obtain w2 where w2: "store_inbound p c w1 = Some w2" "inbound_ok sock c w2"
    "inbox_of view c w2 = (inbox_of view c w1)(msgId p \<mapsto> view (as_stored p))" "app_view c w2 = app_view c w1"
    using q1(1) p by (rule store_inbound_step)
  from w2(2) obtain cl where "get_client c w2 = Some cl" by (auto simp: inbound_ok_def)
  from send_ack_defined [OF this, of PUBREC "msgId p" 0]
  obtain rc w3 where w3: "MQTTPacket_send_pubrec (msgId p) c w2 = Some (rc, w3)"
    by (auto simp: MQTTPacket_send_pubrec_def msgTypes_defs)
  from send_acks_quiet(2) [OF w3] have q3: "quiet w2 w3" .
  show thesis
  proof (rule that)
    show "MQTTProtocol_handlePublishes process p sock w = Some (rc, w3)"
      using w1(1) w2(1) w3 p by (simp add: MQTTProtocol_handlePublishes_def deliverable_def)
  qed (use q1 w2 quiet_inbound(1,3) [OF q3 w2(2)] quiet_inbound(2) [OF q3 w2(2), of view] in simp_all)
qed

subsection \<open>The PUBREL handler\<close>

lemma remove_quiet:
  assumes "MQTTPersistence_remove c t q i w = Some (rc, w')"
  shows "quiet w w'"
  using assms
  by (auto simp: MQTTPersistence_remove_def bind_Some_conv split: if_splits
      intro: quiet_trans with_store_quiet)

lemma remove_received_defined:
  assumes "get_client c w = Some cl" "persistence cl \<noteq> None \<longrightarrow> phandle cl \<noteq> None" "0 \<le> i" "i \<le> MAX_MSG_ID"
  shows "\<exists>rc w'. MQTTPersistence_remove c PERSISTENCE_PUBLISH_RECEIVED q i w = Some (rc, w')"
proof -
  have "sprintf_key MESSAGE_FILENAME_LENGTH PERSISTENCE_PUBLISH_RECEIVED i \<noteq> None"
    using sprintf_key_fits [of i PERSISTENCE_PUBLISH_RECEIVED] assms(3,4)
    by (simp add: MAX_MSG_ID_def key_defs)
  moreover have "PERSISTENCE_PUBLISH_RECEIVED \<noteq> PERSISTENCE_PUBLISH_SENT" by (simp add: key_defs)
  ultimately show ?thesis
    using assms(1) with_store_defined [OF assms(1,2)] by (auto simp: MQTTPersistence_remove_def)
qed

lemma inbound_removed:
  assumes inb: "inbound_client ps cl" and cl': "cl_wf (inboundMsgs cl')" "persistence cl' = persistence cl"
      "phandle cl \<noteq> None \<longrightarrow> phandle cl' \<noteq> None"
    and ms: "contents (inboundMsgs cl') = filter (\<lambda>x. m_msgid x \<noteq> i) (contents (inboundMsgs cl))"
    and ps: "\<forall>x\<in>set (contents (inboundMsgs cl)). m_msgid x \<noteq> i \<longrightarrow> ps' (m_publish x) = ps (m_publish x)"
  shows "inbound_client ps' cl'"
    "waiting view ps' (contents (inboundMsgs cl')) = (waiting view ps (contents (inboundMsgs cl)))(i := None)"
proof -
  have "m_qos x = 2 \<and> m_nextMessageType x = PUBREL \<and>
      (\<exists>pub. ps' (m_publish x) = Some pub \<and> deliverable (stored_publish x pub))"
    if "x \<in> set (contents (inboundMsgs cl'))" for x
  proof -
    have "x \<in> set (contents (inboundMsgs cl))" "m_msgid x \<noteq> i" using that ms by auto
    then show ?thesis using inb ps unfolding inbound_client_def by metis
  qed
  moreover have "persistence cl' \<noteq> None \<longrightarrow> phandle cl' \<noteq> None"
    using inb cl'(2,3) by (simp add: inbound_client_def)
  moreover have "distinct (map m_msgid (contents (inboundMsgs cl')))"
    "distinct (map m_publish (contents (inboundMsgs cl')))"
    using inb unfolding ms inbound_client_def by (simp_all add: distinct_map_filter)
  ultimately show "inbound_client ps' cl'" using cl'(1) unfolding inbound_client_def by blast
  show "waiting view ps' (contents (inboundMsgs cl')) = (waiting view ps (contents (inboundMsgs cl)))(i := None)"
    unfolding ms using ps by (intro waiting_remove) blast
qed

lemma drop_publication_frame:
  assumes "cl_wf (publications w)"
  shows "clients (drop_publication a w) = clients w" "b \<noteq> a \<Longrightarrow> pubs (drop_publication a w) b = pubs w b"
    "dom (pubs (drop_publication a w)) \<subseteq> dom (pubs w)" "next_pub (drop_publication a w) = next_pub w"
    "cl_wf (publications (drop_publication a w))" "proto.more (drop_publication a w) = proto.more w"
  using cl_wf_unlink [OF assms, of "\<lambda>x. x = a"]
  by (auto simp: drop_publication_def split: prod.splits option.splits)

lemma pubrel_step:
  assumes ok: "inbound_ok sock c w" and pre: "pre (app_view c w)" and hook: "hook_ok pre process view obs sock c"
  obtains rc w' where "MQTTProtocol_handlePubrels process a sock w = Some (rc, w')"
    "in_rep pre view obs sock c w' (snd (in_spec view (inbox_of view c w, obs (app_view c w)) (InPubrel a)))"
proof -
  from ok have ow: "owns sock c w" by (simp add: inbound_ok_def)
  then obtain w1 where w1: "find_client sock w = Some (c, w1)" "quiet w w1" by (rule find_client_owner)
  note q1 = quiet_inbound(1) [OF w1(2) ok] quiet_inbound(2) [OF w1(2) ok, of view]
      quiet_inbound(3) [OF w1(2) ok]
  from q1(1) obtain cl1 where cl1: "get_client c w1 = Some cl1" "inbound_client (pubs w1) cl1"
    by (auto simp: inbound_ok_def)
  have ib1: "inbox_of view c w = waiting view (pubs w1) (contents (inboundMsgs cl1))"
    using q1(2) cl1(1) by (simp add: inbox_of_def)
  have wf1: "cl_wf (inboundMsgs cl1)" using cl1(2) by (simp add: inbound_client_def)
  show thesis
    using cl1(1) wf1
  proof (cases rule: find_inbound_cases [where msgid = "a_msgId a", case_names absent found])
    case (absent w2)
    note q2 = quiet_inbound(1) [OF absent(2) q1(1)] quiet_inbound(2) [OF absent(2) q1(1), of view]
      quiet_inbound(3) [OF absent(2) q1(1)]
    have n: "inbox_of view c w (a_msgId a) = None" unfolding ib1 using absent(3) by (rule waiting_None)
    from q2(1) obtain cl2 where "get_client c w2 = Some cl2" by (auto simp: inbound_ok_def)
    from send_ack_defined [OF this, of PUBCOMP "a_msgId a" 0]
    obtain rc w3 where w3: "MQTTPacket_send_pubcomp (a_msgId a) c w2 = Some (rc, w3)"
      by (auto simp: MQTTPacket_send_pubcomp_def msgTypes_defs)
    note q3 = quiet_inbound(1) [OF send_acks_quiet(4) [OF w3] q2(1)] quiet_inbound(2) [OF send_acks_quiet(4) [OF w3] q2(1), of view]
      quiet_inbound(3) [OF send_acks_quiet(4) [OF w3] q2(1)]
    show thesis
    proof (cases "header_dup (a_header a) = 0")
      case True
      with w1(1) absent(1) have "MQTTProtocol_handlePubrels process a sock w = Some (TCPSOCKET_COMPLETE, w2)"
        by (simp add: MQTTProtocol_handlePubrels_def)
      then show thesis by (rule that) (use n q1 q2 pre in \<open>simp add: in_rep_def\<close>)
    next
      case False
      with w1(1) absent(1) w3 have "MQTTProtocol_handlePubrels process a sock w = Some (rc, w3)"
        by (simp add: MQTTProtocol_handlePubrels_def)
      then show thesis by (rule that) (use n q1 q2 q3 pre in \<open>simp add: in_rep_def\<close>)
    qed
  next
    case (found e m w2)
    have min: "m \<in> set (contents (inboundMsgs cl1))" using found(3) by (force dest: map_of_SomeD)
    then obtain pub where m: "m_qos m = 2" "m_nextMessageType m = PUBREL" "pubs w1 (m_publish m) = Some pub"
      "deliverable (stored_publish m pub)" using cl1(2) unfolding inbound_client_def by blast
    have s: "inbox_of view c w (a_msgId a) = Some (view (stored_publish m pub))"
      using waiting_Some [OF _ min, of view "pubs w1"] cl1(2) m(3) found(4)
      by (simp add: ib1 inbound_client_def)
    note q2 = quiet_inbound(1) [OF found(2) q1(1)] quiet_inbound(2) [OF found(2) q1(1), of view]
      quiet_inbound(3) [OF found(2) q1(1)]
    from q2(1) obtain cl2 where "get_client c w2 = Some cl2" by (auto simp: inbound_ok_def)
    from send_ack_defined [OF this, of PUBCOMP "a_msgId a" 0]
    obtain rc w3 where w3: "MQTTPacket_send_pubcomp (a_msgId a) c w2 = Some (rc, w3)"
      by (auto simp: MQTTPacket_send_pubcomp_def msgTypes_defs)
    have q13: "quiet w1 w3" using found(2) send_acks_quiet(4) [OF w3] by (rule quiet_trans)
    note q3 = quiet_inbound(1) [OF q13 q1(1)] quiet_inbound(2) [OF q13 q1(1), of view]
      quiet_inbound(3) [OF q13 q1(1)]
    from q3(1) hook m(4) pre q1(3) q3(3) obtain w4 where w4: "process (stored_publish m pub) c w3 = Some w4"
      "hands_over sock c w3 w4" "pre (app_view c w4)" "obs (app_view c w4) = obs (app_view c w3) @ [view (stored_publish m pub)]"
      unfolding hook_ok_def by metis
    from quiet_clients [OF q13 cl1(1)] obtain cl3 where cl3: "get_client c w3 = Some cl3" "quiet_client cl1 cl3" .
    with w4(2) obtain cl4 where cl4: "get_client c w4 = Some cl4" "inboundMsgs cl4 = inboundMsgs cl3"
      "persistence cl4 = persistence cl3" "phandle cl3 \<noteq> None \<longrightarrow> phandle cl4 \<noteq> None"
      unfolding hands_over_def by blast
    note qf3 = quiet_client_fields [OF cl3(2)]
    have st1: "persistence cl1 \<noteq> None \<longrightarrow> phandle cl1 \<noteq> None" using cl1(2) by (simp add: inbound_client_def)
    then have st4: "persistence cl4 \<noteq> None \<longrightarrow> phandle cl4 \<noteq> None" using cl4(3,4) qf3(2,11) by auto
    have ib: "0 \<le> a_msgId a" "a_msgId a \<le> MAX_MSG_ID"
      using m(4) found(4) by (auto simp: deliverable_def stored_publish_def)
    obtain rc2 w5 where w5: "MQTTPersistence_remove c PERSISTENCE_PUBLISH_RECEIVED (m_qos m) (a_msgId a) w4 = Some (rc2, w5)"
      using remove_received_defined [OF cl4(1) st4 ib] by blast
    note q5 = remove_quiet [OF w5]
    from quiet_clients [OF q5 cl4(1)] obtain cl5 where cl5: "get_client c w5 = Some cl5" "quiet_client cl4 cl5" .
    note qf5 = quiet_client_fields [OF cl5(2)]
    define w6 where "w6 = remove_inbound e c (drop_publication (m_publish m) w5)"
    let ?w' = "w6\<lparr>msgs_received := uint_inc (msgs_received w6)\<rparr>"
    have run: "MQTTProtocol_handlePubrels process a sock w = Some (rc + rc2, ?w')"
      using w1(1) found(1) m(1,2) w3 quiet_fields(2) [OF q13] m(3) w4(1) w5
      by (simp add: MQTTProtocol_handlePubrels_def w6_def Let_def)
    have pubs5: "pubs w5 = pubs w1" "next_pub w5 = next_pub w1" "publications w5 = publications w1"
      using quiet_fields [OF q13] quiet_fields [OF q5] w4(2) by (simp_all add: hands_over_def)
    have wfp: "cl_wf (publications w5)" using q1(1) pubs5 by (simp add: inbound_ok_def)
    note dp = drop_publication_frame [OF wfp]
    have l5: "items (inboundMsgs cl5) = items (inboundMsgs cl1)" "cl_wf (inboundMsgs cl5)"
      using qf5(7,9) cl4(2) qf3(7,9) wf1 by auto
    define cl6 where "cl6 = cl5\<lparr>inboundMsgs := snd (cl_remove_at e (inboundMsgs cl5))\<rparr>"
    have g6: "get_client c ?w' = Some cl6"
      using cl5(1) dp(1) by (simp add: w6_def remove_inbound_def get_upd_client cl6_def) (simp add: get_client_def)
    have "e \<in> fst ` set (items (inboundMsgs cl5))" using found(3) l5(1) by (force dest: map_of_SomeD)
    then obtain xs m' ys where sp: "items (inboundMsgs cl5) = xs @ (e, m') # ys"
      using l5(2) unfolding cl_wf_def by (metis items_splitE)
    then have "map_of (items (inboundMsgs cl5)) e = Some m'"
      using l5(2) map_of_is_SomeI [of "items (inboundMsgs cl5)" e m'] by (simp add: cl_wf_def)
    then have m': "m' = m" using found(3) l5(1) by simp
    have ms1: "contents (inboundMsgs cl1) = map snd xs @ m # map snd ys" using sp l5(1) m' by simp
    have dm: "distinct (map m_msgid (contents (inboundMsgs cl1)))" "distinct (map m_publish (contents (inboundMsgs cl1)))"
      using cl1(2) by (simp_all add: inbound_client_def)
    have wf6: "cl_wf (inboundMsgs cl6)"
      using cl_wf_remove_at [OF l5(2)] by (simp add: cl6_def) (metis prod.collapse)
    have c6: "contents (inboundMsgs cl6) = map snd xs @ map snd ys"
      using cl_remove_at_split [OF sp l5(2)] by (simp add: cl6_def)
    have fl: "contents (inboundMsgs cl6) = filter (\<lambda>x. m_msgid x \<noteq> a_msgId a) (contents (inboundMsgs cl1))"
      using filter_others [of "map snd xs" m "map snd ys"] dm(1) found(4) unfolding c6 ms1 by simp
    have ps6: "pubs ?w' (m_publish x) = pubs w1 (m_publish x)"
      if "x \<in> set (contents (inboundMsgs cl1))" "m_msgid x \<noteq> a_msgId a" for x
    proof -
      have "x \<noteq> m" using that(2) found(4) by auto
      then have "m_publish x \<noteq> m_publish m"
        using dm(2) that(1) min by (auto simp: distinct_map inj_on_def)
      then show ?thesis using dp(2) pubs5(1) by (simp add: w6_def remove_inbound_def)
    qed
    have f6: "persistence cl6 = persistence cl1" "phandle cl1 \<noteq> None \<longrightarrow> phandle cl6 \<noteq> None"
      "messageQueue cl6 = messageQueue cl4" "persistence cl6 = persistence cl4"
      using qf5(2,6,11) cl4(3,4) qf3(2,11) by (auto simp: cl6_def)
    note rem = inbound_removed [OF cl1(2) wf6 f6(1,2) fl, of "pubs ?w'"]
    have ow6: "owns sock c ?w'"
    proof -
      have "owns sock c w4" using w4(2) q3(1) by (simp add: hands_over_def inbound_ok_def)
      then have "owns sock c w5" by (rule quiet_owns [OF q5])
      then have "owns sock c (drop_publication (m_publish m) w5)" using owns_cong [OF dp(1)] by blast
      then have "owns sock c w6" unfolding w6_def remove_inbound_def by (rule owns_upd_client [rotated]) simp
      then show ?thesis by (simp add: owns_def)
    qed
    have nb6: "\<forall>a\<in>dom (pubs ?w'). a < next_pub ?w'"
    proof -
      have "dom (pubs ?w') \<subseteq> dom (pubs w1)" "next_pub ?w' = next_pub w1"
        using dp(3) [of "m_publish m"] dp(4) pubs5 by (simp_all add: w6_def remove_inbound_def)
      moreover have "\<forall>a\<in>dom (pubs w1). a < next_pub w1" using q1(1) by (simp add: inbound_ok_def)
      ultimately show ?thesis by (simp only:) blast
    qed
    have ok6: "inbound_ok sock c ?w'"
      unfolding inbound_ok_def
    proof (intro conjI exI [of _ cl6])
      show "cl_wf (publications ?w')" using dp(5) by (simp add: w6_def remove_inbound_def)
      show "inbound_client (pubs ?w') cl6" using rem(1) ps6 by blast
    qed (fact ow6 nb6 g6)+
    have "app_view c ?w' = app_view c w4"
      using g6 f6(3,4) cl4(1) quiet_fields(7) [OF q5] dp(6) by (simp add: app_view_def w6_def remove_inbound_def)
    then have ob: "obs (app_view c ?w') = obs (app_view c w) @ [view (stored_publish m pub)]"
      and pre': "pre (app_view c ?w')"
      using w4(3,4) q3(3) q1(3) by simp_all
    have "inbox_of view c ?w' = (inbox_of view c w)(a_msgId a := None)"
      using rem(2) [of view] ps6 g6 ib1 by (simp add: inbox_of_def)
    with s ok6 ob pre' show thesis by (intro that [OF run]) (simp add: in_rep_def)
  qed
qed

subsection \<open>Exactly once\<close>

lemma in_simulation:
  assumes hook: "hook_ok pre process view obs sock c"
  shows "simulation (in_step process sock) (in_spec view) in_ok (in_rep pre view obs sock c)"
proof
  fix w :: "('b, 'a) proto_scheme" and i :: "'c inbox" and x :: in_packet
  assume rep: "in_rep pre view obs sock c w i" and ok: "in_ok i x"
  have w: "inbound_ok sock c w" "pre (app_view c w)" and i: "i = (inbox_of view c w, obs (app_view c w))"
    using rep by (cases i, simp_all add: in_rep_def)+
  show "\<exists>w'. in_step process sock w x = Some (fst (in_spec view i x), w') \<and>
      in_rep pre view obs sock c w' (snd (in_spec view i x))"
  proof (cases x)
    case (InPublish p)
    with ok have "deliverable p" by simp
    with w(1) obtain rc w' where "MQTTProtocol_handlePublishes process p sock w = Some (rc, w')" "inbound_ok sock c w'"
      "inbox_of view c w' = (inbox_of view c w)(msgId p \<mapsto> view (as_stored p))" "app_view c w' = app_view c w"
      by (rule publish_step)
    then show ?thesis using InPublish i w(2) by (simp add: in_rep_def)
  next
    case (InPubrel a)
    from w hook obtain rc w' where "MQTTProtocol_handlePubrels process a sock w = Some (rc, w')"
      "in_rep pre view obs sock c w' (snd (in_spec view (inbox_of view c w, obs (app_view c w)) (InPubrel a)))"
      by (rule pubrel_step)
    then show ?thesis using InPubrel i by (auto split: option.splits)
  qed
qed

text \<open>The application that only keeps what it is given, as the extension of the state.\<close>

definition record_hook :: "('s, Publish list) process_hook" where
  "record_hook p c w = Some (w\<lparr>proto.more := proto.more w @ [p]\<rparr>)"

lemma record_hook_ok: "hook_ok (\<lambda>_. True) record_hook (\<lambda>p. p) fst sock c"
proof -
  have "\<exists>w'. record_hook p c w = Some w' \<and> hands_over sock c w w' \<and>
      fst (app_view c w') = fst (app_view c w) @ [p]" for p and w :: "('a, Publish list) proto_scheme"
    by (cases w) (simp add: record_hook_def hands_over_def app_view_def owns_def get_client_def)
  then show ?thesis by (simp add: hook_ok_def)
qed

interpretation inbox: simulation "in_step record_hook sock" "in_spec (\<lambda>p. p)" in_ok "in_rep (\<lambda>_. True) (\<lambda>p. p) fst sock c"
  for sock :: int and c :: addr
  by (rule in_simulation) (rule record_hook_ok)

text \<open>The packets of one message id do not see those of the others.\<close>

fun packet_id :: "in_packet \<Rightarrow> int" where
  "packet_id (InPublish p) = msgId p"
| "packet_id (InPubrel a) = a_msgId a"

definition at_id :: "('v \<Rightarrow> int) \<Rightarrow> int \<Rightarrow> 'v inbox \<Rightarrow> 'v option \<times> 'v list" where
  "at_id idv i s = (fst s i, filter (\<lambda>v. idv v = i) (snd s))"

definition ids_right :: "('v \<Rightarrow> int) \<Rightarrow> 'v inbox \<Rightarrow> bool" where
  "ids_right idv s \<longleftrightarrow> (\<forall>i v. fst s i = Some v \<longrightarrow> idv v = i)"

lemma in_spec_ids:
  assumes "ids_right idv s" "\<And>p. idv (view p) = msgId p"
  shows "ids_right idv (snd (in_spec view s x))"
proof -
  obtain pend dl where s: "s = (pend, dl)" by force
  have "msgId (as_stored p) = msgId p" for p by (simp add: as_stored_def)
  then show ?thesis using assms by (cases x) (auto simp: s ids_right_def split: option.splits if_splits)
qed

lemma in_spec_at_id:
  assumes "ids_right idv s" "ids_right idv s'" "\<And>p. idv (view p) = msgId p" "at_id idv i s = at_id idv i s'"
  shows "at_id idv i (snd (in_spec view s x)) =
    (if packet_id x = i then at_id idv i (snd (in_spec view s' x)) else at_id idv i s')"
proof -
  obtain pend dl pend' dl' where s: "s = (pend, dl)" "s' = (pend', dl')" by force
  have "msgId (as_stored p) = msgId p" for p by (simp add: as_stored_def)
  then show ?thesis
    using assms by (cases x) (auto simp: s at_id_def ids_right_def split: option.splits if_splits)
qed

lemma run_at_id:
  assumes "\<And>p. idv (view p) = msgId p"
  shows "ids_right idv s \<Longrightarrow> ids_right idv s' \<Longrightarrow> at_id idv i s = at_id idv i s' \<Longrightarrow>
    at_id idv i (snd (run_a (in_spec view) s xs)) =
    at_id idv i (snd (run_a (in_spec view) s' (filter (\<lambda>x. packet_id x = i) xs)))"
proof (induction xs arbitrary: s s')
  case (Cons x xs)
  note ids = in_spec_ids [OF Cons.prems(1) assms] in_spec_ids [OF Cons.prems(2) assms]
  note step = in_spec_at_id [OF Cons.prems(1,2) assms Cons.prems(3), of x]
  show ?case
  proof (cases "packet_id x = i")
    case True
    then have "at_id idv i (snd (in_spec view s x)) = at_id idv i (snd (in_spec view s' x))" using step by simp
    from Cons.IH [OF ids this] True show ?thesis by (simp add: Let_def case_prod_beta)
  next
    case False
    then have "at_id idv i (snd (in_spec view s x)) = at_id idv i s'" using step by simp
    from Cons.IH [OF ids(1) Cons.prems(2) this] False show ?thesis by (simp add: Let_def case_prod_beta)
  qed
qed simp

lemma run_publishes:
  "snd (run_a (in_spec view) (pend, dl) (replicate (Suc n) (InPublish p))) =
     (pend(msgId p \<mapsto> view (as_stored p)), dl)"
  by (induction n arbitrary: pend) (simp_all add: run_a_state del: run_a.simps)

lemma run_pubrels:
  "pend (a_msgId a) = Some v \<Longrightarrow>
     snd (run_a (in_spec view) (pend, dl) (replicate (Suc n) (InPubrel a))) =
       (pend(a_msgId a := None), dl @ [v])"
proof -
  have idle: "pend (a_msgId a) = None \<Longrightarrow>
      snd (run_a (in_spec view) (pend, dl) (replicate n (InPubrel a))) = (pend, dl)" for n pend dl
    by (induction n) (simp_all add: run_a_state del: run_a.simps)
  assume "pend (a_msgId a) = Some v"
  then show ?thesis
    using idle [of "pend(a_msgId a := None)" "dl @ [v]" n] by (simp add: run_a_state del: run_a.simps)
qed

lemma run_ok_in: "run_ok (in_spec view) in_ok s xs \<longleftrightarrow> (\<forall>p. InPublish p \<in> set xs \<longrightarrow> deliverable p)"
proof (induction xs arbitrary: s)
  case (Cons x xs)
  then show ?case by (cases x) auto
qed simp

lemma inbound_ids_right:
  assumes "inbound_ok sock c w" "\<And>p. idv (view p) = msgId p"
  shows "ids_right idv (inbox_of view c w, dl)"
proof -
  have "idv v = i" if "waiting view ps ms i = Some v" for ps ms i v
  proof -
    from that obtain m where "v = view (stored_publish m (the (ps (m_publish m))))" "i = m_msgid m"
      unfolding waiting_def by (auto dest!: map_of_SomeD)
    then show ?thesis using assms(2) by (simp add: stored_publish_def)
  qed
  then show ?thesis by (auto simp: ids_right_def inbox_of_def)
qed

text \<open>A client with nothing in flight, and an application that has been given nothing.\<close>

definition idle_client :: "(unit, Publish list) proto_scheme" where
  "idle_client = proto.extend (one_client zero_client) []"

definition qos2_packet :: Publish where
  "qos2_packet = \<lparr>p_header = mk_header PUBLISH 0 2 0, topic = Some [0x74], topiclen = 1, msgId = 7,
     payload = [0x68, 0x69], payloadlen = 2, topic_heap = True\<rparr>"

lemma idle_client_ok: "inbound_ok 0 (Suc 0) idle_client"
  by (auto simp: inbound_ok_def owns_def idle_client_def one_client_def zero_state_def zero_client_def
      get_client_def cl_add_def cl_append_def cl_empty_def cl_fresh_def cl_wf_def inbound_client_def
      proto.extend_def proto.fields_def sockets.extend_def sockets.more_def zero_sockets_def)

lemma idle_client_inbox:
  "inbox_of view (Suc 0) idle_client = Map.empty" "fst (app_view (Suc 0) idle_client) = []"
  by (auto simp: inbox_of_def app_view_def waiting_def idle_client_def one_client_def zero_state_def
      zero_client_def get_client_def cl_add_def cl_append_def cl_empty_def cl_fresh_def proto.extend_def
      proto.fields_def sockets.extend_def sockets.more_def zero_sockets_def)

lemma qos2_packet_ok: "deliverable qos2_packet"
  by (simp add: deliverable_def qos2_packet_def MAX_MSG_ID_def)

subsection \<open>Properties\<close>



lemma in_spec_once:
  assumes "inbound_ok sock c w" "\<And>p. idv (view p) = msgId p"
    "filter (\<lambda>x. packet_id x = i) xs = replicate (Suc n) (InPublish p) @ replicate (Suc m) (InPubrel a)"
  shows "at_id idv i (snd (run_a (in_spec view) (inbox_of view c w, dl) xs)) =
    (None, filter (\<lambda>v. idv v = i) dl @ [view (as_stored p)])"
proof -
  let ?s = "(inbox_of view c w, dl)"
  let ?ys = "replicate (Suc n) (InPublish p) @ replicate (Suc m) (InPubrel a)"
  have "\<forall>x\<in>set (filter (\<lambda>x. packet_id x = i) xs). packet_id x = i" by simp
  then have "x \<in> set ?ys \<Longrightarrow> packet_id x = i" for x unfolding assms(3) by blast
  from this [of "InPublish p"] this [of "InPubrel a"] have id: "msgId p = i" "a_msgId a = i" by simp_all
  have ids: "ids_right idv ?s" using assms(1,2) by (rule inbound_ids_right)
  have fin: "snd (run_a (in_spec view) ?s ?ys) = ((inbox_of view c w)(i := None), dl @ [view (as_stored p)])"
    unfolding run_a_append run_publishes by (subst run_pubrels [where v = "view (as_stored p)"]) (simp_all add: id)
  have vid: "idv (view (as_stored p)) = i" using assms(2) id by (simp add: as_stored_def)
  have "at_id idv i (snd (run_a (in_spec view) ?s xs)) = at_id idv i (snd (run_a (in_spec view) ?s ?ys))"
    using run_at_id [OF assms(2) ids ids refl, of i xs] assms(3) by simp
  with fin vid show ?thesis by (simp add: at_id_def)
qed



end
