(* ===== verification/Outbound.thy ===== *)
theory Outbound
  imports Inbound "HOL-Library.Multiset"
begin

text \<open>
  QoS 1 and 2 on the sending side, and message ids.  The abstract object is an outbox that says for
  every message id in flight which acknowledgement its message waits for; a step relation gives the
  moves that the acknowledgements of the server make.  The handlers of \<^verbatim>\<open>MQTTProtocolClient.c\<close> make
  exactly these moves, and a trace of moves shows what must have arrived before a message is dropped.
\<close>

subsection \<open>The outbox\<close>

datatype stage = WaitPuback | WaitPubrec | WaitPubcomp

type_synonym outbox = "int \<rightharpoonup> stage"

datatype out_event = GotPuback int | GotPubrec int | GotPubcomp int

inductive out_move :: "outbox \<Rightarrow> out_event \<Rightarrow> outbox \<Rightarrow> bool" where
  puback: "ob i = Some WaitPuback \<Longrightarrow> out_move ob (GotPuback i) (ob(i := None))"
| pubrec: "ob i = Some WaitPubrec \<Longrightarrow> out_move ob (GotPubrec i) (ob(i \<mapsto> WaitPubcomp))"
| pubcomp: "ob i = Some WaitPubcomp \<Longrightarrow> out_move ob (GotPubcomp i) (ob(i := None))"
| no_puback: "ob i \<noteq> Some WaitPuback \<Longrightarrow> out_move ob (GotPuback i) ob"
| no_pubrec: "ob i \<noteq> Some WaitPubrec \<Longrightarrow> out_move ob (GotPubrec i) ob"
| no_pubcomp: "ob i \<noteq> Some WaitPubcomp \<Longrightarrow> out_move ob (GotPubcomp i) ob"

inductive_cases got_pubackE: "out_move ob (GotPuback i) ob'"
inductive_cases got_pubrecE: "out_move ob (GotPubrec i) ob'"
inductive_cases got_pubcompE: "out_move ob (GotPubcomp i) ob'"

inductive_simps out_move_simps: "out_move ob e ob'"

inductive out_moves :: "outbox \<Rightarrow> out_event list \<Rightarrow> outbox \<Rightarrow> bool" where
  stop: "out_moves ob [] ob"
| more: "out_move ob e ob1 \<Longrightarrow> out_moves ob1 es ob2 \<Longrightarrow> out_moves ob (e # es) ob2"

lemma out_move_deterministic: "out_move ob e a \<Longrightarrow> out_move ob e b \<Longrightarrow> a = b"
  by (auto simp: out_move_simps)

text \<open>What a message in flight has seen when it is gone.\<close>

lemma out_moves_stay:
  "out_moves ob es ob' \<Longrightarrow> ob i = Some WaitPubcomp \<Longrightarrow> GotPubcomp i \<notin> set es \<Longrightarrow> ob' i = Some WaitPubcomp"
proof (induction rule: out_moves.induct)
  case (more ob e ob1 es ob2)
  then have "ob1 i = Some WaitPubcomp" by (auto simp: out_move_simps split: if_splits)
  with more show ?case by simp
qed simp

lemma out_moves_gone:
  "out_moves ob es ob' \<Longrightarrow> ob i = Some WaitPubrec \<Longrightarrow> ob' i = None \<Longrightarrow>
     \<exists>xs ys. es = xs @ GotPubrec i # ys \<and> GotPubcomp i \<in> set ys"
proof (induction rule: out_moves.induct)
  case (more ob e ob1 es ob2)
  show ?case
  proof (cases "e = GotPubrec i")
    case True
    then have "ob1 i = Some WaitPubcomp" using more.hyps(1) more.prems(1) by (auto simp: out_move_simps)
    with out_moves_stay [OF more.hyps(2), of i] more.prems(2) have "GotPubcomp i \<in> set es" by auto
    with True show ?thesis by blast
  next
    case False
    then have "ob1 i = Some WaitPubrec"
      using more.hyps(1) more.prems(1) by (auto simp: out_move_simps split: if_splits)
    from more.IH [OF this more.prems(2)] obtain xs ys where "es = xs @ GotPubrec i # ys" "GotPubcomp i \<in> set ys"
      by blast
    then show ?thesis by (intro exI [of _ "e # xs"] exI [of _ ys]) auto
  qed
qed simp

lemma out_moves_none:
  "out_moves ob es ob' \<Longrightarrow> ob i = None \<Longrightarrow> ob' i = None"
proof (induction rule: out_moves.induct)
  case (more ob e ob1 es ob2)
  then have "ob1 i = None" by (auto simp: out_move_simps split: if_splits)
  with more show ?case by simp
qed simp

lemma out_moves_complete:
  "out_moves ob es ob' \<Longrightarrow> ob i = Some WaitPubcomp \<Longrightarrow> GotPubcomp i \<in> set es \<Longrightarrow> ob' i = None"
proof (induction rule: out_moves.induct)
  case (more ob e ob1 es ob2)
  show ?case
  proof (cases "e = GotPubcomp i")
    case True
    then have "ob1 i = None" using more.hyps(1) more.prems(1) by (auto simp: out_move_simps)
    then show ?thesis by (rule out_moves_none [OF more.hyps(2)])
  next
    case False
    then have "ob1 i = Some WaitPubcomp"
      using more.hyps(1) more.prems(1) by (auto simp: out_move_simps split: if_splits)
    from more.IH [OF this] False more.prems(2) show ?thesis by simp
  qed
qed simp

lemma out_moves_received:
  "out_moves ob es ob' \<Longrightarrow> ob i = Some WaitPubrec \<Longrightarrow> es = xs @ GotPubrec i # ys \<Longrightarrow>
     GotPubcomp i \<in> set ys \<Longrightarrow> ob' i = None"
proof (induction arbitrary: xs rule: out_moves.induct)
  case (more ob e ob1 es ob2)
  show ?case
  proof (cases "e = GotPubrec i")
    case True
    then have "ob1 i = Some WaitPubcomp" using more.hyps(1) more.prems(1) by (auto simp: out_move_simps)
    moreover have "GotPubcomp i \<in> set es" using more.prems(2,3) by (cases xs) auto
    ultimately show ?thesis by (rule out_moves_complete [OF more.hyps(2)])
  next
    case False
    then have w: "ob1 i = Some WaitPubrec"
      using more.hyps(1) more.prems(1) by (auto simp: out_move_simps split: if_splits)
    from False more.prems(2) obtain xs' where "es = xs' @ GotPubrec i # ys" by (cases xs) auto
    from more.IH [OF w this more.prems(3)] show ?thesis .
  qed
qed simp

subsection \<open>The client's list as an outbox\<close>

definition stage_of :: "Messages \<Rightarrow> stage" where
  "stage_of m = (if m_qos m = 1 then WaitPuback
     else if m_nextMessageType m = PUBCOMP then WaitPubcomp else WaitPubrec)"

definition in_flight :: "Messages list \<Rightarrow> outbox" where
  "in_flight ms = map_of (map (\<lambda>m. (m_msgid m, stage_of m)) ms)"

definition outbox_of :: "addr \<Rightarrow> ('s, 'm) proto_scheme \<Rightarrow> outbox" where
  "outbox_of c w = in_flight
     (case get_client c w of None \<Rightarrow> [] | Some cl \<Rightarrow> contents (outboundMsgs cl))"

text \<open>
  Messages may share a publication (its topic and payload); the count of references is then at least
  the number of messages that use it.
\<close>

definition outbound_client :: "(addr \<rightharpoonup> Publications) \<Rightarrow> 's Clients \<Rightarrow> bool" where
  "outbound_client ps cl \<longleftrightarrow> cl_wf (outboundMsgs cl) \<and> (persistence cl \<noteq> None \<longrightarrow> phandle cl \<noteq> None) \<and>
     distinct (map m_msgid (contents (outboundMsgs cl))) \<and>
     (\<forall>m\<in>set (contents (outboundMsgs cl)). 0 \<le> m_msgid m \<and> m_msgid m \<le> MAX_MSG_ID \<and>
        (m_qos m = 1 \<or> m_qos m = 2 \<and> m_nextMessageType m \<in> {PUBREC, PUBCOMP})) \<and>
     (\<forall>m\<in>set (contents (outboundMsgs cl)). \<exists>pub. ps (m_publish m) = Some pub \<and>
        int (count (mset (map m_publish (contents (outboundMsgs cl)))) (m_publish m)) \<le> refcount pub)"

definition outbound_ok :: "int \<Rightarrow> addr \<Rightarrow> ('s, 'm) proto_scheme \<Rightarrow> bool" where
  "outbound_ok sock c w \<longleftrightarrow> owns sock c w \<and> cl_wf (publications w) \<and>
     (\<exists>cl. get_client c w = Some cl \<and> outbound_client (pubs w) cl)"

lemma quiet_outbound:
  assumes "quiet w w'" "outbound_ok sock c w"
  shows "outbound_ok sock c w'" "outbox_of c w' = outbox_of c w"
proof -
  from assms(2) obtain cl where cl: "get_client c w = Some cl" "outbound_client (pubs w) cl"
    by (auto simp: outbound_ok_def)
  from quiet_clients [OF assms(1) cl(1)] obtain cl' where
    cl': "get_client c w' = Some cl'" "quiet_client cl cl'" .
  note qf = quiet_client_fields [OF cl'(2)] and q = quiet_fields [OF assms(1)]
  have "persistence cl' \<noteq> None \<longrightarrow> phandle cl' \<noteq> None" using cl(2) qf(2,11) by (auto simp: outbound_client_def)
  then have "outbound_client (pubs w') cl'"
    using cl(2) qf(8,10) q(2) unfolding outbound_client_def by simp
  then show "outbound_ok sock c w'"
    unfolding outbound_ok_def using assms cl'(1) q(1) quiet_owns [OF assms(1)]
    by (auto simp: outbound_ok_def)
  show "outbox_of c w' = outbox_of c w" using cl cl' qf(8) by (simp add: outbox_of_def)
qed

lemma in_flight_Some:
  "distinct (map m_msgid ms) \<Longrightarrow> m \<in> set ms \<Longrightarrow> in_flight ms (m_msgid m) = Some (stage_of m)"
  unfolding in_flight_def by (auto simp: map_of_eq_Some_iff comp_def)

lemma in_flight_None: "\<forall>m\<in>set ms. m_msgid m \<noteq> i \<Longrightarrow> in_flight ms i = None"
  by (auto simp: in_flight_def map_of_eq_None_iff)

lemma in_flight_remove:
  "in_flight (filter (\<lambda>x. m_msgid x \<noteq> i) ms) = (in_flight ms)(i := None)"
  unfolding in_flight_def
proof (induction ms)
  case (Cons x ms)
  then show ?case by (cases "m_msgid x = i") (auto simp: fun_eq_iff)
qed simp

subsection \<open>The acknowledgement handlers\<close>

lemma remove_sent_defined:
  assumes "get_client c w = Some cl" "persistence cl \<noteq> None \<longrightarrow> phandle cl \<noteq> None" "0 \<le> i" "i \<le> MAX_MSG_ID"
  shows "\<exists>rc w'. MQTTPersistence_remove c PERSISTENCE_PUBLISH_SENT q i w = Some (rc, w')"
proof -
  have b: "0 \<le> i" "i < 100000" using assms(3,4) by (simp_all add: MAX_MSG_ID_def)
  obtain k1 k2 where k: "sprintf_key MESSAGE_FILENAME_LENGTH PERSISTENCE_PUBLISH_SENT i = Some k1"
    "sprintf_key MESSAGE_FILENAME_LENGTH PERSISTENCE_PUBREL i = Some k2"
    using sprintf_key_fits [OF b, of PERSISTENCE_PUBLISH_SENT] sprintf_key_fits [OF b, of PERSISTENCE_PUBREL]
    by (simp add: key_defs)
  obtain rc w1 where 1: "with_store c (\<lambda>per s. premove per s k1) w = Some (rc, w1)"
    using with_store_defined [OF assms(1,2)] by blast
  from quiet_clients [OF with_store_quiet [OF 1] assms(1)] obtain cl1 where
    cl1: "get_client c w1 = Some cl1" "quiet_client cl cl1" .
  then have "persistence cl1 \<noteq> None \<longrightarrow> phandle cl1 \<noteq> None"
    using assms(2) quiet_client_fields(2,11) [OF cl1(2)] by auto
  from with_store_defined [OF cl1(1) this] 1 k assms(1) show ?thesis
    by (auto simp: MQTTPersistence_remove_def)
qed

lemma send_pubrel_defined:
  assumes "owns sock c w" "get_client c w = Some cl" "persistence cl \<noteq> None \<longrightarrow> phandle cl \<noteq> None"
    "0 \<le> i" "i \<le> MAX_MSG_ID"
  shows "\<exists>rc w'. MQTTPacket_send_pubrel i d c w = Some (rc, w')"
proof -
  let ?h = "mk_header PUBREL d 1 0"
  let ?buf = "?h # MQTTPacket_encode (int (length (writeInt i)))"
  have b: "0 \<le> i" "i < 100000" "i < 65536" using assms(4,5) by (simp_all add: MAX_MSG_ID_def)
  have t: "header_type ?h = PUBREL" by (simp add: msgTypes_defs)
  have sock: "net_socket cl = sock" using assms(1,2) by (auto simp: owns_def)
  obtain w1 where w1: "find_client sock w = Some (c, w1)" "quiet w w1" using assms(1) by (rule find_client_owner)
  from quiet_clients [OF w1(2) assms(2)] obtain cl1 where
    cl1: "get_client c w1 = Some cl1" "quiet_client cl cl1" .
  then have s1: "persistence cl1 \<noteq> None \<longrightarrow> phandle cl1 \<noteq> None"
    using assms(3) quiet_client_fields(2,11) [OF cl1(2)] by auto
  obtain k where "put_key PUBREL i 0 = Some k"
    using sprintf_key_fits [OF b(1,2), of PERSISTENCE_PUBREL] by (auto simp: put_key_def key_defs)
  then obtain rc w2 where w2: "MQTTPersistence_put sock ?buf [writeInt i] PUBREL i 0 w = Some (rc, w2)"
    using w1(1) cl1(1) with_store_defined [OF cl1(1) s1] by (fastforce simp: MQTTPersistence_put_def)
  have "readInt (writeInt i) 0 = Some (i, 2)" using readInt_writeInt [of i "[]" "[]"] b by simp
  moreover obtain rc3 w3 where "Socket_putdatas sock ?buf [writeInt i] [True] w2 = Some (rc3, w3)"
    using putdatas_defined [of "[writeInt i]" "[True]"] by fastforce
  ultimately show ?thesis
    using w2 assms(2) sock t
    by (simp add: MQTTPacket_send_pubrel_def MQTTPacket_send_ack_def MQTTPacket_send_def Let_def msgTypes_defs)
qed

lemma list_removed:
  assumes "cl_wf l" "map_of (items l) a = Some m" "distinct (map m_msgid (contents l))"
  obtains xs ys where "contents l = xs @ m # ys" "contents (snd (cl_remove_at a l)) = xs @ ys"
    "xs @ ys = filter (\<lambda>x. m_msgid x \<noteq> m_msgid m) (contents l)" "cl_wf (snd (cl_remove_at a l))"
proof -
  have "a \<in> fst ` set (items l)" using assms(2) by (force dest: map_of_SomeD)
  then obtain xs m' ys where sp: "items l = xs @ (a, m') # ys" "a \<notin> fst ` set xs"
    using assms(1) unfolding cl_wf_def by (metis items_splitE)
  then have "m' = m" using assms(2) map_of_split [OF sp(2), of m' ys] by simp
  then have c: "contents l = map snd xs @ m # map snd ys" using sp by simp
  moreover have "contents (snd (cl_remove_at a l)) = map snd xs @ map snd ys"
    using cl_remove_at_split [OF sp(1) assms(1)] by simp
  moreover have "filter (\<lambda>x. m_msgid x \<noteq> m_msgid m) (contents l) = map snd xs @ map snd ys"
    using filter_others [of "map snd xs" m "map snd ys"] assms(3) unfolding c by blast
  moreover have "cl_wf (snd (cl_remove_at a l))" using cl_wf_remove_at [OF assms(1)] by (metis prod.collapse)
  ultimately show ?thesis using that by simp
qed

text \<open>Releasing the publication of a message and taking the message out of the list.\<close>

lemma removePublication_counts:
  assumes "pubs w a = Some p" "cl_wf (publications w)"
  obtains w' where "MQTTProtocol_removePublication a w = Some w'" "clients w' = clients w"
    "pubs w' = (if refcount p - 1 = 0 then (pubs w)(a := None)
       else (pubs w)(a \<mapsto> p\<lparr>refcount := refcount p - 1\<rparr>))" "cl_wf (publications w')"
proof -
  have "cl_wf (snd (cl_unlink (\<lambda>x. x = a) (publications w)))"
    using assms(2) by (metis cl_wf_unlink prod.collapse)
  then show ?thesis
    using that assms by (cases "refcount p - 1 = 0") (auto simp: MQTTProtocol_removePublication_def)
qed

lemma released:
  assumes "outbound_client ps cl" "contents (outboundMsgs cl) = xs @ m # ys" "ps (m_publish m) = Some p"
    "contents (outboundMsgs cl') = xs @ ys" "cl_wf (outboundMsgs cl')"
    "persistence cl' \<noteq> None \<longrightarrow> phandle cl' \<noteq> None"
    "ps' = (if refcount p - 1 = 0 then ps(m_publish m := None) else ps(m_publish m \<mapsto> p\<lparr>refcount := refcount p - 1\<rparr>))"
  shows "outbound_client ps' cl'"
proof -
  let ?n = "\<lambda>ms b. int (count (mset (map m_publish ms)) b)"
  have split: "?n (xs @ m # ys) b = ?n (xs @ ys) b + (if m_publish m = b then 1 else 0)" for b by simp
  have refs: "\<exists>pub. ps (m_publish x) = Some pub \<and> ?n (xs @ m # ys) (m_publish x) \<le> refcount pub"
    if "x \<in> set (xs @ m # ys)" for x
    using assms(1) that unfolding outbound_client_def assms(2) by blast
  have "\<exists>pub. ps' (m_publish x) = Some pub \<and> ?n (xs @ ys) (m_publish x) \<le> refcount pub"
    if x: "x \<in> set (xs @ ys)" for x
  proof -
    from refs [of x] x obtain pub where pub: "ps (m_publish x) = Some pub"
      "?n (xs @ m # ys) (m_publish x) \<le> refcount pub" by auto
    show ?thesis
    proof (cases "m_publish x = m_publish m")
      case True
      then have e: "pub = p" using pub(1) assms(3) by simp
      have "m_publish x \<in># mset (map m_publish (xs @ ys))" using x by auto
      then have "0 < ?n (xs @ ys) (m_publish x)" by (simp only: of_nat_0_less_iff count_greater_zero_iff)
      then have "?n (xs @ ys) (m_publish x) \<le> refcount p - 1" "refcount p - 1 \<noteq> 0"
        using pub(2) split [of "m_publish x"] unfolding True e by (simp_all only: if_True simp_thms)
      then show ?thesis using assms(7) True by simp
    next
      case False
      then have "ps' (m_publish x) = Some pub" using pub(1) assms(7) by simp
      then show ?thesis using pub(2) split [of "m_publish x"] False by auto
    qed
  qed
  moreover have "distinct (map m_msgid (xs @ ys))"
    using assms(1) unfolding outbound_client_def assms(2) by auto
  moreover have "0 \<le> m_msgid x \<and> m_msgid x \<le> MAX_MSG_ID \<and>
      (m_qos x = 1 \<or> m_qos x = 2 \<and> m_nextMessageType x \<in> {PUBREC, PUBCOMP})" if "x \<in> set (xs @ ys)" for x
    using assms(1) that unfolding outbound_client_def assms(2) by auto
  ultimately show ?thesis
    using assms(5,6) unfolding outbound_client_def assms(4) by blast
qed

lemma finish_outbound:
  assumes ok: "outbound_ok sock c w" and cl: "get_client c w = Some cl"
    and a: "map_of (items (outboundMsgs cl)) a = Some m"
  obtains rc w3 w4 where
    "MQTTPersistence_remove c PERSISTENCE_PUBLISH_SENT (m_qos m) (m_msgid m) w = Some (rc, w3)"
    "MQTTProtocol_removePublication (m_publish m) w3 = Some w4" "outbound_ok sock c (remove_outbound a c w4)"
    "outbox_of c (remove_outbound a c w4) = (outbox_of c w)(m_msgid m := None)"
proof -
  have oc: "outbound_client (pubs w) cl" using ok cl by (auto simp: outbound_ok_def)
  have min: "m \<in> set (contents (outboundMsgs cl))" using a by (force dest: map_of_SomeD)
  then have b: "0 \<le> m_msgid m" "m_msgid m \<le> MAX_MSG_ID" using oc unfolding outbound_client_def by blast+
  have st: "persistence cl \<noteq> None \<longrightarrow> phandle cl \<noteq> None" and wf: "cl_wf (outboundMsgs cl)"
    and d: "distinct (map m_msgid (contents (outboundMsgs cl)))"
    using oc by (simp_all add: outbound_client_def)
  obtain rc w3 where w3: "MQTTPersistence_remove c PERSISTENCE_PUBLISH_SENT (m_qos m) (m_msgid m) w = Some (rc, w3)"
    using remove_sent_defined [OF cl st b] by blast
  note q = remove_quiet [OF w3]
  from quiet_clients [OF q cl] obtain cl3 where cl3: "get_client c w3 = Some cl3" "quiet_client cl cl3" .
  note qf = quiet_client_fields [OF cl3(2)]
  have ok3: "outbound_ok sock c w3" using quiet_outbound(1) [OF q ok] .
  then have oc3: "outbound_client (pubs w3) cl3" using cl3(1) by (auto simp: outbound_ok_def)
  obtain p where p: "pubs w3 (m_publish m) = Some p"
    using oc min quiet_fields(2) [OF q] unfolding outbound_client_def by metis
  have wfp: "cl_wf (publications w3)" using ok3 by (simp add: outbound_ok_def)
  obtain w4 where w4: "MQTTProtocol_removePublication (m_publish m) w3 = Some w4" "clients w4 = clients w3"
    "pubs w4 = (if refcount p - 1 = 0 then (pubs w3)(m_publish m := None)
       else (pubs w3)(m_publish m \<mapsto> p\<lparr>refcount := refcount p - 1\<rparr>))" "cl_wf (publications w4)"
    using p wfp by (rule removePublication_counts)
  obtain xs ys where xy: "contents (outboundMsgs cl3) = xs @ m # ys"
    "contents (snd (cl_remove_at a (outboundMsgs cl3))) = xs @ ys"
    "xs @ ys = filter (\<lambda>x. m_msgid x \<noteq> m_msgid m) (contents (outboundMsgs cl3))"
    "cl_wf (snd (cl_remove_at a (outboundMsgs cl3)))"
    using list_removed [of "outboundMsgs cl3" a m] wf a d qf(8,10) by metis
  define cl5 where "cl5 = cl3\<lparr>outboundMsgs := snd (cl_remove_at a (outboundMsgs cl3))\<rparr>"
  have g: "get_client c (remove_outbound a c w4) = Some cl5"
    using cl3(1) w4(2) by (simp add: remove_outbound_def get_upd_client cl5_def) (simp add: get_client_def)
  have s5: "persistence cl5 \<noteq> None \<longrightarrow> phandle cl5 \<noteq> None" using st qf(2,11) by (auto simp: cl5_def)
  have "outbound_client (pubs w4) cl5"
    using oc3 xy(1) p _ _ s5 w4(3) by (rule released) (simp_all add: cl5_def xy)
  moreover have "owns sock c (remove_outbound a c w4)"
    using ok3 owns_cong [OF w4(2)] unfolding remove_outbound_def
    by (intro owns_upd_client) (simp_all add: outbound_ok_def)
  ultimately have "outbound_ok sock c (remove_outbound a c w4)"
    using g w4(4) by (auto simp: outbound_ok_def remove_outbound_def)
  moreover have "outbox_of c (remove_outbound a c w4) = (outbox_of c w)(m_msgid m := None)"
  proof -
    have "outbox_of c (remove_outbound a c w4) = in_flight (xs @ ys)" using g xy(2) by (simp add: outbox_of_def cl5_def)
    also have "\<dots> = (in_flight (contents (outboundMsgs cl)))(m_msgid m := None)"
      unfolding xy(3) in_flight_remove using qf(8) by simp
    finally show ?thesis using cl by (simp add: outbox_of_def)
  qed
  ultimately show ?thesis using that w3 w4(1) by blast
qed

text \<open>The message of an acknowledgement, found by its id in the state after the socket's client was.\<close>

lemma ack_cases:
  assumes ok: "outbound_ok sock c w"
  obtains (absent) w1 w2 where "find_client sock w = Some (c, w1)" "quiet w w2" "quiet w w1"
    "find_outbound i c w1 = Some (None, w2)" "outbox_of c w i = None"
  | (found) a m w1 w2 cl2 where "find_client sock w = Some (c, w1)" "quiet w w2" "quiet w w1"
    "find_outbound i c w1 = Some (Some (a, m), w2)" "get_client c w2 = Some cl2"
    "map_of (items (outboundMsgs cl2)) a = Some m" "m_msgid m = i" "outbox_of c w i = Some (stage_of m)"
proof -
  have "owns sock c w" using ok by (simp add: outbound_ok_def)
  then obtain w1 where w1: "find_client sock w = Some (c, w1)" "quiet w w1" by (rule find_client_owner)
  note q1 = quiet_outbound [OF w1(2) ok]
  from q1(1) obtain cl1 where cl1: "get_client c w1 = Some cl1" "outbound_client (pubs w1) cl1"
    by (auto simp: outbound_ok_def)
  have wf: "cl_wf (outboundMsgs cl1)" and d: "distinct (map m_msgid (contents (outboundMsgs cl1)))"
    using cl1(2) by (simp_all add: outbound_client_def)
  have ob: "outbox_of c w = in_flight (contents (outboundMsgs cl1))" using q1(2) cl1(1) by (simp add: outbox_of_def)
  show ?thesis
    using cl1(1) wf
  proof (cases rule: find_outbound_cases [where msgid = i, case_names n f])
    case (n w2)
    then show ?thesis
      using absent w1 quiet_trans [OF w1(2) n(2)] in_flight_None [OF n(3)] ob by simp
  next
    case (f a m w2)
    from quiet_clients [OF f(2) cl1(1)] obtain cl2 where cl2: "get_client c w2 = Some cl2" "quiet_client cl1 cl2" .
    have "map_of (items (outboundMsgs cl2)) a = Some m" using f(3) quiet_client_fields(8) [OF cl2(2)] by simp
    moreover have min: "m \<in> set (contents (outboundMsgs cl1))" using f(3) by (force dest: map_of_SomeD)
    have "outbox_of c w i = Some (stage_of m)" using in_flight_Some [OF d min] f(4) ob by simp
    ultimately show ?thesis
      using found w1 quiet_trans [OF w1(2) f(2)] f(1,4) cl2(1) by blast
  qed
qed

lemma stage_simps:
  assumes "m_qos m = 1 \<or> m_qos m = 2 \<and> m_nextMessageType m \<in> {PUBREC, PUBCOMP}"
  shows "stage_of m = WaitPuback \<longleftrightarrow> m_qos m = 1"
    "stage_of m = WaitPubrec \<longleftrightarrow> m_qos m = 2 \<and> m_nextMessageType m = PUBREC"
    "stage_of m = WaitPubcomp \<longleftrightarrow> m_qos m = 2 \<and> m_nextMessageType m = PUBCOMP"
  using assms by (auto simp: stage_of_def msgTypes_defs)

lemma found_stage:
  assumes "outbound_ok sock c w" "get_client c w = Some cl" "map_of (items (outboundMsgs cl)) a = Some m"
  shows "m_qos m = 1 \<or> m_qos m = 2 \<and> m_nextMessageType m \<in> {PUBREC, PUBCOMP}"
    "0 \<le> m_msgid m" "m_msgid m \<le> MAX_MSG_ID"
proof -
  have "m \<in> set (contents (outboundMsgs cl))" using assms(3) by (force dest: map_of_SomeD)
  moreover have "outbound_client (pubs w) cl" using assms(1,2) by (auto simp: outbound_ok_def)
  ultimately show "m_qos m = 1 \<or> m_qos m = 2 \<and> m_nextMessageType m \<in> {PUBREC, PUBCOMP}"
    "0 \<le> m_msgid m" "m_msgid m \<le> MAX_MSG_ID" unfolding outbound_client_def by blast+
qed

lemma puback_step:
  assumes ok: "outbound_ok sock c w"
  shows "\<exists>rc w'. MQTTProtocol_handlePubacks a sock w = Some (rc, w') \<and> outbound_ok sock c w' \<and>
    out_move (outbox_of c w) (GotPuback (a_msgId a)) (outbox_of c w')"
  using ok
proof (cases rule: ack_cases [where i = "a_msgId a", case_names absent found])
  case (absent w1 w2)
  then show ?thesis
    using quiet_outbound [OF absent(2) ok]
    by (auto simp: MQTTProtocol_handlePubacks_def intro: no_puback)
next
  case (found e m w1 w2 cl2)
  note q = quiet_outbound [OF found(2) ok]
  note st = found_stage [OF q(1) found(5,6)]
  show ?thesis
  proof (cases "m_qos m = 1")
    case True
    obtain rc w3 w4 where
      "MQTTPersistence_remove c PERSISTENCE_PUBLISH_SENT (m_qos m) (m_msgid m) w2 = Some (rc, w3)"
      "MQTTProtocol_removePublication (m_publish m) w3 = Some w4" "outbound_ok sock c (remove_outbound e c w4)"
      "outbox_of c (remove_outbound e c w4) = (outbox_of c w2)(m_msgid m := None)"
      using q(1) found(5,6) by (rule finish_outbound)
    with True found q(2) show ?thesis
      using puback [of "outbox_of c w" "a_msgId a"] stage_simps(1) [OF st(1)]
      by (simp add: MQTTProtocol_handlePubacks_def)
  next
    case False
    then have "outbox_of c w (a_msgId a) \<noteq> Some WaitPuback" using found(8) stage_simps(1) [OF st(1)] by simp
    from no_puback [of "outbox_of c w", OF this] False found q show ?thesis by (simp add: MQTTProtocol_handlePubacks_def)
  qed
qed

lemma pubcomp_step:
  assumes ok: "outbound_ok sock c w"
  shows "\<exists>rc w'. MQTTProtocol_handlePubcomps a sock w = Some (rc, w') \<and> outbound_ok sock c w' \<and>
    out_move (outbox_of c w) (GotPubcomp (a_msgId a)) (outbox_of c w')"
  using ok
proof (cases rule: ack_cases [where i = "a_msgId a", case_names absent found])
  case (absent w1 w2)
  then show ?thesis
    using quiet_outbound [OF absent(2) ok]
    by (auto simp: MQTTProtocol_handlePubcomps_def intro: no_pubcomp)
next
  case (found e m w1 w2 cl2)
  note q = quiet_outbound [OF found(2) ok]
  note st = found_stage [OF q(1) found(5,6)]
  show ?thesis
  proof (cases "m_qos m = 2 \<and> m_nextMessageType m = PUBCOMP")
    case True
    obtain rc w3 w4 where
      r: "MQTTPersistence_remove c PERSISTENCE_PUBLISH_SENT (m_qos m) (m_msgid m) w2 = Some (rc, w3)"
      "MQTTProtocol_removePublication (m_publish m) w3 = Some w4" "outbound_ok sock c (remove_outbound e c w4)"
      "outbox_of c (remove_outbound e c w4) = (outbox_of c w2)(m_msgid m := None)"
      using q(1) found(5,6) by (rule finish_outbound)
    let ?w5 = "remove_outbound e c w4"
    have "outbound_ok sock c (?w5\<lparr>msgs_sent := n\<rparr>)" "outbox_of c (?w5\<lparr>msgs_sent := n\<rparr>) = outbox_of c ?w5" for n
      using r(3) by (simp_all add: outbound_ok_def owns_def outbox_of_def)
    with True found q(2) r show ?thesis
      using pubcomp [of "outbox_of c w" "a_msgId a"] stage_simps(3) [OF st(1)]
      by (simp add: MQTTProtocol_handlePubcomps_def Let_def)
  next
    case False
    then have "outbox_of c w (a_msgId a) \<noteq> Some WaitPubcomp" using found(8) stage_simps(3) [OF st(1)] by auto
    from no_pubcomp [of "outbox_of c w", OF this] False found q show ?thesis by (auto simp: MQTTProtocol_handlePubcomps_def)
  qed
qed

lemma quiet_no_cursor:
  "quiet w (upd_client c (\<lambda>cl. cl\<lparr>outboundMsgs := (outboundMsgs cl)\<lparr>cur := None\<rparr>\<rparr>) w)"
  by (rule quiet_upd_client) (simp add: quiet_client_def moved_def cl_wf_def)

lemma in_flight_update:
  assumes "distinct (map fst its)" "map_of its a = Some m" "distinct (map m_msgid (map snd its))"
    "m_msgid (f m) = m_msgid m"
  shows "in_flight (map snd (map (\<lambda>(b, x). (b, if b = a then f x else x)) its)) =
    (in_flight (map snd its))(m_msgid m \<mapsto> stage_of (f m))"
proof -
  from assms(2) have "a \<in> fst ` set its" by (force dest: map_of_SomeD)
  then obtain xs m' ys where sp: "its = xs @ (a, m') # ys" "a \<notin> fst ` set xs" "a \<notin> fst ` set ys"
    using assms(1) by (metis items_splitE)
  have "m' = m" using assms(2) map_of_split [OF sp(2), of m' ys] sp(1) by simp
  moreover have "map snd (map (\<lambda>(b, x). (b, if b = a then f x else x)) zs) = map snd zs" if "a \<notin> fst ` set zs" for zs
    using that by (induction zs) auto
  ultimately have l: "map snd (map (\<lambda>(b, x). (b, if b = a then f x else x)) its) = map snd xs @ f m # map snd ys"
    "map snd its = map snd xs @ m # map snd ys" using sp by simp_all
  have "m_msgid m \<notin> m_msgid ` set (map snd xs)" using assms(3) unfolding l by auto
  then have "in_flight (map snd xs @ f m # map snd ys) = (in_flight (map snd xs @ m # map snd ys))(m_msgid m \<mapsto> stage_of (f m))"
    unfolding in_flight_def using assms(4) by (induction xs) (auto simp: fun_upd_twist)
  then show ?thesis unfolding l .
qed

lemma pubrec_step:
  assumes ok: "outbound_ok sock c w"
  shows "\<exists>rc w'. MQTTProtocol_handlePubrecs a sock w = Some (rc, w') \<and> outbound_ok sock c w' \<and>
    out_move (outbox_of c w) (GotPubrec (a_msgId a)) (outbox_of c w')"
proof -
  have "owns sock c w" using ok by (simp add: outbound_ok_def)
  then obtain w1 where w1: "find_client sock w = Some (c, w1)" "quiet w w1" by (rule find_client_owner)
  define w1' where "w1' = upd_client c (\<lambda>cl. cl\<lparr>outboundMsgs := (outboundMsgs cl)\<lparr>cur := None\<rparr>\<rparr>) w1"
  have q1: "quiet w w1'" using quiet_trans [OF w1(2) quiet_no_cursor] by (simp add: w1'_def)
  note ok1 = quiet_outbound [OF q1 ok]
  from ok1(1) obtain cl1 where cl1: "get_client c w1' = Some cl1" "outbound_client (pubs w1') cl1"
    by (auto simp: outbound_ok_def)
  have wf: "cl_wf (outboundMsgs cl1)" and d: "distinct (map m_msgid (contents (outboundMsgs cl1)))"
    using cl1(2) by (simp_all add: outbound_client_def)
  have ob: "outbox_of c w = in_flight (contents (outboundMsgs cl1))" using ok1(2) cl1(1) by (simp add: outbox_of_def)
  show ?thesis
    using cl1(1) wf
  proof (cases rule: find_outbound_cases [where msgid = "a_msgId a", case_names absent found])
    case (absent w2)
    have "outbox_of c w (a_msgId a) = None" unfolding ob using absent(3) by (rule in_flight_None)
    then have "out_move (outbox_of c w) (GotPubrec (a_msgId a)) (outbox_of c w)" by (intro no_pubrec) simp
    with absent w1(1) quiet_outbound [OF absent(2) ok1(1)] ok1(2) show ?thesis
      by (simp add: MQTTProtocol_handlePubrecs_def w1'_def Let_def)
  next
    case (found e m w2)
    note q2 = quiet_outbound [OF found(2) ok1(1)]
    from quiet_clients [OF found(2) cl1(1)] obtain cl2 where cl2: "get_client c w2 = Some cl2" "quiet_client cl1 cl2" .
    have m2: "map_of (items (outboundMsgs cl2)) e = Some m" using found(3) quiet_client_fields(8) [OF cl2(2)] by simp
    note st = found_stage [OF q2(1) cl2(1) m2]
    have min: "m \<in> set (contents (outboundMsgs cl1))" using found(3) by (force dest: map_of_SomeD)
    have sm: "outbox_of c w (a_msgId a) = Some (stage_of m)" using in_flight_Some [OF d min] found(4) ob by simp
    show ?thesis
    proof (cases "m_qos m = 2 \<and> m_nextMessageType m = PUBREC")
      case False
      then have "outbox_of c w (a_msgId a) \<noteq> Some WaitPubrec" using sm stage_simps(2) [OF st(1)] by auto
      from no_pubrec [of "outbox_of c w", OF this] False found w1(1) q2 ok1(2) show ?thesis
        by (auto simp: MQTTProtocol_handlePubrecs_def w1'_def Let_def)
    next
      case True
      have oc2: "outbound_client (pubs w2) cl2" using q2(1) cl2(1) by (auto simp: outbound_ok_def)
      have own2: "owns sock c w2" using q2(1) by (simp add: outbound_ok_def)
      have s2: "persistence cl2 \<noteq> None \<longrightarrow> phandle cl2 \<noteq> None" using oc2 by (simp add: outbound_client_def)
      obtain rc w3 where w3: "MQTTPacket_send_pubrel (a_msgId a) 0 c w2 = Some (rc, w3)"
        using send_pubrel_defined [OF own2 cl2(1) s2 st(2,3), of 0] unfolding found(4) by blast
      note q3 = send_acks_quiet(3) [OF w3]
      note ok3 = quiet_outbound [OF q3 q2(1)]
      from quiet_clients [OF q3 cl2(1)] obtain cl3 where cl3: "get_client c w3 = Some cl3" "quiet_client cl2 cl3" .
      have oc3: "outbound_client (pubs w3) cl3" using ok3(1) cl3(1) by (auto simp: outbound_ok_def)
      have m3: "map_of (items (outboundMsgs cl3)) e = Some m" using m2 quiet_client_fields(8) [OF cl3(2)] by simp
      let ?f = "\<lambda>m. m\<lparr>m_nextMessageType := PUBCOMP, m_lastTouch := sys_time w3\<rparr>"
      let ?w' = "upd_client c (\<lambda>cl. cl\<lparr>outboundMsgs := cl_update e ?f (outboundMsgs cl)\<rparr>) w3"
      let ?cl' = "cl3\<lparr>outboundMsgs := cl_update e ?f (outboundMsgs cl3)\<rparr>"
      have g: "get_client c ?w' = Some ?cl'" using cl3(1) by (simp add: get_upd_client)
      let ?g = "\<lambda>(b, x). (b, if b = e then ?f x else x)"
      have con: "contents (outboundMsgs ?cl') = map (\<lambda>x. snd (?g x)) (items (outboundMsgs cl3))"
        by (simp add: cl_update_def comp_def)
      have same: "map m_msgid (contents (outboundMsgs ?cl')) = map m_msgid (contents (outboundMsgs cl3))"
        "map m_publish (contents (outboundMsgs ?cl')) = map m_publish (contents (outboundMsgs cl3))"
        unfolding con by (auto simp: case_prod_beta)
      have wf3: "cl_wf (outboundMsgs cl3)" using oc3 by (simp add: outbound_client_def)
      have each: "\<exists>y\<in>set (contents (outboundMsgs cl3)). m_msgid x = m_msgid y \<and> m_publish x = m_publish y \<and>
          m_qos x = m_qos y \<and> (x = y \<or> y = m \<and> m_nextMessageType x = PUBCOMP)"
        if "x \<in> set (contents (outboundMsgs ?cl'))" for x
      proof -
        from that obtain b y where y: "(b, y) \<in> set (items (outboundMsgs cl3))" "x = snd (?g (b, y))"
          unfolding con by auto
        have "b = e \<Longrightarrow> y = m" using y(1) m3 wf3 by (auto simp: cl_wf_def)
        moreover have "y \<in> set (contents (outboundMsgs cl3))" using y(1) by force
        ultimately show ?thesis using y(2) by (intro bexI [of _ y]) auto
      qed
      have "0 \<le> m_msgid x \<and> m_msgid x \<le> MAX_MSG_ID \<and>
          (m_qos x = 1 \<or> m_qos x = 2 \<and> m_nextMessageType x \<in> {PUBREC, PUBCOMP})"
        if "x \<in> set (contents (outboundMsgs ?cl'))" for x
      proof -
        from each [OF that] obtain y where y: "y \<in> set (contents (outboundMsgs cl3))" "m_msgid x = m_msgid y"
          "m_qos x = m_qos y" "x = y \<or> y = m \<and> m_nextMessageType x = PUBCOMP" by blast
        moreover have "0 \<le> m_msgid y \<and> m_msgid y \<le> MAX_MSG_ID \<and>
            (m_qos y = 1 \<or> m_qos y = 2 \<and> m_nextMessageType y \<in> {PUBREC, PUBCOMP})"
          using oc3 y(1) unfolding outbound_client_def by blast
        ultimately show ?thesis using True by auto
      qed
      moreover have "\<exists>pub. pubs w3 (m_publish x) = Some pub \<and>
          int (count (mset (map m_publish (contents (outboundMsgs ?cl')))) (m_publish x)) \<le> refcount pub"
        if "x \<in> set (contents (outboundMsgs ?cl'))" for x
      proof -
        from each [OF that] obtain y where y: "y \<in> set (contents (outboundMsgs cl3))" "m_publish x = m_publish y" by blast
        then show ?thesis using oc3 unfolding outbound_client_def same by metis
      qed
      moreover have "persistence ?cl' \<noteq> None \<longrightarrow> phandle ?cl' \<noteq> None" "cl_wf (outboundMsgs ?cl')"
        "distinct (map m_msgid (contents (outboundMsgs ?cl')))"
        using oc3 cl_wf_update [of "outboundMsgs cl3" e ?f] unfolding same by (simp_all add: outbound_client_def)
      ultimately have "outbound_client (pubs w3) ?cl'" unfolding outbound_client_def by blast
      moreover have "owns sock c ?w'" using ok3(1) by (intro owns_upd_client) (simp_all add: outbound_ok_def)
      ultimately have ok': "outbound_ok sock c ?w'" using g ok3(1) by (auto simp: outbound_ok_def)
      have "outbox_of c ?w' = (in_flight (contents (outboundMsgs cl3)))(m_msgid m \<mapsto> stage_of (?f m))"
        using in_flight_update [of "items (outboundMsgs cl3)" e m ?f] wf3 m3 oc3 g
        by (simp add: outbox_of_def cl_update_def cl_wf_def outbound_client_def)
      moreover have "in_flight (contents (outboundMsgs cl3)) = outbox_of c w"
        using ok3(2) q2(2) ok1(2) cl3(1) by (simp add: outbox_of_def)
      moreover have "stage_of (?f m) = WaitPubcomp" using True by (simp add: stage_of_def)
      ultimately have "outbox_of c ?w' = (outbox_of c w)(a_msgId a \<mapsto> WaitPubcomp)" using found(4) by simp
      moreover have "outbox_of c w (a_msgId a) = Some WaitPubrec" using sm True stage_simps(2) [OF st(1)] by simp
      ultimately have "out_move (outbox_of c w) (GotPubrec (a_msgId a)) (outbox_of c ?w')" using pubrec by simp
      moreover have "MQTTProtocol_handlePubrecs a sock w = Some (rc, ?w')"
        using w1(1) found(1) True w3 by (simp add: MQTTProtocol_handlePubrecs_def w1'_def [symmetric] Let_def)
      ultimately show ?thesis using ok' by blast
    qed
  qed
qed

subsection \<open>Runs of acknowledgements\<close>

fun out_step :: "int \<Rightarrow> out_event \<Rightarrow> ('s, 'm) proto_scheme \<Rightarrow> (int \<times> ('s, 'm) proto_scheme) option" where
  "out_step sock (GotPuback i) w = MQTTProtocol_handlePubacks \<lparr>a_header = 0x40, a_msgId = i\<rparr> sock w"
| "out_step sock (GotPubrec i) w = MQTTProtocol_handlePubrecs \<lparr>a_header = 0x50, a_msgId = i\<rparr> sock w"
| "out_step sock (GotPubcomp i) w = MQTTProtocol_handlePubcomps \<lparr>a_header = 0x70, a_msgId = i\<rparr> sock w"

fun out_run :: "int \<Rightarrow> out_event list \<Rightarrow> ('s, 'm) proto_scheme \<Rightarrow> ('s, 'm) proto_scheme option" where
  "out_run sock [] w = Some w"
| "out_run sock (e # es) w = do { (rc, w1) \<leftarrow> out_step sock e w; out_run sock es w1 }"

lemma out_step_moves:
  "outbound_ok sock c w \<Longrightarrow> \<exists>rc w'. out_step sock e w = Some (rc, w') \<and> outbound_ok sock c w' \<and>
     out_move (outbox_of c w) e (outbox_of c w')"
  using puback_step [of sock c w "\<lparr>a_header = 0x40, a_msgId = i\<rparr>" for i]
    pubrec_step [of sock c w "\<lparr>a_header = 0x50, a_msgId = i\<rparr>" for i]
    pubcomp_step [of sock c w "\<lparr>a_header = 0x70, a_msgId = i\<rparr>" for i]
  by (cases e) auto

lemma out_run_moves:
  "outbound_ok sock c w \<Longrightarrow> \<exists>w'. out_run sock es w = Some w' \<and> outbound_ok sock c w' \<and>
     out_moves (outbox_of c w) es (outbox_of c w')"
proof (induction es arbitrary: w)
  case Nil
  then show ?case by (auto intro: stop)
next
  case (Cons e es)
  from out_step_moves [OF Cons.prems] obtain rc w1 where 1: "out_step sock e w = Some (rc, w1)"
    "outbound_ok sock c w1" "out_move (outbox_of c w) e (outbox_of c w1)" by blast
  from Cons.IH [OF 1(2)] 1 show ?case by (auto intro: more)
qed

subsection \<open>Message ids\<close>

text \<open>The ids tried, from the one after the last id given out; they run in a circle.\<close>

definition nth_msgid :: "nat \<Rightarrow> int \<Rightarrow> int" where
  "nth_msgid n i = (next_msgid ^^ n) i"

lemma nth_msgid_simps [simp]:
  "nth_msgid 0 i = i" "nth_msgid (Suc n) i = nth_msgid n (next_msgid i)"
  by (simp_all add: nth_msgid_def funpow_swap1)

lemma nth_msgid_value:
  "1 \<le> i \<Longrightarrow> i \<le> MAX_MSG_ID \<Longrightarrow> nth_msgid n i = (i - 1 + int n) mod 65535 + 1"
proof (induction n arbitrary: i)
  case (Suc n)
  have b: "1 \<le> next_msgid i" "next_msgid i \<le> MAX_MSG_ID"
    using Suc.prems by (auto simp: next_msgid_def MAX_MSG_ID_def)
  have "next_msgid i - 1 = i mod 65535" using Suc.prems by (auto simp: next_msgid_def MAX_MSG_ID_def)
  then have "(next_msgid i - 1 + int n) mod 65535 = (i + int n) mod 65535" by (simp add: mod_simps)
  also have "\<dots> = (i - 1 + int (Suc n)) mod 65535" by (simp add: algebra_simps)
  finally show ?case using Suc.IH [OF b] by simp
qed (simp add: MAX_MSG_ID_def)

definition used_id :: "Messages clist \<Rightarrow> int \<Rightarrow> bool" where
  "used_id l i \<longleftrightarrow> (\<exists>m\<in>set (contents l). m_msgid m = i)"

lemma msgid_loop_runs:
  assumes "cl_wf l" "\<forall>j<n. used_id l (nth_msgid j i) \<and> nth_msgid (Suc j) i \<noteq> start"
    "\<not> used_id l (nth_msgid n i) \<or> nth_msgid (Suc n) i = start"
  shows "\<exists>l'. moved l l' \<and> msgid_loop start i l =
    Some (if used_id l (nth_msgid n i) then 0 else nth_msgid n i, l')"
  using assms
proof (induction n arbitrary: i l)
  case 0
  show ?case
    using 0(1)
  proof (cases rule: cl_find_cases [where P = "messageIDCompare i", case_names absent found])
    case (absent l')
    then have "\<not> used_id l i" by (auto simp: used_id_def messageIDCompare_def)
    with absent show ?thesis by (subst msgid_loop.simps) (auto simp: messageIDCompare_def)
  next
    case (found a m l')
    then have "used_id l i" by (force simp: used_id_def messageIDCompare_def dest: map_of_SomeD)
    with found 0(3) show ?thesis by (subst msgid_loop.simps) auto
  qed
next
  case (Suc n)
  then have u: "used_id l i" "next_msgid i \<noteq> start" by fastforce+
  show ?case
    using Suc.prems(1)
  proof (cases rule: cl_find_cases [where P = "messageIDCompare i", case_names absent found])
    case (absent l')
    with u show ?thesis by (auto simp: used_id_def messageIDCompare_def)
  next
    case (found a m l')
    have wf: "cl_wf l'" and same: "used_id l' = used_id l"
      using found(2) Suc.prems(1) by (auto simp: moved_def used_id_def fun_eq_iff)
    have "\<forall>j<n. used_id l' (nth_msgid j (next_msgid i)) \<and> nth_msgid (Suc j) (next_msgid i) \<noteq> start"
      using Suc.prems(2) unfolding same by (metis Suc_mono nth_msgid_simps(2))
    moreover have "\<not> used_id l' (nth_msgid n (next_msgid i)) \<or> nth_msgid (Suc n) (next_msgid i) = start"
      using Suc.prems(3) unfolding same by simp
    ultimately obtain l2 where "moved l' l2" "msgid_loop start (next_msgid i) l' =
        Some (if used_id l' (nth_msgid n (next_msgid i)) then 0 else nth_msgid n (next_msgid i), l2)"
      using Suc.IH [OF wf] by blast
    moreover have "msgid_loop start i l = msgid_loop start (next_msgid i) l'"
      using found(1) u(2) by (subst msgid_loop.simps) simp
    ultimately show ?thesis using moved_trans [OF found(2)] unfolding same by auto
  qed
qed

lemma msgid_loop_result:
  assumes wf: "cl_wf l" and s: "0 \<le> start" "start \<le> MAX_MSG_ID"
    and free: "1 \<le> start \<or> (\<exists>i. 1 \<le> i \<and> i \<le> MAX_MSG_ID \<and> \<not> used_id l i)"
  obtains r l' where "msgid_loop start (next_msgid start) l = Some (r, l')" "moved l l'"
    "r = 0 \<Longrightarrow> \<forall>i. 1 \<le> i \<and> i \<le> MAX_MSG_ID \<and> i \<noteq> start \<longrightarrow> used_id l i"
    "r \<noteq> 0 \<Longrightarrow> 1 \<le> r \<and> r \<le> MAX_MSG_ID \<and> \<not> used_id l r"
proof -
  define i where "i = next_msgid start"
  have i: "1 \<le> i" "i \<le> MAX_MSG_ID" using s by (auto simp: i_def next_msgid_def MAX_MSG_ID_def)
  note val = nth_msgid_value [OF i]
  have bound: "1 \<le> nth_msgid n i \<and> nth_msgid n i \<le> MAX_MSG_ID" for n
    unfolding val using pos_mod_bound [of 65535 "i - 1 + int n"] pos_mod_sign [of 65535 "i - 1 + int n"]
    by (simp add: MAX_MSG_ID_def)
  have reach: "nth_msgid (nat ((v - i) mod 65535)) i = v" if "1 \<le> v" "v \<le> MAX_MSG_ID" for v
  proof -
    have "(i - 1 + (v - i) mod 65535) mod 65535 = (v - 1) mod 65535" by (simp add: mod_simps)
    then show ?thesis unfolding val using that by (simp add: MAX_MSG_ID_def)
  qed
  have im: "i - 1 = start mod 65535" if "1 \<le> start"
    using s(2) that by (auto simp: i_def next_msgid_def MAX_MSG_ID_def)
  have around: "nth_msgid 65534 i = start" if "1 \<le> start"
  proof -
    have "(start + 65534) mod 65535 = start - 1"
      using mod_pos_geq [of 65535 "start + 65534"] that s(2) by (simp add: MAX_MSG_ID_def)
    then show ?thesis unfolding val im [OF that] by (simp add: mod_simps)
  qed
  let ?stop = "\<lambda>n. \<not> used_id l (nth_msgid n i) \<or> nth_msgid (Suc n) i = start"
  have "\<exists>n. ?stop n"
  proof (cases "1 \<le> start")
    case True
    moreover have "Suc 65533 = 65534" by simp
    ultimately have "nth_msgid (Suc 65533) i = start" using around by (simp only:)
    then show ?thesis by blast
  next
    case False
    with free reach show ?thesis by metis
  qed
  define n where "n = (LEAST n. ?stop n)"
  have n: "?stop n" unfolding n_def using \<open>\<exists>n. ?stop n\<close> by (rule LeastI_ex)
  have less: "\<forall>j<n. used_id l (nth_msgid j i) \<and> nth_msgid (Suc j) i \<noteq> start"
    unfolding n_def by (auto dest: not_less_Least)
  from msgid_loop_runs [OF wf less n] obtain l' where l': "moved l l'" "msgid_loop start i l =
      Some (if used_id l (nth_msgid n i) then 0 else nth_msgid n i, l')" by blast
  show ?thesis
  proof (cases "used_id l (nth_msgid n i)")
    case False
    with l' bound [of n] show ?thesis by (intro that [of "nth_msgid n i" l']) (auto simp: i_def)
  next
    case True
    then have e: "nth_msgid (Suc n) i = start" using n by simp
    have "used_id l v" if v: "1 \<le> v" "v \<le> MAX_MSG_ID" "v \<noteq> start" for v
    proof -
      let ?j = "nat ((v - i) mod 65535)"
      have st: "1 \<le> start" using bound [of "Suc n"] e by simp
      have big: "65533 \<le> n"
      proof (rule ccontr)
        assume "\<not> 65533 \<le> n"
        then have small: "int n + 1 < 65534" by simp
        have "(start mod 65535 + (int n + 1)) mod 65535 = start - 1" 
          using e unfolding val im [OF st] by (simp add: add.commute)
        then have "(start + (int n + 1)) mod 65535 = start - 1" by (simp only: mod_add_left_eq)
        moreover have "(start + (int n + 1)) mod 65535 =
            (if start + (int n + 1) < 65535 then start + (int n + 1) else start + (int n + 1) - 65535)"
          using mod_pos_geq [of 65535 "start + (int n + 1)"] st s(2) small by (simp add: MAX_MSG_ID_def)
        ultimately show False using small by (simp split: if_splits)
      qed
      have "?j \<noteq> 65534" using reach [OF v(1,2)] around [OF st] v(3) by metis
      moreover have "?j < 65535" using pos_mod_bound [of 65535 "v - i"] by simp
      ultimately have "?j \<le> n" using big by simp
      then have "?j = n \<or> ?j < n" by linarith
      then have "used_id l (nth_msgid ?j i)" using less True by blast
      then show ?thesis unfolding reach [OF v(1,2)] .
    qed
    then show ?thesis using l' True by (intro that [of 0 l']) (auto simp: i_def)
  qed
qed

lemma outbound_used:
  assumes "get_client c w = Some cl"
  shows "used_id (outboundMsgs cl) i \<longleftrightarrow> outbox_of c w i \<noteq> None"
proof -
  have "outbox_of c w i = None \<longleftrightarrow> (\<forall>m\<in>set (contents (outboundMsgs cl)). m_msgid m \<noteq> i)"
    using assms by (simp add: outbox_of_def in_flight_def map_of_eq_None_iff image_image) (force simp: image_iff)
  then show ?thesis by (auto simp: used_id_def)
qed

text \<open>Changes of the client's own counters.\<close>

lemma outbound_ok_upd:
  assumes "outbound_ok sock c w" "get_client c w = Some cl"
    "\<And>cl. net_socket (f cl) = net_socket cl \<and> persistence (f cl) = persistence cl \<and> phandle (f cl) = phandle cl"
    "moved (outboundMsgs cl) (outboundMsgs (f cl))"
  shows "outbound_ok sock c (upd_client c f w)" "outbox_of c (upd_client c f w) = outbox_of c w"
proof -
  have g: "get_client c (upd_client c f w) = Some (f cl)" using assms(2) by (simp add: get_upd_client)
  have "outbound_client (pubs w) (f cl)"
    using assms by (auto simp: outbound_ok_def outbound_client_def moved_def)
  moreover have "owns sock c (upd_client c f w)"
    using assms(1,3) by (intro owns_upd_client) (auto simp: outbound_ok_def)
  ultimately show "outbound_ok sock c (upd_client c f w)" using g assms(1) by (auto simp: outbound_ok_def)
  show "outbox_of c (upd_client c f w) = outbox_of c w"
    using g assms(2,4) by (simp add: outbox_of_def moved_def)
qed

subsection \<open>Properties\<close>


text \<open>
  C7: the acknowledgement handlers follow the protocol.  Run \<^verbatim>\<open>MQTTProtocol_handlePubacks\<close>,
  \<^verbatim>\<open>MQTTProtocol_handlePubrecs\<close> and \<^verbatim>\<open>MQTTProtocol_handlePubcomps\<close> on any sequence of
  acknowledgements: no call is undefined, the client's list stays well formed, and what is in flight
  changes by the moves of the outbox, acknowledgements that do not fit being ignored.
\<close>

theorem acks_follow_protocol:
  assumes "outbound_ok sock c w"
  shows "\<exists>w'. out_run sock es w = Some w' \<and> outbound_ok sock c w' \<and> out_moves (outbox_of c w) es (outbox_of c w')"
  using assms by (rule out_run_moves)

text \<open>
  C6: a QoS 2 message stays until the exchange is complete.  A message that waits for its PUBREC is
  gone after a sequence of acknowledgements exactly when the sequence has its PUBREC and, later, its
  PUBCOMP.
\<close>

theorem qos2_kept_until_complete:
  assumes "outbound_ok sock c w" "outbox_of c w i = Some WaitPubrec" "out_run sock es w = Some w'"
  shows "outbox_of c w' i = None \<longleftrightarrow> (\<exists>xs ys. es = xs @ GotPubrec i # ys \<and> GotPubcomp i \<in> set ys)"
proof -
  from out_run_moves [OF assms(1), of es] assms(3)
  have m: "out_moves (outbox_of c w) es (outbox_of c w')" by auto
  show ?thesis
    using out_moves_gone [OF m assms(2)] out_moves_received [OF m assms(2)] by blast
qed

subsection \<open>A message in flight\<close>

text \<open>A client with one QoS 2 message (publication 4) that waits for its PUBREC.\<close>

definition sent_message :: Messages where
  "sent_message = \<lparr>m_qos = 2, m_retain = 0, m_msgid = 7, m_publish = 4, m_lastTouch = 0,
     m_nextMessageType = PUBREC, m_len = 0\<rparr>"

definition sending_client :: "unit proto" where
  "sending_client = (one_client (zero_client\<lparr>outboundMsgs := cl_add cl_empty sent_message 0, msgID := 7\<rparr>))
     \<lparr>pubs := [4 \<mapsto> \<lparr>pub_topic = [0x74], pub_topiclen = 1, pub_payload = [], pub_payloadlen = 0, refcount = 1\<rparr>],
      next_pub := 5, publications := cl_add cl_empty 4 0\<rparr>"

lemmas sending_defs = sending_client_def sent_message_def one_client_def zero_state_def zero_client_def
  cl_add_def cl_append_def cl_empty_def cl_fresh_def get_client_def proto.fields_def
  sockets.extend_def sockets.more_def zero_sockets_def

lemma sending_client_ok:
  "outbound_ok 0 (Suc 0) sending_client" "outbox_of (Suc 0) sending_client = [7 \<mapsto> WaitPubrec]"
  "\<exists>cl. get_client (Suc 0) sending_client = Some cl \<and> msgID cl = 7"
  by (auto simp: outbound_ok_def owns_def cl_wf_def outbound_client_def sending_defs MAX_MSG_ID_def
      outbox_of_def in_flight_def stage_of_def msgTypes_defs)


theorem acks_follow_protocol_witness:
  "\<exists>w'. out_run 0 [GotPuback 7, GotPubrec 7] sending_client = Some w' \<and>
     outbox_of (Suc 0) w' = [7 \<mapsto> WaitPubcomp]"
proof -
  from acks_follow_protocol [OF sending_client_ok(1), of "[GotPuback 7, GotPubrec 7]"]
  obtain w' where "out_run 0 [GotPuback 7, GotPubrec 7] sending_client = Some w'"
    "out_moves [7 \<mapsto> WaitPubrec] [GotPuback 7, GotPubrec 7] (outbox_of (Suc 0) w')"
    by (auto simp: sending_client_ok(2))
  moreover from this(2) have "outbox_of (Suc 0) w' = [7 \<mapsto> WaitPubcomp]"
    by (auto elim!: out_moves.cases simp: out_move_simps)
  ultimately show ?thesis by blast
qed

theorem qos2_kept_until_complete_witness:
  "\<exists>w'. out_run 0 [GotPubrec 7, GotPubcomp 7] sending_client = Some w' \<and> outbox_of (Suc 0) w' 7 = None"
proof -
  obtain w' where w': "out_run 0 [GotPubrec 7, GotPubcomp 7] sending_client = Some w'"
    using out_run_moves [OF sending_client_ok(1), of "[GotPubrec 7, GotPubcomp 7]"] by blast
  have "\<exists>xs ys. [GotPubrec 7, GotPubcomp 7] = xs @ GotPubrec 7 # ys \<and> GotPubcomp 7 \<in> set ys"
    by (intro exI [of _ "[]"] exI [of _ "[GotPubcomp 7]"]) simp
  with qos2_kept_until_complete [OF sending_client_ok(1) _ w', of 7] w' show ?thesis
    by (auto simp: sending_client_ok(2))
qed

end
