(* ===== verification/ProtocolOut.thy ===== *)
theory ProtocolOut
  imports ProtocolClient
begin

text \<open>
  \<^verbatim>\<open>MQTTProtocolOut.c\<close>: splitting a server address, starting a connection, and the handlers of the
  remaining packets.  The build without TLS is modelled.
\<close>

definition DEFAULT_PORT :: int where "DEFAULT_PORT = 1883"

text \<open>
  \<^verbatim>\<open>MQTTProtocol_addressPort\<close> on a C string without its terminator.  Comparing \<^verbatim>\<open>colon_pos\<close> with
  \<^verbatim>\<open>strrchr(uri, ']')\<close> takes NULL for the lowest address.  With an empty address the last byte
  before the string is read, which is undefined.
\<close>

definition MQTTProtocol_addressPort :: "string \<Rightarrow> (string \<times> int) option" where
  "MQTTProtocol_addressPort uri = (
     let colon0 = strrchr uri (CHR '':'');
         colon = (if take 1 uri = ''['' then
                    (case (colon0, strrchr uri (CHR '']'')) of
                       (Some i, Some j) \<Rightarrow> if i < j then None else colon0
                     | (None, _) \<Rightarrow> None
                     | _ \<Rightarrow> colon0)
                  else colon0);
         (b, port) = (case colon of
            Some i \<Rightarrow> (take i uri, atoi (drop (i + 1) uri))
          | None \<Rightarrow> (uri, DEFAULT_PORT))
     in if b = [] then None
        else Some (if last b = CHR '']'' then butlast b else b, port))"

definition MQTTProtocol_connect ::
  "string \<Rightarrow> addr \<Rightarrow> int \<Rightarrow> ('s, 'm) proto_scheme \<Rightarrow> (int \<times> ('s, 'm) proto_scheme) option" where
  "MQTTProtocol_connect ip_address c version w = do {
     let w1 = upd_client c (\<lambda>cl. cl\<lparr>good := 1\<rparr>) w;
     (address, port) \<leftarrow> MQTTProtocol_addressPort ip_address;
     let ((rc, sock), w2) = Socket_new (bytes_of address) port w1;
     let w3 = upd_client c (\<lambda>cl. cl\<lparr>net_socket := sock\<rparr>) w2;
     if rc = EINPROGRESS \<or> rc = EWOULDBLOCK then
       Some (rc, upd_client c (\<lambda>cl. cl\<lparr>connect_state := 1\<rparr>) w3)
     else if rc = 0 then do {
       (rc, w4) \<leftarrow> MQTTPacket_send_connect c version w3;
       Some (rc, upd_client c (\<lambda>cl. cl\<lparr>connect_state := (if rc = 0 then 3 else 0)\<rparr>) w4)
     }
     else Some (rc, w3)
   }"

definition MQTTProtocol_handlePingresps ::
  "int \<Rightarrow> ('s, 'm) proto_scheme \<Rightarrow> (int \<times> ('s, 'm) proto_scheme) option" where
  "MQTTProtocol_handlePingresps sock w = do {
     (c, w1) \<leftarrow> find_client sock w;
     Some (TCPSOCKET_COMPLETE, upd_client c (\<lambda>cl. cl\<lparr>ping_outstanding := 0\<rparr>) w1)
   }"

definition MQTTProtocol_subscribe where
  "MQTTProtocol_subscribe c topics qs msgid w = MQTTPacket_send_subscribe topics qs msgid 0 c w"

definition MQTTProtocol_unsubscribe where
  "MQTTProtocol_unsubscribe c topics msgid w = MQTTPacket_send_unsubscribe topics msgid 0 c w"

text \<open>SUBACK and UNSUBACK only release the packet.\<close>

definition MQTTProtocol_handleSubacks ::
  "Suback \<Rightarrow> int \<Rightarrow> ('s, 'm) proto_scheme \<Rightarrow> (int \<times> ('s, 'm) proto_scheme) option" where
  "MQTTProtocol_handleSubacks suback sock w = do {
     (_, w1) \<leftarrow> find_client sock w;
     Some (TCPSOCKET_COMPLETE, w1)
   }"

definition MQTTProtocol_handleUnsubacks ::
  "Ack \<Rightarrow> int \<Rightarrow> ('s, 'm) proto_scheme \<Rightarrow> (int \<times> ('s, 'm) proto_scheme) option" where
  "MQTTProtocol_handleUnsubacks unsuback sock w = do {
     (_, w1) \<leftarrow> find_client sock w;
     Some (TCPSOCKET_COMPLETE, w1)
   }"

end
