(* ===== verification/Restore.thy ===== *)
theory Restore
  imports ProtocolClient PersistenceDefault
begin

text \<open>
  \<^verbatim>\<open>MQTTPersistence.c\<close>, the part that reads the store back when a client is opened: packets from
  their bytes, messages into the lists of the client in message-id order, the rotation for
  wrapped message ids, and the queue of received messages.
\<close>

subsection \<open>A packet from its bytes\<close>

text \<open>
  The \<^verbatim>\<open>do\<close> loop on the stored bytes.  Nothing bounds it by the buffer's length (a read outside is
  undefined), and a fifth length byte overflows \<^verbatim>\<open>multiplier\<close>, an \<^verbatim>\<open>int\<close>: undefined as well.
\<close>

fun restore_length :: "nat \<Rightarrow> byte list \<Rightarrow> nat \<Rightarrow> int \<Rightarrow> int \<Rightarrow> (int \<times> nat) option" where
  "restore_length 0 b pos len multiplier = None"
| "restore_length (Suc n) b pos len multiplier = do {
     c \<leftarrow> rd b pos;
     let len' = len + length_digit c * multiplier;
     if length_more c then restore_length n b (pos + 1) len' (multiplier * 128)
     else Some (len', pos + 1)
   }"

definition MQTTPersistence_restorePacket :: "byte list \<Rightarrow> packet option option" where
  "MQTTPersistence_restorePacket buffer = do {
     h \<leftarrow> rd buffer 0;
     (remaining_length, fixed_header_length) \<leftarrow> restore_length 4 buffer 1 0 1;
     if int fixed_header_length + remaining_length = int (length buffer) then
       (case packet_parser (header_type h) of
          None \<Rightarrow> Some None
        | Some parse \<Rightarrow> parse h (drop fixed_header_length buffer) (nat remaining_length))
     else Some None
   }"

subsection \<open>Order of the messages\<close>

definition MQTTPersistence_insertInOrder :: "Messages clist \<Rightarrow> Messages \<Rightarrow> int \<Rightarrow> Messages clist" where
  "MQTTPersistence_insertInOrder l m s =
     cl_add_before l m s
       (map_option fst (List.find (\<lambda>x. m_msgid m < m_msgid (snd x)) (items l)))"

text \<open>
  The scan for the largest gap: \<open>i\<close> is the position of the element looked at, \<open>prev\<close> the id before
  it; the result is the position of \<^verbatim>\<open>wrapel\<close>.
\<close>

fun wrap_scan :: "nat \<Rightarrow> int \<Rightarrow> int \<Rightarrow> nat option \<Rightarrow> Messages list \<Rightarrow> nat option" where
  "wrap_scan i prev gap wrapel [] = wrapel"
| "wrap_scan i prev gap wrapel (m # ms) =
     (if m_msgid m - prev > gap
      then wrap_scan (Suc i) (m_msgid m) (m_msgid m - prev) (Some i) ms
      else wrap_scan (Suc i) (m_msgid m) gap wrapel ms)"

definition wrap_position :: "Messages list \<Rightarrow> nat option" where
  "wrap_position ms = (case ms of [] \<Rightarrow> None
     | m # rest \<Rightarrow> wrap_scan 1 (m_msgid m) (MAX_MSG_ID - m_msgid (last ms) + m_msgid m) None rest)"

text \<open>Relinking the ring so that it starts at \<^verbatim>\<open>wrapel\<close>.\<close>

definition MQTTPersistence_wrapMsgID :: "Messages clist \<Rightarrow> Messages clist" where
  "MQTTPersistence_wrapMsgID l =
     (if cnt l > 0 then
        (case wrap_position (contents l) of None \<Rightarrow> l
         | Some i \<Rightarrow> l\<lparr>items := drop i (items l) @ take i (items l)\<rparr>)
      else l)"

subsection \<open>Restoring the messages in flight\<close>

text \<open>A query of the client's store.\<close>

definition ask_store ::
  "addr \<Rightarrow> ('s MQTTClient_persistence \<Rightarrow> 's \<Rightarrow> 'r) \<Rightarrow> ('s, 'm) proto_scheme \<Rightarrow> 'r option" where
  "ask_store c f w = do {
     client \<leftarrow> get_client c w;
     per \<leftarrow> persistence client;
     s \<leftarrow> phandle client;
     Some (f per s)
   }"

text \<open>The record is taken for a PUBLISH by its key alone; another packet type is undefined.\<close>

definition restore_received ::
  "addr \<Rightarrow> packet \<Rightarrow> ('s, 'm) proto_scheme \<Rightarrow> ('s, 'm) proto_scheme option" where
  "restore_received c pack w = (case pack of
     PkPublish publish \<Rightarrow> do {
       (m, w1) \<leftarrow> MQTTProtocol_createMessage publish None (header_qos (p_header publish))
                    (header_retain (p_header publish)) w;
       Some (upd_client c (\<lambda>cl. cl\<lparr>inboundMsgs :=
         cl_add (inboundMsgs cl) (m\<lparr>m_nextMessageType := PUBREL\<rparr>) (m_len m)\<rparr>) w1)
     }
   | _ \<Rightarrow> None)"

definition restore_sent ::
  "addr \<Rightarrow> packet \<Rightarrow> ('s, 'm) proto_scheme \<Rightarrow> ('s, 'm) proto_scheme option" where
  "restore_sent c pack w = (case pack of
     PkPublish publish \<Rightarrow> do {
       key \<leftarrow> sprintf_key MESSAGE_FILENAME_LENGTH PERSISTENCE_PUBREL (msgId publish);
       (m, w1) \<leftarrow> MQTTProtocol_createMessage publish None (header_qos (p_header publish))
                    (header_retain (p_header publish)) w;
       found \<leftarrow> ask_store c (\<lambda>per s. pcontainskey per s key) w1;
       let m1 = m\<lparr>m_nextMessageType := (if found = 0 then PUBCOMP else m_nextMessageType m),
                  m_lastTouch := 0\<rparr>;
       Some (upd_client c (\<lambda>cl. cl\<lparr>outboundMsgs :=
         MQTTPersistence_insertInOrder (outboundMsgs cl) m1 (m_len m1)\<rparr>) w1)
     }
   | _ \<Rightarrow> None)"

definition restore_pubrel ::
  "addr \<Rightarrow> string \<Rightarrow> packet \<Rightarrow> ('s, 'm) proto_scheme \<Rightarrow> (int \<times> ('s, 'm) proto_scheme) option" where
  "restore_pubrel c msgkey pack w = (case pack of
     PkAck pubrel \<Rightarrow> do {
       key \<leftarrow> sprintf_key MESSAGE_FILENAME_LENGTH PERSISTENCE_PUBLISH_SENT (a_msgId pubrel);
       found \<leftarrow> ask_store c (\<lambda>per s. pcontainskey per s key) w;
       if found \<noteq> 0 then with_store c (\<lambda>per s. premove per s msgkey) w else Some (0, w)
     }
   | _ \<Rightarrow> None)"

definition restore_key ::
  "addr \<Rightarrow> string \<Rightarrow> ('s, 'm) proto_scheme \<Rightarrow> (int \<times> ('s, 'm) proto_scheme) option" where
  "restore_key c msgkey w =
     (if strncmp_prefix msgkey PERSISTENCE_COMMAND_KEY then Some (0, w)
      else if strncmp_prefix msgkey PERSISTENCE_QUEUE_KEY then Some (0, w)
      else do {
        (rc, buffer) \<leftarrow> ask_store c (\<lambda>per s. pget per s msgkey) w;
        if rc \<noteq> 0 then Some (rc, w)
        else do {
          pack \<leftarrow> MQTTPersistence_restorePacket buffer;
          case pack of
            None \<Rightarrow> with_store c (\<lambda>per s. premove per s msgkey) w
          | Some p \<Rightarrow>
              if strstr msgkey PERSISTENCE_PUBLISH_RECEIVED \<noteq> None
              then map_option (Pair 0) (restore_received c p w)
              else if strstr msgkey PERSISTENCE_PUBLISH_SENT \<noteq> None
              then map_option (Pair 0) (restore_sent c p w)
              else if strstr msgkey PERSISTENCE_PUBREL \<noteq> None then restore_pubrel c msgkey p w
              else Some (0, w)
        }
      })"

text \<open>The loop over the keys stops at the first error.\<close>

fun keys_loop ::
  "(string \<Rightarrow> ('s, 'm) proto_scheme \<Rightarrow> (int \<times> ('s, 'm) proto_scheme) option) \<Rightarrow> string list \<Rightarrow>
     ('s, 'm) proto_scheme \<Rightarrow> (int \<times> ('s, 'm) proto_scheme) option" where
  "keys_loop f [] w = Some (0, w)"
| "keys_loop f (k # ks) w = do {
     (rc, w1) \<leftarrow> f k w;
     if rc = 0 then keys_loop f ks w1 else Some (rc, w1)
   }"

definition MQTTPersistence_restore ::
  "addr \<Rightarrow> ('s, 'm) proto_scheme \<Rightarrow> (int \<times> ('s, 'm) proto_scheme) option" where
  "MQTTPersistence_restore c w = do {
     client \<leftarrow> get_client c w;
     (rc, w1) \<leftarrow> (if persistence client = None then Some (0, w)
        else do {
          (rc, msgkeys) \<leftarrow> ask_store c (\<lambda>per s. pkeys per s) w;
          if rc = 0 then keys_loop (restore_key c) msgkeys w else Some (rc, w)
        });
     Some (rc, upd_client c (\<lambda>cl. cl\<lparr>outboundMsgs := MQTTPersistence_wrapMsgID (outboundMsgs cl)\<rparr>) w1)
   }"

definition MQTTPersistence_initialize ::
  "addr \<Rightarrow> string \<Rightarrow> ('s, 'm) proto_scheme \<Rightarrow> (int \<times> ('s, 'm) proto_scheme) option" where
  "MQTTPersistence_initialize c serverURI w = do {
     client \<leftarrow> get_client c w;
     case persistence client of
       None \<Rightarrow> Some (0, w)
     | Some per \<Rightarrow> do {
         (rc, s) \<leftarrow> popen per (chars_of (c_str (clientID client))) serverURI;
         let w1 = upd_client c (\<lambda>cl. cl\<lparr>phandle := Some s\<rparr>) w;
         if rc = 0 then MQTTPersistence_restore c w1 else Some (rc, w1)
       }
   }"

subsection \<open>Restoring the message queue\<close>

definition sizeof_qEntry :: int where "sizeof_qEntry = 24"

definition MQTTPersistence_insertInSeqOrder ::
  "MQTTPersistence_qEntry clist \<Rightarrow> MQTTPersistence_qEntry \<Rightarrow> int \<Rightarrow> MQTTPersistence_qEntry clist" where
  "MQTTPersistence_insertInSeqOrder l qe s =
     cl_add_before l qe s
       (map_option fst (List.find (\<lambda>x. qe_seqno qe < qe_seqno (snd x)) (items l)))"

definition restore_queue_key ::
  "addr \<Rightarrow> string \<Rightarrow> ('s, 'm) proto_scheme \<Rightarrow> (int \<times> ('s, 'm) proto_scheme) option" where
  "restore_queue_key c msgkey w =
     (if \<not> strncmp_prefix msgkey PERSISTENCE_QUEUE_KEY then Some (0, w)
      else do {
        (rc, buffer) \<leftarrow> ask_store c (\<lambda>per s. pget per s msgkey) w;
        if rc \<noteq> 0 then Some (rc, w)
        else do {
          qe0 \<leftarrow> MQTTPersistence_restoreQueueEntry buffer;
          let qe = qe0\<lparr>qe_seqno := atoi (drop 2 msgkey) mod 4294967296\<rparr>;
          Some (0, upd_client c (\<lambda>cl. cl\<lparr>
            messageQueue := MQTTPersistence_insertInSeqOrder (messageQueue cl) qe sizeof_qEntry,
            qentry_seqno := max (qentry_seqno cl) (qe_seqno qe)\<rparr>) w)
        }
      })"

definition MQTTPersistence_restoreMessageQueue ::
  "addr \<Rightarrow> ('s, 'm) proto_scheme \<Rightarrow> (int \<times> ('s, 'm) proto_scheme) option" where
  "MQTTPersistence_restoreMessageQueue c w = do {
     client \<leftarrow> get_client c w;
     if persistence client = None then Some (0, w)
     else do {
       (rc, msgkeys) \<leftarrow> ask_store c (\<lambda>per s. pkeys per s) w;
       if rc = 0 then keys_loop (restore_queue_key c) msgkeys w else Some (rc, w)
     }
   }"

subsection \<open>Facts\<close>

lemma restore_length_encode:
  "0 \<le> n \<Longrightarrow> n < 128 ^ k \<Longrightarrow> 0 < k \<Longrightarrow>
     restore_length k (xs @ MQTTPacket_encode n @ ys) (length xs) len mult =
       Some (len + n * mult, length xs + length (MQTTPacket_encode n))"
proof (induction k arbitrary: n xs len mult)
  case (Suc k)
  show ?case
  proof (cases "n < 128")
    case True
    with Suc.prems byte_of_or_128 [of n] show ?thesis by (simp add: encode_last rd_def nth_append)
  next
    case False
    define c where "c = byte_of (n mod 128) OR 0x80"
    have e: "MQTTPacket_encode n = c # MQTTPacket_encode (n div 128)"
      using False by (simp add: encode_more c_def)
    have c: "length_digit c = n mod 128" "length_more c"
      using byte_of_or_128 [of "n mod 128"] by (simp_all add: c_def)
    have k: "0 < k" using False Suc.prems(2) by (cases k) auto
    have lt: "n div 128 < 128 ^ k" using Suc.prems(2) by (simp add: div_less_iff_less_mult mult.commute)
    have "len + y * mult + x * (mult * 128) = len + (128 * x + y) * mult" for x y :: int
      by (simp add: algebra_simps)
    from this [of "n mod 128" "n div 128"]
    have v: "len + n mod 128 * mult + n div 128 * (mult * 128) = len + n * mult"
      by (simp only: mult_div_mod_eq)
    have "restore_length k ((xs @ [c]) @ MQTTPacket_encode (n div 128) @ ys) (length (xs @ [c]))
        (len + n mod 128 * mult) (mult * 128) =
      Some (len + n mod 128 * mult + n div 128 * (mult * 128), length (xs @ [c]) + length (MQTTPacket_encode (n div 128)))"
      using Suc.prems(1) by (intro Suc.IH lt k) simp
    with c v show ?thesis by (simp add: e rd_def nth_append)
  qed
qed simp

lemma find_split:
  "\<exists>xs ys. items l = xs @ ys \<and> (\<forall>x\<in>set xs. \<not> P x) \<and> List.find P (items l) = (case ys of [] \<Rightarrow> None | y # _ \<Rightarrow> Some y) \<and>
     (ys \<noteq> [] \<longrightarrow> P (hd ys))"
proof -
  have "\<exists>xs ys. zs = xs @ ys \<and> (\<forall>x\<in>set xs. \<not> P x) \<and> List.find P zs = (case ys of [] \<Rightarrow> None | y # _ \<Rightarrow> Some y) \<and>
     (ys \<noteq> [] \<longrightarrow> P (hd ys))" for zs
  proof (induction zs)
    case (Cons z zs)
    show ?case
    proof (cases "P z")
      case True
      then show ?thesis by (intro exI [of _ "[]"] exI [of _ "z # zs"]) simp
    next
      case False
      from Cons obtain xs ys where "zs = xs @ ys" "\<forall>x\<in>set xs. \<not> P x"
        "List.find P zs = (case ys of [] \<Rightarrow> None | y # _ \<Rightarrow> Some y)" "ys \<noteq> [] \<longrightarrow> P (hd ys)" by blast
      with False show ?thesis by (intro exI [of _ "z # xs"] exI [of _ ys]) simp
    qed
  qed simp
  then show ?thesis .
qed

text \<open>Inserting before the first element that a test holds of.\<close>

lemma add_before_find:
  assumes "cl_wf l"
  obtains xs ys where "items l = xs @ ys" "\<forall>x\<in>set xs. \<not> P x" "ys \<noteq> [] \<longrightarrow> P (hd ys)"
    "items (cl_add_before l c s (map_option fst (List.find P (items l)))) = xs @ (cl_fresh l, c) # ys"
    "cl_wf (cl_add_before l c s (map_option fst (List.find P (items l))))"
proof -
  obtain xs ys where sp: "items l = xs @ ys" "\<forall>x\<in>set xs. \<not> P x"
    "List.find P (items l) = (case ys of [] \<Rightarrow> None | y # _ \<Rightarrow> Some y)" "ys \<noteq> [] \<longrightarrow> P (hd ys)"
    using find_split [of l P] by blast
  have it: "items (cl_add_before l c s (map_option fst (List.find P (items l)))) = xs @ (cl_fresh l, c) # ys"
  proof (cases ys)
    case Nil
    with sp show ?thesis by (simp add: cl_add_before_def cl_insert_def cl_append_def)
  next
    case (Cons y zs)
    obtain a b where y: "y = (a, b)" by force
    have "a \<notin> fst ` set xs" using assms sp(1) Cons y by (auto simp: cl_wf_def)
    with sp Cons y show ?thesis
      by (simp add: cl_add_before_def cl_insert_def insert_before_split)
  qed
  have "cl_wf (cl_add_before l c s (map_option fst (List.find P (items l))))"
    using assms
  proof (rule cl_wf_add_before)
    fix i assume "map_option fst (List.find P (items l)) = Some i"
    then obtain x where x: "List.find P (items l) = Some x" "i = fst x" by auto
    then have "x \<in> set (items l)" by (auto simp: find_Some_iff)
    with x(2) show "i \<in> set (addrs l)" by simp
  qed
  with it sp show thesis by (intro that) auto
qed

subsection \<open>Properties\<close>

text \<open>
  C17: a stored packet is restored by the parser of its type.  For every header byte and every body
  below 256 MB, \<^verbatim>\<open>MQTTPersistence_restorePacket\<close> on the bytes \<^verbatim>\<open>MQTTPacket_send\<close> and \<^verbatim>\<open>MQTTPacket_sends\<close>
  store (header, encoded length, body) decodes exactly that length and gives exactly what the
  packet's own parser makes of the body, NULL for types without one.
\<close>

theorem restorePacket_stored:
  assumes "length body < 268435456"
  shows "MQTTPersistence_restorePacket (h # MQTTPacket_encode (int (length body)) @ body) =
    (case packet_parser (header_type h) of None \<Rightarrow> Some None | Some parse \<Rightarrow> parse h body (length body))"
proof -
  let ?e = "MQTTPacket_encode (int (length body))"
  have "restore_length 4 ([h] @ ?e @ body) (length [h]) 0 1 =
      Some (0 + int (length body) * 1, length [h] + length ?e)"
    using assms by (intro restore_length_encode) simp_all
  then have r: "restore_length 4 (h # ?e @ body) 1 0 1 = Some (int (length body), 1 + length ?e)" by simp
  have d: "drop (1 + length ?e) (h # ?e @ body) = body" by simp
  have l: "int (1 + length ?e) + int (length body) = int (length (h # ?e @ body))" by simp
  have rd0: "rd (h # ?e @ body) 0 = Some h" by (simp add: rd_def)
  show ?thesis
    unfolding MQTTPersistence_restorePacket_def rd0 r Option.bind.bind_lunit prod.case l
    by (simp only: simp_thms if_True d nat_int)
qed

theorem restorePacket_stored_witness:
  "MQTTPersistence_restorePacket [0x62, 2, 0, 7] = Some (Some (PkAck \<lparr>a_header = 0x62, a_msgId = 7\<rparr>))"
proof -
  have "MQTTPacket_encode 2 = [2]" "packet_parser (header_type 0x62) = Some MQTTPacket_ack"
    "MQTTPacket_ack 0x62 [0, 7] 2 = Some (Some (PkAck \<lparr>a_header = 0x62, a_msgId = 7\<rparr>))"
    by (simp_all add: encode_last byte_of_def header_type_def packet_parser_def new_packets_def
        msgTypes_defs MQTTPacket_ack_def readInt_def rd_def)
  then show ?thesis using restorePacket_stored [of "[0, 7]" "0x62"] by (simp add: numeral_2_eq_2)
qed

text \<open>
  C18: restored messages are kept in message-id order.  Inserting into a list sorted by id keeps it
  sorted and well formed, and puts the message behind all messages with the same or a smaller id.
\<close>

theorem insertInOrder_sorted:
  assumes "cl_wf l" "sorted (map m_msgid (contents l))"
  shows "cl_wf (MQTTPersistence_insertInOrder l m s) \<and>
    sorted (map m_msgid (contents (MQTTPersistence_insertInOrder l m s))) \<and>
    (\<exists>xs ys. contents l = xs @ ys \<and> contents (MQTTPersistence_insertInOrder l m s) = xs @ m # ys \<and>
      (\<forall>x\<in>set xs. m_msgid x \<le> m_msgid m) \<and> (\<forall>y\<in>set ys. m_msgid m < m_msgid y))"
proof -
  let ?P = "\<lambda>x :: addr \<times> Messages. m_msgid m < m_msgid (snd x)"
  obtain xs ys where wf: "cl_wf (MQTTPersistence_insertInOrder l m s)" and sp: "items l = xs @ ys"
    "contents (MQTTPersistence_insertInOrder l m s) = map snd xs @ m # map snd ys"
    "\<forall>x\<in>set xs. \<not> ?P x" "ys \<noteq> [] \<longrightarrow> ?P (hd ys)"
    using assms(1)
    by (rule add_before_find [where c = m and s = s and P = ?P]) (simp add: MQTTPersistence_insertInOrder_def)
  have le: "\<forall>x\<in>set (map snd xs). m_msgid x \<le> m_msgid m" using sp(3) by auto
  have gt: "\<forall>y\<in>set (map snd ys). m_msgid m < m_msgid y"
  proof (cases ys)
    case (Cons y zs)
    with sp(4) have "m_msgid m < m_msgid (snd y)" by simp
    moreover have "\<forall>z\<in>set zs. m_msgid (snd y) \<le> m_msgid (snd z)"
      using assms(2) sp(1) Cons by (auto simp: sorted_append)
    ultimately show ?thesis using Cons by fastforce
  qed simp
  have so: "sorted (map m_msgid (map snd xs @ m # map snd ys))"
    using assms(2) sp(1) le gt by (fastforce simp: sorted_append)
  have c: "contents l = map snd xs @ map snd ys" using sp(1) by simp
  show ?thesis unfolding sp(2)
    by (intro conjI wf so exI [of _ "map snd xs"] exI [of _ "map snd ys"] c refl le gt)
qed

theorem insertInOrder_sorted_witness:
  "sorted (map m_msgid (contents (MQTTPersistence_insertInOrder cl_empty
     \<lparr>m_qos = 1, m_retain = 0, m_msgid = 5, m_publish = 0, m_lastTouch = 0, m_nextMessageType = 0, m_len = 0\<rparr> 0)))"
proof -
  have "sorted (map m_msgid (contents (cl_empty :: Messages clist)))" by (simp add: cl_empty_def)
  from insertInOrder_sorted [OF cl_wf_empty this] show ?thesis by blast
qed

end
