(* ===== verification/ClientState.thy ===== *)
theory ClientState
  imports ProtocolOut Restore PersistenceDefault Utf8
begin

text \<open>
  The state of \<^verbatim>\<open>MQTTClient.c\<close>, an extension of the protocol state, with the parts of \<^verbatim>\<open>Thread.c\<close> and
  the clock it uses.

  The model follows one thread of the application, or the background thread.  The library's mutex
  is whether this thread holds it; it checks errors, as \<^verbatim>\<open>MQTTClient_init\<close> sets it up, so that
  locking it twice is an error and not a deadlock.  What other threads do while this one sleeps is an
  argument \<open>others\<close> of the functions that sleep.  The clock is a script: each reading gives the
  milliseconds since the start it is compared with, and the time of day; when the script is used up a
  reading is later than every timeout.
\<close>

subsection \<open>State\<close>

text \<open>
  \<^verbatim>\<open>m_c\<close> is the client's element in \<^verbatim>\<open>bstate->clients\<close> (and \<^verbatim>\<open>c->context\<close> the handle that has it);
  of the callbacks the model keeps whether they are set.
\<close>

record MQTTClients =
  m_serverURI :: string
  m_c :: addr
  m_cl :: bool
  m_ma :: bool
  m_dc :: bool
  connect_sem :: nat
  connack_sem :: nat
  suback_sem :: nat
  unsuback_sem :: nat
  m_rc :: int
  m_pack :: "packet option"

datatype thread_start = RunThread | ConnectionLost addr

text \<open>
  The statics of the file, the scripts (clock, \<^verbatim>\<open>getsockopt(SO_ERROR)\<close>, results of
  \<^verbatim>\<open>messageArrived\<close>) and the logs of what was given to the application: threads started (also
  \<^verbatim>\<open>connectionLost\<close>), messages passed to \<^verbatim>\<open>messageArrived\<close>, tokens passed to \<^verbatim>\<open>deliveryComplete\<close>.
\<close>

record 's mqtt = "'s proto" +
  initialized :: bool
  handles :: "MQTTClients clist"
  last_check :: int
  running :: bool
  tostop :: bool
  run_id :: int
  this_thread :: int
  mutex :: bool
  os_clock :: "(nat \<times> int) list"
  os_sockopt :: "(int \<times> int) list"
  os_arrived :: "int list"
  threads :: "thread_start list"
  arrived :: "(addr \<times> MQTTPersistence_qEntry) list"
  completed :: "(addr \<times> int) list"

type_synonym ('s, 'm) others = "('s, 'm) mqtt_scheme \<Rightarrow> ('s, 'm) mqtt_scheme option"

text \<open>The statics before anything is called, on a quiet system.\<close>

definition zero_mqtt :: "'s mqtt" where
  "zero_mqtt = \<lparr>def_queue = zero_queue, queues = cl_empty, writes = cl_empty, junk_int = 0,
     junk_header = [0, 0, 0, 0, 0], rset = {}, rset_saved = {}, wset = {}, pending_wset = {},
     maxfdp1 = 0, clientsds = cl_empty, cur_clientsds = None, connect_pending = cl_empty,
     write_pending = cl_empty, os_recv = (\<lambda>_. []), os_write = (\<lambda>_. []), os_select = [],
     os_fcntl = (\<lambda>_. None), os_resolve = (\<lambda>_. (0, [])), os_sockets = [], os_connect = (\<lambda>_. 0),
     os_time = 0, sent = (\<lambda>_. []), publications = cl_empty, pubs = Map.empty, next_pub = 0,
     msgs_received = 0, msgs_sent = 0, pending_qos0 = cl_empty, clients = cl_empty,
     initialized = False, handles = cl_empty, last_check = 0, running = False, tostop = False,
     run_id = 0, this_thread = 1, mutex = False, os_clock = [], os_sockopt = [], os_arrived = [],
     threads = [], arrived = [], completed = []\<rparr>"

definition MQTTCLIENT_SUCCESS :: int where "MQTTCLIENT_SUCCESS = 0"
definition MQTTCLIENT_FAILURE :: int where "MQTTCLIENT_FAILURE = -1"
definition MQTTCLIENT_DISCONNECTED :: int where "MQTTCLIENT_DISCONNECTED = -3"
definition MQTTCLIENT_MAX_MESSAGES_INFLIGHT :: int where "MQTTCLIENT_MAX_MESSAGES_INFLIGHT = -4"
definition MQTTCLIENT_BAD_UTF8_STRING :: int where "MQTTCLIENT_BAD_UTF8_STRING = -5"
definition MQTTCLIENT_NULL_PARAMETER :: int where "MQTTCLIENT_NULL_PARAMETER = -6"
definition MQTTCLIENT_TOPICNAME_TRUNCATED :: int where "MQTTCLIENT_TOPICNAME_TRUNCATED = -7"
definition MQTTCLIENT_BAD_STRUCTURE :: int where "MQTTCLIENT_BAD_STRUCTURE = -8"
definition MQTTCLIENT_BAD_QOS :: int where "MQTTCLIENT_BAD_QOS = -9"
definition MQTT_BAD_SUBSCRIBE :: int where "MQTT_BAD_SUBSCRIBE = 0x80"
definition MQTTVERSION_DEFAULT :: int where "MQTTVERSION_DEFAULT = 0"

lemmas client_rc_defs [code_defs] = MQTTCLIENT_SUCCESS_def MQTTCLIENT_FAILURE_def
  MQTTCLIENT_DISCONNECTED_def MQTTCLIENT_MAX_MESSAGES_INFLIGHT_def MQTTCLIENT_BAD_UTF8_STRING_def
  MQTTCLIENT_NULL_PARAMETER_def MQTTCLIENT_TOPICNAME_TRUNCATED_def MQTTCLIENT_BAD_STRUCTURE_def
  MQTTCLIENT_BAD_QOS_def MQTT_BAD_SUBSCRIBE_def MQTTVERSION_DEFAULT_def

subsection \<open>Access\<close>

text \<open>A handle that is not in the list any more was freed: using it is undefined.\<close>

definition get_handle :: "addr \<Rightarrow> ('s, 'm) mqtt_scheme \<Rightarrow> MQTTClients option" where
  "get_handle m w = map_of (items (handles w)) m"

definition upd_handle ::
  "addr \<Rightarrow> (MQTTClients \<Rightarrow> MQTTClients) \<Rightarrow> ('s, 'm) mqtt_scheme \<Rightarrow> ('s, 'm) mqtt_scheme" where
  "upd_handle m f w = w\<lparr>handles := cl_update m f (handles w)\<rparr>"

definition client_of :: "addr \<Rightarrow> ('s, 'm) mqtt_scheme \<Rightarrow> (addr \<times> 's Clients) option" where
  "client_of m w = do {
     h \<leftarrow> get_handle m w;
     client \<leftarrow> get_client (m_c h) w;
     Some (m_c h, client)
   }"

text \<open>\<^verbatim>\<open>(MQTTClient)c->context\<close>\<close>

definition client_context :: "addr \<Rightarrow> ('s, 'm) mqtt_scheme \<Rightarrow> addr option" where
  "client_context c w = map_option fst (List.find (\<lambda>x. m_c (snd x) = c) (items (handles w)))"

definition clientSockCompare :: "('s, 'm) mqtt_scheme \<Rightarrow> int \<Rightarrow> MQTTClients \<Rightarrow> bool" where
  "clientSockCompare w sock m \<longleftrightarrow> map_option net_socket (get_client (m_c m) w) = Some sock"

definition find_handle :: "int \<Rightarrow> ('s, 'm) mqtt_scheme \<Rightarrow> addr option \<times> ('s, 'm) mqtt_scheme" where
  "find_handle sock w = (
     let (m, hs) = cl_find (clientSockCompare w sock) (handles w) in (m, w\<lparr>handles := hs\<rparr>))"

subsection \<open>The mutex\<close>

definition EDEADLK :: int where "EDEADLK = 35"
definition EPERM :: int where "EPERM = 1"

definition Thread_lock_mutex :: "('s, 'm) mqtt_scheme \<Rightarrow> int \<times> ('s, 'm) mqtt_scheme" where
  "Thread_lock_mutex w = (if mutex w then (EDEADLK, w) else (0, w\<lparr>mutex := True\<rparr>))"

definition Thread_unlock_mutex :: "('s, 'm) mqtt_scheme \<Rightarrow> int \<times> ('s, 'm) mqtt_scheme" where
  "Thread_unlock_mutex w = (if mutex w then (0, w\<lparr>mutex := False\<rparr>) else (EPERM, w))"

text \<open>All callers but one ignore the result.\<close>

definition lock :: "('s, 'm) mqtt_scheme \<Rightarrow> ('s, 'm) mqtt_scheme" where
  "lock w = snd (Thread_lock_mutex w)"

definition unlock :: "('s, 'm) mqtt_scheme \<Rightarrow> ('s, 'm) mqtt_scheme" where
  "unlock w = snd (Thread_unlock_mutex w)"

lemma lock_simps [simp]: "lock w = w\<lparr>mutex := True\<rparr>" "unlock w = w\<lparr>mutex := False\<rparr>"
  by (cases w; simp add: lock_def unlock_def Thread_lock_mutex_def Thread_unlock_mutex_def)+

subsection \<open>Semaphores\<close>

datatype sem = ConnectSem | ConnackSem | SubackSem | UnsubackSem

fun sem_value :: "sem \<Rightarrow> MQTTClients \<Rightarrow> nat" where
  "sem_value ConnectSem m = connect_sem m"
| "sem_value ConnackSem m = connack_sem m"
| "sem_value SubackSem m = suback_sem m"
| "sem_value UnsubackSem m = unsuback_sem m"

fun sem_set :: "sem \<Rightarrow> nat \<Rightarrow> MQTTClients \<Rightarrow> MQTTClients" where
  "sem_set ConnectSem n m = m\<lparr>connect_sem := n\<rparr>"
| "sem_set ConnackSem n m = m\<lparr>connack_sem := n\<rparr>"
| "sem_set SubackSem n m = m\<lparr>suback_sem := n\<rparr>"
| "sem_set UnsubackSem n m = m\<lparr>unsuback_sem := n\<rparr>"

definition Thread_check_sem :: "sem \<Rightarrow> MQTTClients \<Rightarrow> bool" where
  "Thread_check_sem s m \<longleftrightarrow> sem_value s m > 0"

definition Thread_post_sem :: "sem \<Rightarrow> addr \<Rightarrow> ('s, 'm) mqtt_scheme \<Rightarrow> ('s, 'm) mqtt_scheme" where
  "Thread_post_sem s m w = upd_handle m (\<lambda>h. sem_set s (Suc (sem_value s h)) h) w"

text \<open>
  \<^verbatim>\<open>Thread_wait_sem\<close>: \<open>n\<close> tries with a sleep after each failed one; \<open>rc\<close> is the result of the last try
  (\<^verbatim>\<open>EAGAIN\<close>), at first -1.
\<close>

fun sem_tries :: "('s, 'm) others \<Rightarrow> sem \<Rightarrow> addr \<Rightarrow> nat \<Rightarrow> int \<Rightarrow> ('s, 'm) mqtt_scheme \<Rightarrow>
    (int \<times> ('s, 'm) mqtt_scheme) option" where
  "sem_tries others s m 0 rc w = Some (rc, w)"
| "sem_tries others s m (Suc n) rc w = do {
     h \<leftarrow> get_handle m w;
     if sem_value s h > 0 then Some (0, upd_handle m (sem_set s (sem_value s h - 1)) w)
     else do { w1 \<leftarrow> others w; sem_tries others s m n EAGAIN w1 }
   }"

definition Thread_wait_sem :: "('s, 'm) others \<Rightarrow> sem \<Rightarrow> addr \<Rightarrow> int \<Rightarrow> ('s, 'm) mqtt_scheme \<Rightarrow>
    (int \<times> ('s, 'm) mqtt_scheme) option" where
  "Thread_wait_sem others s m timeout w =
     sem_tries others s m (nat (c_div (1000 * timeout) 10000) - 1) (-1) w"

text \<open>\<^verbatim>\<open>while (Thread_check_sem(sem)) Thread_wait_sem(sem, 100)\<close>: every round takes one.\<close>

definition drain_sem :: "sem \<Rightarrow> addr \<Rightarrow> ('s, 'm) mqtt_scheme \<Rightarrow> ('s, 'm) mqtt_scheme" where
  "drain_sem s m w = upd_handle m (sem_set s 0) w"

subsection \<open>The clock\<close>

definition FOREVER :: int where "FOREVER = 18446744073709551616"

definition MQTTClient_elapsed :: "('s, 'm) mqtt_scheme \<Rightarrow> int \<times> ('s, 'm) mqtt_scheme" where
  "MQTTClient_elapsed w = (case os_clock w of
     [] \<Rightarrow> (FOREVER, w)
   | (ms, t) # rs \<Rightarrow> (int ms, w\<lparr>os_clock := rs, os_time := t\<rparr>))"

lemma elapsed_nonneg: "MQTTClient_elapsed w = (e, w') \<Longrightarrow> 0 \<le> e"
  by (auto simp: MQTTClient_elapsed_def FOREVER_def split: list.splits prod.splits)

text \<open>\<^verbatim>\<open>getsockopt\<close>: its result and the pending error of the socket; by default none.\<close>

definition sys_sockopt :: "('s, 'm) mqtt_scheme \<Rightarrow> (int \<times> int) \<times> ('s, 'm) mqtt_scheme" where
  "sys_sockopt w = (case os_sockopt w of [] \<Rightarrow> ((0, 0), w) | r # rs \<Rightarrow> (r, w\<lparr>os_sockopt := rs\<rparr>))"

subsection \<open>Packet types\<close>

fun packet_header :: "packet \<Rightarrow> byte" where
  "packet_header (PkConnack p) = c_header p"
| "packet_header (PkPublish p) = p_header p"
| "packet_header (PkAck p) = a_header p"
| "packet_header (PkSuback p) = s_header p"
| "packet_header (PkHeader h) = h"

definition packet_type :: "packet \<Rightarrow> int" where
  "packet_type p = header_type (packet_header p)"

subsection \<open>Arguments\<close>

text \<open>A URI scheme in front of an address is skipped.\<close>

definition URI_TCP :: string where "URI_TCP = ''tcp://''"

definition skip_scheme :: "string \<Rightarrow> string" where
  "skip_scheme uri = (if strncmp_prefix uri URI_TCP then drop (length URI_TCP) uri else uri)"

definition valid_string :: "byte list option \<Rightarrow> bool option" where
  "valid_string s = (case s of None \<Rightarrow> Some True | Some b \<Rightarrow> map_option (\<lambda>v. v \<noteq> 0) (UTF8_validateString b))"

text \<open>The arguments in order: a topic that is not UTF-8, then a bad QoS.\<close>

fun check_topics :: "byte list list \<Rightarrow> int list \<Rightarrow> int option" where
  "check_topics [] qs = Some MQTTCLIENT_SUCCESS"
| "check_topics (t # ts) qs = do {
     valid \<leftarrow> UTF8_validateString t;
     if valid = 0 then Some MQTTCLIENT_BAD_UTF8_STRING
     else (case qs of
         [] \<Rightarrow> None
       | q # qs' \<Rightarrow> if q < 0 \<or> q > 2 then Some MQTTCLIENT_BAD_QOS else check_topics ts qs')
   }"

definition list_of :: "('c \<Rightarrow> int) \<Rightarrow> 'c list \<Rightarrow> 'c clist" where
  "list_of size_of xs = fold (\<lambda>x l. cl_add l x (size_of x)) xs cl_empty"

end
