(* ===== verification/ClientQueue.thy ===== *)
theory ClientQueue
  imports ClientState
begin

text \<open>
  \<^verbatim>\<open>MQTTClient.c\<close>, the parts below its packet loop: the queue of received messages, closing a
  session, stopping the background thread, disconnecting, and the end of partial writes.
  \<^verbatim>\<open>MQTTProtocol_closeSession\<close>, which the protocol modules call, disconnects with no time to wait, so
  that the wait of \<^verbatim>\<open>MQTTClient_disconnect1\<close> for the messages in flight is an argument of the function.
\<close>

subsection \<open>Received messages\<close>

text \<open>
  \<^verbatim>\<open>Protocol_processPublication\<close>: the entry takes over the topic and, for QoS 2, the payload; other
  payloads are copied.  The sequence number of an entry that is not stored stays uninitialised.
\<close>

definition queued_message :: "Publish \<Rightarrow> byte list \<Rightarrow> MQTTPersistence_message" where
  "queued_message publish pl = \<lparr>pm_payloadlen = payloadlen publish, pm_payload = pl,
     pm_qos = header_qos (p_header publish), pm_retained = header_retain (p_header publish),
     pm_dup = (if header_qos (p_header publish) = 2 then 0 else header_dup (p_header publish)),
     pm_msgid = msgId publish\<rparr>"

definition Protocol_processPublication ::
  "Publish \<Rightarrow> addr \<Rightarrow> ('s, 'm) proto_scheme \<Rightarrow> ('s, 'm) proto_scheme option" where
  "Protocol_processPublication publish c w = do {
     t \<leftarrow> topic publish;
     pl \<leftarrow> (if header_qos (p_header publish) = 2 then Some (payload publish)
            else if payloadlen publish < 0 then None
            else rd_bytes (payload publish) 0 (nat (payloadlen publish)));
     client \<leftarrow> get_client c w;
     let qe = \<lparr>qe_msg = queued_message publish pl, qe_topicName = t, qe_topicLen = topiclen publish,
               qe_seqno = junk_int w\<rparr>;
     let a = cl_fresh (messageQueue client);
     let w1 = upd_client c (\<lambda>cl. cl\<lparr>messageQueue :=
           cl_append (messageQueue cl) a qe (16 + payloadlen publish + int (strlen t) + 1)\<rparr>) w;
     if persistence client = None then Some w1
     else do {
       ((rc, qe1), w2) \<leftarrow> MQTTPersistence_persistQueueEntry c qe w1;
       Some (upd_client c (\<lambda>cl. cl\<lparr>messageQueue := cl_update a (\<lambda>_. qe1) (messageQueue cl)\<rparr>) w2)
     }
   }"

definition MQTTClient_emptyMessageQueue :: "addr \<Rightarrow> ('s, 'm) proto_scheme \<Rightarrow> ('s, 'm) proto_scheme" where
  "MQTTClient_emptyMessageQueue c w = upd_client c (\<lambda>cl.
     if cnt (messageQueue cl) > 0 then cl\<lparr>messageQueue := cl_empty\<rparr> else cl) w"

text \<open>The result: the code, the topic, its length and the message.\<close>

definition MQTTClient_deliverMessage ::
  "int \<Rightarrow> addr \<Rightarrow> ('s, 'm) proto_scheme \<Rightarrow>
     ((int \<times> byte list \<times> int \<times> MQTTPersistence_message) \<times> ('s, 'm) proto_scheme) option" where
  "MQTTClient_deliverMessage rc c w = do {
     client \<leftarrow> get_client c w;
     a \<leftarrow> hd_addr (items (messageQueue client));
     qe \<leftarrow> map_of (items (messageQueue client)) a;
     let rc1 = (if int (strlen (qe_topicName qe)) \<noteq> qe_topicLen qe then MQTTCLIENT_TOPICNAME_TRUNCATED else rc);
     (_, w1) \<leftarrow> (if persistence client = None then Some (0, w) else MQTTPersistence_unpersistQueueEntry c qe w);
     Some ((rc1, qe_topicName qe, qe_topicLen qe, qe_msg qe),
       upd_client c (\<lambda>cl. cl\<lparr>messageQueue := snd (cl_remove_at a (messageQueue cl))\<rparr>) w1)
   }"

subsection \<open>Closing a session\<close>

definition MQTTClient_cleanSession ::
  "addr \<Rightarrow> ('s, 'm) proto_scheme \<Rightarrow> (int \<times> ('s, 'm) proto_scheme) option" where
  "MQTTClient_cleanSession c w = do {
     (rc, w1) \<leftarrow> MQTTPersistence_clear c w;
     client \<leftarrow> get_client c w1;
     (inb, w2) \<leftarrow> MQTTProtocol_emptyMessageList (inboundMsgs client) w1;
     (outb, w3) \<leftarrow> MQTTProtocol_emptyMessageList (outboundMsgs client) w2;
     let w4 = upd_client c (\<lambda>cl. cl\<lparr>inboundMsgs := inb, outboundMsgs := outb\<rparr>) w3;
     Some (rc, upd_client c (\<lambda>cl. cl\<lparr>msgID := 0\<rparr>) (MQTTClient_emptyMessageQueue c w4))
   }"

definition MQTTClient_closeSession ::
  "addr \<Rightarrow> ('s, 'm) proto_scheme \<Rightarrow> ('s, 'm) proto_scheme option" where
  "MQTTClient_closeSession c w = do {
     let w1 = upd_client c (\<lambda>cl. cl\<lparr>good := 0, ping_outstanding := 0\<rparr>) w;
     client \<leftarrow> get_client c w1;
     w2 \<leftarrow> (if net_socket client > 0 then do {
         (_, w2) \<leftarrow> (if connected client \<noteq> 0 then MQTTPacket_send_disconnect c w1 else Some (0, w1));
         let w3 = Socket_close (net_socket client) w2;
         Some (upd_client c (\<lambda>cl. cl\<lparr>net_socket := 0\<rparr>) w3)
       } else Some w1);
     let w4 = upd_client c (\<lambda>cl. cl\<lparr>connected := 0, connect_state := 0\<rparr>) w2;
     if cleansession client \<noteq> 0 then map_option snd (MQTTClient_cleanSession c w4) else Some w4
   }"

subsection \<open>The background thread\<close>

definition is_active :: "('s, 'm) mqtt_scheme \<Rightarrow> MQTTClients \<Rightarrow> bool" where
  "is_active w m \<longleftrightarrow> (case get_client (m_c m) w of None \<Rightarrow> False
     | Some client \<Rightarrow> connect_state client > 0 \<or> connected client \<noteq> 0)"

text \<open>\<^verbatim>\<open>while (running && ++count < 100)\<close>, the mutex free while sleeping\<close>

fun stop_loop :: "nat \<Rightarrow> ('s, 'm) others \<Rightarrow> ('s, 'm) mqtt_scheme \<Rightarrow> ('s, 'm) mqtt_scheme option" where
  "stop_loop 0 others w = Some w"
| "stop_loop (Suc n) others w = (if \<not> running w then Some w
     else do { w1 \<leftarrow> others (unlock w); stop_loop n others (lock w1) })"

definition MQTTClient_stop :: "('s, 'm) others \<Rightarrow> ('s, 'm) mqtt_scheme \<Rightarrow> ('s, 'm) mqtt_scheme option" where
  "MQTTClient_stop others w =
     (if running w \<and> \<not> tostop w then
        let conn_count = length (filter (is_active w) (contents (handles w)))
        in if conn_count = 0 then
             let w1 = w\<lparr>tostop := True\<rparr>
             in if this_thread w1 \<noteq> run_id w1 then stop_loop 99 others w1 else Some w1
           else Some w
      else Some w)"

subsection \<open>Disconnecting\<close>

text \<open>
  \<^verbatim>\<open>wait\<close> is the loop that waits for the messages in flight.  With a NULL handle and \<^verbatim>\<open>internal\<close> the
  end of the function dereferences NULL.
\<close>

definition disconnect1_with ::
  "(addr \<Rightarrow> int \<Rightarrow> ('s, 'm) others) \<Rightarrow> ('s, 'm) others \<Rightarrow> addr option \<Rightarrow> int \<Rightarrow> bool \<Rightarrow> bool \<Rightarrow>
     ('s, 'm) mqtt_scheme \<Rightarrow> (int \<times> ('s, 'm) mqtt_scheme) option" where
  "disconnect1_with wait others handle timeout internal stop w0 = do {
     let w = lock w0;
     (rc, was_connected, w1) \<leftarrow> (case handle of
         None \<Rightarrow> Some (MQTTCLIENT_FAILURE, 0, w)
       | Some m \<Rightarrow> do {
           (c, client) \<leftarrow> client_of m w;
           if connected client = 0 \<and> connect_state client = 0
           then Some (MQTTCLIENT_DISCONNECTED, 0, w)
           else do {
             w1 \<leftarrow> (if connected client \<noteq> 0
                     then wait c timeout (upd_client c (\<lambda>cl. cl\<lparr>connect_state := -2\<rparr>) w) else Some w);
             w2 \<leftarrow> MQTTClient_closeSession c w1;
             Some (MQTTCLIENT_SUCCESS, connected client,
               drain_sem UnsubackSem m (drain_sem SubackSem m (drain_sem ConnackSem m (drain_sem ConnectSem m w2))))
           }
         });
     w2 \<leftarrow> (if stop then MQTTClient_stop others w1 else Some w1);
     w3 \<leftarrow> (if internal then do {
         m \<leftarrow> handle;
         h \<leftarrow> get_handle m w2;
         Some (if m_cl h \<and> was_connected \<noteq> 0 then w2\<lparr>threads := threads w2 @ [ConnectionLost m]\<rparr> else w2)
       } else Some w2);
     Some (rc, unlock w3)
   }"

text \<open>With no time to wait the first reading of the clock ends the loop.\<close>

definition in_flight_count :: "'s Clients \<Rightarrow> bool" where
  "in_flight_count client \<longleftrightarrow> cnt (inboundMsgs client) > 0 \<or> cnt (outboundMsgs client) > 0"

definition no_wait :: "addr \<Rightarrow> int \<Rightarrow> ('s, 'm) others" where
  "no_wait c timeout w = do {
     client \<leftarrow> get_client c w;
     Some (if in_flight_count client then snd (MQTTClient_elapsed w) else w)
   }"

definition MQTTClient_disconnect_internal ::
  "('s, 'm) others \<Rightarrow> addr option \<Rightarrow> ('s, 'm) mqtt_scheme \<Rightarrow> (int \<times> ('s, 'm) mqtt_scheme) option" where
  "MQTTClient_disconnect_internal others handle w = disconnect1_with no_wait others handle 0 True True w"

definition MQTTProtocol_closeSession ::
  "('s, 'm) others \<Rightarrow> addr \<Rightarrow> int \<Rightarrow> ('s, 'm) mqtt_scheme \<Rightarrow> ('s, 'm) mqtt_scheme option" where
  "MQTTProtocol_closeSession others c sendwill w =
     map_option snd (MQTTClient_disconnect_internal others (client_context c w) w)"

subsection \<open>Partial writes\<close>

text \<open>
  The walk over \<^verbatim>\<open>state.pending_writes\<close>.  The list's cursor is on the removed element, so the removal
  moves it to the next one.
\<close>

partial_function (option) pending_loop ::
  "addr option \<Rightarrow> ('s, 'm) proto_scheme \<Rightarrow> ('s, 'm) proto_scheme option" where
  "pending_loop le w = (case le of
     None \<Rightarrow> Some w
   | Some a \<Rightarrow> Option.bind (map_of (items (pending_qos0 w)) a) (\<lambda>pw.
       case Socket_noPendingWrites (pq_socket pw) w of (np, w1) \<Rightarrow>
         if np then
           Option.bind (MQTTProtocol_removePublication (pq_p pw) w1) (\<lambda>w2.
             let l = snd (cl_remove_at a ((pending_qos0 w2)\<lparr>cur := Some a\<rparr>))
             in pending_loop (cur l) (w2\<lparr>pending_qos0 := l\<rparr>))
         else pending_loop (cl_next (pending_qos0 w1) (Some a)) w1))"

declare pending_loop.simps [code]

definition MQTTProtocol_checkPendingWrites ::
  "('s, 'm) proto_scheme \<Rightarrow> ('s, 'm) proto_scheme option" where
  "MQTTProtocol_checkPendingWrites w =
     (if cnt (pending_qos0 w) > 0 then pending_loop (hd_addr (items (pending_qos0 w))) w else Some w)"

definition MQTTClient_writeComplete :: "int \<Rightarrow> ('s, 'm) mqtt_scheme \<Rightarrow> ('s, 'm) mqtt_scheme option" where
  "MQTTClient_writeComplete socket w = do {
     w1 \<leftarrow> MQTTProtocol_checkPendingWrites w;
     case find_handle socket w1 of
       (None, w2) \<Rightarrow> Some w2
     | (Some m, w2) \<Rightarrow> do {
         (c, _) \<leftarrow> client_of m w2;
         Some (upd_client c (\<lambda>cl. cl\<lparr>lastSent := sys_time w2\<rparr>) w2)
       }
   }"

end
