(* ===== verification/ClientCycle.thy ===== *)
theory ClientCycle
  imports ClientQueue
begin

text \<open>
  The packet loop of \<^verbatim>\<open>MQTTClient.c\<close>: one cycle reads and handles at most one packet and looks at
  retries and keep-alive; \<^verbatim>\<open>MQTTClient_yield\<close>, \<^verbatim>\<open>MQTTClient_waitfor\<close> and the background thread
  \<^verbatim>\<open>MQTTClient_run\<close> repeat it.  The timeouts these functions pass to a cycle only bound how long
  \<^verbatim>\<open>select\<close> waits, which is not part of the model.
\<close>

subsection \<open>Retries\<close>

definition MQTTClient_retry :: "('s, 'm) others \<Rightarrow> ('s, 'm) mqtt_scheme \<Rightarrow> ('s, 'm) mqtt_scheme option" where
  "MQTTClient_retry others w = (
     let now = sys_time w
     in if now - last_check w > 5 then do {
          w1 \<leftarrow> MQTTProtocol_keepalive (MQTTProtocol_closeSession others) now (w\<lparr>last_check := sys_time w\<rparr>);
          MQTTProtocol_retry (MQTTProtocol_closeSession others) now True False w1
        } else MQTTProtocol_retry (MQTTProtocol_closeSession others) now False False w)"

subsection \<open>One cycle\<close>

text \<open>
  What the cycle does with a packet: the completion code and whether the handler freed it.  \<open>m\<close> is
  the handle of the socket.
\<close>

definition handle_packet ::
  "packet \<Rightarrow> int \<Rightarrow> addr \<Rightarrow> int \<Rightarrow> ('s, 'm) mqtt_scheme \<Rightarrow> ((int \<times> bool) \<times> ('s, 'm) mqtt_scheme) option" where
  "handle_packet pack sock m rc w = (case pack of
     PkPublish publish \<Rightarrow>
       if packet_type pack = PUBLISH
       then map_option (\<lambda>(rc, w1). ((rc, True), w1))
              (MQTTProtocol_handlePublishes Protocol_processPublication publish sock w)
       else Some ((rc, False), w)
   | PkAck ack \<Rightarrow>
       if packet_type pack = PUBACK \<or> packet_type pack = PUBCOMP then do {
         (rc, w1) \<leftarrow> (if packet_type pack = PUBCOMP then MQTTProtocol_handlePubcomps ack sock w
                      else MQTTProtocol_handlePubacks ack sock w);
         h \<leftarrow> get_handle m w1;
         Some ((rc, True), if m_dc h then w1\<lparr>completed := completed w1 @ [(m, a_msgId ack)]\<rparr> else w1)
       }
       else if packet_type pack = PUBREC
       then map_option (\<lambda>(rc, w1). ((rc, True), w1)) (MQTTProtocol_handlePubrecs ack sock w)
       else if packet_type pack = PUBREL
       then map_option (\<lambda>(rc, w1). ((rc, True), w1))
              (MQTTProtocol_handlePubrels Protocol_processPublication ack sock w)
       else Some ((rc, False), w)
   | PkHeader h \<Rightarrow>
       if packet_type pack = PINGRESP
       then map_option (\<lambda>(rc, w1). ((rc, True), w1)) (MQTTProtocol_handlePingresps sock w)
       else Some ((rc, False), w)
   | _ \<Rightarrow> Some ((rc, False), w))"

text \<open>The result: \<^verbatim>\<open>*sock\<close>, \<^verbatim>\<open>*rc\<close> (which keeps its value when nothing sets it) and the packet.\<close>

definition MQTTClient_cycle ::
  "('s, 'm) others \<Rightarrow> int \<Rightarrow> ('s, 'm) mqtt_scheme \<Rightarrow>
     ((int \<times> int \<times> packet option) \<times> ('s, 'm) mqtt_scheme) option" where
  "MQTTClient_cycle others rc w = do {
     (sock, w0) \<leftarrow> Socket_getReadySocket MQTTClient_writeComplete w;
     let w1 = lock w0;
     (rc, pack, w4) \<leftarrow> (if sock > 0 then
         (case find_handle sock w1 of
            (None, w2) \<Rightarrow> Some (rc, None, w2)
          | (Some m, w2) \<Rightarrow> do {
              (c, client) \<leftarrow> client_of m w2;
              if connect_state client = 1 \<or> connect_state client = 2 then Some (0, None, w2)
              else do {
                ((rc, pack), w3) \<leftarrow> MQTTPacket_Factory c w2;
                let rc = (if rc = TCPSOCKET_INTERRUPTED then 0 else rc);
                case pack of
                  None \<Rightarrow> Some (rc, None, w3)
                | Some p \<Rightarrow> do {
                    ((rc, freed), w4) \<leftarrow> handle_packet p sock m rc w3;
                    Some (rc, if freed then None else Some p, w4)
                  }
              }
            })
       else Some (rc, None, w1));
     w5 \<leftarrow> MQTTClient_retry others w4;
     Some ((sock, rc, pack), unlock w5)
   }"

subsection \<open>Yielding\<close>

text \<open>
  The \<^verbatim>\<open>do\<close> loop.  A socket error disconnects the client of the socket unless it is disconnecting
  already.
\<close>

partial_function (option) yield_loop ::
  "('s, 'm) others \<Rightarrow> int \<Rightarrow> int \<Rightarrow> ('s, 'm) mqtt_scheme \<Rightarrow> ('s, 'm) mqtt_scheme option" where
  "yield_loop others timeout rc w =
     Option.bind (MQTTClient_cycle others rc w) (\<lambda>((sock, rc, pack), w1).
       Option.bind
         (if rc = SOCKET_ERROR then
            case find_handle sock w1 of
              (None, w2) \<Rightarrow> Some w2
            | (Some m, w2) \<Rightarrow> Option.bind (client_of m w2) (\<lambda>(c, client).
                if connect_state client \<noteq> -2
                then map_option snd (MQTTClient_disconnect_internal others (Some m) w2) else Some w2)
          else Some w1)
         (\<lambda>w2. case MQTTClient_elapsed w2 of (elapsed, w3) \<Rightarrow>
            if elapsed < timeout then yield_loop others timeout rc w3 else Some w3))"

declare yield_loop.simps [code]

definition MQTTClient_yield :: "('s, 'm) others \<Rightarrow> ('s, 'm) mqtt_scheme \<Rightarrow> ('s, 'm) mqtt_scheme option" where
  "MQTTClient_yield others w =
     (if running w then others w
      else yield_loop others 100 0 (snd (MQTTClient_elapsed w)))"

text \<open>Sleeping or working with the mutex free.\<close>

definition yield_unlocked :: "('s, 'm) others \<Rightarrow> ('s, 'm) mqtt_scheme \<Rightarrow> ('s, 'm) mqtt_scheme option" where
  "yield_unlocked others w = map_option lock (MQTTClient_yield others (unlock w))"

subsection \<open>Disconnecting with a timeout\<close>

partial_function (option) wait_inflight ::
  "('s, 'm) others \<Rightarrow> addr \<Rightarrow> int \<Rightarrow> ('s, 'm) mqtt_scheme \<Rightarrow> ('s, 'm) mqtt_scheme option" where
  "wait_inflight others c timeout w =
     Option.bind (get_client c w) (\<lambda>client.
       if in_flight_count client then
         (case MQTTClient_elapsed w of (elapsed, w1) \<Rightarrow>
            if elapsed \<ge> timeout then Some w1
            else Option.bind (yield_unlocked others w1) (\<lambda>w2. wait_inflight others c timeout w2))
       else Some w)"

declare wait_inflight.simps [code]

definition MQTTClient_disconnect1 ::
  "('s, 'm) others \<Rightarrow> addr option \<Rightarrow> int \<Rightarrow> bool \<Rightarrow> bool \<Rightarrow> ('s, 'm) mqtt_scheme \<Rightarrow>
     (int \<times> ('s, 'm) mqtt_scheme) option" where
  "MQTTClient_disconnect1 others handle timeout internal stop w =
     disconnect1_with (wait_inflight others) others handle timeout internal stop w"

definition MQTTClient_disconnect ::
  "('s, 'm) others \<Rightarrow> addr option \<Rightarrow> int \<Rightarrow> ('s, 'm) mqtt_scheme \<Rightarrow> (int \<times> ('s, 'm) mqtt_scheme) option" where
  "MQTTClient_disconnect others handle timeout w = MQTTClient_disconnect1 others handle timeout False True w"

text \<open>
  With timeout 0 this is \<^verbatim>\<open>MQTTClient_disconnect_internal\<close> as the modules below see it: the clock
  does not go back, so that the loop ends at its first look at it.
\<close>

lemma wait_inflight_0: "wait_inflight others c 0 w = no_wait c 0 w"
proof -
  have "0 \<le> fst (MQTTClient_elapsed w)" using elapsed_nonneg [of w] by (metis prod.collapse)
  then show ?thesis
    by (subst wait_inflight.simps)
      (auto simp: no_wait_def split: prod.splits option.splits intro!: arg_cong2 [where f = Option.bind])
qed

lemma disconnect_internal_eq:
  "MQTTClient_disconnect_internal others handle w = MQTTClient_disconnect1 others handle 0 True True w"
proof -
  have "(\<lambda>c. wait_inflight others c 0) = (\<lambda>c. no_wait c 0)" by (simp add: fun_eq_iff wait_inflight_0)
  then show ?thesis
    unfolding MQTTClient_disconnect_internal_def MQTTClient_disconnect1_def disconnect1_with_def
    by (simp only: wait_inflight_0 Let_def)
qed

subsection \<open>Waiting for a packet\<close>

text \<open>
  After a cycle on the client's own socket: the completion code and whether the loop breaks.
\<close>

definition waitfor_break ::
  "'s Clients \<Rightarrow> int \<Rightarrow> int \<Rightarrow> packet option \<Rightarrow> ('s, 'm) mqtt_scheme \<Rightarrow> (int \<times> bool) \<times> ('s, 'm) mqtt_scheme" where
  "waitfor_break client ptype rc pack w =
     (if rc = SOCKET_ERROR then ((rc, True), w)
      else if map_option packet_type pack = Some ptype then ((rc, True), w)
      else if connect_state client = 1 then
        (case sys_sockopt w of ((r, err), w1) \<Rightarrow> ((if r = 0 then err else r, True), w1))
      else if connect_state client = 3 then
        (case sys_sockopt w of ((r, err), w1) \<Rightarrow>
           if r = 0 \<and> err \<noteq> 0 then ((err, True), w1) else ((rc, False), w1))
      else ((rc, False), w))"

partial_function (option) waitfor_loop ::
  "('s, 'm) others \<Rightarrow> addr \<Rightarrow> int \<Rightarrow> int \<Rightarrow> int \<Rightarrow> ('s, 'm) mqtt_scheme \<Rightarrow>
     ((int \<times> packet option) \<times> ('s, 'm) mqtt_scheme) option" where
  "waitfor_loop others m ptype timeout rc w =
     Option.bind (MQTTClient_cycle others rc w) (\<lambda>((sock, rc, pack), w1).
       Option.bind (client_of m w1) (\<lambda>(c, client).
         case (if sock = net_socket client then waitfor_break client ptype rc pack w1 else ((rc, False), w1)) of
           ((rc, stop), w2) \<Rightarrow>
             if stop then Some ((rc, pack), w2)
             else case MQTTClient_elapsed w2 of (elapsed, w3) \<Rightarrow>
               if elapsed > timeout then Some ((rc, None), w3)
               else waitfor_loop others m ptype timeout rc w3))"

declare waitfor_loop.simps [code]

definition MQTTClient_waitfor ::
  "('s, 'm) others \<Rightarrow> addr option \<Rightarrow> int \<Rightarrow> int \<Rightarrow> int \<Rightarrow> ('s, 'm) mqtt_scheme \<Rightarrow>
     ((int \<times> packet option) \<times> ('s, 'm) mqtt_scheme) option" where
  "MQTTClient_waitfor others handle ptype rc timeout w = (case handle of
     None \<Rightarrow> Some ((MQTTCLIENT_FAILURE, None), w)
   | Some m \<Rightarrow>
       if running w then do {
         (rc, w1) \<leftarrow> (if ptype = CONNECT then do {
              (rc, w1) \<leftarrow> Thread_wait_sem others ConnectSem m timeout w;
              h \<leftarrow> get_handle m w1;
              Some (if rc = 0 then m_rc h else rc, w1)
            }
            else if ptype = CONNACK then Thread_wait_sem others ConnackSem m timeout w
            else if ptype = SUBACK then Thread_wait_sem others SubackSem m timeout w
            else if ptype = UNSUBACK then Thread_wait_sem others UnsubackSem m timeout w
            else Some (rc, w));
         h \<leftarrow> get_handle m w1;
         Some ((rc, m_pack h), w1)
       }
       else waitfor_loop others m ptype timeout TCPSOCKET_COMPLETE w)"

subsection \<open>The background thread\<close>

text \<open>
  \<^verbatim>\<open>messageArrived\<close> is called with the mutex free; a result of 0 leaves the message in the queue.
  The message is removed from the queue only, not from the store.
\<close>

definition call_arrived :: "addr \<Rightarrow> MQTTPersistence_qEntry \<Rightarrow> ('s, 'm) mqtt_scheme \<Rightarrow> int \<times> ('s, 'm) mqtt_scheme" where
  "call_arrived m qe w = (
     let w1 = w\<lparr>arrived := arrived w @ [(m, qe)]\<rparr>
     in case os_arrived w1 of [] \<Rightarrow> (1, w1) | r # rs \<Rightarrow> (r, w1\<lparr>os_arrived := rs\<rparr>))"

definition run_deliver :: "addr \<Rightarrow> ('s, 'm) mqtt_scheme \<Rightarrow> ('s, 'm) mqtt_scheme option" where
  "run_deliver m w = do {
     (c, client) \<leftarrow> client_of m w;
     if cnt (messageQueue client) > 0 then do {
       a \<leftarrow> hd_addr (items (messageQueue client));
       qe \<leftarrow> map_of (items (messageQueue client)) a;
       let (rc, w1) = call_arrived m qe (unlock w);
       let w2 = lock w1;
       Some (if rc \<noteq> 0
         then upd_client c (\<lambda>cl. cl\<lparr>messageQueue := snd (cl_remove_at a (messageQueue cl))\<rparr>) w2 else w2)
     } else Some w
   }"

definition run_packet :: "addr \<Rightarrow> packet option \<Rightarrow> ('s, 'm) mqtt_scheme \<Rightarrow> ('s, 'm) mqtt_scheme option" where
  "run_packet m pack w = do {
     h \<leftarrow> get_handle m w;
     (c, client) \<leftarrow> client_of m w;
     case pack of
       Some p \<Rightarrow>
         let keep = (\<lambda>s. Thread_post_sem s m (upd_handle m (\<lambda>h. h\<lparr>m_pack := Some p\<rparr>) w))
         in Some (if packet_type p = CONNACK \<and> \<not> Thread_check_sem ConnackSem h then keep ConnackSem
                  else if packet_type p = SUBACK then keep SubackSem
                  else if packet_type p = UNSUBACK then keep UnsubackSem
                  else w)
     | None \<Rightarrow>
         if connect_state client = 1 \<and> \<not> Thread_check_sem ConnectSem h then
           (case sys_sockopt w of ((r, err), w1) \<Rightarrow>
              Some (Thread_post_sem ConnectSem m (upd_handle m (\<lambda>h. h\<lparr>m_rc := (if r = 0 then err else r)\<rparr>) w1)))
         else Some w
   }"

text \<open>The body of the loop of \<^verbatim>\<open>MQTTClient_run\<close> after the cycle.\<close>

definition run_body ::
  "('s, 'm) others \<Rightarrow> int \<Rightarrow> int \<Rightarrow> packet option \<Rightarrow> ('s, 'm) mqtt_scheme \<Rightarrow> ('s, 'm) mqtt_scheme option" where
  "run_body others sock rc pack w = (case find_handle sock w of
     (None, w1) \<Rightarrow> Some w1
   | (Some m, w1) \<Rightarrow>
       if rc = SOCKET_ERROR then do {
         h \<leftarrow> get_handle m w1;
         (c, client) \<leftarrow> client_of m w1;
         if connected client \<noteq> 0
         then map_option (\<lambda>r. lock (snd r)) (MQTTClient_disconnect_internal others (Some m) (unlock w1))
         else
           let w2 = (if connect_state client = 2 \<and> \<not> Thread_check_sem ConnectSem h
                     then Thread_post_sem ConnectSem m w1 else w1)
           in Some (if connect_state client = 3 \<and> \<not> Thread_check_sem ConnackSem h
                    then Thread_post_sem ConnackSem m w2 else w2)
       }
       else do { w2 \<leftarrow> run_deliver m w1; run_packet m pack w2 })"

partial_function (option) run_loop ::
  "('s, 'm) others \<Rightarrow> ('s, 'm) mqtt_scheme \<Rightarrow> ('s, 'm) mqtt_scheme option" where
  "run_loop others w =
     (if tostop w then Some w
      else Option.bind (MQTTClient_cycle others SOCKET_ERROR (unlock w)) (\<lambda>((sock, rc, pack), w1).
        let w2 = lock w1
        in if tostop w2 then Some w2
           else Option.bind (run_body others sock rc pack w2) (\<lambda>w3. run_loop others w3)))"

declare run_loop.simps [code]

definition MQTTClient_run :: "('s, 'm) others \<Rightarrow> ('s, 'm) mqtt_scheme \<Rightarrow> ('s, 'm) mqtt_scheme option" where
  "MQTTClient_run others w = do {
     w1 \<leftarrow> run_loop others (lock (w\<lparr>running := True, run_id := this_thread w\<rparr>));
     Some (unlock (w1\<lparr>run_id := 0, running := False, tostop := False\<rparr>))
   }"

end
