(* ===== verification/ClientApi.thy ===== *)
theory ClientApi
  imports ClientCycle
begin

text \<open>
  The functions of \<^verbatim>\<open>MQTTClient.c\<close> that the application calls.  A handle is the address of its
  element, NULL is \<open>None\<close>; a pointer result is part of the result.  Starting up and shutting down the
  log and the allocator is left out.
\<close>

subsection \<open>Creating and destroying\<close>

definition client_initialize :: "('s, 'm) mqtt_scheme \<Rightarrow> ('s, 'm) mqtt_scheme" where
  "client_initialize w = (if initialized w then w
     else (Socket_outInitialize (w\<lparr>clients := cl_empty\<rparr>))\<lparr>handles := cl_empty, initialized := True\<rparr>)"

definition new_handle :: "string \<Rightarrow> addr \<Rightarrow> MQTTClients" where
  "new_handle uri c = \<lparr>m_serverURI = uri, m_c = c, m_cl = False, m_ma = False, m_dc = False,
     connect_sem = 0, connack_sem = 0, suback_sem = 0, unsuback_sem = 0, m_rc = 0, m_pack = None\<rparr>"

text \<open>
  The client joins \<^verbatim>\<open>bstate->clients\<close> at the end of the function; here it does so before the store is
  opened, which does not look at the list.  The result of the last call on the store is dropped.
\<close>

definition MQTTClient_create ::
  "filesys \<Rightarrow> string option \<Rightarrow> byte list option \<Rightarrow> pst pers_type \<Rightarrow> string option \<Rightarrow> (pst, 'm) mqtt_scheme \<Rightarrow>
     ((int \<times> addr option) \<times> (pst, 'm) mqtt_scheme) option" where
  "MQTTClient_create fs serverURI clientId ptype pcontext w = do {
     let (rc, w1) = Thread_lock_mutex w;
     ((rc, handle), w2) \<leftarrow> (case (serverURI, clientId) of
         (Some uri, Some cid) \<Rightarrow> do {
           valid \<leftarrow> UTF8_validateString cid;
           if valid = 0 then Some ((MQTTCLIENT_BAD_UTF8_STRING, None), w1)
           else do {
             let w2 = client_initialize w1;
             let m = cl_fresh (handles w2);
             let c = cl_fresh (clients w2);
             cid' \<leftarrow> MQTTStrdup cid;
             let (rc, per) = MQTTPersistence_create fs ptype pcontext;
             let client = zero_client\<lparr>clientID := cid', persistence := per\<rparr>;
             let w3 = w2\<lparr>handles := cl_append (handles w2) m (new_handle (skip_scheme uri) c) 96,
                         clients := cl_append (clients w2) c client 0\<rparr>;
             (rc, w4) \<leftarrow> (if rc \<noteq> 0 then Some (rc, w3)
               else do {
                 (rc, w4) \<leftarrow> MQTTPersistence_initialize c (skip_scheme uri) w3;
                 if rc = 0
                 then map_option (\<lambda>(_, w5). (rc, w5)) (MQTTPersistence_restoreMessageQueue c w4)
                 else Some (rc, w4)
               });
             Some ((rc, Some m), w4)
           }
         }
       | _ \<Rightarrow> Some ((MQTTCLIENT_NULL_PARAMETER, None), w1));
     Some ((rc, handle), unlock w2)
   }"

definition MQTTClient_terminate :: "('s, 'm) others \<Rightarrow> ('s, 'm) mqtt_scheme \<Rightarrow> ('s, 'm) mqtt_scheme option" where
  "MQTTClient_terminate others w = do {
     w1 \<leftarrow> MQTTClient_stop others w;
     Some (if initialized w1
       then (Socket_outTerminate (w1\<lparr>clients := cl_empty, handles := cl_empty\<rparr>))\<lparr>initialized := False\<rparr>
       else w1)
   }"

definition MQTTClient_destroy ::
  "('s, 'm) others \<Rightarrow> addr option \<Rightarrow> ('s, 'm) mqtt_scheme \<Rightarrow> ('s, 'm) mqtt_scheme option" where
  "MQTTClient_destroy others handle w0 = do {
     let w = lock w0;
     w4 \<leftarrow> (case handle of None \<Rightarrow> Some w
       | Some m \<Rightarrow> do {
           (c, _) \<leftarrow> client_of m w;
           (_, w1) \<leftarrow> MQTTPersistence_close c w;
           w2 \<leftarrow> MQTTProtocol_freeClient c (MQTTClient_emptyMessageQueue c w1);
           let w3 = w2\<lparr>clients := snd (cl_remove_at c (clients w2)),
                       handles := snd (cl_remove_at m (handles w2))\<rparr>;
           if cnt (clients w3) = 0 then MQTTClient_terminate others w3 else Some w3
         });
     Some (unlock w4)
   }"

definition MQTTClient_setCallbacks ::
  "addr option \<Rightarrow> bool \<Rightarrow> bool \<Rightarrow> bool \<Rightarrow> ('s, 'm) mqtt_scheme \<Rightarrow> (int \<times> ('s, 'm) mqtt_scheme) option" where
  "MQTTClient_setCallbacks handle has_cl has_ma has_dc w0 = do {
     let w = lock w0;
     (rc, w1) \<leftarrow> (case handle of None \<Rightarrow> Some (MQTTCLIENT_FAILURE, w)
       | Some m \<Rightarrow>
           if \<not> has_ma then Some (MQTTCLIENT_FAILURE, w)
           else do {
             (c, client) \<leftarrow> client_of m w;
             if connect_state client \<noteq> 0 then Some (MQTTCLIENT_FAILURE, w)
             else Some (MQTTCLIENT_SUCCESS, upd_handle m (\<lambda>h. h\<lparr>m_cl := has_cl, m_ma := has_ma, m_dc := has_dc\<rparr>) w)
           });
     Some (rc, unlock w1)
   }"

definition MQTTClient_isConnected ::
  "addr option \<Rightarrow> ('s, 'm) mqtt_scheme \<Rightarrow> (int \<times> ('s, 'm) mqtt_scheme) option" where
  "MQTTClient_isConnected handle w0 = do {
     let w = lock w0;
     rc \<leftarrow> (case handle of None \<Rightarrow> Some 0 | Some m \<Rightarrow> map_option (\<lambda>(_, client). connected client) (client_of m w));
     Some (rc, unlock w)
   }"

subsection \<open>Connecting\<close>

record MQTTClient_willOptions =
  wo_struct_id :: string
  wo_struct_version :: int
  wo_topicName :: "byte list"
  wo_message :: "byte list"
  wo_retained :: int
  wo_qos :: int

text \<open>\<^verbatim>\<open>serverURIs\<close> with \<^verbatim>\<open>serverURIcount\<close> elements; the members for TLS are left out.\<close>

record MQTTClient_connectOptions =
  co_struct_id :: string
  co_struct_version :: int
  co_keepAliveInterval :: int
  co_cleansession :: int
  co_reliable :: int
  co_will :: "MQTTClient_willOptions option"
  co_username :: "byte list option"
  co_password :: "byte list option"
  co_connectTimeout :: int
  co_retryInterval :: int
  co_serverURIs :: "string list"
  co_MQTTVersion :: int
  co_returned :: "(string \<times> int \<times> int) option"

text \<open>
  After CONNACK with return code 0: the session starts, and the messages in flight are sent again.
\<close>

definition resend_all ::
  "('s, 'm) others \<Rightarrow> addr \<Rightarrow> int \<Rightarrow> ('s, 'm) mqtt_scheme \<Rightarrow> (int \<times> ('s, 'm) mqtt_scheme) option" where
  "resend_all others c rc w = do {
     client \<leftarrow> get_client c w;
     if cnt (outboundMsgs client) > 0 then do {
       let w1 = upd_client c (\<lambda>cl. cl\<lparr>outboundMsgs := (outboundMsgs cl)\<lparr>items :=
             map (map_prod id (\<lambda>m. m\<lparr>m_lastTouch := 0\<rparr>)) (items (outboundMsgs cl))\<rparr>\<rparr>) w;
       w2 \<leftarrow> MQTTProtocol_retry (MQTTProtocol_closeSession others) 0 True True w1;
       client \<leftarrow> get_client c w2;
       Some (if connected client \<noteq> 1 then MQTTCLIENT_DISCONNECTED else rc, w2)
     } else Some (rc, w)
   }"

definition session_started ::
  "('s, 'm) others \<Rightarrow> addr \<Rightarrow> ('s, 'm) mqtt_scheme \<Rightarrow> (int \<times> ('s, 'm) mqtt_scheme) option" where
  "session_started others c w = do {
     let w1 = upd_client c (\<lambda>cl. cl\<lparr>connected := 1, good := 1, connect_state := 0\<rparr>) w;
     client \<leftarrow> get_client c w1;
     (rc, w2) \<leftarrow> (if cleansession client \<noteq> 0 then MQTTClient_cleanSession c w1 else Some (MQTTCLIENT_SUCCESS, w1));
     resend_all others c rc w2
   }"

text \<open>The function up to its label \<^verbatim>\<open>exit\<close>: the completion code and \<^verbatim>\<open>sessionPresent\<close>.\<close>

definition connect_start_thread ::
  "('s, 'm) others \<Rightarrow> addr \<Rightarrow> int \<Rightarrow> ('s, 'm) mqtt_scheme \<Rightarrow> (bool \<times> ('s, 'm) mqtt_scheme) option" where
  "connect_start_thread others m timeout w = do {
     h \<leftarrow> get_handle m w;
     if m_ma h \<and> \<not> running w then
       let (elapsed, w1) = MQTTClient_elapsed (w\<lparr>threads := threads w @ [RunThread]\<rparr>)
       in if elapsed \<ge> timeout then Some (False, w1) else map_option (Pair True) (others w1)
     else Some (True, w)
   }"

definition connect_tcp ::
  "('s, 'm) others \<Rightarrow> addr \<Rightarrow> addr \<Rightarrow> int \<Rightarrow> int \<Rightarrow> ('s, 'm) mqtt_scheme \<Rightarrow> (int \<times> ('s, 'm) mqtt_scheme) option" where
  "connect_tcp others m c version timeout w = do {
     let (elapsed, w1) = MQTTClient_elapsed (unlock w);
     ((rc, _), w2) \<leftarrow> MQTTClient_waitfor others (Some m) CONNECT 0 (timeout - elapsed) w1;
     let w3 = lock w2;
     if rc \<noteq> 0 then Some (SOCKET_ERROR, w3)
     else do {
       (rc, w4) \<leftarrow> MQTTPacket_send_connect c version (upd_client c (\<lambda>cl. cl\<lparr>connect_state := 3\<rparr>) w3);
       Some (if rc = SOCKET_ERROR then SOCKET_ERROR else 0, w4)
     }
   }"

definition connect_connack ::
  "('s, 'm) others \<Rightarrow> addr \<Rightarrow> addr \<Rightarrow> int \<Rightarrow> int \<Rightarrow> int \<Rightarrow> ('s, 'm) mqtt_scheme \<Rightarrow>
     ((int \<times> int) \<times> ('s, 'm) mqtt_scheme) option" where
  "connect_connack others m c version rc timeout w = do {
     let (elapsed, w1) = MQTTClient_elapsed (unlock w);
     ((rc, pack), w2) \<leftarrow> MQTTClient_waitfor others (Some m) CONNACK rc (timeout - elapsed) w1;
     let w3 = lock w2;
     case pack of
       None \<Rightarrow> Some ((SOCKET_ERROR, 0), w3)
     | Some (PkConnack connack) \<Rightarrow> do {
         (rc, w4) \<leftarrow> (if c_rc connack = MQTTCLIENT_SUCCESS then session_started others c w3
                      else Some (c_rc connack, w3));
         Some ((rc, if c_rc connack = MQTTCLIENT_SUCCESS \<and> version = 4 then sessionPresent connack else 0),
           upd_handle m (\<lambda>h. h\<lparr>m_pack := None\<rparr>) w4)
       }
     | _ \<Rightarrow> None
   }"

definition connect_version ::
  "('s, 'm) others \<Rightarrow> addr \<Rightarrow> string \<Rightarrow> int \<Rightarrow> int \<Rightarrow> ('s, 'm) mqtt_scheme \<Rightarrow>
     ((int \<times> int) \<times> ('s, 'm) mqtt_scheme) option" where
  "connect_version others m uri version timeout w = do {
     (started, w1) \<leftarrow> connect_start_thread others m timeout w;
     if \<not> started then Some ((SOCKET_ERROR, 0), w1)
     else do {
       (c, _) \<leftarrow> client_of m w1;
       (rc, w2) \<leftarrow> MQTTProtocol_connect uri c version w1;
       client \<leftarrow> get_client c w2;
       if rc = SOCKET_ERROR then Some ((rc, 0), w2)
       else if connect_state client = 0 then Some ((SOCKET_ERROR, 0), w2)
       else do {
         (rc, w3) \<leftarrow> (if connect_state client = 1 then connect_tcp others m c version timeout w2 else Some (rc, w2));
         client \<leftarrow> get_client c w3;
         if rc = SOCKET_ERROR then Some ((rc, 0), w3)
         else if connect_state client = 3 then connect_connack others m c version rc timeout w3
         else Some ((rc, 0), w3)
       }
     }
   }"

definition MQTTClient_connectURIVersion ::
  "('s, 'm) others \<Rightarrow> addr \<Rightarrow> MQTTClient_connectOptions \<Rightarrow> string \<Rightarrow> int \<Rightarrow> int \<Rightarrow> ('s, 'm) mqtt_scheme \<Rightarrow>
     ((int \<times> MQTTClient_connectOptions) \<times> ('s, 'm) mqtt_scheme) option" where
  "MQTTClient_connectURIVersion others m options uri version timeout w = do {
     ((rc, sp), w1) \<leftarrow> connect_version others m uri version timeout w;
     if rc = MQTTCLIENT_SUCCESS
     then Some ((rc, if co_struct_version options = 4 then options\<lparr>co_returned := Some (uri, version, sp)\<rparr>
                     else options), w1)
     else do {
       (_, w2) \<leftarrow> MQTTClient_disconnect1 others (Some m) 0 False (version = 3) (unlock w1);
       Some ((rc, options), lock w2)
     }
   }"

text \<open>The client's copy of the will, \<^verbatim>\<open>MQTTStrdup\<close> of its two strings.\<close>

definition copy_will :: "MQTTClient_willOptions \<Rightarrow> willMessages option" where
  "copy_will wo = do {
     msg \<leftarrow> MQTTStrdup (wo_message wo);
     t \<leftarrow> MQTTStrdup (wo_topicName wo);
     Some \<lparr>w_topic = t, w_msg = msg, w_retained = wo_retained wo, w_qos = wo_qos wo\<rparr>
   }"

definition set_options ::
  "MQTTClient_connectOptions \<Rightarrow> addr \<Rightarrow> ('s, 'm) mqtt_scheme \<Rightarrow> ('s, 'm) mqtt_scheme option" where
  "set_options options c w = do {
     wl \<leftarrow> (case co_will options of
         None \<Rightarrow> Some None
       | Some wo \<Rightarrow> if wo_struct_version wo = 0 then map_option Some (copy_will wo) else Some None);
     Some (upd_client c (\<lambda>cl. cl\<lparr>keepAliveInterval := co_keepAliveInterval options,
       cleansession := co_cleansession options,
       maxInflightMessages := (if co_reliable options \<noteq> 0 then 1 else 10), will := wl,
       username := co_username options, password := co_password options,
       retryInterval := co_retryInterval options\<rparr>) w)
   }"

definition MQTTClient_connectURI ::
  "('s, 'm) others \<Rightarrow> addr \<Rightarrow> MQTTClient_connectOptions \<Rightarrow> string \<Rightarrow> ('s, 'm) mqtt_scheme \<Rightarrow>
     ((int \<times> MQTTClient_connectOptions) \<times> ('s, 'm) mqtt_scheme) option" where
  "MQTTClient_connectURI others m options uri w = do {
     (c, _) \<leftarrow> client_of m w;
     let timeout = co_connectTimeout options * 1000;
     w1 \<leftarrow> set_options options c w;
     let version = (if co_struct_version options \<ge> 3 then co_MQTTVersion options else MQTTVERSION_DEFAULT);
     if version = MQTTVERSION_DEFAULT then do {
       ((rc, options), w2) \<leftarrow> MQTTClient_connectURIVersion others m options uri 4 timeout w1;
       if rc \<noteq> MQTTCLIENT_SUCCESS
       then MQTTClient_connectURIVersion others m options uri 3 timeout w2
       else Some ((rc, options), w2)
     }
     else MQTTClient_connectURIVersion others m options uri version timeout w1
   }"

text \<open>The server addresses in turn until one works; \<open>rc\<close> is the result of the last one tried.\<close>

fun connect_uris ::
  "('s, 'm) others \<Rightarrow> addr \<Rightarrow> MQTTClient_connectOptions \<Rightarrow> int \<Rightarrow> string list \<Rightarrow> ('s, 'm) mqtt_scheme \<Rightarrow>
     ((int \<times> MQTTClient_connectOptions) \<times> ('s, 'm) mqtt_scheme) option" where
  "connect_uris others m options rc [] w = Some ((rc, options), w)"
| "connect_uris others m options rc (uri # uris) w = do {
     ((rc, options), w1) \<leftarrow> MQTTClient_connectURI others m options (skip_scheme uri) w;
     if rc = MQTTCLIENT_SUCCESS then Some ((rc, options), w1) else connect_uris others m options rc uris w1
   }"

text \<open>What is wrong with the options, \<^verbatim>\<open>MQTTCLIENT_SUCCESS\<close> when nothing is.\<close>

definition check_options :: "MQTTClient_connectOptions \<Rightarrow> int option" where
  "check_options options =
     (if take 4 (co_struct_id options) \<noteq> ''MQTC'' \<or>
         co_struct_version options \<notin> {0, 1, 2, 3, 4} then Some MQTTCLIENT_BAD_STRUCTURE
      else if (\<exists>wo\<in>set_option (co_will options).
           take 4 (wo_struct_id wo) \<noteq> ''MQTW'' \<or> wo_struct_version wo \<noteq> 0) then Some MQTTCLIENT_BAD_STRUCTURE
      else do {
        u \<leftarrow> valid_string (co_username options);
        p \<leftarrow> (if u then valid_string (co_password options) else Some False);
        Some (if u \<and> p then MQTTCLIENT_SUCCESS else MQTTCLIENT_BAD_UTF8_STRING)
      })"

text \<open>The will is freed at the end, its two strings are not.  A NULL handle is dereferenced.\<close>

definition MQTTClient_connect ::
  "('s, 'm) others \<Rightarrow> addr option \<Rightarrow> MQTTClient_connectOptions option \<Rightarrow> ('s, 'm) mqtt_scheme \<Rightarrow>
     ((int \<times> MQTTClient_connectOptions option) \<times> ('s, 'm) mqtt_scheme) option" where
  "MQTTClient_connect others handle opts w0 = do {
     m \<leftarrow> handle;
     let w = lock w0;
     ((rc, opts1), w1) \<leftarrow> (case opts of
         None \<Rightarrow> Some ((MQTTCLIENT_NULL_PARAMETER, opts), w)
       | Some options \<Rightarrow> do {
           bad \<leftarrow> check_options options;
           if bad \<noteq> MQTTCLIENT_SUCCESS then Some ((bad, opts), w)
           else do {
             h \<leftarrow> get_handle m w;
             ((rc, options1), w1) \<leftarrow>
               (if co_struct_version options < 2 \<or> co_serverURIs options = []
                then MQTTClient_connectURI others m options (m_serverURI h) w
                else connect_uris others m options SOCKET_ERROR (co_serverURIs options) w);
             Some ((rc, Some options1), w1)
           }
         });
     (c, _) \<leftarrow> client_of m w1;
     Some ((rc, opts1), unlock (upd_client c (\<lambda>cl. cl\<lparr>will := None\<rparr>) w1))
   }"

subsection \<open>Subscribing\<close>

text \<open>
  SUBACK: its return codes are written over the caller's array from the start on, however many
  there are.
\<close>

definition write_qos :: "int list \<Rightarrow> int list \<Rightarrow> int list option" where
  "write_qos reqqos qs = (if length reqqos \<le> length qs then Some (reqqos @ drop (length reqqos) qs) else None)"

definition subscribe_wait ::
  "('s, 'm) others \<Rightarrow> addr \<Rightarrow> addr \<Rightarrow> int list \<Rightarrow> ('s, 'm) mqtt_scheme \<Rightarrow>
     ((int \<times> int list) \<times> ('s, 'm) mqtt_scheme) option" where
  "subscribe_wait others m c qs w = do {
     ((rc, pack), w1) \<leftarrow> MQTTClient_waitfor others (Some m) SUBACK TCPSOCKET_COMPLETE 10000 (unlock w);
     let w2 = lock w1;
     case pack of
       None \<Rightarrow> Some ((SOCKET_ERROR, qs), w2)
     | Some (PkSuback sub) \<Rightarrow> do {
         qs1 \<leftarrow> write_qos (contents (qoss sub)) qs;
         client \<leftarrow> get_client c w2;
         (rc, w3) \<leftarrow> MQTTProtocol_handleSubacks sub (net_socket client) w2;
         Some ((rc, qs1), upd_handle m (\<lambda>h. h\<lparr>m_pack := None\<rparr>) w3)
       }
     | _ \<Rightarrow> None
   }"

text \<open>\<^verbatim>\<open>if (rc == SOCKET_ERROR)\<close>, with the mutex free\<close>

definition disconnect_on_error ::
  "('s, 'm) others \<Rightarrow> addr \<Rightarrow> int \<Rightarrow> ('s, 'm) mqtt_scheme \<Rightarrow> ('s, 'm) mqtt_scheme option" where
  "disconnect_on_error others m rc w = (if rc = SOCKET_ERROR
     then map_option (\<lambda>r. lock (snd r)) (MQTTClient_disconnect_internal others (Some m) (unlock w))
     else Some w)"

text \<open>\<open>topics\<close> and \<open>qs\<close> are arrays of \<^verbatim>\<open>count\<close> elements; the result has \<open>qs\<close> as it is on return.\<close>

definition MQTTClient_subscribeMany ::
  "('s, 'm) others \<Rightarrow> addr option \<Rightarrow> byte list list \<Rightarrow> int list \<Rightarrow> ('s, 'm) mqtt_scheme \<Rightarrow>
     ((int \<times> int list) \<times> ('s, 'm) mqtt_scheme) option" where
  "MQTTClient_subscribeMany others handle topics qs w0 = do {
     let w = lock w0;
     ((rc, qs1), w1) \<leftarrow> (case handle of
         None \<Rightarrow> Some ((MQTTCLIENT_FAILURE, qs), w)
       | Some m \<Rightarrow> do {
           (c, client) \<leftarrow> client_of m w;
           if connected client = 0 then Some ((MQTTCLIENT_DISCONNECTED, qs), w)
           else do {
             bad \<leftarrow> check_topics topics qs;
             if bad \<noteq> MQTTCLIENT_SUCCESS then Some ((bad, qs), w)
             else do {
               (msgid, w1) \<leftarrow> MQTTProtocol_assignMsgId c w;
               if msgid = 0 then Some ((MQTTCLIENT_MAX_MESSAGES_INFLIGHT, qs), w1)
               else do {
                 (rc, w2) \<leftarrow> MQTTProtocol_subscribe c (list_of (\<lambda>t. int (strlen t)) topics)
                               (list_of (\<lambda>_. 4) (take (length topics) qs)) msgid w1;
                 ((rc, qs1), w3) \<leftarrow> (if rc = TCPSOCKET_COMPLETE then subscribe_wait others m c qs w2
                                   else Some ((rc, qs), w2));
                 w4 \<leftarrow> disconnect_on_error others m rc w3;
                 Some ((if rc = TCPSOCKET_COMPLETE then MQTTCLIENT_SUCCESS else rc, qs1), w4)
               }
             }
           }
         });
     Some ((rc, qs1), unlock w1)
   }"

definition MQTTClient_subscribe ::
  "('s, 'm) others \<Rightarrow> addr option \<Rightarrow> byte list \<Rightarrow> int \<Rightarrow> ('s, 'm) mqtt_scheme \<Rightarrow> (int \<times> ('s, 'm) mqtt_scheme) option" where
  "MQTTClient_subscribe others handle t qos w = do {
     ((rc, qs), w1) \<leftarrow> MQTTClient_subscribeMany others handle [t] [qos] w;
     Some (if qs = [MQTT_BAD_SUBSCRIBE] then MQTT_BAD_SUBSCRIBE else rc, w1)
   }"

definition MQTTClient_unsubscribeMany ::
  "('s, 'm) others \<Rightarrow> addr option \<Rightarrow> byte list list \<Rightarrow> ('s, 'm) mqtt_scheme \<Rightarrow>
     (int \<times> ('s, 'm) mqtt_scheme) option" where
  "MQTTClient_unsubscribeMany others handle topics w0 = do {
     let w = lock w0;
     (rc, w1) \<leftarrow> (case handle of
         None \<Rightarrow> Some (MQTTCLIENT_FAILURE, w)
       | Some m \<Rightarrow> do {
           (c, client) \<leftarrow> client_of m w;
           if connected client = 0 then Some (MQTTCLIENT_DISCONNECTED, w)
           else do {
             bad \<leftarrow> check_topics topics (map (\<lambda>_. 0) topics);
             if bad \<noteq> MQTTCLIENT_SUCCESS then Some (bad, w)
             else do {
               (msgid, w1) \<leftarrow> MQTTProtocol_assignMsgId c w;
               if msgid = 0 then Some (MQTTCLIENT_MAX_MESSAGES_INFLIGHT, w1)
               else do {
                 (rc, w2) \<leftarrow> MQTTProtocol_unsubscribe c (list_of (\<lambda>t. int (strlen t)) topics) msgid w1;
                 (rc, w3) \<leftarrow> (if rc = TCPSOCKET_COMPLETE then do {
                     ((rc, pack), w3) \<leftarrow> MQTTClient_waitfor others (Some m) UNSUBACK rc 10000 (unlock w2);
                     let w4 = lock w3;
                     case pack of
                       None \<Rightarrow> Some (SOCKET_ERROR, w4)
                     | Some (PkAck unsuback) \<Rightarrow> do {
                         client \<leftarrow> get_client c w4;
                         (rc, w5) \<leftarrow> MQTTProtocol_handleUnsubacks unsuback (net_socket client) w4;
                         Some (rc, upd_handle m (\<lambda>h. h\<lparr>m_pack := None\<rparr>) w5)
                       }
                     | _ \<Rightarrow> None
                   } else Some (rc, w2));
                 w4 \<leftarrow> disconnect_on_error others m rc w3;
                 Some (rc, w4)
               }
             }
           }
         });
     Some (rc, unlock w1)
   }"

definition MQTTClient_unsubscribe ::
  "('s, 'm) others \<Rightarrow> addr option \<Rightarrow> byte list \<Rightarrow> ('s, 'm) mqtt_scheme \<Rightarrow> (int \<times> ('s, 'm) mqtt_scheme) option" where
  "MQTTClient_unsubscribe others handle t w = MQTTClient_unsubscribeMany others handle [t] w"

subsection \<open>Publishing\<close>

text \<open>Waiting until there is room in the outbound list and no write is pending: whether it got there.\<close>

partial_function (option) publish_wait ::
  "('s, 'm) others \<Rightarrow> addr \<Rightarrow> ('s, 'm) mqtt_scheme \<Rightarrow> (bool \<times> ('s, 'm) mqtt_scheme) option" where
  "publish_wait others c w =
     Option.bind (get_client c w) (\<lambda>client.
       case (if cnt (outboundMsgs client) \<ge> maxInflightMessages client then (False, w)
             else Socket_noPendingWrites (net_socket client) w) of
         (room, w1) \<Rightarrow>
           if room then Some (True, w1)
           else Option.bind (yield_unlocked others w1) (\<lambda>w2.
             Option.bind (get_client c w2) (\<lambda>client.
               if connected client = 0 then Some (False, w2) else publish_wait others c w2)))"

declare publish_wait.simps [code]

text \<open>Waiting until the rest of the packet is written.\<close>

partial_function (option) write_wait ::
  "('s, 'm) others \<Rightarrow> addr \<Rightarrow> ('s, 'm) mqtt_scheme \<Rightarrow> ('s, 'm) mqtt_scheme option" where
  "write_wait others c w =
     Option.bind (get_client c w) (\<lambda>client.
       if connected client = 1 then
         (case SocketBuffer_getWrite (net_socket client) w of
            (None, w1) \<Rightarrow> Some w1
          | (Some _, w1) \<Rightarrow> Option.bind (yield_unlocked others w1) (write_wait others c))
       else Some w)"

declare write_wait.simps [code]

text \<open>
  The part after the message id is known.  The application's token is read through \<^verbatim>\<open>msg\<close>, the message
  in the outbound list: when it was acknowledged and freed while the function waited for the write,
  that is undefined.  The header and \<^verbatim>\<open>topiclen\<close> of the \<^verbatim>\<open>Publish\<close> are not initialised.
\<close>

definition publish_start ::
  "('s, 'm) others \<Rightarrow> addr \<Rightarrow> addr \<Rightarrow> byte list \<Rightarrow> int \<Rightarrow> byte list \<Rightarrow> int \<Rightarrow> int \<Rightarrow> bool \<Rightarrow> int \<Rightarrow>
     ('s, 'm) mqtt_scheme \<Rightarrow> ((int \<times> int option) \<times> ('s, 'm) mqtt_scheme) option" where
  "publish_start others m c topicName plen pl qos retained want_token msgid w = do {
     client \<leftarrow> get_client c w;
     let msg = cl_fresh (outboundMsgs client);
     let p = \<lparr>p_header = byte_of (junk_int w), topic = Some topicName, topiclen = junk_int w, msgId = msgid,
              payload = pl, payloadlen = plen, topic_heap = False\<rparr>;
     ((rc, _), w1) \<leftarrow> MQTTProtocol_startPublish c p qos retained None w;
     (rc, w2) \<leftarrow> (if rc = TCPSOCKET_INTERRUPTED then do {
         w2 \<leftarrow> write_wait others c w1;
         client \<leftarrow> get_client c w2;
         Some (if qos > 0 \<or> connected client = 1 then MQTTCLIENT_SUCCESS else MQTTCLIENT_FAILURE, w2)
       } else Some (rc, w1));
     token \<leftarrow> (if want_token \<and> qos > 0 then do {
         client \<leftarrow> get_client c w2;
         mm \<leftarrow> map_of (items (outboundMsgs client)) msg;
         Some (Some (m_msgid mm))
       } else Some None);
     w3 \<leftarrow> disconnect_on_error others m rc w2;
     Some ((if rc = SOCKET_ERROR then (if qos > 0 then MQTTCLIENT_SUCCESS else MQTTCLIENT_FAILURE) else rc,
            token), w3)
   }"

text \<open>The result: the completion code and \<^verbatim>\<open>*deliveryToken\<close> when it is written.\<close>

definition MQTTClient_publish ::
  "('s, 'm) others \<Rightarrow> addr option \<Rightarrow> byte list \<Rightarrow> int \<Rightarrow> byte list \<Rightarrow> int \<Rightarrow> int \<Rightarrow> bool \<Rightarrow>
     ('s, 'm) mqtt_scheme \<Rightarrow> ((int \<times> int option) \<times> ('s, 'm) mqtt_scheme) option" where
  "MQTTClient_publish others handle topicName plen pl qos retained want_token w0 = do {
     let w = lock w0;
     ((rc, token), w1) \<leftarrow> (case handle of
         None \<Rightarrow> Some ((MQTTCLIENT_FAILURE, None), w)
       | Some m \<Rightarrow> do {
           (c, client) \<leftarrow> client_of m w;
           if connected client = 0 then Some ((MQTTCLIENT_DISCONNECTED, None), w)
           else do {
             valid \<leftarrow> UTF8_validateString topicName;
             if valid = 0 then Some ((MQTTCLIENT_BAD_UTF8_STRING, None), w)
             else do {
               (room, w1) \<leftarrow> publish_wait others c w;
               if \<not> room then Some ((MQTTCLIENT_FAILURE, None), w1)
               else do {
                 (msgid, w2) \<leftarrow> (if qos > 0 then MQTTProtocol_assignMsgId c w1 else Some (0, w1));
                 if qos > 0 \<and> msgid = 0 then Some ((MQTTCLIENT_MAX_MESSAGES_INFLIGHT, None), w2)
                 else publish_start others m c topicName plen pl qos retained want_token msgid w2
               }
             }
           }
         });
     Some ((rc, token), unlock w1)
   }"

record MQTTClient_message =
  cm_struct_id :: string
  cm_struct_version :: int
  cm_payloadlen :: int
  cm_payload :: "byte list"
  cm_qos :: int
  cm_retained :: int

definition MQTTClient_publishMessage ::
  "('s, 'm) others \<Rightarrow> addr option \<Rightarrow> byte list \<Rightarrow> MQTTClient_message option \<Rightarrow> bool \<Rightarrow>
     ('s, 'm) mqtt_scheme \<Rightarrow> ((int \<times> int option) \<times> ('s, 'm) mqtt_scheme) option" where
  "MQTTClient_publishMessage others handle topicName message want_token w = (case message of
     None \<Rightarrow> Some ((MQTTCLIENT_NULL_PARAMETER, None), w)
   | Some msg \<Rightarrow>
       if take 4 (cm_struct_id msg) \<noteq> ''MQTM'' \<or> cm_struct_version msg \<noteq> 0
       then Some ((MQTTCLIENT_BAD_STRUCTURE, None), w)
       else MQTTClient_publish others handle topicName (cm_payloadlen msg) (cm_payload msg) (cm_qos msg)
              (cm_retained msg) want_token w)"

subsection \<open>Receiving\<close>

text \<open>The \<^verbatim>\<open>do\<close> loop; it breaks on an error of the handle's own socket.\<close>

partial_function (option) receive_loop ::
  "('s, 'm) others \<Rightarrow> addr \<Rightarrow> int \<Rightarrow> int \<Rightarrow> ('s, 'm) mqtt_scheme \<Rightarrow> (int \<times> ('s, 'm) mqtt_scheme) option" where
  "receive_loop others m timeout rc w =
     Option.bind (MQTTClient_cycle others rc w) (\<lambda>((sock, rc, pack), w1).
       case (if rc = SOCKET_ERROR then find_handle sock w1 else (None, w1)) of (found, w2) \<Rightarrow>
         if found = Some m then Some (rc, w2)
         else case MQTTClient_elapsed w2 of (elapsed, w3) \<Rightarrow>
           Option.bind (client_of m w3) (\<lambda>(c, client).
             if elapsed < timeout \<and> cnt (messageQueue client) = 0
             then receive_loop others m timeout rc w3 else Some (rc, w3)))"

declare receive_loop.simps [code]

text \<open>The result: the completion code, and the topic, its length and the message when there is one.\<close>

definition MQTTClient_receive ::
  "('s, 'm) others \<Rightarrow> addr option \<Rightarrow> int \<Rightarrow> ('s, 'm) mqtt_scheme \<Rightarrow>
     ((int \<times> (byte list \<times> int \<times> MQTTPersistence_message) option) \<times> ('s, 'm) mqtt_scheme) option" where
  "MQTTClient_receive others handle timeout w = (case handle of
     None \<Rightarrow> Some ((MQTTCLIENT_FAILURE, None), w)
   | Some m \<Rightarrow> do {
       (c, client) \<leftarrow> client_of m w;
       if connected client = 0 then Some ((MQTTCLIENT_DISCONNECTED, None), w)
       else do {
         let timeout = (if cnt (messageQueue client) > 0 then 0 else timeout);
         (rc, w1) \<leftarrow> receive_loop others m timeout TCPSOCKET_COMPLETE (snd (MQTTClient_elapsed w));
         client \<leftarrow> get_client c w1;
         (rc, message, w2) \<leftarrow> (if cnt (messageQueue client) > 0 then do {
             ((rc, message), w2) \<leftarrow> MQTTClient_deliverMessage rc c w1;
             Some (rc, Some message, w2)
           } else Some (rc, None, w1));
         w3 \<leftarrow> (if rc = SOCKET_ERROR then map_option snd (MQTTClient_disconnect_internal others (Some m) w2)
                else Some w2);
         Some ((rc, message), w3)
       }
     })"

subsection \<open>Tokens\<close>

partial_function (option) completion_loop ::
  "('s, 'm) others \<Rightarrow> addr \<Rightarrow> int \<Rightarrow> int \<Rightarrow> int \<Rightarrow> ('s, 'm) mqtt_scheme \<Rightarrow>
     (int \<times> ('s, 'm) mqtt_scheme) option" where
  "completion_loop others c mdt timeout elapsed w =
     (if elapsed < timeout then
        Option.bind (yield_unlocked others w) (\<lambda>w1.
          Option.bind (find_outbound mdt c w1) (\<lambda>(found, w2).
            if found = None then Some (MQTTCLIENT_SUCCESS, w2)
            else case MQTTClient_elapsed w2 of (elapsed, w3) \<Rightarrow> completion_loop others c mdt timeout elapsed w3))
      else Some (MQTTCLIENT_FAILURE, w))"

declare completion_loop.simps [code]

definition MQTTClient_waitForCompletion ::
  "('s, 'm) others \<Rightarrow> addr option \<Rightarrow> int \<Rightarrow> int \<Rightarrow> ('s, 'm) mqtt_scheme \<Rightarrow> (int \<times> ('s, 'm) mqtt_scheme) option" where
  "MQTTClient_waitForCompletion others handle mdt timeout w0 = do {
     let w = lock w0;
     (rc, w1) \<leftarrow> (case handle of
         None \<Rightarrow> Some (MQTTCLIENT_FAILURE, w)
       | Some m \<Rightarrow> do {
           (c, client) \<leftarrow> client_of m w;
           if connected client = 0 then Some (MQTTCLIENT_DISCONNECTED, w)
           else do {
             (found, w1) \<leftarrow> find_outbound mdt c w;
             if found = None then Some (MQTTCLIENT_SUCCESS, w1)
             else (case MQTTClient_elapsed w1 of (elapsed, w2) \<Rightarrow> completion_loop others c mdt timeout elapsed w2)
           }
         });
     Some (rc, unlock w1)
   }"

text \<open>The array ends with -1; no array is made when nothing is in flight.\<close>

definition MQTTClient_getPendingDeliveryTokens ::
  "addr option \<Rightarrow> ('s, 'm) mqtt_scheme \<Rightarrow> ((int \<times> int list option) \<times> ('s, 'm) mqtt_scheme) option" where
  "MQTTClient_getPendingDeliveryTokens handle w0 = do {
     let w = lock w0;
     (rc, tokens) \<leftarrow> (case handle of
         None \<Rightarrow> Some (MQTTCLIENT_FAILURE, None)
       | Some m \<Rightarrow> do {
           (c, client) \<leftarrow> client_of m w;
           Some (MQTTCLIENT_SUCCESS,
             if cnt (outboundMsgs client) > 0 then Some (map m_msgid (contents (outboundMsgs client)) @ [-1])
             else None)
         });
     Some ((rc, tokens), unlock w)
   }"

end
