(* ===== verification/Session.thy ===== *)
theory Session
  imports ClientApi Inbound
begin

text \<open>
  Facts about the client's sessions: the message queue takes every QoS 2 message exactly once, and
  what closing a session leaves.
\<close>

subsection \<open>The message queue\<close>

text \<open>What the application can see of a message, in the packet and in the queue.\<close>

definition given :: "Publish \<Rightarrow> int \<times> byte list \<times> int \<times> byte list" where
  "given p = (msgId p, the (topic p), topiclen p, take (nat (payloadlen p)) (payload p))"

definition entry :: "MQTTPersistence_qEntry \<Rightarrow> int \<times> byte list \<times> int \<times> byte list" where
  "entry qe = (pm_msgid (qe_msg qe), qe_topicName qe, qe_topicLen qe,
     take (nat (pm_payloadlen (qe_msg qe))) (pm_payload (qe_msg qe)))"

definition queue_entries :: "('s, 'm) app_view \<Rightarrow> (int \<times> byte list \<times> int \<times> byte list) list" where
  "queue_entries v = (case snd v of None \<Rightarrow> [] | Some (q, _) \<Rightarrow> map entry (contents q))"

definition no_store :: "('s, 'm) app_view \<Rightarrow> bool" where
  "no_store v \<longleftrightarrow> (\<forall>q per. snd v = Some (q, per) \<longrightarrow> per = None)"

lemma processPublication_hook:
  "hook_ok no_store Protocol_processPublication given queue_entries sock c"
proof -
  have "\<exists>w'. Protocol_processPublication p c w = Some w' \<and> hands_over sock c w w' \<and> no_store (app_view c w') \<and>
      queue_entries (app_view c w') = queue_entries (app_view c w) @ [given p]"
    if p: "deliverable p" and ok: "inbound_ok sock c w" and pre: "no_store (app_view c w)"
    for p and w :: "('b, 'a) proto_scheme"
  proof -
    from ok obtain cl where cl: "get_client c w = Some cl" by (auto simp: inbound_ok_def)
    with pre have ns: "persistence cl = None" by (simp add: no_store_def app_view_def)
    from p obtain t where t: "topic p = Some t" "header_qos (p_header p) = 2" by (auto simp: deliverable_def)
    let ?qe = "\<lparr>qe_msg = queued_message p (payload p), qe_topicName = t, qe_topicLen = topiclen p, qe_seqno = junk_int w\<rparr>"
    let ?f = "\<lambda>l. cl_append l (cl_fresh (messageQueue cl)) ?qe (16 + payloadlen p + int (strlen t) + 1)"
    let ?w' = "upd_client c (\<lambda>cl. cl\<lparr>messageQueue := ?f (messageQueue cl)\<rparr>) w"
    have run: "Protocol_processPublication p c w = Some ?w'"
      using cl t ns by (simp add: Protocol_processPublication_def)
    have g: "get_client c ?w' = Some (cl\<lparr>messageQueue := ?f (messageQueue cl)\<rparr>)"
      using cl by (simp add: get_upd_client)
    have "owns sock c w \<longrightarrow> owns sock c ?w'" by (intro impI owns_upd_client) simp_all
    then have "hands_over sock c w ?w'" using cl g by (simp add: hands_over_def)
    moreover have "no_store (app_view c ?w')" using g ns by (simp add: no_store_def app_view_def)
    moreover have "queue_entries (app_view c ?w') = queue_entries (app_view c w) @ [given p]"
      using g cl t by (simp add: queue_entries_def app_view_def cl_append_def entry_def given_def queued_message_def)
    ultimately show ?thesis using run by blast
  qed
  then show ?thesis unfolding hook_ok_def by blast
qed

text \<open>The inbox over the client's own queue.\<close>

interpretation queue: simulation "in_step Protocol_processPublication sock" "in_spec given" in_ok
    "in_rep no_store given queue_entries sock c"
  for sock :: int and c :: addr
  by (rule in_simulation) (rule processPublication_hook)

subsection \<open>Closing a session\<close>

definition single :: "('s, 'm) proto_scheme \<Rightarrow> Messages list \<Rightarrow> bool" where
  "single w ms \<longleftrightarrow> distinct (map m_publish ms) \<and> (\<forall>m\<in>set ms. map_option refcount (pubs w (m_publish m)) = Some 1)"

lemma remove_publications_defined:
  assumes "single w (ms @ ms')"
  shows "\<exists>w'. remove_publications ms w = Some w' \<and> clients w' = clients w \<and> single w' ms' \<and>
    pubs w' = (\<lambda>a. if a \<in> m_publish ` set ms then None else pubs w a) \<and> proto.more w' = proto.more w"
  using assms
proof (induction ms arbitrary: w)
  case (Cons m ms)
  from Cons.prems obtain p where p: "pubs w (m_publish m) = Some p" "refcount p = 1" by (auto simp: single_def)
  let ?w1 = "w\<lparr>pubs := (pubs w)(m_publish m := None),
    publications := snd (cl_unlink (\<lambda>x. x = m_publish m) (publications w))\<rparr>"
  have r: "MQTTProtocol_removePublication (m_publish m) w = Some ?w1"
    using p by (simp add: MQTTProtocol_removePublication_def)
  have n: "m_publish m \<notin> m_publish ` set (ms @ ms')" using Cons.prems by (auto simp: single_def)
  have "map_option refcount (pubs ?w1 (m_publish x)) = Some 1" if "x \<in> set (ms @ ms')" for x
    using that n Cons.prems by (auto simp: single_def rev_image_eqI)
  then have "single ?w1 (ms @ ms')" using Cons.prems by (simp add: single_def)
  from Cons.IH [OF this] obtain w' where w': "remove_publications ms ?w1 = Some w'" "clients w' = clients ?w1"
    "single w' ms'" "pubs w' = (\<lambda>a. if a \<in> m_publish ` set ms then None else pubs ?w1 a)"
    "proto.more w' = proto.more ?w1" by blast
  have "pubs w' = (\<lambda>a. if a \<in> m_publish ` set (m # ms) then None else pubs w a)"
    using w'(4) by (auto simp: fun_eq_iff)
  then show ?case using r w'(1-3,5) by simp
qed simp

text \<open>What closing leaves of a client whose session is kept, and of one that starts clean.\<close>

definition session_ok :: "addr \<Rightarrow> ('s, 'm) proto_scheme \<Rightarrow> bool" where
  "session_ok c w \<longleftrightarrow> (\<exists>cl. get_client c w = Some cl \<and> (persistence cl \<noteq> None \<longrightarrow> phandle cl \<noteq> None) \<and>
     single w (contents (inboundMsgs cl) @ contents (outboundMsgs cl)))"

definition session_kept :: "('s, 'm) proto_scheme \<Rightarrow> 's Clients \<Rightarrow> ('s, 'm) proto_scheme \<Rightarrow> 's Clients \<Rightarrow> bool" where
  "session_kept w cl w' cl' \<longleftrightarrow> items (inboundMsgs cl') = items (inboundMsgs cl) \<and>
     items (outboundMsgs cl') = items (outboundMsgs cl) \<and> messageQueue cl' = messageQueue cl \<and>
     msgID cl' = msgID cl \<and> pubs w' = pubs w"

definition session_gone :: "('s, 'm) proto_scheme \<Rightarrow> 's Clients \<Rightarrow> ('s, 'm) proto_scheme \<Rightarrow> 's Clients \<Rightarrow> bool" where
  "session_gone w cl w' cl' \<longleftrightarrow> contents (inboundMsgs cl') = [] \<and> contents (outboundMsgs cl') = [] \<and>
     (cnt (messageQueue cl) > 0 \<longrightarrow> messageQueue cl' = cl_empty) \<and> msgID cl' = 0 \<and>
     pubs w' = (\<lambda>a. if a \<in> m_publish ` set (contents (inboundMsgs cl) @ contents (outboundMsgs cl)) then None
                   else pubs w a)"

lemma get_client_emptyQueue:
  "get_client c (MQTTClient_emptyMessageQueue c w) =
     map_option (\<lambda>cl. if cnt (messageQueue cl) > 0 then cl\<lparr>messageQueue := cl_empty\<rparr> else cl) (get_client c w)"
  by (simp add: MQTTClient_emptyMessageQueue_def get_upd_client)

lemma cleanSession_result:
  assumes "get_client c w = Some cl" "persistence cl \<noteq> None \<longrightarrow> phandle cl \<noteq> None"
    "single w (contents (inboundMsgs cl) @ contents (outboundMsgs cl))"
  obtains rc w' cl' where "MQTTClient_cleanSession c w = Some (rc, w')" "get_client c w' = Some cl'"
    "session_gone w cl w' cl'" "net_socket cl' = net_socket cl" "connected cl' = connected cl"
    "connect_state cl' = connect_state cl" "good cl' = good cl" "proto.more w' = proto.more w"
proof -
  obtain rc w1 where w1: "MQTTPersistence_clear c w = Some (rc, w1)"
    using with_store_defined [OF assms(1,2), of pclear] by (auto simp: MQTTPersistence_clear_def)
  then have q: "quiet w w1" by (auto simp: MQTTPersistence_clear_def intro: with_store_quiet)
  from quiet_clients [OF q assms(1)] obtain cl1 where cl1: "get_client c w1 = Some cl1" "quiet_client cl cl1" .
  note qf = quiet_client_fields [OF cl1(2)] and qw = quiet_fields [OF q]
  have "single w1 (contents (inboundMsgs cl1) @ contents (outboundMsgs cl1))"
    using assms(3) qf(7,8) qw(2) by (simp add: single_def)
  then obtain w2 where w2: "remove_publications (contents (inboundMsgs cl1)) w1 = Some w2" "clients w2 = clients w1"
    "single w2 (contents (outboundMsgs cl1) @ [])"
    "pubs w2 = (\<lambda>a. if a \<in> m_publish ` set (contents (inboundMsgs cl1)) then None else pubs w1 a)"
    "proto.more w2 = proto.more w1" using remove_publications_defined by fastforce
  from remove_publications_defined [OF w2(3)] obtain w3 where w3:
    "remove_publications (contents (outboundMsgs cl1)) w2 = Some w3" "clients w3 = clients w2"
    "pubs w3 = (\<lambda>a. if a \<in> m_publish ` set (contents (outboundMsgs cl1)) then None else pubs w2 a)"
    "proto.more w3 = proto.more w2" by blast
  let ?w4 = "upd_client c (\<lambda>cl. cl\<lparr>inboundMsgs := cl_empty, outboundMsgs := cl_empty\<rparr>) w3"
  let ?w' = "upd_client c (\<lambda>cl. cl\<lparr>msgID := 0\<rparr>) (MQTTClient_emptyMessageQueue c ?w4)"
  have run: "MQTTClient_cleanSession c w = Some (rc, ?w')"
    using w1 cl1(1) w2(1) w3(1) by (simp add: MQTTClient_cleanSession_def MQTTProtocol_emptyMessageList_def Let_def)
  have g3: "get_client c w3 = Some cl1" using cl1(1) w2(2) w3(2) by (simp add: get_client_def)
  let ?cl4 = "cl1\<lparr>inboundMsgs := cl_empty, outboundMsgs := cl_empty\<rparr>"
  let ?cl5 = "if cnt (messageQueue cl1) > 0 then ?cl4\<lparr>messageQueue := cl_empty\<rparr> else ?cl4"
  have g: "get_client c ?w' = Some (?cl5\<lparr>msgID := 0\<rparr>)"
    using g3 by (simp add: get_upd_client get_client_emptyQueue)
  have p: "pubs ?w' = pubs w3" "proto.more ?w' = proto.more w3" by (simp_all add: MQTTClient_emptyMessageQueue_def)
  have "session_gone w cl ?w' (?cl5\<lparr>msgID := 0\<rparr>)"
    unfolding session_gone_def p(1) w3(3) w2(4) using qf(6-8) qw(2) by (auto simp: fun_eq_iff cl_empty_def)
  moreover have "connect_state cl1 = connect_state cl" using qf(13) .
  ultimately show thesis
    using that [OF run g] qf(1,3,4) p(2) w3(4) w2(5) qw(7) by simp
qed

lemma cleanup_more: "sockets.more (SocketBuffer_cleanup s w) = sockets.more w" for w :: "'m sockets_scheme"
  by (simp add: SocketBuffer_cleanup_def Let_def split: prod.split)

lemma socket_close_more: "sockets.more (Socket_close s w) = sockets.more w"
  by (simp add: Socket_close_def Let_def cleanup_more split: option.split)

lemma send_disconnect_defined:
  assumes "get_client c w = Some cl"
  shows "\<exists>rc w'. MQTTPacket_send_disconnect c w = Some (rc, w') \<and> quiet w w'"
proof -
  have "header_type (mk_header DISCONNECT 0 0 0) \<noteq> PUBREL" by (simp add: msgTypes_defs)
  moreover obtain rc w' where "Socket_putdatas (net_socket cl) (mk_header DISCONNECT 0 0 0 # MQTTPacket_encode 0)
      [[]] [False] w = Some (rc, w')" using putdatas_defined [of "[[]]" "[False]"] by fastforce
  ultimately have "\<exists>rc w'. MQTTPacket_send_disconnect c w = Some (rc, w')"
    using assms by (simp add: MQTTPacket_send_disconnect_def MQTTPacket_send_def Let_def)
  then show ?thesis unfolding MQTTPacket_send_disconnect_def by (blast intro: send_quiet)
qed

text \<open>The end of a connection, in both clients: DISCONNECT is sent and the socket closed.\<close>

lemma close_socket_result:
  assumes g1: "get_client c w1 = Some cl" and ns: "ns = net_socket cl" and co: "co = connected cl"
  obtains w2 cl2 where "(if ns > 0 then do {
         (_, w2) \<leftarrow> (if co \<noteq> 0 then MQTTPacket_send_disconnect c w1 else Some (0, w1));
         let w3 = Socket_close ns w2;
         Some (upd_client c (\<lambda>cl. cl\<lparr>net_socket := 0\<rparr>) w3)
       } else Some w1) = Some w2"
    "get_client c w2 = Some cl2" "quiet_client cl (cl2\<lparr>net_socket := net_socket cl\<rparr>)" "net_socket cl2 \<le> 0"
    "pubs w2 = pubs w1" "proto.more w2 = proto.more w1" "addrs (clients w2) = addrs (clients w1)"
proof (cases "net_socket cl > 0")
  case True
  obtain rc w2 where s: "(if connected cl \<noteq> 0 then MQTTPacket_send_disconnect c w1 else Some (0, w1)) = Some (rc, w2)"
    "quiet w1 w2"
  proof (cases "connected cl \<noteq> 0")
    case True
    with send_disconnect_defined [OF g1] that show thesis by auto
  next
    case False
    with that [of 0 w1] show thesis by simp
  qed
  let ?w3 = "Socket_close (net_socket cl) w2"
  have "quiet w2 ?w3" by (rule quiet_sockets) (rule socket_close_more)
  with s(2) have q: "quiet w1 ?w3" by (rule quiet_trans)
  from quiet_clients [OF q g1] obtain cl3 where cl3: "get_client c ?w3 = Some cl3" "quiet_client cl cl3" .
  have "cl3\<lparr>net_socket := net_socket cl\<rparr> = cl3" using quiet_client_fields(1) [OF cl3(2)] by simp
  with True s(1) cl3 quiet_fields(2,7) [OF q] quiet_addrs [OF q] show thesis
    by (intro that [of "upd_client c (\<lambda>cl. cl\<lparr>net_socket := 0\<rparr>) ?w3" "cl3\<lparr>net_socket := 0\<rparr>"])
      (simp_all add: get_upd_client ns co, simp add: upd_client_def)
next
  case False
  with g1 show thesis by (intro that [of w1 cl]) (simp_all add: ns)
qed

lemma closeSession_result:
  assumes "get_client c w = Some cl" "session_ok c w"
  obtains w' cl' where "MQTTClient_closeSession c w = Some w'" "get_client c w' = Some cl'"
    "connected cl' = 0" "connect_state cl' = 0" "good cl' = 0" "net_socket cl' \<le> 0"
    "if cleansession cl \<noteq> 0 then session_gone w cl w' cl' else session_kept w cl w' cl'"
    "proto.more w' = proto.more w"
proof -
  let ?f1 = "\<lambda>cl. cl\<lparr>good := 0, ping_outstanding := 0\<rparr>"
  let ?w1 = "upd_client c ?f1 w"
  have g1: "get_client c ?w1 = Some (?f1 cl)" using assms(1) by (simp add: get_upd_client)
  obtain w2 cl2 where w2: "(if net_socket cl > 0 then do {
         (_, w2) \<leftarrow> (if connected cl \<noteq> 0 then MQTTPacket_send_disconnect c ?w1 else Some (0, ?w1));
         let w3 = Socket_close (net_socket cl) w2;
         Some (upd_client c (\<lambda>cl. cl\<lparr>net_socket := 0\<rparr>) w3)
       } else Some ?w1) = Some w2"
    "get_client c w2 = Some cl2" "quiet_client (?f1 cl) (cl2\<lparr>net_socket := net_socket cl\<rparr>)" "net_socket cl2 \<le> 0"
    "pubs w2 = pubs w" "proto.more w2 = proto.more w"
    by (rule close_socket_result [OF g1, of "net_socket cl" "connected cl"]) simp_all
  note qf = quiet_client_fields [OF w2(3), simplified]
  let ?f4 = "\<lambda>cl. cl\<lparr>connected := 0, connect_state := 0\<rparr>"
  let ?w4 = "upd_client c ?f4 w2"
  have g4: "get_client c ?w4 = Some (?f4 cl2)" using w2(2) by (simp add: get_upd_client)
  have f1: "net_socket (?f1 cl) = net_socket cl" "connected (?f1 cl) = connected cl"
    "cleansession (?f1 cl) = cleansession cl" by simp_all
  have run: "MQTTClient_closeSession c w =
      (if cleansession cl \<noteq> 0 then map_option snd (MQTTClient_cleanSession c ?w4) else Some ?w4)"
    by (simp only: MQTTClient_closeSession_def Let_def g1 Option.bind.simps f1 w2(1) [unfolded Let_def])
  show thesis
  proof (cases "cleansession cl \<noteq> 0")
    case True
    have "single ?w4 (contents (inboundMsgs (?f4 cl2)) @ contents (outboundMsgs (?f4 cl2)))"
      "persistence (?f4 cl2) \<noteq> None \<longrightarrow> phandle (?f4 cl2) \<noteq> None"
      using assms qf w2(5) by (auto simp: session_ok_def single_def)
    from cleanSession_result [OF g4 this(2,1)] obtain rc w' cl' where c: "MQTTClient_cleanSession c ?w4 = Some (rc, w')"
      "get_client c w' = Some cl'" "session_gone ?w4 (?f4 cl2) w' cl'" "net_socket cl' = net_socket (?f4 cl2)"
      "connected cl' = connected (?f4 cl2)" "connect_state cl' = connect_state (?f4 cl2)" "good cl' = good (?f4 cl2)"
      "proto.more w' = proto.more ?w4" .
    have p4: "pubs ?w4 = pubs w" using w2(5) by simp
    have "session_gone w cl w' cl'" using c(3) qf unfolding session_gone_def p4 by simp
    with True run c qf w2(4,6) show thesis by (intro that [of w' cl']) simp_all
  next
    case False
    have "session_kept w cl ?w4 (?f4 cl2)" using qf w2(5) by (simp add: session_kept_def)
    with False run g4 qf w2(4,6) show thesis by (intro that [of ?w4 "?f4 cl2"]) simp_all
  qed
qed

subsection \<open>Disconnecting\<close>

lemma more_fields:
  fixes w w' :: "('s, 'm) mqtt_scheme"
  assumes "proto.more w' = proto.more w"
  shows "handles w' = handles w" "threads w' = threads w" "running w' = running w" "tostop w' = tostop w"
    "mutex w' = mutex w" "os_clock w' = os_clock w" "completed w' = completed w" "arrived w' = arrived w"
  using assms by (cases w; cases w'; simp)+

lemma client_views [simp]:
  "get_client c (w\<lparr>mutex := b\<rparr>) = get_client c w" "get_client c (w\<lparr>handles := hs\<rparr>) = get_client c w"
  "get_client c (w\<lparr>threads := ts\<rparr>) = get_client c w" "get_client c (w\<lparr>arrived := xs\<rparr>) = get_client c w"
  "get_client c (w\<lparr>os_arrived := ys\<rparr>) = get_client c w"
  by (simp_all add: get_client_def)

lemma handle_views [simp]:
  "get_handle m (w\<lparr>mutex := b\<rparr>) = get_handle m w" "get_handle m (upd_client c f w) = get_handle m w"
  "get_handle m (w\<lparr>threads := ts\<rparr>) = get_handle m w"
  by (simp_all add: get_handle_def upd_client_def)

lemma elapsed_frame:
  assumes "MQTTClient_elapsed w = (e, w')"
  shows "clients w' = clients w" "pubs w' = pubs w" "handles w' = handles w" "threads w' = threads w"
    "running w' = running w" "mutex w' = mutex w"
  using assms by (auto simp: MQTTClient_elapsed_def split: list.splits)

lemma drain_frame:
  "get_client c (drain_sem s m w) = get_client c w" "pubs (drain_sem s m w) = pubs w"
  "running (drain_sem s m w) = running w" "threads (drain_sem s m w) = threads w"
  "map_option m_cl (get_handle n (drain_sem s m w)) = map_option m_cl (get_handle n w)"
  by (cases s; auto simp: drain_sem_def upd_handle_def get_handle_def map_of_update option.map_comp comp_def
      intro: option.map_cong)+

lemma session_ok_cong:
  "get_client c w' = Some (cl\<lparr>connect_state := s\<rparr>) \<Longrightarrow> get_client c w = Some cl \<Longrightarrow> pubs w' = pubs w \<Longrightarrow>
     session_ok c w \<Longrightarrow> session_ok c w'"
  by (simp add: session_ok_def single_def)

lemma disconnect_result:
  assumes "get_handle m w = Some h" "get_client (m_c h) w = Some cl" "connected cl \<noteq> 0 \<or> connect_state cl \<noteq> 0"
    "session_ok (m_c h) w" "\<not> running w"
  obtains w' cl' where "MQTTClient_disconnect_internal others (Some m) w = Some (MQTTCLIENT_SUCCESS, w')"
    "get_client (m_c h) w' = Some cl'" "connected cl' = 0" "connect_state cl' = 0" "good cl' = 0" "net_socket cl' \<le> 0"
    "if cleansession cl \<noteq> 0 then session_gone w cl w' cl' else session_kept w cl w' cl'"
    "threads w' = (if m_cl h \<and> connected cl \<noteq> 0 then threads w @ [ConnectionLost m] else threads w)" "\<not> mutex w'"
proof -
  let ?c = "m_c h"
  let ?w0 = "w\<lparr>mutex := True\<rparr>"
  define w1 where "w1 = (if connected cl \<noteq> 0
     then (let w2 = upd_client ?c (\<lambda>cl. cl\<lparr>connect_state := -2\<rparr>) ?w0 in
       if in_flight_count cl then snd (MQTTClient_elapsed w2) else w2) else ?w0)"
  have wait: "(if connected cl \<noteq> 0 then no_wait ?c 0 (upd_client ?c (\<lambda>cl. cl\<lparr>connect_state := -2\<rparr>) ?w0)
      else Some ?w0) = Some w1"
    using assms(2) by (simp add: no_wait_def w1_def get_upd_client in_flight_count_def)
  obtain s where cl1: "get_client ?c w1 = Some (cl\<lparr>connect_state := s\<rparr>)" "pubs w1 = pubs w" "handles w1 = handles w"
    "threads w1 = threads w" "running w1 = running w" "mutex w1"
  proof (cases "connected cl \<noteq> 0")
    case True
    let ?w2 = "upd_client ?c (\<lambda>cl. cl\<lparr>connect_state := -2\<rparr>) ?w0"
    have 2: "get_client ?c ?w2 = Some (cl\<lparr>connect_state := -2\<rparr>)" "pubs ?w2 = pubs w" "handles ?w2 = handles w"
      "threads ?w2 = threads w" "running ?w2 = running w" "mutex ?w2"
      using assms(2) by (simp_all add: get_upd_client) (simp_all add: upd_client_def)
    obtain e w3 where 3: "MQTTClient_elapsed ?w2 = (e, w3)" by force
    note fr = elapsed_frame [OF 3]
    have "get_client ?c w3 = get_client ?c ?w2" using fr(1) by (simp add: get_client_def)
    with 2 3 fr True that [of "-2"] show thesis by (simp add: w1_def Let_def split: if_splits)
  next
    case False
    with assms(2) that [of "connect_state cl"] show thesis by (simp add: w1_def)
  qed
  have "session_ok ?c w1" by (rule session_ok_cong [OF cl1(1) assms(2) cl1(2) assms(4)])
  from closeSession_result [OF cl1(1) this] obtain w2 cl' where w2: "MQTTClient_closeSession ?c w1 = Some w2"
    "get_client ?c w2 = Some cl'" "connected cl' = 0" "connect_state cl' = 0" "good cl' = 0" "net_socket cl' \<le> 0"
    "if cleansession (cl\<lparr>connect_state := s\<rparr>) \<noteq> 0 then session_gone w1 (cl\<lparr>connect_state := s\<rparr>) w2 cl'
     else session_kept w1 (cl\<lparr>connect_state := s\<rparr>) w2 cl'"
    "proto.more w2 = proto.more w1" .
  note mf = more_fields [OF w2(8)]
  define w3 where "w3 = drain_sem UnsubackSem m (drain_sem SubackSem m (drain_sem ConnackSem m (drain_sem ConnectSem m w2)))"
  have 3: "get_client ?c w3 = Some cl'" "pubs w3 = pubs w2" "running w3 = running w" "threads w3 = threads w"
    using w2(2) mf cl1 by (simp_all add: w3_def drain_frame)
  have "map_option m_cl (get_handle m w3) = Some (m_cl h)"
    using assms(1) mf(1) cl1(3) by (simp add: w3_def drain_frame) (simp add: get_handle_def)
  then obtain h' where h': "get_handle m w3 = Some h'" "m_cl h' = m_cl h" by auto
  let ?w4 = "if m_cl h \<and> connected cl \<noteq> 0 then w3\<lparr>threads := threads w3 @ [ConnectionLost m]\<rparr> else w3"
  have stop: "MQTTClient_stop others w3 = Some w3" using 3(3) assms(5) by (simp add: MQTTClient_stop_def)
  have g0: "client_of m ?w0 = Some (?c, cl)" using assms(1,2) by (simp add: client_of_def)
  have run: "MQTTClient_disconnect_internal others (Some m) w = Some (MQTTCLIENT_SUCCESS, ?w4\<lparr>mutex := False\<rparr>)"
  proof (cases "connected cl \<noteq> 0")
    case True
    then show ?thesis using g0 wait w2(1) stop h'
      by (simp add: MQTTClient_disconnect_internal_def disconnect1_with_def w3_def [symmetric])
  next
    case False
    then show ?thesis using g0 assms(3) wait w2(1) stop h'
      by (simp add: MQTTClient_disconnect_internal_def disconnect1_with_def Let_def w3_def [symmetric])
  qed
  have "if cleansession cl \<noteq> 0 then session_gone w cl (?w4\<lparr>mutex := False\<rparr>) cl'
      else session_kept w cl (?w4\<lparr>mutex := False\<rparr>) cl'"
    using w2(7) 3(2) unfolding session_gone_def session_kept_def cl1(2) by (simp split: if_splits)
  with run w2(3-6) 3(1,4) show thesis by (intro that [of "?w4\<lparr>mutex := False\<rparr>" cl']) simp_all
qed

subsection \<open>An example\<close>

text \<open>
  A connected client on socket 5 and its handle, a network that delivers the given bytes, and a
  \<^verbatim>\<open>select\<close> that reports the socket ready ten times.
\<close>

definition example_client :: "'s Clients" where
  "example_client = zero_client\<lparr>clientID := [0x63, 0], connected := 1, good := 1, net_socket := 5,
     maxInflightMessages := 10\<rparr>"

definition example_mqtt :: "byte list \<Rightarrow> 's mqtt" where
  "example_mqtt bs = zero_mqtt\<lparr>clients := cl_add cl_empty example_client 0,
     handles := cl_add cl_empty (new_handle ''h:1'' 1) 96, initialized := True,
     clientsds := cl_add cl_empty 5 4, rset_saved := {5}, maxfdp1 := 6,
     os_select := replicate 10 (SelectReady {5}), os_recv := (\<lambda>s. if s = 5 then [RecvData bs] else [])\<rparr>"

lemma example_views:
  "get_handle 1 (example_mqtt bs) = Some (new_handle ''h:1'' 1)" "get_client 1 (example_mqtt bs) = Some example_client"
  "running (example_mqtt bs) = False" "session_ok 1 (example_mqtt bs)"
  by (simp_all add: example_mqtt_def zero_mqtt_def get_handle_def get_client_def cl_add_def cl_append_def cl_empty_def
      cl_fresh_def session_ok_def example_client_def zero_client_def single_def)

lemma example_ok: "inbound_ok 5 1 (example_mqtt bs)"
  by (auto simp: inbound_ok_def owns_def example_mqtt_def zero_mqtt_def example_client_def zero_client_def
      get_client_def cl_add_def cl_append_def cl_empty_def cl_fresh_def cl_wf_def inbound_client_def)

subsection \<open>Properties\<close>





end
