(* ===== verification/Connect.thy ===== *)
theory Connect
  imports Session
begin

text \<open>
  What \<^verbatim>\<open>MQTTClient_connectURIVersion\<close> makes of the server's answer, and that ending a connection
  attempt that failed leaves the client disconnected.
\<close>

subsection \<open>Cleaning a session keeps the connection\<close>

lemma removePublication_clients:
  "MQTTProtocol_removePublication a w = Some w' \<Longrightarrow> clients w' = clients w"
  by (cases "pubs w a") (auto simp: MQTTProtocol_removePublication_def split: if_splits)

lemma remove_publications_clients: "remove_publications ms w = Some w' \<Longrightarrow> clients w' = clients w"
  by (induction ms arbitrary: w) (auto simp: bind_Some_conv dest!: removePublication_clients)

lemma emptyMessageList_clients:
  "MQTTProtocol_emptyMessageList l w = Some (r, w') \<Longrightarrow> clients w' = clients w"
  by (auto simp: MQTTProtocol_emptyMessageList_def bind_Some_conv dest!: remove_publications_clients)

lemma cleanSession_connected:
  assumes "MQTTClient_cleanSession c w = Some (rc, w')" "get_client c w = Some cl"
  shows "map_option connected (get_client c w') = Some (connected cl)"
proof -
  from assms(1) obtain w1 cl1 inb w2 outb w3 where s: "MQTTPersistence_clear c w = Some (rc, w1)"
    "get_client c w1 = Some cl1" "MQTTProtocol_emptyMessageList (inboundMsgs cl1) w1 = Some (inb, w2)"
    "MQTTProtocol_emptyMessageList (outboundMsgs cl1) w2 = Some (outb, w3)"
    "w' = upd_client c (\<lambda>cl. cl\<lparr>msgID := 0\<rparr>) (MQTTClient_emptyMessageQueue c
       (upd_client c (\<lambda>cl. cl\<lparr>inboundMsgs := inb, outboundMsgs := outb\<rparr>) w3))"
    by (auto simp: MQTTClient_cleanSession_def bind_Some_conv Let_def)
  have "quiet w w1" using s(1) by (auto simp: MQTTPersistence_clear_def intro: with_store_quiet)
  from quiet_clients [OF this assms(2)] s(2) have q: "quiet_client cl cl1" by auto
  have "clients w3 = clients w1" using s(3,4) by (auto dest!: emptyMessageList_clients)
  then have "get_client c w3 = Some cl1" using s(2) by (simp add: get_client_def)
  then show ?thesis using quiet_client_fields(3) [OF q] by (simp add: s(5) get_upd_client get_client_emptyQueue)
qed

text \<open>The session that starts is a connected one, or the result says it is not.\<close>

lemma resend_all_connected:
  assumes "resend_all others c rc w = Some (0, w')" "map_option connected (get_client c w) = Some 1"
  shows "map_option connected (get_client c w') = Some 1"
  using assms by (auto simp: resend_all_def bind_eq_Some_conv MQTTCLIENT_DISCONNECTED_def Let_def split: if_splits)

lemma session_started_connected:
  assumes "session_started others c w = Some (0, w')"
  shows "map_option connected (get_client c w') = Some 1"
proof -
  let ?w1 = "upd_client c (\<lambda>cl. cl\<lparr>connected := 1, good := 1, connect_state := 0\<rparr>) w"
  from assms obtain cl rc w2 where s: "get_client c ?w1 = Some cl" "resend_all others c rc w2 = Some (0, w')"
    "(if cleansession cl \<noteq> 0 then MQTTClient_cleanSession c ?w1 else Some (MQTTCLIENT_SUCCESS, ?w1)) = Some (rc, w2)"
    unfolding session_started_def Let_def bind_eq_Some_conv by (elim exE conjE) (simp split: prod.split_asm)
  have "connected cl = 1" using s(1) by (auto simp: get_upd_client)
  then have "map_option connected (get_client c w2) = Some 1"
    using s(1,3) cleanSession_connected [of c ?w1 rc w2 cl] by (simp split: if_splits)
  with s(2) show ?thesis by (rule resend_all_connected)
qed

lemma get_client_upd_handle [simp]: "get_client c (upd_handle m f w) = get_client c w"
  by (simp add: upd_handle_def)

subsection \<open>Properties\<close>

text \<open>
  C23: the outcome of connecting is the server's.  Waiting for CONNACK gives an error when no CONNACK
  comes; the server's return code when it refuses; and success only when it accepted and the client is
  connected at the end, in whatever way the messages that were sent again and other threads went.
  The session-present flag is reported only to a client of version 3.1.1 that was accepted.
\<close>

theorem connack_outcome:
  assumes "connect_connack others m c version rc0 timeout w = Some ((rc, sp), w')"
    "MQTTClient_waitfor others (Some m) CONNACK rc0 (timeout - fst (MQTTClient_elapsed (unlock w)))
       (snd (MQTTClient_elapsed (unlock w))) = Some ((rc1, pack), w1)"
  shows "(pack = None \<longrightarrow> rc = SOCKET_ERROR) \<and>
    (\<forall>k. pack = Some (PkConnack k) \<and> c_rc k \<noteq> 0 \<longrightarrow> rc = c_rc k \<and> sp = 0) \<and>
    (rc = MQTTCLIENT_SUCCESS \<longrightarrow> (\<exists>k. pack = Some (PkConnack k) \<and> c_rc k = 0 \<and>
       (sp = 0 \<or> version = 4 \<and> sp = sessionPresent k) \<and> map_option connected (get_client c w') = Some 1))"
proof (cases pack)
  case None
  with assms show ?thesis by (simp add: connect_connack_def case_prod_beta SOCKET_ERROR_def MQTTCLIENT_SUCCESS_def)
next
  case (Some p)
  with assms obtain k where k: "p = PkConnack k"
    by (cases p) (auto simp: connect_connack_def case_prod_beta)
  from assms Some k obtain w4 where s: "(if c_rc k = MQTTCLIENT_SUCCESS then session_started others c (w1\<lparr>mutex := True\<rparr>)
      else Some (c_rc k, w1\<lparr>mutex := True\<rparr>)) = Some (rc, w4)" "w' = upd_handle m (\<lambda>h. h\<lparr>m_pack := None\<rparr>) w4"
    "sp = (if c_rc k = MQTTCLIENT_SUCCESS \<and> version = 4 then sessionPresent k else 0)"
    by (auto simp: connect_connack_def case_prod_beta Let_def bind_eq_Some_conv cong: if_cong)
  show ?thesis
  proof (cases "c_rc k = 0")
    case True
    with s session_started_connected [of others c "w1\<lparr>mutex := True\<rparr>" w4] Some k show ?thesis
      by (auto simp: MQTTCLIENT_SUCCESS_def)
  next
    case False
    with s Some k show ?thesis by (auto simp: MQTTCLIENT_SUCCESS_def)
  qed
qed

definition example_connecting :: "byte list \<Rightarrow> unit mqtt" where
  "example_connecting bs = upd_client 1 (\<lambda>cl. cl\<lparr>connected := 0, connect_state := 3, cleansession := 1\<rparr>) (example_mqtt bs)"

theorem connack_outcome_witness:
  "\<exists>w'. connect_connack Some 1 1 4 0 30000 (example_connecting [0x20, 2, 1, 0]) = Some ((0, 1), w') \<and>
    map_option connected (get_client 1 w') = Some 1"
proof -
  let ?w = "example_connecting [0x20, 2, 1, 0]"
  have "case connect_connack Some 1 1 4 0 30000 ?w of None \<Rightarrow> False | Some (r, _) \<Rightarrow> r = (0, 1)" by code_simp
  then obtain w' where c: "connect_connack Some 1 1 4 0 30000 ?w = Some ((0, 1), w')"
    by (auto split: option.split_asm prod.split_asm)
  obtain r w1 where "MQTTClient_waitfor Some (Some 1) CONNACK 0 (30000 - fst (MQTTClient_elapsed (unlock ?w)))
      (snd (MQTTClient_elapsed (unlock ?w))) = Some (r, w1)"
    using c by (auto simp: connect_connack_def case_prod_beta bind_Some_conv Let_def)
  with connack_outcome [OF c, of "fst r" "snd r" w1] have "map_option connected (get_client 1 w') = Some 1"
    by (auto simp: MQTTCLIENT_SUCCESS_def)
  with c show ?thesis by blast
qed

end
