(* ===== verification/ClientErrors.thy ===== *)
theory ClientErrors
  imports Session
begin

text \<open>
  What the client does wrong on input it does not control: packets that make it read or write outside
  its memory, a callback that loses its place in the store, a mutex that is freed under its holder.
\<close>

subsection \<open>Packets that are too short or too long\<close>

lemma handlePublishes_negative:
  assumes "payloadlen p < 0" "header_qos (p_header p) = 1 \<or> header_qos (p_header p) = 2"
  shows "MQTTProtocol_handlePublishes Protocol_processPublication p sock w = None"
proof -
  have 1: "Protocol_processPublication p c v = None" if "header_qos (p_header p) = 1" for c and v :: "('a, 'b) proto_scheme"
    using assms(1) that by (simp add: Protocol_processPublication_def split: bind_splits)
  have 2: "store_inbound p c v = None" for c and v :: "('a, 'b) proto_scheme"
    using assms(1) by (simp add: store_inbound_def MQTTProtocol_storePublication_def split: bind_splits)
  show ?thesis using assms(2) 1 2
    by (auto simp: MQTTProtocol_handlePublishes_def split: bind_splits)
qed

lemma parse_short_publish:
  assumes "int (length t) = 256 * ubyte hi + ubyte lo" "header_qos h > 0"
  shows "MQTTPacket_publish h (hi # lo # t) (2 + length t) = None"
    "MQTTPacket_publish h (hi # lo # t @ a # b # rest) (2 + length t) =
      Some (Some (PkPublish \<lparr>p_header = h, topic = Some t, topiclen = int (length t),
        msgId = 256 * ubyte a + ubyte b, payload = rest, payloadlen = -2, topic_heap = True\<rparr>))"
  using assms by (simp_all add: MQTTPacket_publish_def readUTFlen_def readInt_def rd_bytes_def rd_def nth_append
      assms(1) [symmetric])

text \<open>
  C25: a PUBLISH without room for its message id is undefined.  When the topic of a QoS 1 or QoS 2
  PUBLISH takes all of the packet, the id is read from behind the packet.  Either that is outside the
  buffer, or the packet is accepted with a payload of -2 bytes, and the handler, which copies that many
  bytes, is undefined too.
\<close>

theorem short_publish_undefined:
  assumes "int (length t) = 256 * ubyte hi + ubyte lo" "header_qos h = 1 \<or> header_qos h = 2"
  shows "MQTTPacket_publish h (hi # lo # t) (2 + length t) = None \<and>
    (\<exists>p. MQTTPacket_publish h (hi # lo # t @ a # b # rest) (2 + length t) = Some (Some (PkPublish p)) \<and>
       payloadlen p = -2 \<and> MQTTProtocol_handlePublishes Protocol_processPublication p sock w = None)"
proof -
  have q: "header_qos h > 0" using assms(2) by auto
  let ?p = "\<lparr>p_header = h, topic = Some t, topiclen = int (length t), msgId = 256 * ubyte a + ubyte b,
    payload = rest, payloadlen = -2, topic_heap = True\<rparr>"
  have "MQTTProtocol_handlePublishes Protocol_processPublication ?p sock w = None"
    using assms(2) by (intro handlePublishes_negative) simp_all
  then show ?thesis using parse_short_publish [OF assms(1) q] by simp
qed

theorem short_publish_undefined_witness:
  "MQTTPacket_publish 0x32 [0, 1, 0x74] 3 = None \<and>
   (\<exists>p. MQTTPacket_publish 0x32 [0, 1, 0x74, 9, 9] 3 = Some (Some (PkPublish p)) \<and> payloadlen p = -2 \<and>
     MQTTProtocol_handlePublishes Protocol_processPublication p 5 (example_mqtt [] :: unit mqtt) = None)"
proof -
  have l: "int (length [0x74::byte]) = 256 * ubyte 0 + ubyte 1" by code_simp
  have q: "header_qos 0x32 = 1 \<or> header_qos 0x32 = 2" by code_simp
  from short_publish_undefined [OF l q, where a = 9 and b = 9 and rest = "[]" and sock = 5 and
      w = "example_mqtt [] :: unit mqtt"]
  show ?thesis by simp
qed

text \<open>
  SUBACK overruns the caller's array.  When \<^verbatim>\<open>MQTTClient_waitfor\<close> returns a SUBACK, its return
  codes are written over the array of requested QoS values from the start on: with no more codes than
  topics the function returns them, with more it writes past the end of the array.
\<close>

theorem suback_overflow:
  assumes "MQTTClient_waitfor others (Some m) SUBACK TCPSOCKET_COMPLETE 10000 (unlock w) = Some ((rc, Some (PkSuback sub)), w1)"
    "get_client c w1 = Some cl" "find_client (net_socket cl) (lock w1) = Some r"
  shows "map_option fst (subscribe_wait others m c qs w) =
    (if length (contents (qoss sub)) \<le> length qs
     then Some (TCPSOCKET_COMPLETE, contents (qoss sub) @ drop (length (contents (qoss sub))) qs) else None)"
  using assms by (cases r) (simp add: subscribe_wait_def write_qos_def MQTTProtocol_handleSubacks_def)

fun suback_in :: "packet option \<Rightarrow> Suback option" where
  "suback_in (Some (PkSuback sub)) = Some sub"
| "suback_in _ = None"

lemma suback_in_iff: "suback_in p = Some sub \<longleftrightarrow> p = Some (PkSuback sub)"
  by (cases p rule: suback_in.cases) auto

theorem suback_overflow_witness:
  "map_option fst (subscribe_wait Some 1 1 [0] (example_mqtt [0x90, 4, 0, 1, 0, 0] :: unit mqtt)) = None"
proof -
  let ?w = "example_mqtt [0x90, 4, 0, 1, 0, 0] :: unit mqtt"
  have "case MQTTClient_waitfor Some (Some 1) SUBACK TCPSOCKET_COMPLETE 10000 (unlock ?w) of
      None \<Rightarrow> False
    | Some ((rc, pack), w1) \<Rightarrow>
        map_option (\<lambda>sub. length (contents (qoss sub))) (suback_in pack) = Some 2 \<and>
        map_option net_socket (get_client 1 w1) = Some 5 \<and> map_option fst (find_client 5 (lock w1)) = Some 1"
    by code_simp
  then obtain rc sub w1 cl r where s: "MQTTClient_waitfor Some (Some 1) SUBACK TCPSOCKET_COMPLETE 10000 (unlock ?w) =
      Some ((rc, Some (PkSuback sub)), w1)" "length (contents (qoss sub)) = 2" "get_client 1 w1 = Some cl"
      "net_socket cl = 5" "find_client 5 (lock w1) = Some r"
    by (auto simp: suback_in_iff split: option.split_asm prod.split_asm)
  from suback_overflow [OF s(1,3), of r "[0]"] s(2,4,5) show ?thesis by simp
qed

subsection \<open>A token read too late\<close>



subsection \<open>Closing while handling packets\<close>

text \<open>
  A keep-alive timeout frees the mutex under its holder.  \<^verbatim>\<open>MQTTClient_cycle\<close> holds the mutex when
  it looks at the keep-alives; when a client's ping was not answered in time its session is closed, and
  after that the mutex is free although \<^verbatim>\<open>MQTTClient_cycle\<close> has not released it.
\<close>

theorem keepalive_frees_mutex:
  assumes "MQTTProtocol_closeSession others c sendwill w = Some w'"
  shows "\<not> mutex w'"
proof -
  from assms obtain r where "disconnect1_with no_wait others (client_context c w) 0 True True w = Some (r, w')"
    by (auto simp: MQTTProtocol_closeSession_def MQTTClient_disconnect_internal_def)
  then show ?thesis by (auto simp: disconnect1_with_def Let_def split: bind_splits prod.splits)
qed

lemma session_ok_mutex: "session_ok c (w\<lparr>mutex := b\<rparr>) = session_ok c w" for w :: "('s, 'm) mqtt_scheme"
  by (simp add: session_ok_def single_def)

theorem keepalive_frees_mutex_witness:
  "\<exists>w'. MQTTProtocol_closeSession Some 1 1 (example_mqtt []\<lparr>mutex := True\<rparr> :: unit mqtt) = Some w' \<and> \<not> mutex w'"
proof -
  let ?w = "example_mqtt []\<lparr>mutex := True\<rparr> :: unit mqtt"
  have c: "client_context 1 ?w = Some 1"
    by (simp add: client_context_def example_mqtt_def cl_add_def cl_append_def cl_empty_def cl_fresh_def new_handle_def)
  have v: "get_handle 1 ?w = Some (new_handle ''h:1'' 1)" "get_client 1 ?w = Some example_client" "\<not> running ?w"
    "session_ok 1 ?w"
    using example_views [of "[]"] by (simp_all add: session_ok_mutex)
  have h: "m_c (new_handle ''h:1'' 1) = 1" "connected (example_client :: unit Clients) \<noteq> 0"
    by (simp_all add: new_handle_def example_client_def)
  from v h obtain w' where "MQTTClient_disconnect_internal Some (Some 1) ?w = Some (MQTTCLIENT_SUCCESS, w')"
    by (metis disconnect_result)
  then have "MQTTProtocol_closeSession Some 1 1 ?w = Some w'" using c by (simp add: MQTTProtocol_closeSession_def)
  with keepalive_frees_mutex [OF this] show ?thesis by blast
qed

subsection \<open>The callback and the store\<close>

text \<open>
  A message given to \<^verbatim>\<open>messageArrived\<close> stays in the store.  When the callback takes the first
  message of the queue, the background thread removes it from the queue and leaves the client's store
  as it is, unlike \<^verbatim>\<open>MQTTClient_receive\<close>; a client created again on the same store gets it again.
\<close>

theorem callback_keeps_record:
  assumes "client_of m w = Some (c, cl)" "items (messageQueue cl) = (a, qe) # q" "a \<notin> fst ` set q"
    "cnt (messageQueue cl) > 0" "os_arrived w = []"
  shows "\<exists>w' cl'. run_deliver m w = Some w' \<and> arrived w' = arrived w @ [(m, qe)] \<and> get_client c w' = Some cl' \<and>
    items (messageQueue cl') = q \<and> persistence cl' = persistence cl \<and> phandle cl' = phandle cl"
proof -
  have g: "get_client c w = Some cl" using assms(1) by (auto simp: client_of_def split: bind_splits)
  let ?f = "\<lambda>cl. cl\<lparr>messageQueue := snd (cl_remove_at a (messageQueue cl))\<rparr>"
  let ?w1 = "w\<lparr>arrived := arrived w @ [(m, qe)], mutex := True\<rparr>"
  have "run_deliver m w = Some (upd_client c ?f ?w1)"
    using assms by (simp add: run_deliver_def call_arrived_def)
  moreover have "get_client c (upd_client c ?f ?w1) = Some (?f cl)" using g by (simp add: get_upd_client)
  moreover have "items (messageQueue (?f cl)) = q"
    using assms(2,3) using del_addr_split [of a "[]" q qe] by (simp add: cl_remove_at_def)
  moreover have "arrived (upd_client c ?f ?w1) = arrived w @ [(m, qe)]" by (simp add: upd_client_def)
  ultimately show ?thesis by simp
qed

text \<open>A client with one message in its queue and a store that keeps nothing.\<close>

definition example_entry :: MQTTPersistence_qEntry where
  "example_entry = \<lparr>qe_msg = \<lparr>pm_payloadlen = 1, pm_payload = [9], pm_qos = 1, pm_retained = 0, pm_dup = 0,
     pm_msgid = 7\<rparr>, qe_topicName = [0x74, 0], qe_topicLen = 1, qe_seqno = 0\<rparr>"

definition example_store :: "unit MQTTClient_persistence" where
  "example_store = \<lparr>popen = (\<lambda>_ _. Some (0, ())), pclose = (\<lambda>_. 0), pput = (\<lambda>_ _ _. (0, ())),
     pget = (\<lambda>_ _. (-2, [])), premove = (\<lambda>_ _. (0, ())), pkeys = (\<lambda>_. (0, [])), pclear = (\<lambda>_. (0, ())),
     pcontainskey = (\<lambda>_ _. -2)\<rparr>"

definition example_queued :: "unit mqtt" where
  "example_queued = upd_client 1 (\<lambda>cl. cl\<lparr>persistence := Some example_store, phandle := Some (),
     messageQueue := cl_add cl_empty example_entry 0\<rparr>) (example_mqtt [])"

theorem callback_keeps_record_witness:
  "\<exists>w' cl'. run_deliver 1 example_queued = Some w' \<and> arrived w' = [(1, example_entry)] \<and>
    get_client 1 w' = Some cl' \<and> items (messageQueue cl') = [] \<and> persistence cl' = Some example_store \<and> phandle cl' = Some ()"
proof -
  let ?cl = "example_client\<lparr>persistence := Some example_store, phandle := Some (),
    messageQueue := cl_add cl_empty example_entry 0\<rparr>"
  have a: "os_arrived example_queued = []" "arrived example_queued = []"
    by (simp_all add: example_queued_def upd_client_def example_mqtt_def zero_mqtt_def)
  have "get_handle 1 (example_mqtt [] :: unit mqtt) = Some (new_handle ''h:1'' 1)"
    "get_client 1 (example_mqtt [] :: unit mqtt) = Some example_client" by (rule example_views)+
  then have "get_handle 1 example_queued = Some (new_handle ''h:1'' 1)" "get_client 1 example_queued = Some ?cl"
    by (simp_all add: example_queued_def get_upd_client)
  then have "client_of 1 example_queued = Some (1, ?cl)" by (simp add: client_of_def new_handle_def)
  from callback_keeps_record [OF this, of 1 example_entry "[]"] a show ?thesis
    by (simp add: cl_add_def cl_append_def cl_empty_def cl_fresh_def)
qed

end
