(* ===== verification/TreeC.thy ===== *)
theory TreeC
  imports CStrings
begin

text \<open>
  \<^verbatim>\<open>Tree.c\<close>: a red-black tree with parent pointers and up to two indexes over the same contents.  Nodes
  live in an explicit store, one function stands for one C function, and following a NULL or dangling
  pointer is \<open>None\<close>.  \<open>'c\<close> is the type of contents, \<open>'k\<close> that of keys.
\<close>

subsection \<open>Data\<close>

text \<open>\<^verbatim>\<open>child[0]\<close> is the left child, \<^verbatim>\<open>child[1]\<close> the right one.\<close>

abbreviation (input) LEFT :: bool where "LEFT \<equiv> False"
abbreviation (input) RIGHT :: bool where "RIGHT \<equiv> True"

record 'c Node =
  n_parent :: "addr option"
  n_child :: "bool \<Rightarrow> addr option"
  n_content :: "'c option"
  n_size :: int
  n_red :: bool

text \<open>A comparison function compares a content with a content or, when its flag is 0, with a key.\<close>

record ('c, 'k) tree_compare =
  cmp_content :: "'c \<Rightarrow> 'c \<Rightarrow> int"
  cmp_key :: "'c \<Rightarrow> 'k \<Rightarrow> int"

record ('c, 'k) Tree =
  t_root :: "nat \<Rightarrow> addr option"
  t_compare :: "nat \<Rightarrow> ('c, 'k) tree_compare"
  t_indexes :: nat
  t_count :: int
  t_size :: int
  t_tracking :: bool
  t_duplicates :: bool
  t_nodes :: "addr \<rightharpoonup> 'c Node"
  t_next :: addr

definition zero_node :: "'c Node" where
  "zero_node = \<lparr>n_parent = None, n_child = (\<lambda>_. None), n_content = None, n_size = 0, n_red = False\<rparr>"

subsection \<open>Access\<close>

definition upd_node :: "addr \<Rightarrow> ('c Node \<Rightarrow> 'c Node) \<Rightarrow> ('c, 'k, 'm) Tree_scheme \<Rightarrow> ('c, 'k, 'm) Tree_scheme option" where
  "upd_node a f w = (case t_nodes w a of None \<Rightarrow> None | Some n \<Rightarrow> Some (w\<lparr>t_nodes := (t_nodes w)(a \<mapsto> f n)\<rparr>))"

abbreviation set_parent :: "addr option \<Rightarrow> 'c Node \<Rightarrow> 'c Node" where
  "set_parent p n \<equiv> n\<lparr>n_parent := p\<rparr>"

abbreviation set_child :: "bool \<Rightarrow> addr option \<Rightarrow> 'c Node \<Rightarrow> 'c Node" where
  "set_child d p n \<equiv> n\<lparr>n_child := (n_child n)(d := p)\<rparr>"

abbreviation set_red :: "bool \<Rightarrow> 'c Node \<Rightarrow> 'c Node" where
  "set_red b n \<equiv> n\<lparr>n_red := b\<rparr>"

abbreviation set_root :: "nat \<Rightarrow> addr option \<Rightarrow> ('c, 'k, 'm) Tree_scheme \<Rightarrow> ('c, 'k, 'm) Tree_scheme" where
  "set_root i p w \<equiv> w\<lparr>t_root := (t_root w)(i := p)\<rparr>"

definition isRed :: "addr option \<Rightarrow> ('c, 'k, 'm) Tree_scheme \<Rightarrow> bool option" where
  "isRed p w = (case p of None \<Rightarrow> Some False | Some a \<Rightarrow> map_option n_red (t_nodes w a))"

definition isBlack :: "addr option \<Rightarrow> ('c, 'k, 'm) Tree_scheme \<Rightarrow> bool option" where
  "isBlack p w = (case p of None \<Rightarrow> Some True | Some a \<Rightarrow> map_option (\<lambda>n. \<not> n_red n) (t_nodes w a))"

subsection \<open>Creating\<close>

text \<open>Only the members of the record; the other index has no root and no function yet.\<close>

definition TreeInitializeNoMalloc ::
  "('c, 'k) tree_compare \<Rightarrow> ('c, 'k, 'm) Tree_scheme \<Rightarrow> ('c, 'k, 'm) Tree_scheme" where
  "TreeInitializeNoMalloc compare w = w\<lparr>t_root := (\<lambda>_. None), t_compare := (\<lambda>_. compare), t_indexes := 1,
     t_count := 0, t_size := 0, t_tracking := True, t_duplicates := False\<rparr>"

text \<open>The array has room for two indexes.\<close>

definition TreeAddIndex ::
  "('c, 'k) tree_compare \<Rightarrow> ('c, 'k, 'm) Tree_scheme \<Rightarrow> ('c, 'k, 'm) Tree_scheme option" where
  "TreeAddIndex compare w = (if t_indexes w < 2
     then Some (w\<lparr>t_compare := (t_compare w)(t_indexes w := compare), t_indexes := t_indexes w + 1\<rparr>) else None)"

partial_function (option) TreeWalk :: "addr option \<Rightarrow> int \<Rightarrow> ('c, 'k, 'm) Tree_scheme \<Rightarrow> int option" where
  "TreeWalk curnode depth w = (case curnode of
     None \<Rightarrow> Some depth
   | Some a \<Rightarrow> Option.bind (t_nodes w a) (\<lambda>n.
       Option.bind (TreeWalk (n_child n LEFT) (depth + 1) w) (\<lambda>left.
         Option.bind (TreeWalk (n_child n RIGHT) (depth + 1) w) (\<lambda>right.
           Some (if left > right then left else right)))))"

declare TreeWalk.simps [code]

definition TreeMaxDepth :: "('c, 'k, 'm) Tree_scheme \<Rightarrow> int option" where
  "TreeMaxDepth w = TreeWalk (t_root w 0) 0 w"

subsection \<open>Rotation\<close>

text \<open>\<open>curnode\<close> goes down in \<open>direction\<close>, its other child takes its place.\<close>

definition TreeRotate ::
  "addr \<Rightarrow> bool \<Rightarrow> nat \<Rightarrow> ('c, 'k, 'm) Tree_scheme \<Rightarrow> ('c, 'k, 'm) Tree_scheme option" where
  "TreeRotate curnode direction i w = do {
     n \<leftarrow> t_nodes w curnode;
     other \<leftarrow> n_child n (\<not> direction);
     no \<leftarrow> t_nodes w other;
     w1 \<leftarrow> upd_node curnode (set_child (\<not> direction) (n_child no direction)) w;
     w2 \<leftarrow> (case n_child no direction of None \<Rightarrow> Some w1 | Some b \<Rightarrow> upd_node b (set_parent (Some curnode)) w1);
     w3 \<leftarrow> upd_node other (set_parent (n_parent n)) w2;
     w4 \<leftarrow> (case n_parent n of
         None \<Rightarrow> Some (set_root i (Some other) w3)
       | Some p \<Rightarrow> do {
           np \<leftarrow> t_nodes w3 p;
           if n_child np direction = Some curnode then upd_node p (set_child direction (Some other)) w3
           else upd_node p (set_child (\<not> direction) (Some other)) w3
         });
     w5 \<leftarrow> upd_node other (set_child direction (Some curnode)) w4;
     upd_node curnode (set_parent (Some other)) w5
   }"

subsection \<open>Adding\<close>

definition TreeBAASub ::
  "addr \<Rightarrow> bool \<Rightarrow> nat \<Rightarrow> ('c, 'k, 'm) Tree_scheme \<Rightarrow> (addr \<times> ('c, 'k, 'm) Tree_scheme) option" where
  "TreeBAASub curnode which i w = do {
     n \<leftarrow> t_nodes w curnode;
     p \<leftarrow> n_parent n;
     np \<leftarrow> t_nodes w p;
     g \<leftarrow> n_parent np;
     ng \<leftarrow> t_nodes w g;
     r \<leftarrow> isRed (n_child ng which) w;
     if r then do {
       u \<leftarrow> n_child ng which;
       w1 \<leftarrow> upd_node u (set_red False) w;
       w2 \<leftarrow> upd_node p (set_red False) w1;
       w3 \<leftarrow> upd_node g (set_red True) w2;
       Some (g, w3)
     } else do {
       (cur, w1) \<leftarrow> (if n_child np which = Some curnode
         then map_option (Pair p) (TreeRotate p (\<not> which) i w) else Some (curnode, w));
       nc \<leftarrow> t_nodes w1 cur;
       p1 \<leftarrow> n_parent nc;
       w2 \<leftarrow> upd_node p1 (set_red False) w1;
       np1 \<leftarrow> t_nodes w2 p1;
       g1 \<leftarrow> n_parent np1;
       w3 \<leftarrow> upd_node g1 (set_red True) w2;
       w4 \<leftarrow> TreeRotate g1 which i w3;
       Some (cur, w4)
     }
   }"

partial_function (option) balance_add_loop ::
  "addr \<Rightarrow> nat \<Rightarrow> ('c, 'k, 'm) Tree_scheme \<Rightarrow> ('c, 'k, 'm) Tree_scheme option" where
  "balance_add_loop curnode i w =
     Option.bind (t_nodes w curnode) (\<lambda>n. case n_parent n of
       None \<Rightarrow> Some w
     | Some p \<Rightarrow> Option.bind (t_nodes w p) (\<lambda>np.
         if n_red np then
           case n_parent np of
             None \<Rightarrow> Some w
           | Some g \<Rightarrow> Option.bind (t_nodes w g) (\<lambda>ng.
               Option.bind (TreeBAASub curnode (if n_child ng LEFT = Some p then RIGHT else LEFT) i w)
                 (\<lambda>(cur, w1). balance_add_loop cur i w1))
         else Some w))"

declare balance_add_loop.simps [code]

definition TreeBalanceAfterAdd ::
  "addr \<Rightarrow> nat \<Rightarrow> ('c, 'k, 'm) Tree_scheme \<Rightarrow> ('c, 'k, 'm) Tree_scheme option" where
  "TreeBalanceAfterAdd curnode i w = do {
     w1 \<leftarrow> balance_add_loop curnode i w;
     r \<leftarrow> t_root w1 i;
     upd_node r (set_red False) w1
   }"

text \<open>
  The search: the node with an equal content, or none and the place for a new one (its parent and the
  side; \<open>result > 0\<close> goes to \<^verbatim>\<open>child[1]\<close>).
\<close>

partial_function (option) add_search ::
  "('c \<Rightarrow> int) \<Rightarrow> addr option \<Rightarrow> addr option \<Rightarrow> bool \<Rightarrow> ('c, 'k, 'm) Tree_scheme \<Rightarrow>
     (addr option \<times> addr option \<times> bool) option" where
  "add_search cmp curnode curparent left w = (case curnode of
     None \<Rightarrow> Some (None, curparent, left)
   | Some a \<Rightarrow> Option.bind (t_nodes w a) (\<lambda>n. Option.bind (n_content n) (\<lambda>x.
       if cmp x = 0 then Some (Some a, curparent, left)
       else add_search cmp (n_child n (cmp x > 0)) (Some a) (cmp x > 0) w)))"

declare add_search.simps [code]

text \<open>\<^verbatim>\<open>exit\<close> ends the program: there is no state after it.  The result is the content that was replaced.\<close>

definition TreeAddByIndex ::
  "'c \<Rightarrow> int \<Rightarrow> nat \<Rightarrow> ('c, 'k, 'm) Tree_scheme \<Rightarrow> ('c option \<times> ('c, 'k, 'm) Tree_scheme) option" where
  "TreeAddByIndex content len i w = do {
     (found, curparent, left) \<leftarrow> add_search (\<lambda>x. cmp_content (t_compare w i) x content) (t_root w i) None LEFT w;
     (rc, newel, w1) \<leftarrow> (case found of
         Some a \<Rightarrow>
           if t_duplicates w then None
           else do {
             n \<leftarrow> t_nodes w a;
             Some (n_content n, a, if i = 0 then w\<lparr>t_size := t_size w + (len - n_size n)\<rparr> else w)
           }
       | None \<Rightarrow> do {
           let a = t_next w;
           let w1 = w\<lparr>t_next := a + 1, t_nodes := (t_nodes w)(a \<mapsto> zero_node)\<rparr>;
           w2 \<leftarrow> (case curparent of
               None \<Rightarrow> Some (set_root i (Some a) w1)
             | Some p \<Rightarrow> upd_node p (set_child left (Some a)) w1);
           w3 \<leftarrow> upd_node a (\<lambda>n. n\<lparr>n_parent := curparent, n_red := True\<rparr>) w2;
           Some (None, a, if i = 0 then w3\<lparr>t_count := t_count w3 + 1, t_size := t_size w3 + len\<rparr> else w3)
         });
     w2 \<leftarrow> upd_node newel (\<lambda>n. n\<lparr>n_content := Some content, n_size := len\<rparr>) w1;
     w3 \<leftarrow> TreeBalanceAfterAdd newel i w2;
     Some (rc, w3)
   }"

text \<open>The indexes in turn; the result is that of the last one.\<close>

fun add_indexes ::
  "'c \<Rightarrow> int \<Rightarrow> nat list \<Rightarrow> 'c option \<Rightarrow> ('c, 'k, 'm) Tree_scheme \<Rightarrow> ('c option \<times> ('c, 'k, 'm) Tree_scheme) option" where
  "add_indexes content len [] rc w = Some (rc, w)"
| "add_indexes content len (i # is) rc w = do {
     (rc1, w1) \<leftarrow> TreeAddByIndex content len i w;
     add_indexes content len is rc1 w1
   }"

definition TreeAdd ::
  "'c \<Rightarrow> int \<Rightarrow> ('c, 'k, 'm) Tree_scheme \<Rightarrow> ('c option \<times> ('c, 'k, 'm) Tree_scheme) option" where
  "TreeAdd content len w = add_indexes content len [0..<t_indexes w] None w"

subsection \<open>Finding\<close>

text \<open>\<open>cmp\<close> is the comparison with what is looked for.\<close>

partial_function (option) find_node ::
  "('c \<Rightarrow> int) \<Rightarrow> addr option \<Rightarrow> ('c, 'k, 'm) Tree_scheme \<Rightarrow> addr option option" where
  "find_node cmp curnode w = (case curnode of
     None \<Rightarrow> Some None
   | Some a \<Rightarrow> Option.bind (t_nodes w a) (\<lambda>n. Option.bind (n_content n) (\<lambda>x.
       if cmp x = 0 then Some (Some a) else find_node cmp (n_child n (cmp x > 0)) w)))"

declare find_node.simps [code]

datatype ('c, 'k) tree_key = Content 'c | Key 'k

fun compare_with :: "('c, 'k) tree_compare \<Rightarrow> ('c, 'k) tree_key \<Rightarrow> 'c \<Rightarrow> int" where
  "compare_with f (Content c) x = cmp_content f x c"
| "compare_with f (Key k) x = cmp_key f x k"

definition TreeFindIndex1 :: "('c, 'k) tree_key \<Rightarrow> nat \<Rightarrow> ('c, 'k, 'm) Tree_scheme \<Rightarrow> addr option option" where
  "TreeFindIndex1 key i w = find_node (compare_with (t_compare w i) key) (t_root w i) w"

definition TreeFindIndex :: "'k \<Rightarrow> nat \<Rightarrow> ('c, 'k, 'm) Tree_scheme \<Rightarrow> addr option option" where
  "TreeFindIndex key i w = TreeFindIndex1 (Key key) i w"

definition TreeFindContentIndex :: "'c \<Rightarrow> nat \<Rightarrow> ('c, 'k, 'm) Tree_scheme \<Rightarrow> addr option option" where
  "TreeFindContentIndex content i w = TreeFindIndex1 (Content content) i w"

definition TreeFind :: "'k \<Rightarrow> ('c, 'k, 'm) Tree_scheme \<Rightarrow> addr option option" where
  "TreeFind key w = TreeFindIndex key 0 w"

subsection \<open>Walking\<close>

partial_function (option) tree_min :: "addr \<Rightarrow> ('c, 'k, 'm) Tree_scheme \<Rightarrow> addr option" where
  "tree_min curnode w = Option.bind (t_nodes w curnode) (\<lambda>n. case n_child n LEFT of
     None \<Rightarrow> Some curnode | Some l \<Rightarrow> tree_min l w)"

declare tree_min.simps [code]

definition TreeMinimum :: "addr option \<Rightarrow> ('c, 'k, 'm) Tree_scheme \<Rightarrow> addr option option" where
  "TreeMinimum curnode w = (case curnode of None \<Rightarrow> Some None | Some a \<Rightarrow> map_option Some (tree_min a w))"

text \<open>Upwards while coming from the right.\<close>

partial_function (option) climb :: "addr \<Rightarrow> ('c, 'k, 'm) Tree_scheme \<Rightarrow> addr option option" where
  "climb curnode w = Option.bind (t_nodes w curnode) (\<lambda>n. case n_parent n of
     None \<Rightarrow> Some None
   | Some p \<Rightarrow> Option.bind (t_nodes w p) (\<lambda>np. if n_child np RIGHT = Some curnode then climb p w else Some (Some p)))"

declare climb.simps [code]

definition TreeSuccessor :: "addr \<Rightarrow> ('c, 'k, 'm) Tree_scheme \<Rightarrow> addr option option" where
  "TreeSuccessor curnode w = do {
     n \<leftarrow> t_nodes w curnode;
     case n_child n RIGHT of Some r \<Rightarrow> TreeMinimum (Some r) w | None \<Rightarrow> climb curnode w
   }"

definition TreeNextElementIndex :: "addr option \<Rightarrow> nat \<Rightarrow> ('c, 'k, 'm) Tree_scheme \<Rightarrow> addr option option" where
  "TreeNextElementIndex curnode i w = (case curnode of
     None \<Rightarrow> TreeMinimum (t_root w i) w | Some a \<Rightarrow> TreeSuccessor a w)"

definition TreeNextElement :: "addr option \<Rightarrow> ('c, 'k, 'm) Tree_scheme \<Rightarrow> addr option option" where
  "TreeNextElement curnode w = TreeNextElementIndex curnode 0 w"

subsection \<open>Removing\<close>

definition TreeBARSub ::
  "addr \<Rightarrow> bool \<Rightarrow> nat \<Rightarrow> ('c, 'k, 'm) Tree_scheme \<Rightarrow> (addr option \<times> ('c, 'k, 'm) Tree_scheme) option" where
  "TreeBARSub curnode which i w = do {
     n \<leftarrow> t_nodes w curnode;
     p \<leftarrow> n_parent n;
     np \<leftarrow> t_nodes w p;
     r \<leftarrow> isRed (n_child np which) w;
     (sibling, w1) \<leftarrow> (if r then do {
         s \<leftarrow> n_child np which;
         w1 \<leftarrow> upd_node s (set_red False) w;
         w2 \<leftarrow> upd_node p (set_red True) w1;
         w3 \<leftarrow> TreeRotate p (\<not> which) i w2;
         np1 \<leftarrow> t_nodes w3 p;
         Some (n_child np1 which, w3)
       } else Some (n_child np which, w));
     case sibling of
       None \<Rightarrow> Some (Some p, w1)
     | Some s \<Rightarrow> do {
         ns \<leftarrow> t_nodes w1 s;
         near \<leftarrow> isBlack (n_child ns (\<not> which)) w1;
         far \<leftarrow> isBlack (n_child ns which) w1;
         if near \<and> far then do {
           w2 \<leftarrow> upd_node s (set_red True) w1;
           Some (Some p, w2)
         } else do {
           (s, w2) \<leftarrow> (if far then do {
               k \<leftarrow> n_child ns (\<not> which);
               w2 \<leftarrow> upd_node k (set_red False) w1;
               w3 \<leftarrow> upd_node s (set_red True) w2;
               w4 \<leftarrow> TreeRotate s which i w3;
               np1 \<leftarrow> t_nodes w4 p;
               map_option (\<lambda>s. (s, w4)) (n_child np1 which)
             } else Some (s, w1));
           np2 \<leftarrow> t_nodes w2 p;
           w3 \<leftarrow> upd_node s (set_red (n_red np2)) w2;
           w4 \<leftarrow> upd_node p (set_red False) w3;
           ns1 \<leftarrow> t_nodes w4 s;
           k \<leftarrow> n_child ns1 which;
           w5 \<leftarrow> upd_node k (set_red False) w4;
           w6 \<leftarrow> TreeRotate p (\<not> which) i w5;
           Some (t_root w6 i, w6)
         }
       }
   }"

text \<open>
  The loop ends at a NULL node only by dereferencing it.  A node with no content stands for an
  empty place, as \<^verbatim>\<open>temp\<close> does in the function below.
\<close>

partial_function (option) balance_remove_loop ::
  "addr \<Rightarrow> nat \<Rightarrow> ('c, 'k, 'm) Tree_scheme \<Rightarrow> (addr \<times> ('c, 'k, 'm) Tree_scheme) option" where
  "balance_remove_loop curnode i w =
     Option.bind (t_nodes w curnode) (\<lambda>n.
       if t_root w i \<noteq> Some curnode \<and> \<not> n_red n then
         Option.bind (n_parent n) (\<lambda>p. Option.bind (t_nodes w p) (\<lambda>np.
           Option.bind (TreeBARSub curnode
               (if (case n_content n of None \<Rightarrow> None | Some _ \<Rightarrow> Some curnode) = n_child np LEFT then RIGHT else LEFT) i w)
             (\<lambda>(cur, w1). Option.bind cur (\<lambda>a. balance_remove_loop a i w1))))
       else Some (curnode, w))"

declare balance_remove_loop.simps [code]

definition TreeBalanceAfterRemove ::
  "addr \<Rightarrow> nat \<Rightarrow> ('c, 'k, 'm) Tree_scheme \<Rightarrow> ('c, 'k, 'm) Tree_scheme option" where
  "TreeBalanceAfterRemove curnode i w = do {
     (a, w1) \<leftarrow> balance_remove_loop curnode i w;
     upd_node a (set_red False) w1
   }"

text \<open>Taking a node with at most one child out of the tree.\<close>

definition unlink_node ::
  "addr \<Rightarrow> nat \<Rightarrow> ('c, 'k, 'm) Tree_scheme \<Rightarrow> (addr option \<times> ('c, 'k, 'm) Tree_scheme) option" where
  "unlink_node redundant i w = do {
     nr \<leftarrow> t_nodes w redundant;
     let curchild = n_child nr (if n_child nr LEFT = None then RIGHT else LEFT);
     w1 \<leftarrow> (case curchild of None \<Rightarrow> Some w | Some k \<Rightarrow> upd_node k (set_parent (n_parent nr)) w);
     w2 \<leftarrow> (case n_parent nr of
         None \<Rightarrow> Some (set_root i curchild w1)
       | Some p \<Rightarrow> do {
           np \<leftarrow> t_nodes w1 p;
           upd_node p (set_child (n_child np LEFT \<noteq> Some redundant) curchild) w1
         });
     Some (curchild, w2)
   }"

text \<open>
  Balancing after a black node is gone.  \<^verbatim>\<open>temp\<close> is a local variable: here it is a node at an address
  that is free, for as long as the function runs.
\<close>

definition balance_removed ::
  "addr \<Rightarrow> addr option \<Rightarrow> nat \<Rightarrow> ('c, 'k, 'm) Tree_scheme \<Rightarrow> ('c, 'k, 'm) Tree_scheme option" where
  "balance_removed redundant curchild i w = do {
     nr \<leftarrow> t_nodes w redundant;
     if n_red nr then Some w
     else (case curchild of
         Some k \<Rightarrow> TreeBalanceAfterRemove k i w
       | None \<Rightarrow> (case n_parent nr of
             None \<Rightarrow> Some w
           | Some p \<Rightarrow>
               let temp = t_next w;
                   w1 = w\<lparr>t_nodes := (t_nodes w)(temp \<mapsto> zero_node\<lparr>n_parent := Some p\<rparr>)\<rparr>
               in map_option (\<lambda>w2. w2\<lparr>t_nodes := (t_nodes w2)(temp := None)\<rparr>) (TreeBalanceAfterRemove temp i w1)))
   }"

text \<open>The result is the content of the node; a NULL \<^verbatim>\<open>curnode\<close> is not passed.\<close>

definition TreeRemoveNodeIndex ::
  "addr \<Rightarrow> nat \<Rightarrow> ('c, 'k, 'm) Tree_scheme \<Rightarrow> ('c option \<times> ('c, 'k, 'm) Tree_scheme) option" where
  "TreeRemoveNodeIndex curnode i w = do {
     n \<leftarrow> t_nodes w curnode;
     redundant \<leftarrow> (if n_child n LEFT \<noteq> None \<and> n_child n RIGHT \<noteq> None
                   then Option.bind (TreeSuccessor curnode w) id else Some curnode);
     (curchild, w1) \<leftarrow> unlink_node redundant i w;
     w2 \<leftarrow> (if redundant \<noteq> curnode then do {
         nr \<leftarrow> t_nodes w1 redundant;
         upd_node curnode (\<lambda>n. n\<lparr>n_content := n_content nr, n_size := n_size nr\<rparr>) w1
       } else Some w1);
     w3 \<leftarrow> balance_removed redundant curchild i w2;
     let w4 = w3\<lparr>t_nodes := (t_nodes w3)(redundant := None)\<rparr>;
     Some (n_content n,
       if i = 0 then w4\<lparr>t_size := t_size w4 - n_size n, t_count := t_count w4 - 1\<rparr> else w4)
   }"

definition TreeRemoveIndex ::
  "'c \<Rightarrow> nat \<Rightarrow> ('c, 'k, 'm) Tree_scheme \<Rightarrow> ('c option \<times> ('c, 'k, 'm) Tree_scheme) option" where
  "TreeRemoveIndex content i w = do {
     found \<leftarrow> TreeFindContentIndex content i w;
     case found of None \<Rightarrow> Some (None, w) | Some a \<Rightarrow> TreeRemoveNodeIndex a i w
   }"

fun remove_indexes ::
  "'c \<Rightarrow> nat list \<Rightarrow> 'c option \<Rightarrow> ('c, 'k, 'm) Tree_scheme \<Rightarrow> ('c option \<times> ('c, 'k, 'm) Tree_scheme) option" where
  "remove_indexes content [] rc w = Some (rc, w)"
| "remove_indexes content (i # is) rc w = do {
     (rc1, w1) \<leftarrow> TreeRemoveIndex content i w;
     remove_indexes content is rc1 w1
   }"

definition TreeRemove ::
  "'c \<Rightarrow> ('c, 'k, 'm) Tree_scheme \<Rightarrow> ('c option \<times> ('c, 'k, 'm) Tree_scheme) option" where
  "TreeRemove content w = remove_indexes content [0..<t_indexes w] None w"

text \<open>The other indexes: what one of them returns is what is looked for in the next.\<close>

fun remove_others ::
  "'c option \<Rightarrow> nat list \<Rightarrow> ('c, 'k, 'm) Tree_scheme \<Rightarrow> ('c option \<times> ('c, 'k, 'm) Tree_scheme) option" where
  "remove_others content [] w = Some (content, w)"
| "remove_others content (i # is) w = do {
     c \<leftarrow> content;
     (content1, w1) \<leftarrow> TreeRemoveIndex c i w;
     remove_others content1 is w1
   }"

definition TreeRemoveKeyIndex ::
  "'k \<Rightarrow> nat \<Rightarrow> ('c, 'k, 'm) Tree_scheme \<Rightarrow> ('c option \<times> ('c, 'k, 'm) Tree_scheme) option" where
  "TreeRemoveKeyIndex key i w = do {
     found \<leftarrow> TreeFindIndex key i w;
     case found of
       None \<Rightarrow> Some (None, w)
     | Some a \<Rightarrow> do {
         (content, w1) \<leftarrow> TreeRemoveNodeIndex a i w;
         remove_others content (filter (\<lambda>j. j \<noteq> i) [0..<t_indexes w1]) w1
       }
   }"

definition TreeRemoveKey ::
  "'k \<Rightarrow> ('c, 'k, 'm) Tree_scheme \<Rightarrow> ('c option \<times> ('c, 'k, 'm) Tree_scheme) option" where
  "TreeRemoveKey key w = TreeRemoveKeyIndex key 0 w"

subsection \<open>Comparison functions\<close>

definition TreeIntCompare :: "int \<Rightarrow> int \<Rightarrow> int" where
  "TreeIntCompare a b = (if a > b then -1 else if a = b then 0 else 1)"

definition TreePtrCompare :: "addr \<Rightarrow> addr \<Rightarrow> int" where
  "TreePtrCompare a b = (if a > b then -1 else if a = b then 0 else 1)"

text \<open>\<^verbatim>\<open>strcmp\<close> up to the first zero; the end of a list is one.\<close>

fun strcmp :: "byte list \<Rightarrow> byte list \<Rightarrow> int" where
  "strcmp [] ys = (if ys = [] \<or> hd ys = 0 then 0 else -1)"
| "strcmp (x # xs) ys = (
     let y = (if ys = [] then 0 else hd ys)
     in if x = y then (if x = 0 then 0 else strcmp xs (tl ys)) else if ubyte x < ubyte y then -1 else 1)"

definition TreeStringCompare :: "byte list \<Rightarrow> byte list \<Rightarrow> int" where
  "TreeStringCompare a b = strcmp a b"

end
