(* ===== verification/TreeShape.thy ===== *)
theory TreeShape
  imports TreeC "HOL-Library.Tree"
begin

text \<open>
  The shape of the trees in memory: a functional tree of node addresses that the links of the nodes
  represent, split into a subtree and its context, and rotation on both.
\<close>

subsection \<open>Shapes\<close>

text \<open>\<open>mk d s a u\<close> is the node \<open>a\<close> with child \<open>s\<close> on side \<open>d\<close> and \<open>u\<close> on the other.\<close>

definition mk :: "bool \<Rightarrow> 'a tree \<Rightarrow> 'a \<Rightarrow> 'a tree \<Rightarrow> 'a tree" where
  "mk d s a u = (if d then \<langle>u, a, s\<rangle> else \<langle>s, a, u\<rangle>)"

definition ptr_of :: "'a tree \<Rightarrow> 'a option" where
  "ptr_of t = (case t of Leaf \<Rightarrow> None | Node l a r \<Rightarrow> Some a)"

lemma ptr_of_simps [simp]: "ptr_of \<langle>\<rangle> = None" "ptr_of \<langle>l, a, r\<rangle> = Some a" "ptr_of (mk d s a u) = Some a"
  by (simp_all add: ptr_of_def mk_def)

lemma ptr_of_None [simp]: "ptr_of t = None \<longleftrightarrow> t = \<langle>\<rangle>"
  by (cases t) simp_all

lemma ptr_of_Some: "ptr_of t = Some a \<longleftrightarrow> (\<exists>s u. t = mk d s a u)"
  by (cases t; cases d) (auto simp: mk_def)

lemma ptr_of_set: "ptr_of t = Some a \<Longrightarrow> a \<in> set_tree t"
  by (cases t) auto

lemma mk_not: "mk (\<not> d) s a u = mk d u a s"
  by (simp add: mk_def)

lemma set_mk [simp]: "set_tree (mk d s a u) = insert a (set_tree s \<union> set_tree u)"
  by (auto simp: mk_def)

lemma mk_cases:
  obtains "t = \<langle>\<rangle>" | s a u where "t = mk d s a u"
  by (cases t; cases d) (auto simp: mk_def)

lemma mk_inject [simp]: "mk d s a u = mk d s' a' u' \<longleftrightarrow> s = s' \<and> a = a' \<and> u = u'"
  by (auto simp: mk_def)

lemma mk_not_leaf [simp]: "mk d s a u \<noteq> \<langle>\<rangle>" "\<langle>\<rangle> \<noteq> mk d s a u"
  by (simp_all add: mk_def)

text \<open>\<open>uniq t\<close>: no address occurs twice.\<close>

abbreviation uniq :: "'a tree \<Rightarrow> bool" where "uniq t \<equiv> distinct (inorder t)"

lemma uniq_mk:
  "uniq (mk d s a u) \<longleftrightarrow> uniq s \<and> uniq u \<and> a \<notin> set_tree s \<and> a \<notin> set_tree u \<and> set_tree s \<inter> set_tree u = {}"
  by (auto simp: mk_def)

subsection \<open>Contexts\<close>

text \<open>The way from a subtree up to the root: the side it is on, its parent and the sibling.\<close>

type_synonym 'a ctx = "(bool \<times> 'a \<times> 'a tree) list"

fun fill :: "'a ctx \<Rightarrow> 'a tree \<Rightarrow> 'a tree" where
  "fill [] s = s"
| "fill ((d, p, u) # k) s = fill k (mk d s p u)"

fun par_of :: "'a ctx \<Rightarrow> 'a option" where
  "par_of [] = None"
| "par_of ((d, p, u) # k) = Some p"

fun ctx_set :: "'a ctx \<Rightarrow> 'a set" where
  "ctx_set [] = {}"
| "ctx_set ((d, p, u) # k) = insert p (set_tree u \<union> ctx_set k)"

fun ctx_uniq :: "'a ctx \<Rightarrow> bool" where
  "ctx_uniq [] = True"
| "ctx_uniq ((d, p, u) # k) \<longleftrightarrow> p \<notin> set_tree u \<and> p \<notin> ctx_set k \<and> set_tree u \<inter> ctx_set k = {} \<and> uniq u \<and> ctx_uniq k"

lemma set_fill: "set_tree (fill k s) = set_tree s \<union> ctx_set k"
  by (induction k s rule: fill.induct) auto

lemma uniq_fill: "uniq (fill k s) \<longleftrightarrow> uniq s \<and> ctx_uniq k \<and> set_tree s \<inter> ctx_set k = {}"
  by (induction k s rule: fill.induct) (auto simp: uniq_mk)

lemma inorder_fill_cong: "inorder s = inorder s' \<Longrightarrow> inorder (fill k s) = inorder (fill k s')"
proof (induction k arbitrary: s s')
  case (Cons x k)
  obtain d p u where x: "x = (d, p, u)" by (cases x)
  have "inorder (mk d s p u) = inorder (mk d s' p u)" using Cons.prems by (simp add: mk_def)
  from Cons.IH [OF this] x show ?case by simp
qed simp

lemma inorder_rotate: "inorder (mk d (mk (\<not> d) b a e) o' c) = inorder (mk (\<not> d) (mk d b o' c) a e)"
  by (simp add: mk_def)

text \<open>Every address in a tree is the root of a subtree in a context.\<close>

lemma fill_append: "fill (k @ k') s = fill k' (fill k s)"
  by (induction k s rule: fill.induct) auto

lemma split_at:
  assumes "a \<in> set_tree t"
  obtains k s u where "t = fill k (mk d s a u)"
  using assms
proof (induction t arbitrary: thesis)
  case (Node l x r)
  consider "a = x" | "a \<in> set_tree l" | "a \<in> set_tree r" using Node.prems by auto
  then show ?case
  proof cases
    case 1
    then show ?thesis using Node.prems(1) [of "[]" "if d then r else l" "if d then l else r"] by (auto simp: mk_def)
  next
    case 2
    from Node.IH(1) [OF _ 2] obtain k s u where "l = fill k (mk d s a u)" .
    then have "\<langle>l, x, r\<rangle> = fill (k @ [(False, x, r)]) (mk d s a u)" by (simp add: fill_append) (simp add: mk_def)
    then show ?thesis by (rule Node.prems(1))
  next
    case 3
    from Node.IH(2) [OF _ 3] obtain k s u where "r = fill k (mk d s a u)" .
    then have "\<langle>l, x, r\<rangle> = fill (k @ [(True, x, l)]) (mk d s a u)" by (simp add: fill_append) (simp add: mk_def)
    then show ?thesis by (rule Node.prems(1))
  qed
qed simp

subsection \<open>Representation\<close>

text \<open>The links and the data of the nodes; a shape is represented by the links only.\<close>

type_synonym links = "addr \<rightharpoonup> addr option \<times> (bool \<Rightarrow> addr option)"

definition links :: "('c, 'k, 'm) Tree_scheme \<Rightarrow> links" where
  "links w = (\<lambda>a. map_option (\<lambda>n. (n_parent n, n_child n)) (t_nodes w a))"

definition data :: "('c, 'k, 'm) Tree_scheme \<Rightarrow> addr \<rightharpoonup> 'c option \<times> int \<times> bool" where
  "data w = (\<lambda>a. map_option (\<lambda>n. (n_content n, n_size n, n_red n)) (t_nodes w a))"

definition kids :: "bool \<Rightarrow> 'a \<Rightarrow> 'a \<Rightarrow> bool \<Rightarrow> 'a" where
  "kids d x y = (\<lambda>e. if e = d then x else y)"

lemma kids_simps [simp]:
  "kids d x y d = x" "kids d x y (\<not> d) = y" "kids (\<not> d) x y d = y"
  "(kids d x y)(d := z) = kids d z y" "(kids d x y)((\<not> d) := z) = kids d x z"
  by (auto simp: kids_def fun_eq_iff)

lemma kids_not: "kids (\<not> d) x y = kids d y x"
  by (auto simp: kids_def fun_eq_iff)

lemma kids_True: "kids True x y = kids False y x"
  using kids_not [of False] by simp

lemma kids_inject [simp]: "kids d x y = kids d x' y' \<longleftrightarrow> x = x' \<and> y = y'"
proof
  assume "kids d x y = kids d x' y'"
  from fun_cong [OF this, of d] fun_cong [OF this, of "\<not> d"] show "x = x' \<and> y = y'" by simp
qed simp

fun rep :: "links \<Rightarrow> addr option \<Rightarrow> addr tree \<Rightarrow> bool" where
  "rep L par \<langle>\<rangle> = True"
| "rep L par \<langle>l, a, r\<rangle> \<longleftrightarrow> L a = Some (par, kids False (ptr_of l) (ptr_of r)) \<and> rep L (Some a) l \<and> rep L (Some a) r"

lemma rep_mk:
  "rep L par (mk d s a u) \<longleftrightarrow> L a = Some (par, kids d (ptr_of s) (ptr_of u)) \<and> rep L (Some a) s \<and> rep L (Some a) u"
  by (auto simp: mk_def kids_True)

fun rep_ctx :: "links \<Rightarrow> addr option \<Rightarrow> addr ctx \<Rightarrow> bool" where
  "rep_ctx L q [] = True"
| "rep_ctx L q ((d, p, u) # k) \<longleftrightarrow>
     L p = Some (par_of k, kids d q (ptr_of u)) \<and> rep L (Some p) u \<and> rep_ctx L (Some p) k"

lemma rep_fill: "rep L None (fill k s) \<longleftrightarrow> rep L (par_of k) s \<and> rep_ctx L (ptr_of s) k"
  by (induction k s rule: fill.induct) (auto simp: rep_mk)

lemma rep_cong: "(\<And>a. a \<in> set_tree t \<Longrightarrow> L a = L' a) \<Longrightarrow> rep L par t = rep L' par t"
  by (induction t arbitrary: par) auto

lemma rep_ctx_cong: "(\<And>a. a \<in> ctx_set k \<Longrightarrow> L a = L' a) \<Longrightarrow> rep_ctx L q k = rep_ctx L' q k"
  by (induction L q k rule: rep_ctx.induct) (auto cong: rep_cong)

lemma ptr_of_fill: "ptr_of (fill k s) = (if k = [] then ptr_of s else Some (fst (snd (last k))))"
  by (induction k s rule: fill.induct) auto

lemma rep_reparent:
  assumes "rep L par t" "uniq t" "\<And>x. ptr_of t = Some x \<Longrightarrow> L' x = map_option (\<lambda>l. (par', snd l)) (L x)"
    "\<And>x. x \<in> set_tree t \<Longrightarrow> ptr_of t \<noteq> Some x \<Longrightarrow> L' x = L x"
  shows "rep L' par' t"
proof (cases t)
  case (Node l a r)
  have "rep L' (Some a) l = rep L (Some a) l" "rep L' (Some a) r = rep L (Some a) r"
    using assms(2,4) Node by (auto intro!: rep_cong)
  with assms(1,3) Node show ?thesis by simp
qed simp

lemma links_Some: "links w a = Some (p, f) \<longleftrightarrow> (\<exists>n. t_nodes w a = Some n \<and> n_parent n = p \<and> n_child n = f)"
  by (auto simp: links_def)

subsection \<open>Rotation in memory\<close>

lemma upd_node_Some: "t_nodes w a = Some n \<Longrightarrow> upd_node a f w = Some (w\<lparr>t_nodes := (t_nodes w)(a \<mapsto> f n)\<rparr>)"
  by (simp add: upd_node_def)

text \<open>Everything but the nodes and the roots is as before.\<close>

definition same_rest :: "('c, 'k, 'm) Tree_scheme \<Rightarrow> ('c, 'k, 'm) Tree_scheme \<Rightarrow> bool" where
  "same_rest w w' \<longleftrightarrow> w' = w\<lparr>t_nodes := t_nodes w', t_root := t_root w'\<rparr>"

lemma TreeRotate_nodes:
  assumes "t_nodes w a = Some na" "n_child na (\<not> d) = Some q" "t_nodes w q = Some nq" "a \<noteq> q"
    "\<And>x. n_child nq d = Some x \<Longrightarrow> x \<noteq> a \<and> x \<noteq> q \<and> t_nodes w x \<noteq> None"
    "\<And>p. n_parent na = Some p \<Longrightarrow> p \<noteq> a \<and> p \<noteq> q \<and> n_child nq d \<noteq> Some p \<and> t_nodes w p \<noteq> None"
  shows "\<exists>w'. TreeRotate a d i w = Some w' \<and>
    t_nodes w' a = Some (na\<lparr>n_parent := Some q, n_child := (n_child na)(\<not> d := n_child nq d)\<rparr>) \<and>
    t_nodes w' q = Some (nq\<lparr>n_parent := n_parent na, n_child := (n_child nq)(d := Some a)\<rparr>) \<and>
    (\<forall>x. n_child nq d = Some x \<longrightarrow> t_nodes w' x = map_option (set_parent (Some a)) (t_nodes w x)) \<and>
    (\<forall>p. n_parent na = Some p \<longrightarrow>
       t_nodes w' p = map_option (\<lambda>n. set_child (if n_child n d = Some a then d else \<not> d) (Some q) n) (t_nodes w p)) \<and>
    (\<forall>x. x \<noteq> a \<and> x \<noteq> q \<and> n_child nq d \<noteq> Some x \<and> n_parent na \<noteq> Some x \<longrightarrow> t_nodes w' x = t_nodes w x) \<and>
    t_root w' = (if n_parent na = None then (t_root w)(i := Some q) else t_root w) \<and> same_rest w w'"
proof (cases "n_child nq d")
  case None
  show ?thesis
  proof (cases "n_parent na")
    case None
    with assms(1-4) \<open>n_child nq d = None\<close> show ?thesis by (simp add: TreeRotate_def upd_node_def same_rest_def)
  next
    case (Some p)
    with assms(6) obtain np where "t_nodes w p = Some np" "p \<noteq> a" "p \<noteq> q" by blast
    with assms(1-4) \<open>n_child nq d = None\<close> Some show ?thesis
      by (simp add: TreeRotate_def upd_node_def same_rest_def)
  qed
next
  case (Some x)
  with assms(5) obtain nx where x: "t_nodes w x = Some nx" "x \<noteq> a" "x \<noteq> q" by blast
  show ?thesis
  proof (cases "n_parent na")
    case None
    with assms(1-4) Some x show ?thesis by (simp add: TreeRotate_def upd_node_def same_rest_def)
  next
    case (Some p)
    with assms(6) obtain np where "t_nodes w p = Some np" "p \<noteq> a" "p \<noteq> q" "n_child nq d \<noteq> Some p" by blast
    with assms(1-4) \<open>n_child nq d = Some x\<close> x Some show ?thesis
      by (simp add: TreeRotate_def upd_node_def same_rest_def)
  qed
qed

lemma rotate_links:
  assumes rep: "rep L None (fill k (mk (\<not> d) (mk d b q c) a e))" and un: "uniq (fill k (mk (\<not> d) (mk d b q c) a e))"
    and a: "L' a = Some (Some q, kids d (ptr_of e) (ptr_of b))"
    and q: "L' q = Some (par_of k, kids d (Some a) (ptr_of c))"
    and b: "\<And>x. ptr_of b = Some x \<Longrightarrow> L' x = map_option (\<lambda>l. (Some a, snd l)) (L x)"
    and p: "\<And>s p u k'. k = (s, p, u) # k' \<Longrightarrow> L' p = Some (par_of k', kids s (Some q) (ptr_of u))"
    and rest: "\<And>x. x \<noteq> a \<Longrightarrow> x \<noteq> q \<Longrightarrow> ptr_of b \<noteq> Some x \<Longrightarrow> par_of k \<noteq> Some x \<Longrightarrow> L' x = L x"
  shows "rep L' None (fill k (mk d (mk (\<not> d) b a e) q c))"
proof -
  have o: "rep L (Some q) b" "rep L (Some q) c" "rep L (Some a) e" "rep_ctx L (Some a) k"
    using rep by (simp_all add: rep_fill rep_mk)
  have u: "uniq b" "ctx_uniq k" "a \<noteq> q" "a \<notin> set_tree b \<union> set_tree c \<union> set_tree e \<union> ctx_set k"
    "q \<notin> set_tree b \<union> set_tree c \<union> set_tree e \<union> ctx_set k" "set_tree b \<inter> (set_tree c \<union> set_tree e \<union> ctx_set k) = {}"
    "set_tree c \<inter> ctx_set k = {}" "set_tree e \<inter> ctx_set k = {}"
    using un by (auto simp: uniq_fill uniq_mk)
  have pk: "x \<in> ctx_set k" if "par_of k = Some x" for x using that by (cases k rule: ctx_set.cases) auto
  have pb: "x \<in> set_tree b" if "ptr_of b = Some x" for x using that by (rule ptr_of_set)
  have f: "L' x = L x" if "x \<in> set_tree b \<union> set_tree c \<union> set_tree e" "ptr_of b \<noteq> Some x" for x
    using that u pk by (intro rest) auto
  have nb: "ptr_of b \<noteq> Some x" if "x \<in> set_tree c \<union> set_tree e" for x using that u(6) pb by auto
  have "rep L' (Some a) b" using f by (intro rep_reparent [OF o(1) u(1) b]) auto
  moreover have "rep L' (Some q) c" "rep L' (Some a) e"
    using o(2,3) rep_cong [of c L' L] rep_cong [of e L' L] f nb by auto
  moreover have "rep_ctx L' (Some q) k"
  proof (cases k rule: ctx_set.cases)
    case (2 s p' v k')
    have fk: "L' x = L x" if "x \<in> set_tree v \<union> ctx_set k'" for x
      using that u 2 pb by (intro rest) auto
    have "rep L' (Some p') v" using o(4) 2 fk rep_cong [of v L L'] by simp
    moreover have "rep_ctx L' (Some p') k'" using o(4) 2 fk rep_ctx_cong [of k' L L'] by simp
    ultimately show ?thesis using 2 p [OF 2] by simp
  qed simp
  ultimately show ?thesis using a q by (simp add: rep_fill rep_mk kids_not)
qed

theorem rotate_rep:
  fixes w :: "('c, 'k, 'm) Tree_scheme"
  assumes rep: "rep (links w) None (fill k (mk (\<not> d) (mk d b q c) a e))"
    and un: "uniq (fill k (mk (\<not> d) (mk d b q c) a e))"
    and root: "t_root w i = ptr_of (fill k (mk (\<not> d) (mk d b q c) a e))"
  obtains w' where "TreeRotate a d i w = Some w'" "rep (links w') None (fill k (mk d (mk (\<not> d) b a e) q c))"
    "t_root w' = (t_root w)(i := ptr_of (fill k (mk d (mk (\<not> d) b a e) q c)))" "data w' = data w" "same_rest w w'"
    "\<And>x. x \<notin> set_tree (fill k (mk (\<not> d) (mk d b q c) a e)) \<Longrightarrow> links w' x = links w x"
proof -
  have o: "links w a = Some (par_of k, kids d (ptr_of e) (Some q))"
    "links w q = Some (Some a, kids d (ptr_of b) (ptr_of c))"
    "rep (links w) (Some q) b" "rep_ctx (links w) (Some a) k"
    using rep by (simp_all add: rep_fill rep_mk kids_not)
  then obtain na nq where n: "t_nodes w a = Some na" "n_parent na = par_of k" "n_child na = kids d (ptr_of e) (Some q)"
    "t_nodes w q = Some nq" "n_parent nq = Some a" "n_child nq = kids d (ptr_of b) (ptr_of c)" by (auto simp: links_Some)
  have u: "a \<noteq> q" "a \<notin> set_tree b \<union> ctx_set k" "q \<notin> set_tree b \<union> ctx_set k" "set_tree b \<inter> ctx_set k = {}"
    using un by (auto simp: uniq_fill uniq_mk)
  have pk: "x \<in> ctx_set k \<and> links w x \<noteq> None" if "par_of k = Some x" for x
    using that o(4) by (cases k rule: ctx_set.cases) auto
  have pb: "x \<in> set_tree b \<and> links w x \<noteq> None" if "ptr_of b = Some x" for x using that o(3) by (cases b) auto
  have nn: "links w x \<noteq> None \<longleftrightarrow> t_nodes w x \<noteq> None" for x by (simp add: links_def)
  have c: "n_child na (\<not> d) = Some q" "n_child nq d = ptr_of b" using n by simp_all
  have c1: "x \<noteq> a \<and> x \<noteq> q \<and> t_nodes w x \<noteq> None" if "n_child nq d = Some x" for x
    using pb [of x] that c u nn by auto
  have c2: "x \<noteq> a \<and> x \<noteq> q \<and> n_child nq d \<noteq> Some x \<and> t_nodes w x \<noteq> None" if "n_parent na = Some x" for x
    using pk [of x] pb [of x] that n(2) c u nn by auto
  from TreeRotate_nodes [OF n(1) c(1) n(4) u(1) c1 c2, of i]
  obtain w' where w': "TreeRotate a d i w = Some w'" "same_rest w w'"
    "t_nodes w' a = Some (na\<lparr>n_parent := Some q, n_child := kids d (ptr_of e) (ptr_of b)\<rparr>)"
    "t_nodes w' q = Some (nq\<lparr>n_parent := par_of k, n_child := kids d (Some a) (ptr_of c)\<rparr>)"
    "\<And>x. ptr_of b = Some x \<Longrightarrow> t_nodes w' x = map_option (set_parent (Some a)) (t_nodes w x)"
    "\<And>p. par_of k = Some p \<Longrightarrow>
       t_nodes w' p = map_option (\<lambda>n. set_child (if n_child n d = Some a then d else \<not> d) (Some q) n) (t_nodes w p)"
    "\<And>x. x \<noteq> a \<Longrightarrow> x \<noteq> q \<Longrightarrow> ptr_of b \<noteq> Some x \<Longrightarrow> par_of k \<noteq> Some x \<Longrightarrow> t_nodes w' x = t_nodes w x"
    "t_root w' = (if par_of k = None then (t_root w)(i := Some q) else t_root w)"
    using n c by auto
  have p: "links w' p = Some (par_of k', kids s (Some q) (ptr_of v))" if k: "k = (s, p, v) # k'" for s p v k'
  proof -
    from o(4) k obtain np where np: "t_nodes w p = Some np" "n_parent np = par_of k'" "n_child np = kids s (Some a) (ptr_of v)"
      by (auto simp: links_Some)
    have "ptr_of v \<noteq> Some a" using u k ptr_of_set by fastforce
    then have "(if kids s (Some a) (ptr_of v) d = Some a then d else \<not> d) = s" by (cases "d = s") (auto simp: kids_def)
    then show ?thesis using w'(6) [of p] k np by (simp add: links_Some)
  qed
  have "links w' x = map_option (\<lambda>l. (Some a, snd l)) (links w x)" if "ptr_of b = Some x" for x
    using w'(5) [OF that] by (cases "t_nodes w x") (simp_all add: links_def)
  moreover have "links w' x = links w x" if "x \<noteq> a" "x \<noteq> q" "ptr_of b \<noteq> Some x" "par_of k \<noteq> Some x" for x
    using w'(7) [OF that] by (simp add: links_def)
  moreover have "links w' a = Some (Some q, kids d (ptr_of e) (ptr_of b))"
    "links w' q = Some (par_of k, kids d (Some a) (ptr_of c))" using w'(3,4) by (simp_all add: links_Some)
  ultimately have "rep (links w') None (fill k (mk d (mk (\<not> d) b a e) q c))"
    using p by (intro rotate_links [OF rep un])
  moreover have "t_root w' = (t_root w)(i := ptr_of (fill k (mk d (mk (\<not> d) b a e) q c)))"
    using w'(8) root by (cases k rule: ctx_set.cases) (auto simp: ptr_of_fill fun_eq_iff)
  moreover have "data w' x = data w x" for x
  proof -
    have m: "map_option g (map_option f y) = map_option g y" if "\<And>z. g (f z) = g z" for f :: "'c Node \<Rightarrow> 'c Node"
        and g :: "'c Node \<Rightarrow> 'c option \<times> int \<times> bool" and y
      using that by (cases y) simp_all
    consider "x = a" | "x = q" | "ptr_of b = Some x" | "par_of k = Some x" |
      "x \<noteq> a" "x \<noteq> q" "ptr_of b \<noteq> Some x" "par_of k \<noteq> Some x" by blast
    then show ?thesis using w'(3-7) n(1,4) by cases (simp_all add: data_def m)
  qed
  moreover have "links w' x = links w x" if "x \<notin> set_tree (fill k (mk (\<not> d) (mk d b q c) a e))" for x
  proof -
    have "x \<noteq> a" "x \<noteq> q" "ptr_of b \<noteq> Some x" "par_of k \<noteq> Some x" using that pb pk by (auto simp: set_fill)
    from w'(7) [OF this] show ?thesis by (simp add: links_def)
  qed
  ultimately show thesis using w'(1,2) by (intro that [of w']) (simp_all add: fun_eq_iff)
qed

end
