(* ===== verification/TreeColors.thy ===== *)
theory TreeColors
  imports TreeShape
begin

text \<open>
  The colours of the nodes: black heights, red nodes with red children, and what recolouring a node and
  rotating does to them.
\<close>

subsection \<open>Colours of shapes\<close>

text \<open>\<open>bal R t n\<close>: every way from the root of \<open>t\<close> down has \<open>n\<close> black nodes.\<close>

fun bal :: "('a \<Rightarrow> bool) \<Rightarrow> 'a tree \<Rightarrow> nat \<Rightarrow> bool" where
  "bal R \<langle>\<rangle> n \<longleftrightarrow> n = 0"
| "bal R \<langle>l, a, r\<rangle> n \<longleftrightarrow> (if R a then bal R l n \<and> bal R r n else \<exists>m. n = Suc m \<and> bal R l m \<and> bal R r m)"

definition root_red :: "('a \<Rightarrow> bool) \<Rightarrow> 'a tree \<Rightarrow> bool" where
  "root_red R t = (case t of Leaf \<Rightarrow> False | Node l a r \<Rightarrow> R a)"

lemma root_red_simps [simp]: "root_red R \<langle>\<rangle> = False" "root_red R \<langle>l, a, r\<rangle> = R a" "root_red R (mk d s a u) = R a"
  by (simp_all add: root_red_def mk_def)

text \<open>\<open>calm R t\<close>: no red node has a red child.\<close>

fun calm :: "('a \<Rightarrow> bool) \<Rightarrow> 'a tree \<Rightarrow> bool" where
  "calm R \<langle>\<rangle> = True"
| "calm R \<langle>l, a, r\<rangle> \<longleftrightarrow> (R a \<longrightarrow> \<not> root_red R l \<and> \<not> root_red R r) \<and> calm R l \<and> calm R r"

lemma bal_mk: "bal R (mk d s a u) n \<longleftrightarrow>
    (if R a then bal R s n \<and> bal R u n else \<exists>m. n = Suc m \<and> bal R s m \<and> bal R u m)"
  by (auto simp: mk_def)

lemma calm_mk: "calm R (mk d s a u) \<longleftrightarrow> (R a \<longrightarrow> \<not> root_red R s \<and> \<not> root_red R u) \<and> calm R s \<and> calm R u"
  by (auto simp: mk_def)

text \<open>The same for contexts: \<open>h\<close> is the black height of the hole, \<open>c\<close> the colour of its root.\<close>

fun bal_ctx :: "('a \<Rightarrow> bool) \<Rightarrow> 'a ctx \<Rightarrow> nat \<Rightarrow> bool" where
  "bal_ctx R [] h = True"
| "bal_ctx R ((d, p, u) # k) h \<longleftrightarrow> bal R u h \<and> bal_ctx R k (if R p then h else Suc h)"

fun calm_ctx :: "('a \<Rightarrow> bool) \<Rightarrow> 'a ctx \<Rightarrow> bool \<Rightarrow> bool" where
  "calm_ctx R [] c = True"
| "calm_ctx R ((d, p, u) # k) c \<longleftrightarrow>
     (R p \<longrightarrow> \<not> c \<and> \<not> root_red R u) \<and> calm R u \<and> calm_ctx R k (R p)"

lemma bal_fill: "(\<exists>n. bal R (fill k s) n) \<longleftrightarrow> (\<exists>h. bal R s h \<and> bal_ctx R k h)"
  by (induction k s rule: fill.induct) (auto simp: bal_mk)

lemma calm_fill: "calm R (fill k s) \<longleftrightarrow> calm R s \<and> calm_ctx R k (root_red R s)"
  by (induction k s rule: fill.induct) (auto simp: calm_mk)

lemma calm_ctx_mono: "calm_ctx R k True \<Longrightarrow> calm_ctx R k c"
  by (cases k rule: ctx_set.cases) auto

lemma root_red_cong: "(\<And>a. a \<in> set_tree t \<Longrightarrow> R a = R' a) \<Longrightarrow> root_red R t = root_red R' t"
  by (cases t) auto

lemma bal_cong: "(\<And>a. a \<in> set_tree t \<Longrightarrow> R a = R' a) \<Longrightarrow> bal R t n = bal R' t n"
  by (induction t arbitrary: n) auto

lemma calm_cong: "(\<And>a. a \<in> set_tree t \<Longrightarrow> R a = R' a) \<Longrightarrow> calm R t = calm R' t"
proof (induction t)
  case (Node l a r)
  then show ?case using root_red_cong [of l R R'] root_red_cong [of r R R'] by auto
qed simp

lemma bal_ctx_cong: "(\<And>a. a \<in> ctx_set k \<Longrightarrow> R a = R' a) \<Longrightarrow> bal_ctx R k h = bal_ctx R' k h"
  by (induction R k h rule: bal_ctx.induct) (auto cong: bal_cong)

lemma calm_ctx_cong: "(\<And>a. a \<in> ctx_set k \<Longrightarrow> R a = R' a) \<Longrightarrow> calm_ctx R k c = calm_ctx R' k c"
proof (induction R k c rule: calm_ctx.induct)
  case (2 R d p u k c)
  have "R a = R' a" if "a \<in> set_tree u" for a using 2(2) that by simp
  then have "root_red R u = root_red R' u" "calm R u = calm R' u" by (auto intro!: root_red_cong calm_cong)
  moreover have "R p = R' p" "calm_ctx R k (R p) = calm_ctx R' k (R p)" using 2 by auto
  ultimately show ?case by simp
qed simp

lemma upd_outside:
  assumes "a \<notin> set_tree t"
  shows "bal (R(a := b)) t n = bal R t n" "calm (R(a := b)) t = calm R t" "root_red (R(a := b)) t = root_red R t"
  using assms by (auto intro!: bal_cong calm_cong root_red_cong split: if_splits)

lemma upd_outside_ctx:
  assumes "a \<notin> ctx_set k"
  shows "bal_ctx (R(a := b)) k h = bal_ctx R k h" "calm_ctx (R(a := b)) k c = calm_ctx R k c"
  using assms by (auto intro!: bal_ctx_cong calm_ctx_cong split: if_splits)

subsection \<open>Colours in memory\<close>

definition red_of :: "('c, 'k, 'm) Tree_scheme \<Rightarrow> addr \<Rightarrow> bool" where
  "red_of w a = (case t_nodes w a of None \<Rightarrow> False | Some n \<Rightarrow> n_red n)"

definition payload :: "('c, 'k, 'm) Tree_scheme \<Rightarrow> addr \<Rightarrow> ('c option \<times> int) option" where
  "payload w a = map_option (\<lambda>n. (n_content n, n_size n)) (t_nodes w a)"

lemma red_of_data: "data w = data w' \<Longrightarrow> red_of w = red_of w'"
proof
  fix a assume "data w = data w'"
  then have "data w a = data w' a" by simp
  then show "red_of w a = red_of w' a" by (auto simp: data_def red_of_def split: option.splits)
qed

lemma payload_data: "data w = data w' \<Longrightarrow> payload w = payload w'"
proof
  fix a assume "data w = data w'"
  then have "data w a = data w' a" by simp
  then show "payload w a = payload w' a"
    by (cases "t_nodes w a"; cases "t_nodes w' a") (simp_all add: data_def payload_def)
qed

lemma node_determined: "links w a = links w' a \<Longrightarrow> data w a = data w' a \<Longrightarrow> t_nodes w a = t_nodes w' a"
  by (cases "t_nodes w a"; cases "t_nodes w' a") (auto simp: links_def data_def)

definition recolor :: "addr \<Rightarrow> bool \<Rightarrow> ('c, 'k, 'm) Tree_scheme \<Rightarrow> ('c, 'k, 'm) Tree_scheme" where
  "recolor a b w = w\<lparr>t_nodes := (t_nodes w)(a := map_option (set_red b) (t_nodes w a))\<rparr>"

lemma upd_node_red: "t_nodes w a \<noteq> None \<Longrightarrow> upd_node a (set_red b) w = Some (recolor a b w)"
  by (auto simp: upd_node_def recolor_def)

lemma recolor_simps [simp]:
  "links (recolor a b w) = links w" "payload (recolor a b w) = payload w" "t_root (recolor a b w) = t_root w"
  "(t_nodes (recolor a b w) x = None) = (t_nodes w x = None)" "same_rest w (recolor a b w)"
  by (auto simp: recolor_def links_def payload_def same_rest_def fun_eq_iff option.map_comp comp_def)

lemma red_of_recolor: "t_nodes w a \<noteq> None \<Longrightarrow> red_of (recolor a b w) = (red_of w)(a := b)"
  by (auto simp: recolor_def red_of_def fun_eq_iff)

lemma recolor_other: "x \<noteq> a \<Longrightarrow> t_nodes (recolor a b w) x = t_nodes w x"
  by (simp add: recolor_def)

lemma same_rest_trans: "same_rest w w' \<Longrightarrow> same_rest w' w'' \<Longrightarrow> same_rest w w''"
  unfolding same_rest_def by (cases w; cases w'; cases w'') simp

lemma same_rest_refl [simp]: "same_rest w w"
  by (simp add: same_rest_def)

lemma isRed_ptr:
  assumes "rep (links w) par t"
  shows "isRed (ptr_of t) w = Some (root_red (red_of w) t)" "isBlack (ptr_of t) w = Some (\<not> root_red (red_of w) t)"
  using assms by (cases t; auto simp: isRed_def isBlack_def red_of_def links_Some)+

end
