(* ===== verification/TreeAdding.thy ===== *)
theory TreeAdding
  imports TreeColors
begin

text \<open>
  Adding to the tree in memory: the balancing loop ends, keeps the order of the nodes and restores the
  red-black invariants.
\<close>

subsection \<open>One step\<close>

text \<open>A tree in memory, and what balancing keeps of it.\<close>

definition tree_at :: "('c, 'k, 'm) Tree_scheme \<Rightarrow> nat \<Rightarrow> addr tree \<Rightarrow> bool" where
  "tree_at w i t \<longleftrightarrow> t_root w i = ptr_of t \<and> rep (links w) None t \<and> uniq t"

definition keeps :: "nat \<Rightarrow> ('c, 'k, 'm) Tree_scheme \<Rightarrow> ('c, 'k, 'm) Tree_scheme \<Rightarrow> addr set \<Rightarrow> bool" where
  "keeps i w w' A \<longleftrightarrow> payload w' = payload w \<and> same_rest w w' \<and> (\<forall>j. j \<noteq> i \<longrightarrow> t_root w' j = t_root w j) \<and>
     (\<forall>x. x \<notin> A \<longrightarrow> t_nodes w' x = t_nodes w x)"

lemma keeps_refl [simp]: "keeps i w w A"
  by (simp add: keeps_def)

lemma keeps_trans: "keeps i w w' A \<Longrightarrow> keeps i w' w'' A \<Longrightarrow> keeps i w w'' A"
  by (auto simp: keeps_def intro: same_rest_trans)

lemma keeps_recolor: "a \<in> A \<Longrightarrow> keeps i w (recolor a b w) A"
  unfolding keeps_def by (auto intro: recolor_other)

lemma tree_at_recolor [simp]: "tree_at (recolor a b w) i t = tree_at w i t"
  by (simp add: tree_at_def)

lemma rotate_at:
  assumes "tree_at w i (fill k (mk (\<not> d) (mk d b q c) a e))"
  obtains w' where "TreeRotate a d i w = Some w'" "tree_at w' i (fill k (mk d (mk (\<not> d) b a e) q c))"
    "red_of w' = red_of w" "keeps i w w' (set_tree (fill k (mk (\<not> d) (mk d b q c) a e)))"
proof -
  let ?t = "fill k (mk (\<not> d) (mk d b q c) a e)" and ?t' = "fill k (mk d (mk (\<not> d) b a e) q c)"
  from assms have t: "rep (links w) None ?t" "uniq ?t" "t_root w i = ptr_of ?t" by (simp_all add: tree_at_def)
  obtain w' where w': "TreeRotate a d i w = Some w'" "rep (links w') None ?t'" "t_root w' = (t_root w)(i := ptr_of ?t')"
    "data w' = data w" "same_rest w w'" "\<And>x. x \<notin> set_tree ?t \<Longrightarrow> links w' x = links w x"
    using rotate_rep [OF t] by blast
  have "inorder ?t' = inorder ?t" by (rule inorder_fill_cong) (rule inorder_rotate)
  then have "tree_at w' i ?t'" using w' t(2) by (simp add: tree_at_def)
  moreover have "t_nodes w' x = t_nodes w x" if "x \<notin> set_tree ?t" for x
    using node_determined [of w' x w] w'(4,6) that by simp
  then have "keeps i w w' (set_tree ?t)" using w' payload_data [OF w'(4)] by (simp add: keeps_def)
  ultimately show thesis using that w'(1) red_of_data [OF w'(4)] by blast
qed

lemma tree_at_nodes:
  assumes "tree_at w i (fill k (mk d s a u))"
  obtains n where "t_nodes w a = Some n" "n_parent n = par_of k" "n_child n = kids d (ptr_of s) (ptr_of u)" "n_red n = red_of w a"
proof -
  have "links w a = Some (par_of k, kids d (ptr_of s) (ptr_of u))" using assms by (simp add: tree_at_def rep_fill rep_mk)
  then show thesis using that by (auto simp: links_Some red_of_def)
qed

lemma tree_at_node: "tree_at w i (fill k (mk d s a u)) \<Longrightarrow> t_nodes w a \<noteq> None"
  by (erule tree_at_nodes) simp

text \<open>The step of the loop on a red node \<open>a\<close> with a red parent \<open>p\<close> and a grandparent \<open>g\<close>.\<close>

lemma BAASub_red_uncle:
  assumes t: "tree_at w i (fill k (mk d2 (mk d1 s p u) g v))" and s: "ptr_of s = Some a" and v: "v = mk d3 v1 r v2" "red_of w r"
  shows "TreeBAASub a (\<not> d2) i w = Some (g, recolor g True (recolor p False (recolor r False w)))"
proof -
  obtain x y where s': "s = mk d2 x a y" using s ptr_of_Some [of s a d2] by auto
  have t1: "tree_at w i (fill ((d1, p, u) # (d2, g, v) # k) (mk d2 x a y))" "tree_at w i (fill ((d2, g, v) # k) (mk d1 s p u))"
    using t s' by simp_all
  obtain na where na: "t_nodes w a = Some na" "n_parent na = Some p" using tree_at_nodes [OF t1(1)] by auto
  obtain np where np: "t_nodes w p = Some np" "n_parent np = Some g" using tree_at_nodes [OF t1(2)] by auto
  obtain ng where ng: "t_nodes w g = Some ng" "n_child ng = kids d2 (Some p) (ptr_of v)" using tree_at_nodes [OF t] by auto
  have "rep (links w) (Some g) v" using t by (simp add: tree_at_def rep_fill rep_mk)
  then have "isRed (ptr_of v) w = Some True" "t_nodes w r \<noteq> None"
    using isRed_ptr(1) [of w "Some g" v] v by (auto simp: rep_mk links_def)
  with na np ng v show ?thesis by (simp add: TreeBAASub_def upd_node_red)
qed

lemma child_test:
  assumes "tree_at w i (fill k (mk d s p u))" "ptr_of s = Some a"
  shows "kids d (ptr_of s) (ptr_of u) e = Some a \<longleftrightarrow> e = d"
proof -
  have "ptr_of u \<noteq> Some a" using assms ptr_of_set [of s a] ptr_of_set [of u a]
    by (auto simp: tree_at_def uniq_fill uniq_mk)
  with assms(2) show ?thesis by (auto simp: kids_def)
qed

text \<open>The last part of the step: \<open>p\<close> black, \<open>g\<close> red, and \<open>g\<close> goes down below \<open>p\<close>.\<close>

lemma rotate_up:
  assumes t: "tree_at w i (fill k (mk d2 (mk d2 s p u) g v))"
  obtains w' where "TreeRotate g (\<not> d2) i (recolor g True (recolor p False w)) = Some w'"
    "tree_at w' i (fill k (mk (\<not> d2) (mk d2 u g v) p s))" "red_of w' = (red_of w)(p := False, g := True)"
    "keeps i w w' (set_tree (fill k (mk d2 (mk d2 s p u) g v)))"
proof -
  let ?w1 = "recolor g True (recolor p False w)" and ?t = "fill k (mk d2 (mk d2 s p u) g v)"
  have n: "t_nodes w g \<noteq> None" "t_nodes w p \<noteq> None"
    using tree_at_node [OF t] tree_at_node [of w i "(d2, g, v) # k" d2 s p u] t by simp_all
  have "tree_at ?w1 i (fill k (mk (\<not> (\<not> d2)) (mk (\<not> d2) u p s) g v))" using t by (simp add: mk_not)
  from rotate_at [OF this] obtain w' where w': "TreeRotate g (\<not> d2) i ?w1 = Some w'"
    "tree_at w' i (fill k (mk (\<not> d2) (mk d2 u g v) p s))" "red_of w' = red_of ?w1"
    "keeps i ?w1 w' (set_tree ?t)" unfolding mk_not [of d2 u p s] not_not by blast
  have "keeps i w ?w1 (set_tree ?t)" by (intro keeps_trans [OF keeps_recolor keeps_recolor]) (simp_all add: set_fill)
  from keeps_trans [OF this w'(4)] show thesis using that w' n by (simp add: red_of_recolor)
qed

lemma BAASub_outer:
  assumes t: "tree_at w i (fill k (mk d2 (mk d2 s p u) g v))" and s: "ptr_of s = Some a" and v: "\<not> root_red (red_of w) v"
  obtains w' where "TreeBAASub a (\<not> d2) i w = Some (a, w')"
    "tree_at w' i (fill k (mk (\<not> d2) (mk d2 u g v) p s))" "red_of w' = (red_of w)(p := False, g := True)"
    "keeps i w w' (set_tree (fill k (mk d2 (mk d2 s p u) g v)))"
proof -
  obtain x y where s': "s = mk d2 x a y" using s ptr_of_Some [of s a d2] by auto
  have t1: "tree_at w i (fill ((d2, p, u) # (d2, g, v) # k) (mk d2 x a y))" "tree_at w i (fill ((d2, g, v) # k) (mk d2 s p u))"
    using t s' by simp_all
  obtain na where na: "t_nodes w a = Some na" "n_parent na = Some p" using tree_at_nodes [OF t1(1)] by auto
  obtain np where np: "t_nodes w p = Some np" "n_parent np = Some g" "n_child np = kids d2 (ptr_of s) (ptr_of u)"
    using tree_at_nodes [OF t1(2)] by auto
  obtain ng where ng: "t_nodes w g = Some ng" "n_child ng = kids d2 (Some p) (ptr_of v)" using tree_at_nodes [OF t] by auto
  have "rep (links w) (Some g) v" using t by (simp add: tree_at_def rep_fill rep_mk)
  then have v': "isRed (ptr_of v) w = Some False" using isRed_ptr(1) v by fastforce
  have c: "n_child np (\<not> d2) \<noteq> Some a" using child_test [OF t1(2) s, of "\<not> d2"] np(3) by simp
  obtain np1 where np1: "t_nodes (recolor p False w) p = Some np1" "n_parent np1 = Some g"
    using np by (auto simp: recolor_def)
  obtain w' where w': "TreeRotate g (\<not> d2) i (recolor g True (recolor p False w)) = Some w'"
    "tree_at w' i (fill k (mk (\<not> d2) (mk d2 u g v) p s))" "red_of w' = (red_of w)(p := False, g := True)"
    "keeps i w w' (set_tree (fill k (mk d2 (mk d2 s p u) g v)))" by (rule rotate_up [OF t])
  have "TreeBAASub a (\<not> d2) i w = Some (a, w')"
    using na np ng v' c np1 w'(1) by (simp add: TreeBAASub_def upd_node_red)
  with w' show thesis by (intro that)
qed

lemma BAASub_inner:
  assumes t: "tree_at w i (fill k (mk d2 (mk (\<not> d2) (mk d2 b a c) p u) g v))" and v: "\<not> root_red (red_of w) v"
  obtains w' where "TreeBAASub a (\<not> d2) i w = Some (p, w')"
    "tree_at w' i (fill k (mk (\<not> d2) (mk d2 c g v) a (mk (\<not> d2) b p u)))"
    "red_of w' = (red_of w)(a := False, g := True)"
    "keeps i w w' (set_tree (fill k (mk d2 (mk (\<not> d2) (mk d2 b a c) p u) g v)))"
proof -
  let ?s = "mk d2 b a c" and ?t = "fill k (mk d2 (mk (\<not> d2) (mk d2 b a c) p u) g v)"
  have t1: "tree_at w i (fill ((\<not> d2, p, u) # (d2, g, v) # k) ?s)" "tree_at w i (fill ((d2, g, v) # k) (mk (\<not> d2) ?s p u))"
    using t by simp_all
  obtain na where na: "t_nodes w a = Some na" "n_parent na = Some p" using tree_at_nodes [OF t1(1)] by auto
  obtain np where np: "t_nodes w p = Some np" "n_parent np = Some g" "n_child np = kids (\<not> d2) (Some a) (ptr_of u)"
    using tree_at_nodes [OF t1(2)] by auto
  obtain ng where ng: "t_nodes w g = Some ng" "n_child ng = kids d2 (Some p) (ptr_of v)" using tree_at_nodes [OF t] by auto
  have "rep (links w) (Some g) v" using t by (simp add: tree_at_def rep_fill rep_mk)
  then have v': "isRed (ptr_of v) w = Some False" using isRed_ptr(1) v by fastforce
  have c: "n_child np (\<not> d2) = Some a" using np(3) by simp
  obtain w1 where w1: "TreeRotate p d2 i w = Some w1" "tree_at w1 i (fill ((d2, g, v) # k) (mk d2 (mk (\<not> d2) b p u) a c))"
    "red_of w1 = red_of w" "keeps i w w1 (set_tree ?t)" using rotate_at [OF t1(2)] by auto
  have t2: "tree_at w1 i (fill k (mk d2 (mk d2 (mk (\<not> d2) b p u) a c) g v))"
    "tree_at w1 i (fill ((d2, a, c) # (d2, g, v) # k) (mk (\<not> d2) b p u))" using w1(2) by simp_all
  obtain np1 where np1: "t_nodes w1 p = Some np1" "n_parent np1 = Some a" using tree_at_nodes [OF t2(2)] by auto
  obtain na1 where na1: "t_nodes w1 a = Some na1" "n_parent na1 = Some g" using tree_at_nodes [OF w1(2)] by auto
  obtain ng1 where ng1: "t_nodes w1 g = Some ng1" using tree_at_nodes [OF t2(1)] by auto
  obtain na2 where na2: "t_nodes (recolor a False w1) a = Some na2" "n_parent na2 = Some g"
    using na1 by (auto simp: recolor_def)
  obtain w' where w': "TreeRotate g (\<not> d2) i (recolor g True (recolor a False w1)) = Some w'"
    "tree_at w' i (fill k (mk (\<not> d2) (mk d2 c g v) a (mk (\<not> d2) b p u)))" "red_of w' = (red_of w1)(a := False, g := True)"
    "keeps i w1 w' (set_tree (fill k (mk d2 (mk d2 (mk (\<not> d2) b p u) a c) g v)))" by (rule rotate_up [OF t2(1)])
  have "TreeBAASub a (\<not> d2) i w = Some (p, w')"
    using na np(1,2) ng v' c w1(1) np1 na1 na2 ng1 w'(1) by (simp add: TreeBAASub_def upd_node_red)
  moreover have "keeps i w w' (set_tree ?t)"
    using keeps_trans [OF w1(4), of w'] w'(4) by (simp add: set_fill insert_commute Un_ac)
  ultimately show thesis using w' w1(3) by (intro that) simp_all
qed

subsection \<open>Colours of one step\<close>

lemma red_uncle_colors:
  assumes "uniq (mk d2 (mk d1 s p u) g (mk d3 v1 r v2))" "R p" "R r" "\<not> R g"
    "bal R s h" "bal R u h" "bal R (mk d3 v1 r v2) h" "calm R s" "calm R u" "calm R (mk d3 v1 r v2)"
  shows "bal (R(r := False, p := False, g := True)) (mk d2 (mk d1 s p u) g (mk d3 v1 r v2)) (Suc h)"
    "calm (R(r := False, p := False, g := True)) (mk d2 (mk d1 s p u) g (mk d3 v1 r v2))"
  using assms by (auto simp: uniq_mk bal_mk calm_mk upd_outside)

lemma outer_colors:
  assumes "uniq (mk d2 (mk d2 s p u) g v)" "bal R s h" "bal R u h" "bal R v h"
    "calm R s" "calm R u" "calm R v" "\<not> root_red R u" "\<not> root_red R v"
  shows "bal (R(p := False, g := True)) (mk (\<not> d2) (mk d2 u g v) p s) (Suc h)"
    "calm (R(p := False, g := True)) (mk (\<not> d2) (mk d2 u g v) p s)"
  using assms by (auto simp: uniq_mk bal_mk calm_mk upd_outside)

lemma inner_colors:
  assumes "uniq (mk d2 (mk (\<not> d2) (mk d2 b a c) p u) g v)" "R a" "R p" "bal R (mk d2 b a c) h" "bal R u h" "bal R v h"
    "calm R (mk d2 b a c)" "calm R u" "calm R v" "\<not> root_red R u" "\<not> root_red R v"
  shows "bal (R(a := False, g := True)) (mk (\<not> d2) (mk d2 c g v) a (mk (\<not> d2) b p u)) (Suc h)"
    "calm (R(a := False, g := True)) (mk (\<not> d2) (mk d2 c g v) a (mk (\<not> d2) b p u))"
  using assms by (auto simp: uniq_mk bal_mk calm_mk upd_outside)

subsection \<open>The loop\<close>

text \<open>Only the root may be red with a red child.\<close>

definition calm_below :: "('a \<Rightarrow> bool) \<Rightarrow> 'a tree \<Rightarrow> bool" where
  "calm_below R t = (case t of Leaf \<Rightarrow> True | Node l a r \<Rightarrow> calm R l \<and> calm R r)"

lemma calm_below_mk [simp]: "calm_below R (mk d s a u) \<longleftrightarrow> calm R s \<and> calm R u"
  by (auto simp: calm_below_def mk_def)

lemma calm_calm_below: "calm R t \<Longrightarrow> calm_below R t"
  by (cases t) (auto simp: calm_below_def)

text \<open>What the loop leaves of a tree \<open>t\<close>.\<close>

definition balanced_add :: "nat \<Rightarrow> ('c, 'k, 'm) Tree_scheme \<Rightarrow> addr tree \<Rightarrow> ('c, 'k, 'm) Tree_scheme \<Rightarrow> bool" where
  "balanced_add i w t w' \<longleftrightarrow> (\<exists>t'. tree_at w' i t' \<and> inorder t' = inorder t \<and> keeps i w w' (set_tree t) \<and>
     (\<exists>n. bal (red_of w') t' n) \<and> calm_below (red_of w') t')"

lemma loop_root:
  assumes "tree_at w i (mk e x a y)" shows "balance_add_loop a i w = Some w"
proof -
  obtain n where "t_nodes w a = Some n" "n_parent n = None" using tree_at_nodes [of w i "[]" e x a y] assms by auto
  then show ?thesis by (subst balance_add_loop.simps) simp
qed

lemma loop_below_root:
  assumes "tree_at w i (fill [(d, p, u)] (mk e x a y))" shows "balance_add_loop a i w = Some w"
proof -
  obtain n where "t_nodes w a = Some n" "n_parent n = Some p" using tree_at_nodes [OF assms] by auto
  moreover obtain np where "t_nodes w p = Some np" "n_parent np = None"
    using tree_at_nodes [of w i "[]" d "mk e x a y" p u] assms by auto
  ultimately show ?thesis by (subst balance_add_loop.simps) simp
qed

lemma loop_black_parent:
  assumes "tree_at w i (fill ((d, p, u) # k) (mk e x a y))" "\<not> red_of w p" shows "balance_add_loop a i w = Some w"
proof -
  obtain n where "t_nodes w a = Some n" "n_parent n = Some p" using tree_at_nodes [OF assms(1)] by auto
  moreover obtain np where "t_nodes w p = Some np" "\<not> n_red np"
    using tree_at_nodes [of w i k d "mk e x a y" p u] assms by auto
  ultimately show ?thesis by (subst balance_add_loop.simps) simp
qed

lemma loop_step:
  assumes "tree_at w i (fill ((d1, p, u) # (d2, g, v) # k) (mk e x a y))" "red_of w p"
    "TreeBAASub a (\<not> d2) i w = Some (c, w1)"
  shows "balance_add_loop a i w = balance_add_loop c i w1"
proof -
  obtain n where n: "t_nodes w a = Some n" "n_parent n = Some p" using tree_at_nodes [OF assms(1)] by auto
  have t: "tree_at w i (fill k (mk d2 (mk d1 (mk e x a y) p u) g v))" using assms(1) by simp
  obtain np where np: "t_nodes w p = Some np" "n_parent np = Some g" "n_red np"
    using tree_at_nodes [of w i "(d2, g, v) # k" d1 "mk e x a y" p u] assms(1,2) by auto
  obtain ng where ng: "t_nodes w g = Some ng" "n_child ng = kids d2 (ptr_of (mk d1 (mk e x a y) p u)) (ptr_of v)"
    using tree_at_nodes [OF t] by auto
  have "n_child ng LEFT = Some p \<longleftrightarrow> LEFT = d2" using child_test [OF t, of p LEFT] ng(2) by simp
  then have "(if n_child ng LEFT = Some p then RIGHT else LEFT) = (\<not> d2)" by auto
  with n np ng(1) assms(3) show ?thesis by (subst balance_add_loop.simps) simp
qed

lemma balanced_add_step:
  assumes "balanced_add i w1 t1 w'" "inorder t1 = inorder t" "keeps i w w1 (set_tree t)"
  shows "balanced_add i w t w'"
proof -
  have "set_tree t1 = set_tree t" using assms(2) by (metis set_inorder)
  with assms show ?thesis unfolding balanced_add_def by (metis keeps_trans)
qed

lemma balanced_add_black:
  assumes "tree_at w1 i (fill ((d, p, u) # k) s)" "\<not> red_of w1 p" "ptr_of s = Some a" "bal (red_of w1) (mk d s p u) h"
    "calm (red_of w1) (mk d s p u)" "bal_ctx (red_of w1) k h" "calm_ctx (red_of w1) k False"
    "inorder (mk d s p u) = inorder t" "keeps i w w1 (set_tree (fill k t))"
  shows "balance_add_loop a i w1 = Some w1" "balanced_add i w (fill k t) w1"
proof -
  obtain e x y where "s = mk e x a y" using assms(3) ptr_of_Some [of s a True] by auto
  then show "balance_add_loop a i w1 = Some w1" using loop_black_parent assms(1,2) by blast
  have "calm (red_of w1) (fill k (mk d s p u))" using assms(2,5,7) by (simp add: calm_fill)
  moreover have "\<exists>n. bal (red_of w1) (fill k (mk d s p u)) n" using assms(4,6) bal_fill by blast
  moreover have "inorder (fill k (mk d s p u)) = inorder (fill k t)" using assms(8) by (rule inorder_fill_cong)
  ultimately show "balanced_add i w (fill k t) w1"
    using assms(1,9) unfolding balanced_add_def by (auto intro: calm_calm_below)
qed

text \<open>
  The three cases of a step, for a subtree \<open>s\<close> with the red root \<open>a\<close> below a red \<open>p\<close> and a black \<open>g\<close>.
\<close>

definition step_ok :: "('a \<Rightarrow> bool) \<Rightarrow> 'a tree \<Rightarrow> 'a \<Rightarrow> 'a tree \<Rightarrow> 'a \<Rightarrow> 'a tree \<Rightarrow> 'a ctx \<Rightarrow> nat \<Rightarrow> bool" where
  "step_ok R s p u g v k h \<longleftrightarrow> R p \<and> \<not> R g \<and> bal R s h \<and> bal R u h \<and> bal R v h \<and> calm R s \<and> calm R u \<and>
     calm R v \<and> \<not> root_red R u \<and> bal_ctx R k (Suc h) \<and> calm_ctx R k False"

lemma loop_red_uncle:
  assumes t: "tree_at w i (fill k (mk d2 (mk d1 s p u) g v))" and a: "ptr_of s = Some a"
    and ok: "step_ok (red_of w) s p u g v k h" and rv: "root_red (red_of w) v"
  obtains w1 where "TreeBAASub a (\<not> d2) i w = Some (g, w1)" "tree_at w1 i (fill k (mk d2 (mk d1 s p u) g v))"
    "red_of w1 g" "calm (red_of w1) (mk d2 (mk d1 s p u) g v)" "bal (red_of w1) (mk d2 (mk d1 s p u) g v) (Suc h)"
    "bal_ctx (red_of w1) k (Suc h)" "calm_ctx (red_of w1) k False"
    "keeps i w w1 (set_tree (fill k (mk d2 (mk d1 s p u) g v)))"
proof -
  from rv obtain d3 v1 r v2 where v: "v = mk d3 v1 r v2" "red_of w r" by (cases v rule: mk_cases [where d = True]) auto
  let ?w1 = "recolor g True (recolor p False (recolor r False w))"
  have "rep (links w) (Some g) v" using t by (simp add: tree_at_def rep_fill rep_mk)
  then have "t_nodes w r \<noteq> None" using v by (auto simp: rep_mk links_def)
  moreover have "tree_at w i (fill ((d2, g, v) # k) (mk d1 s p u))" using t by simp
  ultimately have n: "t_nodes w r \<noteq> None" "t_nodes w p \<noteq> None" "t_nodes w g \<noteq> None"
    using tree_at_node [OF t] by (blast dest: tree_at_node)+
  have un: "uniq (mk d2 (mk d1 s p u) g v)" "set_tree (mk d2 (mk d1 s p u) g v) \<inter> ctx_set k = {}"
    using t by (simp_all add: tree_at_def uniq_fill)
  have R: "red_of ?w1 = (red_of w)(r := False, p := False, g := True)" using n by (simp add: red_of_recolor)
  have "bal_ctx (red_of ?w1) k (Suc h)" "calm_ctx (red_of ?w1) k False"
    unfolding R using ok un(2) v(1) by (simp_all add: step_ok_def upd_outside_ctx)
  moreover have "bal (red_of ?w1) (mk d2 (mk d1 s p u) g v) (Suc h)" "calm (red_of ?w1) (mk d2 (mk d1 s p u) g v)"
    unfolding R v(1) using ok v by (intro red_uncle_colors [OF un(1) [unfolded v(1)], where h = h]; simp add: step_ok_def)+
  moreover have "keeps i w ?w1 (set_tree (fill k (mk d2 (mk d1 s p u) g v)))"
    unfolding v(1) by (intro keeps_trans [OF keeps_trans [OF keeps_recolor keeps_recolor] keeps_recolor]) (auto simp: set_fill)
  ultimately show thesis using BAASub_red_uncle [OF t a v] t R by (intro that [of ?w1]) simp_all
qed

lemma loop_outer:
  assumes t: "tree_at w i (fill k (mk d2 (mk d2 s p u) g v))" and a: "ptr_of s = Some a"
    and ok: "step_ok (red_of w) s p u g v k h" and rv: "\<not> root_red (red_of w) v"
  obtains w1 where "TreeBAASub a (\<not> d2) i w = Some (a, w1)" "balance_add_loop a i w1 = Some w1"
    "balanced_add i w (fill k (mk d2 (mk d2 s p u) g v)) w1"
proof -
  obtain w1 where w1: "TreeBAASub a (\<not> d2) i w = Some (a, w1)" "tree_at w1 i (fill k (mk (\<not> d2) (mk d2 u g v) p s))"
    "red_of w1 = (red_of w)(p := False, g := True)" "keeps i w w1 (set_tree (fill k (mk d2 (mk d2 s p u) g v)))"
    by (rule BAASub_outer [OF t a rv])
  have un: "uniq (mk d2 (mk d2 s p u) g v)" "set_tree (mk d2 (mk d2 s p u) g v) \<inter> ctx_set k = {}"
    using t by (simp_all add: tree_at_def uniq_fill)
  have col: "bal (red_of w1) (mk d2 s p (mk d2 u g v)) (Suc h)" "calm (red_of w1) (mk d2 s p (mk d2 u g v))"
    using outer_colors [OF un(1), of "red_of w" h] ok rv unfolding w1(3) by (simp_all add: step_ok_def mk_not)
  have k: "bal_ctx (red_of w1) k (Suc h)" "calm_ctx (red_of w1) k False"
    unfolding w1(3) using ok un(2) by (simp_all add: step_ok_def upd_outside_ctx)
  have "tree_at w1 i (fill ((d2, p, mk d2 u g v) # k) s)" using w1(2) by (simp add: mk_not)
  moreover have "\<not> red_of w1 p" using w1(3) un(1) by (auto simp: uniq_mk)
  moreover have "inorder (mk d2 s p (mk d2 u g v)) = inorder (mk d2 (mk d2 s p u) g v)" by (simp add: mk_def)
  ultimately have "balance_add_loop a i w1 = Some w1" "balanced_add i w (fill k (mk d2 (mk d2 s p u) g v)) w1"
    using balanced_add_black [OF _ _ a col k _ w1(4)] by blast+
  with w1(1) show thesis by (rule that)
qed

lemma loop_inner:
  assumes t: "tree_at w i (fill k (mk d2 (mk (\<not> d2) (mk d2 b a c) p u) g v))"
    and ok: "step_ok (red_of w) (mk d2 b a c) p u g v k h" and rv: "\<not> root_red (red_of w) v" and ra: "red_of w a"
  obtains w1 where "TreeBAASub a (\<not> d2) i w = Some (p, w1)" "balance_add_loop p i w1 = Some w1"
    "balanced_add i w (fill k (mk d2 (mk (\<not> d2) (mk d2 b a c) p u) g v)) w1"
proof -
  obtain w1 where w1: "TreeBAASub a (\<not> d2) i w = Some (p, w1)"
    "tree_at w1 i (fill k (mk (\<not> d2) (mk d2 c g v) a (mk (\<not> d2) b p u)))" "red_of w1 = (red_of w)(a := False, g := True)"
    "keeps i w w1 (set_tree (fill k (mk d2 (mk (\<not> d2) (mk d2 b a c) p u) g v)))"
    by (rule BAASub_inner [OF t rv])
  have un: "uniq (mk d2 (mk (\<not> d2) (mk d2 b a c) p u) g v)"
    "set_tree (mk d2 (mk (\<not> d2) (mk d2 b a c) p u) g v) \<inter> ctx_set k = {}" using t by (simp_all add: tree_at_def uniq_fill)
  have col: "bal (red_of w1) (mk d2 (mk (\<not> d2) b p u) a (mk d2 c g v)) (Suc h)"
    "calm (red_of w1) (mk d2 (mk (\<not> d2) b p u) a (mk d2 c g v))"
    using inner_colors [OF un(1), of "red_of w" h] ra ok rv unfolding w1(3) mk_not [of d2 "mk d2 c g v"] by (simp_all add: step_ok_def)
  have k: "bal_ctx (red_of w1) k (Suc h)" "calm_ctx (red_of w1) k False"
    unfolding w1(3) using ok un(2) by (simp_all add: step_ok_def upd_outside_ctx)
  have "tree_at w1 i (fill ((d2, a, mk d2 c g v) # k) (mk (\<not> d2) b p u))" using w1(2) by (simp add: mk_not)
  moreover have "\<not> red_of w1 a" using w1(3) un(1) by (auto simp: uniq_mk)
  moreover have "ptr_of (mk (\<not> d2) b p u) = Some p" by simp
  moreover have "inorder (mk d2 (mk (\<not> d2) b p u) a (mk d2 c g v)) =
    inorder (mk d2 (mk (\<not> d2) (mk d2 b a c) p u) g v)" by (simp add: mk_def)
  ultimately have "balance_add_loop p i w1 = Some w1"
    "balanced_add i w (fill k (mk d2 (mk (\<not> d2) (mk d2 b a c) p u) g v)) w1"
    using balanced_add_black [OF _ _ _ col k _ w1(4)] by blast+
  with w1(1) show thesis by (rule that)
qed

lemma loop_balances:
  assumes "tree_at w i (fill k (mk e x a y))" "red_of w a" "calm (red_of w) (mk e x a y)" "bal (red_of w) (mk e x a y) h"
    "bal_ctx (red_of w) k h" "calm_ctx (red_of w) k False"
  shows "\<exists>w'. balance_add_loop a i w = Some w' \<and> balanced_add i w (fill k (mk e x a y)) w'"
  using assms
proof (induction k arbitrary: w e x a y h rule: measure_induct_rule [of length])
  case (less k)
  let ?s = "mk e x a y" and ?R = "red_of w"
  have ex: "\<exists>n. bal ?R (fill k ?s) n" using less.prems(4,5) bal_fill by blast
  consider "k = []" | d p u where "k = [(d, p, u)]" | d1 p u k1 where "k = (d1, p, u) # k1" "\<not> ?R p"
    | d1 p u d2 g v k2 where "k = (d1, p, u) # (d2, g, v) # k2" "?R p" by (metis prod_cases3 remdups_adj.cases)
  then show ?case
  proof cases
    case 1
    then show ?thesis using loop_root [of w i e x a y] less.prems ex calm_calm_below
      by (auto simp: balanced_add_def)
  next
    case 2
    then show ?thesis using loop_below_root [of w i _ _ _ e x a y] less.prems ex by (auto simp: balanced_add_def)
  next
    case (3 d1 p u k1)
    then have "calm ?R (fill k ?s)" using less.prems by (simp add: calm_fill calm_mk)
    with ex loop_black_parent [of w i d1 p u k1 e x a y] less.prems(1) 3 show ?thesis
      by (auto simp: balanced_add_def intro: calm_calm_below)
  next
    case (4 d1 p u d2 g v k2)
    have t: "tree_at w i (fill k2 (mk d2 (mk d1 ?s p u) g v))" using less.prems(1) 4 by simp
    have ok: "step_ok ?R ?s p u g v k2 h" using less.prems 4 by (auto simp: step_ok_def)
    have step: "balance_add_loop a i w = balance_add_loop c i w1" if "TreeBAASub a (\<not> d2) i w = Some (c, w1)" for c w1
      using loop_step [OF _ 4(2) that] less.prems(1) 4(1) by simp
    consider "root_red ?R v" | "\<not> root_red ?R v" "d1 = d2" | "\<not> root_red ?R v" "d1 = (\<not> d2)" by blast
    then show ?thesis
    proof cases
      case 1
      from loop_red_uncle [OF t _ ok 1, of a] obtain w1 where w1: "TreeBAASub a (\<not> d2) i w = Some (g, w1)"
        "tree_at w1 i (fill k2 (mk d2 (mk d1 ?s p u) g v))" "red_of w1 g" "calm (red_of w1) (mk d2 (mk d1 ?s p u) g v)"
        "bal (red_of w1) (mk d2 (mk d1 ?s p u) g v) (Suc h)" "bal_ctx (red_of w1) k2 (Suc h)"
        "calm_ctx (red_of w1) k2 False" "keeps i w w1 (set_tree (fill k2 (mk d2 (mk d1 ?s p u) g v)))" by auto
      have "length k2 < length k" using 4(1) by simp
      from less.IH [OF this w1(2-7)] step [OF w1(1)] balanced_add_step [OF _ refl w1(8)] 4(1) show ?thesis by auto
    next
      case 2
      obtain w1 where w1: "TreeBAASub a (\<not> d2) i w = Some (a, w1)" "balance_add_loop a i w1 = Some w1"
        "balanced_add i w (fill k2 (mk d2 (mk d2 ?s p u) g v)) w1"
        by (rule loop_outer [OF t [unfolded 2(2)] _ ok 2(1), of a]) simp
      with step [OF w1(1)] 4(1) 2(2) show ?thesis by simp
    next
      case 3
      obtain b c where s: "?s = mk d2 b a c" using ptr_of_Some [of ?s a d2] by auto
      obtain w1 where w1: "TreeBAASub a (\<not> d2) i w = Some (p, w1)" "balance_add_loop p i w1 = Some w1"
        "balanced_add i w (fill k2 (mk d2 (mk (\<not> d2) (mk d2 b a c) p u) g v)) w1"
        by (rule loop_inner [OF t [unfolded 3(2) s] ok [unfolded s] 3(1) less.prems(2)])
      with step [OF w1(1)] 4(1) 3(2) s show ?thesis by simp
    qed
  qed
qed

end
