(* ===== verification/TreeOrder.thy ===== *)
theory TreeOrder
  imports TreeAdding
begin

text \<open>
  Searching the tree.  What the comparison functions promise is the locale \<open>tree_order\<close>, interpreted for
  the functions of \<^verbatim>\<open>Tree.c\<close>; inside it, the two searches are right on sorted trees.
\<close>

subsection \<open>The order of the contents\<close>

text \<open>
  \<open>cmp x y > 0\<close> says that \<open>y\<close> comes after \<open>x\<close>.  A key has a place among the contents: when it does not
  come before \<open>y\<close>, it comes after every \<open>x\<close> before \<open>y\<close>.
\<close>

locale tree_order =
  fixes cmp :: "'c \<Rightarrow> 'c \<Rightarrow> int" and key :: "'c \<Rightarrow> 'k \<Rightarrow> int"
  assumes flip: "cmp x y < 0 \<longleftrightarrow> cmp y x > 0"
    and place: "cmp x y > 0 \<Longrightarrow> cmp y z \<ge> 0 \<Longrightarrow> cmp x z > 0"
    and key_place: "cmp x y > 0 \<Longrightarrow> key y k \<ge> 0 \<Longrightarrow> key x k > 0"

interpretation int_order: tree_order TreeIntCompare TreeIntCompare
  by unfold_locales (auto simp: TreeIntCompare_def split: if_splits)

interpretation ptr_order: tree_order TreePtrCompare TreePtrCompare
  by unfold_locales (auto simp: TreePtrCompare_def split: if_splits)

text \<open>A test that fits a sorted list of contents: positive first, then negative.\<close>

definition fits :: "('c \<Rightarrow> 'c \<Rightarrow> int) \<Rightarrow> ('c \<Rightarrow> int) \<Rightarrow> bool" where
  "fits cmp test \<longleftrightarrow> (\<forall>x y. cmp x y > 0 \<longrightarrow> test y \<ge> 0 \<longrightarrow> test x > 0)"

abbreviation sorted_by :: "('c \<Rightarrow> 'c \<Rightarrow> int) \<Rightarrow> 'c list \<Rightarrow> bool" where
  "sorted_by cmp \<equiv> sorted_wrt (\<lambda>x y. cmp x y > 0)"

context tree_order
begin

lemma fits_content: "fits cmp (\<lambda>x. cmp x c)"
  unfolding fits_def using place by blast

lemma fits_key: "fits cmp (\<lambda>x. key x k)"
  unfolding fits_def using key_place by blast

lemma sorted_insert:
  assumes "sorted_by cmp (xs @ ys)" "\<forall>x\<in>set xs. cmp x c > 0" "\<forall>y\<in>set ys. cmp y c < 0"
  shows "sorted_by cmp (xs @ c # ys)"
  using assms flip by (auto simp: sorted_wrt_append)

lemma sorted_replace:
  assumes "sorted_by cmp (xs @ x # ys)" "cmp x c = 0"
  shows "sorted_by cmp (xs @ c # ys)"
proof -
  have "cmp z c > 0" if "z \<in> set xs" for z using assms that place [of z x c] by (auto simp: sorted_wrt_append)
  moreover have "cmp c z > 0" if "z \<in> set ys" for z
    using assms that place [of x z c] flip [of z c] by (fastforce simp: sorted_wrt_append)
  ultimately show ?thesis using assms(1) by (auto simp: sorted_wrt_append)
qed

end

subsection \<open>The contents of a shape\<close>

definition content_at :: "('c, 'k, 'm) Tree_scheme \<Rightarrow> addr \<Rightarrow> 'c" where
  "content_at w a = the (Option.bind (t_nodes w a) n_content)"

definition contents_of :: "('c, 'k, 'm) Tree_scheme \<Rightarrow> addr tree \<Rightarrow> 'c list" where
  "contents_of w t = map (content_at w) (inorder t)"

definition filled :: "('c, 'k, 'm) Tree_scheme \<Rightarrow> addr set \<Rightarrow> bool" where
  "filled w A \<longleftrightarrow> (\<forall>a\<in>A. Option.bind (t_nodes w a) n_content \<noteq> None)"

lemma filledD:
  assumes "filled w A" "a \<in> A"
  obtains n where "t_nodes w a = Some n" "n_content n = Some (content_at w a)"
  using assms by (cases "t_nodes w a") (auto simp: filled_def content_at_def)

lemma content_at_payload: "payload w a = payload w' a \<Longrightarrow> content_at w a = content_at w' a"
  by (cases "t_nodes w a"; cases "t_nodes w' a") (auto simp: payload_def content_at_def)

lemma filled_payload: "payload w = payload w' \<Longrightarrow> filled w A \<longleftrightarrow> filled w' A"
proof -
  assume p: "payload w = payload w'"
  have "Option.bind (t_nodes w a) n_content = Option.bind (t_nodes w' a) n_content" for a
    using fun_cong [OF p, of a] by (cases "t_nodes w a"; cases "t_nodes w' a") (auto simp: payload_def)
  then show ?thesis by (simp add: filled_def)
qed

fun ctx_left :: "'a ctx \<Rightarrow> 'a list" where
  "ctx_left [] = []"
| "ctx_left ((d, p, u) # k) = ctx_left k @ (if d then inorder u @ [p] else [])"

fun ctx_right :: "'a ctx \<Rightarrow> 'a list" where
  "ctx_right [] = []"
| "ctx_right ((d, p, u) # k) = (if d then [] else p # inorder u) @ ctx_right k"

lemma inorder_fill: "inorder (fill k s) = ctx_left k @ inorder s @ ctx_right k"
  by (induction k s rule: fill.induct) (auto simp: mk_def)

fun side_of :: "'a ctx \<Rightarrow> bool" where
  "side_of [] = False"
| "side_of ((d, p, u) # k) = d"

subsection \<open>Searching\<close>

text \<open>The place of the test in a context: after what is on the left, before what is on the right.\<close>

definition placed :: "('c \<Rightarrow> int) \<Rightarrow> ('c, 'k, 'm) Tree_scheme \<Rightarrow> addr ctx \<Rightarrow> bool" where
  "placed test w k \<longleftrightarrow> (\<forall>a\<in>set (ctx_left k). test (content_at w a) > 0) \<and>
     (\<forall>a\<in>set (ctx_right k). test (content_at w a) < 0)"

lemma placed_down:
  assumes "placed test w k" "fits cmp test" "sorted_by cmp (contents_of w (mk d s a u))"
    "test (content_at w a) \<noteq> 0" "d = (test (content_at w a) > 0)"
  shows "placed test w ((d, a, u) # k)"
proof -
  have f: "cmp (content_at w x) (content_at w a) > 0 \<Longrightarrow> test (content_at w a) > 0 \<Longrightarrow> test (content_at w x) > 0"
    "cmp (content_at w a) (content_at w x) > 0 \<Longrightarrow> test (content_at w a) < 0 \<Longrightarrow> test (content_at w x) < 0" for x
    using assms(2) unfolding fits_def by (meson less_imp_le not_le)+
  show ?thesis
  proof (cases d)
    case True
    then have "\<forall>x\<in>set_tree u. cmp (content_at w x) (content_at w a) > 0"
      using assms(3) by (auto simp: contents_of_def mk_def sorted_wrt_append)
    with f(1) assms(1,5) True show ?thesis by (auto simp: placed_def)
  next
    case False
    then have "\<forall>x\<in>set_tree u. cmp (content_at w a) (content_at w x) > 0"
      using assms(3) by (auto simp: contents_of_def mk_def sorted_wrt_append)
    with f(2) assms(1,4,5) False show ?thesis by (auto simp: placed_def)
  qed
qed

lemma sorted_sub: "sorted_by cmp (contents_of w (mk d s a u)) \<Longrightarrow> sorted_by cmp (contents_of w s)"
  by (auto simp: contents_of_def mk_def sorted_wrt_append split: if_splits)

lemma add_search_right:
  assumes "rep (links w) (par_of k) s" "filled w (set_tree s)" "fits cmp test" "sorted_by cmp (contents_of w s)"
    "placed test w k"
  shows "(\<exists>a q d. add_search test (ptr_of s) (par_of k) (side_of k) w = Some (Some a, q, d) \<and> a \<in> set_tree s \<and>
      test (content_at w a) = 0) \<or>
    (\<exists>k'. add_search test (ptr_of s) (par_of k) (side_of k) w = Some (None, par_of k', side_of k') \<and>
      fill k' \<langle>\<rangle> = fill k s \<and> placed test w k')"
  using assms
proof (induction "size s" arbitrary: s k rule: less_induct)
  case less
  show ?case
  proof (cases s)
    case Leaf
    then show ?thesis using less.prems(5) by (subst (1 2) add_search.simps) auto
  next
    case (Node l a r)
    obtain n where n: "t_nodes w a = Some n" "n_content n = Some (content_at w a)"
      using filledD [OF less.prems(2), of a] Node by auto
    let ?d = "test (content_at w a) > 0"
    show ?thesis
    proof (cases "test (content_at w a) = 0")
      case True
      then show ?thesis using n Node by (subst (1 2) add_search.simps) simp
    next
      case False
      obtain s' u where s: "s = mk ?d s' a u" using Node ptr_of_Some [of s a ?d] by auto
      have rep: "rep (links w) (par_of ((?d, a, u) # k)) s'" "n_child n ?d = ptr_of s'"
        using less.prems(1) n(1) unfolding s by (auto simp: rep_mk links_Some)
      have "size s' < size s" unfolding s by (simp add: mk_def)
      moreover have st: "sorted_by cmp (contents_of w (mk ?d s' a u))" using less.prems(4) s by simp
      moreover have "filled w (set_tree s')" using less.prems(2) s by (simp add: filled_def)
      ultimately have ih: "(\<exists>b q d. add_search test (ptr_of s') (Some a) ?d w = Some (Some b, q, d) \<and> b \<in> set_tree s' \<and>
          test (content_at w b) = 0) \<or>
        (\<exists>k'. add_search test (ptr_of s') (Some a) ?d w = Some (None, par_of k', side_of k') \<and>
          fill k' \<langle>\<rangle> = fill k s \<and> placed test w k')"
        using less.hyps [OF _ rep(1) _ less.prems(3) sorted_sub [OF st] placed_down [OF less.prems(5,3) st False refl]] s
        by simp
      have "add_search test (ptr_of s) (par_of k) (side_of k) w = add_search test (ptr_of s') (Some a) ?d w"
        using n False rep(2) Node by (subst add_search.simps) simp
      with ih s show ?thesis by auto
    qed
  qed
qed

lemma find_node_search:
  "rep (links w) par s \<Longrightarrow> filled w (set_tree s) \<Longrightarrow>
    find_node test (ptr_of s) w = map_option fst (add_search test (ptr_of s) q d w)"
proof (induction s arbitrary: par q d)
  case Leaf
  then show ?case by (subst find_node.simps, subst add_search.simps) simp
next
  case (Node l a r)
  obtain n where n: "t_nodes w a = Some n" "n_content n = Some (content_at w a)"
    using filledD [OF Node.prems(2), of a] by auto
  have c: "n_child n e = ptr_of (if e then r else l)" for e
    using Node.prems(1) n(1) by (cases e) (auto simp: links_Some kids_def)
  have "find_node test (ptr_of (if e then r else l)) w =
      map_option fst (add_search test (ptr_of (if e then r else l)) (Some a) e w)" for e
    using Node.IH [of "Some a"] Node.prems by (cases e) (auto simp: filled_def)
  then show ?case using n c by (subst find_node.simps, subst add_search.simps) simp
qed

text \<open>The node of the tree with an equal content, if there is one.\<close>

lemma find_node_right:
  assumes "tree_at w i t" "filled w (set_tree t)" "fits cmp test" "sorted_by cmp (contents_of w t)"
  shows "(\<exists>a. find_node test (t_root w i) w = Some (Some a) \<and> a \<in> set_tree t \<and> test (content_at w a) = 0) \<or>
    find_node test (t_root w i) w = Some None \<and> (\<forall>x\<in>set (contents_of w t). test x \<noteq> 0)"
proof -
  have r: "t_root w i = ptr_of t" "rep (links w) (par_of []) t" using assms(1) by (simp_all add: tree_at_def)
  have p: "placed test w []" by (simp add: placed_def)
  have f: "find_node test (t_root w i) w = map_option fst (add_search test (ptr_of t) (par_of []) (side_of []) w)"
    unfolding r(1) by (rule find_node_search [OF r(2) assms(2)])
  from add_search_right [OF r(2) assms(2-4) p] show ?thesis
  proof (elim disjE exE conjE)
    fix k assume k: "add_search test (ptr_of t) (par_of []) (side_of []) w = Some (None, par_of k, side_of k)"
      "fill k \<langle>\<rangle> = fill [] t" "placed test w k"
    have "inorder t = ctx_left k @ ctx_right k" using k(2) inorder_fill [of k "\<langle>\<rangle>"] by simp
    then have "\<forall>x\<in>set (contents_of w t). test x \<noteq> 0" using k(3) by (auto simp: contents_of_def placed_def)
    with f k(1) show ?thesis by simp
  qed (use f in auto)
qed

end
