(* ===== verification/TreeProps.thy ===== *)
theory TreeProps
  imports TreeOrder
begin

text \<open>
  What \<^verbatim>\<open>TreeAdd\<close> and \<^verbatim>\<open>TreeFind\<close> do to a well-formed tree: the contents are a sorted list without equal
  elements, the colours those of a red-black tree.
\<close>

subsection \<open>Well-formed trees\<close>

definition tree_ok :: "('c, 'k, 'm) Tree_scheme \<Rightarrow> nat \<Rightarrow> addr tree \<Rightarrow> bool" where
  "tree_ok w i t \<longleftrightarrow> tree_at w i t \<and> filled w (set_tree t) \<and> (\<forall>a. t_nodes w a \<noteq> None \<longrightarrow> a < t_next w) \<and>
     sorted_by (cmp_content (t_compare w i)) (contents_of w t) \<and>
     calm (red_of w) t \<and> (\<exists>n. bal (red_of w) t n) \<and> \<not> root_red (red_of w) t"

lemma BalanceAfterAdd_ok:
  assumes "tree_at w i (fill k (mk e x a y))" "red_of w a" "calm (red_of w) (mk e x a y)" "bal (red_of w) (mk e x a y) h"
    "bal_ctx (red_of w) k h" "calm_ctx (red_of w) k False"
  obtains w' t' where "TreeBalanceAfterAdd a i w = Some w'" "tree_at w' i t'" "inorder t' = inorder (fill k (mk e x a y))"
    "keeps i w w' (set_tree (fill k (mk e x a y)))" "calm (red_of w') t'" "\<exists>n. bal (red_of w') t' n"
    "\<not> root_red (red_of w') t'"
proof -
  let ?t = "fill k (mk e x a y)"
  from loop_balances [OF assms] obtain w1 t' n where w1: "balance_add_loop a i w = Some w1" "tree_at w1 i t'"
    "inorder t' = inorder ?t" "keeps i w w1 (set_tree ?t)" "bal (red_of w1) t' n" "calm_below (red_of w1) t'"
    by (auto simp: balanced_add_def)
  have "a \<in> set_tree t'" using w1(3) by (metis set_fill set_inorder set_mk insertI1 UnI1)
  then obtain l r u where t': "t' = mk False l r u" by (cases t' rule: mk_cases [where d = False]) auto
  have n: "t_nodes w1 r \<noteq> None" using tree_at_node [of w1 i "[]" False l r u] w1(2) t' by simp
  let ?w' = "recolor r False w1"
  have R: "red_of ?w' = (red_of w1)(r := False)" using n by (simp add: red_of_recolor)
  have out: "r \<notin> set_tree l" "r \<notin> set_tree u" using w1(2) t' by (auto simp: tree_at_def uniq_mk)
  have "TreeBalanceAfterAdd a i w = Some ?w'"
    using w1(1,2) n t' by (simp add: TreeBalanceAfterAdd_def tree_at_def upd_node_red)
  moreover have "calm (red_of ?w') t'" "\<not> root_red (red_of ?w') t'"
    unfolding R using w1(6) t' out by (simp_all add: calm_mk upd_outside)
  moreover have "\<exists>n. bal (red_of ?w') t' n"
    unfolding R using w1(5) t' out by (auto simp: bal_mk upd_outside split: if_splits)
  moreover have "r \<in> set_tree ?t" using t' w1(3) by (metis set_inorder set_mk insertI1)
  then have "keeps i w ?w' (set_tree ?t)" by (intro keeps_trans [OF w1(4) keeps_recolor])
  ultimately show thesis using w1(2,3) by (intro that [of ?w' t']) simp_all
qed

subsection \<open>A new node\<close>

text \<open>The new node \<open>a\<close>, red and with its content, in place of the empty tree in the context \<open>k\<close>.\<close>

lemma rep_ctx_new:
  assumes "rep_ctx L None k" "ctx_uniq k" "\<And>d p u k'. k = (d, p, u) # k' \<Longrightarrow> L' p = Some (par_of k', kids d (Some a) (ptr_of u))"
    "\<And>x. x \<in> ctx_set k \<Longrightarrow> par_of k \<noteq> Some x \<Longrightarrow> L' x = L x"
  shows "rep_ctx L' (Some a) k"
proof (cases k rule: ctx_set.cases)
  case (2 d p u k')
  have f: "L' x = L x" if "x \<in> set_tree u \<union> ctx_set k'" for x using that assms(2,4) 2 by auto
  have "rep L' (Some p) u" using assms(1) 2 f rep_cong [of u L L'] by simp
  moreover have "rep_ctx L' (Some p) k'" using assms(1) 2 f rep_ctx_cong [of k' L L'] by simp
  ultimately show ?thesis using assms(3) [OF 2] 2 by simp
qed simp

definition new_node :: "addr ctx \<Rightarrow> 'c \<Rightarrow> int \<Rightarrow> 'c Node" where
  "new_node k c len = \<lparr>n_parent = par_of k, n_child = (\<lambda>_. None), n_content = Some c, n_size = len, n_red = True\<rparr>"

definition with_node :: "nat \<Rightarrow> addr ctx \<Rightarrow> 'c \<Rightarrow> int \<Rightarrow> ('c, 'k, 'm) Tree_scheme \<Rightarrow> ('c, 'k, 'm) Tree_scheme" where
  "with_node i k c len w = (
     let a = t_next w;
         w1 = w\<lparr>t_next := a + 1, t_nodes := (\<lambda>x. if x = a then Some (new_node k c len)
           else if par_of k = Some x then map_option (set_child (side_of k) (Some a)) (t_nodes w x) else t_nodes w x),
           t_root := (if k = [] then (t_root w)(i := Some a) else t_root w)\<rparr>
     in if i = 0 then w1\<lparr>t_count := t_count w + 1, t_size := t_size w + len\<rparr> else w1)"

lemma with_node_fields:
  "t_nodes (with_node i k c len w) = (\<lambda>x. if x = t_next w then Some (new_node k c len)
     else if par_of k = Some x then map_option (set_child (side_of k) (Some (t_next w))) (t_nodes w x) else t_nodes w x)"
  "t_root (with_node i k c len w) = (if k = [] then (t_root w)(i := Some (t_next w)) else t_root w)"
  "t_next (with_node i k c len w) = t_next w + 1" "t_compare (with_node i k c len w) = t_compare w"
  "t_count (with_node i k c len w) = t_count w + (if i = 0 then 1 else 0)" "t_indexes (with_node i k c len w) = t_indexes w"
  by (simp_all add: with_node_def Let_def)

lemma with_node_at:
  assumes "tree_at w i (fill k \<langle>\<rangle>)" "\<forall>a. t_nodes w a \<noteq> None \<longrightarrow> a < t_next w"
  shows "tree_at (with_node i k c len w) i (fill k (mk False \<langle>\<rangle> (t_next w) \<langle>\<rangle>))"
proof -
  let ?w = "with_node i k c len w" and ?a = "t_next w"
  have r: "rep_ctx (links w) None k" "t_root w i = ptr_of (fill k \<langle>\<rangle>)" "ctx_uniq k"
    using assms(1) by (simp_all add: tree_at_def rep_fill uniq_fill)
  have in_ctx: "links w x \<noteq> None" if "x \<in> ctx_set k" for x
  proof -
    have "x \<in> set_tree (fill k \<langle>\<rangle>)" using that by (simp add: set_fill)
    then obtain k' s u where "fill k \<langle>\<rangle> = fill k' (mk False s x u)" by (rule split_at)
    with tree_at_node [of w i k' False s x u] assms(1) show ?thesis by (simp add: links_def)
  qed
  then have fresh: "?a \<notin> ctx_set k" using assms(2) by (fastforce simp: links_def)
  have "links ?w ?a = Some (par_of k, kids False None None)"
    by (simp add: links_Some with_node_fields new_node_def kids_def)
  moreover have "rep_ctx (links ?w) (Some ?a) k"
  proof (rule rep_ctx_new [OF r(1,3)])
    fix d p u k' assume k: "k = (d, p, u) # k'"
    with r(1) obtain np where "t_nodes w p = Some np" "n_parent np = par_of k'" "n_child np = kids d None (ptr_of u)"
      by (auto simp: links_Some)
    moreover have "p \<noteq> ?a" using fresh k by auto
    ultimately show "links ?w p = Some (par_of k', kids d (Some ?a) (ptr_of u))"
      using k by (simp add: links_Some with_node_fields)
  next
    fix x assume "x \<in> ctx_set k" "par_of k \<noteq> Some x"
    with fresh show "links ?w x = links w x" by (auto simp: links_def with_node_fields)
  qed
  ultimately have "rep (links ?w) None (fill k (mk False \<langle>\<rangle> ?a \<langle>\<rangle>))" by (simp add: rep_fill rep_mk)
  moreover have "uniq (fill k (mk False \<langle>\<rangle> ?a \<langle>\<rangle>))" using r(3) fresh by (simp add: uniq_fill uniq_mk)
  moreover have "t_root ?w i = ptr_of (fill k (mk False \<langle>\<rangle> ?a \<langle>\<rangle>))"
    using r(2) by (auto simp: with_node_fields ptr_of_fill)
  ultimately show ?thesis by (simp add: tree_at_def)
qed

lemma add_new_eval:
  assumes "add_search (\<lambda>x. cmp_content (t_compare w i) x c) (t_root w i) None LEFT w = Some (None, par_of k, side_of k)"
    "\<And>p. par_of k = Some p \<Longrightarrow> t_nodes w p \<noteq> None \<and> p \<noteq> t_next w"
  shows "TreeAddByIndex c len i w =
    map_option (Pair None) (TreeBalanceAfterAdd (t_next w) i (with_node i k c len w))"
proof -
  let ?a = "t_next w"
  let ?w1 = "w\<lparr>t_next := ?a + 1, t_nodes := (t_nodes w)(?a \<mapsto> zero_node)\<rparr>"
  let ?n = "zero_node\<lparr>n_parent := par_of k, n_red := True\<rparr>"
  have n: "?n\<lparr>n_content := Some c, n_size := len\<rparr> = new_node k c len" by (simp add: zero_node_def new_node_def)
  show ?thesis
  proof (cases k rule: par_of.cases)
    case 1
    then have "with_node i k c len w = (let w2 = set_root i (Some ?a) (?w1\<lparr>t_nodes := (t_nodes w)(?a \<mapsto> new_node k c len)\<rparr>)
        in if i = 0 then w2\<lparr>t_count := t_count w + 1, t_size := t_size w + len\<rparr> else w2)"
      by (simp add: with_node_def Let_def fun_upd_def cong: if_cong)
    with assms(1) n 1 show ?thesis
      by (cases w) (simp add: TreeAddByIndex_def upd_node_def Let_def map_option_case split: option.split)
  next
    case (2 d p u k')
    with assms(2) obtain np where p: "t_nodes w p = Some np" "p \<noteq> ?a" by auto
    have "with_node i k c len w = (let w2 = ?w1\<lparr>t_nodes := (t_nodes w)(p \<mapsto> set_child d (Some ?a) np, ?a \<mapsto> new_node k c len)\<rparr>
        in if i = 0 then w2\<lparr>t_count := t_count w + 1, t_size := t_size w + len\<rparr> else w2)"
      using p 2 by (auto simp: with_node_def Let_def fun_eq_iff)
    with assms(1) n 2 p show ?thesis
      by (cases w) (simp add: TreeAddByIndex_def upd_node_def Let_def map_option_case fun_upd_twist split: option.split)
  qed
qed

lemma with_node_data:
  assumes "t_nodes w (t_next w) = None"
  shows "red_of (with_node i k c len w) = (red_of w)(t_next w := True)"
    "x \<noteq> t_next w \<Longrightarrow> payload (with_node i k c len w) x = payload w x"
    "payload (with_node i k c len w) (t_next w) = Some (Some c, len)"
proof -
  have "red_of (with_node i k c len w) x = ((red_of w)(t_next w := True)) x" for x
    by (cases "t_nodes w x") (auto simp: red_of_def with_node_fields new_node_def)
  then show "red_of (with_node i k c len w) = (red_of w)(t_next w := True)" by blast
  show "x \<noteq> t_next w \<Longrightarrow> payload (with_node i k c len w) x = payload w x"
    by (cases "t_nodes w x") (auto simp: payload_def with_node_fields)
  show "payload (with_node i k c len w) (t_next w) = Some (Some c, len)"
    by (simp add: payload_def with_node_fields new_node_def)
qed

lemma keeps_fields:
  assumes "keeps i w w' A"
  shows "t_next w' = t_next w" "t_compare w' = t_compare w" "t_count w' = t_count w" "t_size w' = t_size w"
    "t_indexes w' = t_indexes w" "j \<noteq> i \<Longrightarrow> t_root w' j = t_root w j" "content_at w' = content_at w"
    "t_nodes w' a = None \<longleftrightarrow> t_nodes w a = None" "filled w' B \<longleftrightarrow> filled w B"
proof -
  have r: "w' = w\<lparr>t_nodes := t_nodes w', t_root := t_root w'\<rparr>" and p: "payload w' = payload w"
    using assms by (simp_all add: keeps_def same_rest_def)
  show "t_next w' = t_next w" "t_compare w' = t_compare w" "t_count w' = t_count w" "t_size w' = t_size w"
    "t_indexes w' = t_indexes w" using r by (cases w, cases w', simp)+
  show "j \<noteq> i \<Longrightarrow> t_root w' j = t_root w j" using assms by (simp add: keeps_def)
  show "content_at w' = content_at w" using content_at_payload [OF fun_cong [OF p]] by blast
  show "t_nodes w' a = None \<longleftrightarrow> t_nodes w a = None"
    using fun_cong [OF p, of a] by (cases "t_nodes w' a"; cases "t_nodes w a") (auto simp: payload_def)
  show "filled w' B \<longleftrightarrow> filled w B" by (rule filled_payload [OF p])
qed

lemma split_while:
  assumes "\<forall>x\<in>set xs. P x" "\<forall>y\<in>set ys. \<not> P y"
  shows "takeWhile P (xs @ ys) = xs" "dropWhile P (xs @ ys) = ys"
proof -
  have "takeWhile P ys = []" "dropWhile P ys = ys" using assms(2) by (cases ys; simp)+
  with assms(1) show "takeWhile P (xs @ ys) = xs" "dropWhile P (xs @ ys) = ys" by simp_all
qed

text \<open>Where a content that the tree does not have yet goes.\<close>

lemma search_absent:
  assumes ok: "tree_ok w i t" and fit: "fits (cmp_content (t_compare w i)) test"
    and absent: "\<forall>x\<in>set (contents_of w t). test x \<noteq> 0"
  obtains k where "t = fill k \<langle>\<rangle>" "add_search test (t_root w i) None LEFT w = Some (None, par_of k, side_of k)"
    "placed test w k"
proof -
  have t: "t_root w i = ptr_of t" "rep (links w) (par_of []) t" "filled w (set_tree t)"
    "sorted_by (cmp_content (t_compare w i)) (contents_of w t)" using ok by (simp_all add: tree_ok_def tree_at_def)
  have "placed test w []" by (simp add: placed_def)
  from add_search_right [OF t(2,3) fit t(4) this] absent that show thesis
    unfolding t(1) by (fastforce simp: contents_of_def)
qed

lemma add_new_ok:
  assumes ord: "tree_order (cmp_content (t_compare w i)) (cmp_key (t_compare w i))" and ok: "tree_ok w i t"
    and absent: "\<forall>x\<in>set (contents_of w t). cmp_content (t_compare w i) x c \<noteq> 0"
  shows "\<exists>w' t'. TreeAddByIndex c len i w = Some (None, w') \<and> tree_ok w' i t' \<and>
    contents_of w' t' = takeWhile (\<lambda>x. cmp_content (t_compare w i) x c > 0) (contents_of w t) @ c #
      dropWhile (\<lambda>x. cmp_content (t_compare w i) x c > 0) (contents_of w t) \<and>
    t_count w' = t_count w + (if i = 0 then 1 else 0) \<and> t_compare w' = t_compare w \<and> t_indexes w' = t_indexes w"
proof -
  let ?a = "t_next w" and ?test = "\<lambda>x. cmp_content (t_compare w i) x c" and ?s = "mk False \<langle>\<rangle> (t_next w) \<langle>\<rangle>"
  obtain k where k: "t = fill k \<langle>\<rangle>" "add_search ?test (t_root w i) None LEFT w = Some (None, par_of k, side_of k)"
    "placed ?test w k" by (rule search_absent [OF ok tree_order.fits_content [OF ord] absent])
  have nodes: "\<forall>a. t_nodes w a \<noteq> None \<longrightarrow> a < ?a" and at: "tree_at w i (fill k \<langle>\<rangle>)"
    using ok k(1) by (simp_all add: tree_ok_def)
  have in_t: "t_nodes w x \<noteq> None" if "x \<in> ctx_set k" for x
  proof -
    have "filled w (set_tree t)" using ok by (simp add: tree_ok_def)
    moreover have "x \<in> set_tree t" using that k(1) by (simp add: set_fill)
    ultimately show ?thesis by (rule filledD) simp
  qed
  have fresh: "t_nodes w ?a = None" "?a \<notin> ctx_set k" using nodes in_t by blast+
  let ?w1 = "with_node i k c len w"
  note wd = with_node_data [OF fresh(1), where i = i and k = k and c = c and len = len] and wf = with_node_fields [of i k c len w]
  have "p \<in> ctx_set k" if "par_of k = Some p" for p using that by (cases k rule: ctx_set.cases) auto
  then have eval: "TreeAddByIndex c len i w = map_option (Pair None) (TreeBalanceAfterAdd ?a i ?w1)"
    using k(2) in_t fresh(2) by (intro add_new_eval) auto
  have at1: "tree_at ?w1 i (fill k ?s)" using at nodes by (rule with_node_at)
  obtain h where "bal (red_of w) \<langle>\<rangle> h" "bal_ctx (red_of w) k h" "calm_ctx (red_of w) k False"
    using ok k(1) bal_fill [of "red_of w" k "\<langle>\<rangle>"] by (auto simp: tree_ok_def calm_fill)
  then have col: "red_of ?w1 ?a" "calm (red_of ?w1) ?s" "bal (red_of ?w1) ?s 0" "bal_ctx (red_of ?w1) k 0"
    "calm_ctx (red_of ?w1) k False" using fresh(2) by (simp_all add: wd(1) upd_outside_ctx bal_mk calm_mk)
  obtain w' t' where w': "TreeBalanceAfterAdd ?a i ?w1 = Some w'" "tree_at w' i t'" "inorder t' = inorder (fill k ?s)"
    "keeps i ?w1 w' (set_tree (fill k ?s))" "calm (red_of w') t'" "\<exists>n. bal (red_of w') t' n" "\<not> root_red (red_of w') t'"
    by (rule BalanceAfterAdd_ok [OF at1 col])
  note kf = keeps_fields [OF w'(4)]
  have ca: "content_at w' ?a = c" using wd(3) unfolding kf(7) by (auto simp: payload_def content_at_def)
  have cx: "content_at w' x = content_at w x" if "x \<noteq> ?a" for x using wd(2) [OF that] content_at_payload unfolding kf(7) by blast
  let ?L = "map (content_at w) (ctx_left k)" and ?R = "map (content_at w) (ctx_right k)"
  have old: "contents_of w t = ?L @ ?R" using k(1) by (simp add: contents_of_def inorder_fill)
  have "set (ctx_left k) \<union> set (ctx_right k) \<subseteq> ctx_set k" by (induction k rule: ctx_set.induct) auto
  then have "content_at w' x = content_at w x" if "x \<in> set (ctx_left k) \<union> set (ctx_right k)" for x
    using that fresh(2) by (intro cx) blast
  then have "map (content_at w') (ctx_left k) = ?L" "map (content_at w') (ctx_right k) = ?R" by simp_all
  then have new: "contents_of w' t' = ?L @ c # ?R" using w'(3) ca by (simp add: contents_of_def inorder_fill mk_def)
  have pl: "\<forall>x\<in>set ?L. ?test x > 0" "\<forall>x\<in>set ?R. ?test x < 0" using k(3) by (auto simp: placed_def)
  then have "takeWhile (\<lambda>x. ?test x > 0) (contents_of w t) = ?L" "dropWhile (\<lambda>x. ?test x > 0) (contents_of w t) = ?R"
    unfolding old by (intro split_while; force)+
  moreover have "tree_ok w' i t'"
  proof -
    have "sorted_by (cmp_content (t_compare w i)) (?L @ ?R)" using ok old by (simp add: tree_ok_def)
    from tree_order.sorted_insert [OF ord this pl] have "sorted_by (cmp_content (t_compare w' i)) (contents_of w' t')"
      using new kf(2) wf(4) by simp
    moreover have "filled ?w1 (set_tree (fill k ?s))"
      using ok k(1) fresh(2) by (auto simp: tree_ok_def filled_def set_fill wf new_node_def bind_eq_Some_conv)
    then have "filled w' (set_tree t')" using kf(9) w'(3) by (metis set_inorder)
    moreover have "x < t_next w'" if "t_nodes w' x \<noteq> None" for x
      using that kf(1,8) nodes by (auto simp: wf less_Suc_eq split: if_splits)
    ultimately show ?thesis using w' by (simp add: tree_ok_def)
  qed
  ultimately show ?thesis using eval w'(1) new kf(2,3,5) wf(4,5,6) by auto
qed

lemma find_by_key:
  assumes "tree_order (cmp_content (t_compare w i)) (cmp_key (t_compare w i))" "tree_ok w i t"
  shows "\<exists>r. TreeFindIndex k i w = Some r \<and>
    (case r of None \<Rightarrow> \<forall>x\<in>set (contents_of w t). cmp_key (t_compare w i) x k \<noteq> 0
     | Some a \<Rightarrow> a \<in> set_tree t \<and> cmp_key (t_compare w i) (content_at w a) k = 0)"
proof -
  have "tree_at w i t" "filled w (set_tree t)" "sorted_by (cmp_content (t_compare w i)) (contents_of w t)"
    using assms(2) by (simp_all add: tree_ok_def)
  moreover have "compare_with (t_compare w i) (Key k) = (\<lambda>x. cmp_key (t_compare w i) x k)" by (simp add: fun_eq_iff)
  ultimately show ?thesis
    using find_node_right [of w i t "cmp_content (t_compare w i)" "\<lambda>x. cmp_key (t_compare w i) x k"]
      tree_order.fits_key [OF assms(1)] by (auto simp: TreeFindIndex_def TreeFindIndex1_def)
qed

subsection \<open>Examples\<close>

text \<open>A tree of integers with nothing in it, several additions, and the black nodes on the ways down.\<close>

definition no_tree :: "(int, int) Tree" where
  "no_tree = TreeInitializeNoMalloc \<lparr>cmp_content = TreeIntCompare, cmp_key = TreeIntCompare\<rparr>
     \<lparr>t_root = (\<lambda>_. None), t_compare = (\<lambda>_. \<lparr>cmp_content = TreeIntCompare, cmp_key = TreeIntCompare\<rparr>),
      t_indexes = 0, t_count = 0, t_size = 0, t_tracking = False, t_duplicates = False, t_nodes = Map.empty, t_next = 1\<rparr>"

fun add_all :: "'c list \<Rightarrow> ('c, 'k, 'm) Tree_scheme \<Rightarrow> ('c, 'k, 'm) Tree_scheme option" where
  "add_all [] w = Some w"
| "add_all (c # cs) w = do { (_, w1) \<leftarrow> TreeAdd c 1 w; add_all cs w1 }"

fun black_counts :: "nat \<Rightarrow> addr option \<Rightarrow> ('c, 'k, 'm) Tree_scheme \<Rightarrow> nat list" where
  "black_counts 0 p w = []"
| "black_counts (Suc n) p w = (case p of None \<Rightarrow> [0]
   | Some a \<Rightarrow> (case t_nodes w a of None \<Rightarrow> []
     | Some x \<Rightarrow> map (\<lambda>b. if n_red x then b else b + 1)
         (black_counts n (n_child x LEFT) w @ black_counts n (n_child x RIGHT) w)))"

lemma no_tree_ok: "tree_ok no_tree 0 \<langle>\<rangle>" "t_compare no_tree 0 = \<lparr>cmp_content = TreeIntCompare, cmp_key = TreeIntCompare\<rparr>"
  by (simp_all add: tree_ok_def no_tree_def TreeInitializeNoMalloc_def tree_at_def filled_def contents_of_def)

subsection \<open>Properties\<close>

text \<open>
  C27: adding keeps a red-black search tree.  In a well-formed tree (parent and child links agree,
  contents in strict order, no red node with a red child, equally many black nodes on all ways down, a
  black root) \<^verbatim>\<open>TreeAddByIndex\<close> with a content that the tree does not have terminates, follows no bad
  pointer and leaves a well-formed tree with the content in its place among the old ones.
\<close>

theorem TreeAdd_keeps_order:
  assumes "tree_order (cmp_content (t_compare w i)) (cmp_key (t_compare w i))" "tree_ok w i t"
    "\<forall>x\<in>set (contents_of w t). cmp_content (t_compare w i) x c \<noteq> 0"
  shows "\<exists>w' t'. TreeAddByIndex c len i w = Some (None, w') \<and> tree_ok w' i t' \<and>
    contents_of w' t' = takeWhile (\<lambda>x. cmp_content (t_compare w i) x c > 0) (contents_of w t) @ c #
      dropWhile (\<lambda>x. cmp_content (t_compare w i) x c > 0) (contents_of w t) \<and>
    t_count w' = t_count w + (if i = 0 then 1 else 0) \<and> t_compare w' = t_compare w \<and> t_indexes w' = t_indexes w"
  using assms by (rule add_new_ok)

theorem TreeAdd_keeps_order_witness:
  "\<exists>w' t'. TreeAddByIndex 5 1 0 no_tree = Some (None, w') \<and> tree_ok w' 0 t' \<and> contents_of w' t' = [5] \<and> t_count w' = 1"
proof -
  have c: "t_count no_tree = 0" by (simp add: no_tree_def TreeInitializeNoMalloc_def)
  have "tree_order (cmp_content (t_compare no_tree 0)) (cmp_key (t_compare no_tree 0))"
    using int_order.tree_order_axioms by (simp add: no_tree_ok)
  moreover have "contents_of no_tree \<langle>\<rangle> = []" by (simp add: contents_of_def)
  ultimately show ?thesis using TreeAdd_keeps_order [of no_tree 0 "\<langle>\<rangle>" 5 1] no_tree_ok(1) c by auto
qed

text \<open>
  Finding by key.  In a well-formed tree \<^verbatim>\<open>TreeFindIndex\<close> terminates and returns a node whose
  content is equal to the key, or NULL when there is no such content.
\<close>

theorem TreeFind_right:
  assumes "tree_order (cmp_content (t_compare w i)) (cmp_key (t_compare w i))" "tree_ok w i t"
  shows "\<exists>r. TreeFindIndex k i w = Some r \<and>
    (case r of None \<Rightarrow> \<forall>x\<in>set (contents_of w t). cmp_key (t_compare w i) x k \<noteq> 0
     | Some a \<Rightarrow> a \<in> set_tree t \<and> cmp_key (t_compare w i) (content_at w a) k = 0)"
  using assms by (rule find_by_key)

theorem TreeFind_right_witness:
  "\<exists>w a. TreeAddByIndex 5 1 0 no_tree = Some (None, w) \<and> TreeFindIndex 5 0 w = Some (Some a) \<and> content_at w a = 5"
proof -
  let ?f = "\<lparr>cmp_content = TreeIntCompare, cmp_key = TreeIntCompare\<rparr>"
  have o: "tree_order (cmp_content (t_compare no_tree 0)) (cmp_key (t_compare no_tree 0))"
    using int_order.tree_order_axioms by (simp add: no_tree_ok)
  from add_new_ok [OF this no_tree_ok(1), of 5 1] obtain w t where w: "TreeAddByIndex 5 1 0 no_tree = Some (None, w)"
    "tree_ok w 0 t" "contents_of w t = [5]" by (auto simp: contents_of_def)
  then have c: "t_compare w 0 = ?f" using add_new_ok [OF o no_tree_ok(1), of 5 1] no_tree_ok(2) by (auto simp: contents_of_def)
  then have "tree_order (cmp_content (t_compare w 0)) (cmp_key (t_compare w 0))"
    using int_order.tree_order_axioms by simp
  from TreeFind_right [OF this w(2), of 5] c w(3) obtain a where "TreeFindIndex 5 0 w = Some (Some a)"
    "TreeIntCompare (content_at w a) 5 = 0" by (auto simp: TreeIntCompare_def split: option.splits)
  then show ?thesis using w(1) by (auto simp: TreeIntCompare_def split: if_splits)
qed


end
