(* ===== verification/HeapC.thy ===== *)
theory HeapC
  imports TreeProps Persistence
begin

text \<open>
  \<^verbatim>\<open>Heap.c\<close>: the tracked \<^verbatim>\<open>malloc\<close>, \<^verbatim>\<open>realloc\<close> and \<^verbatim>\<open>free\<close> of the client library.  Memory is the list of the
  blocks that the allocator handed out, each with its base address and its bytes; a read or write that
  no block contains is \<open>None\<close>.  The allocator of the host program (\<^verbatim>\<open>Heap_set_allocator\<close>) is a list of its
  answers: NULL, or the address and the filling of a block.  Locking a mutex that is held never returns.
\<close>

subsection \<open>Memory\<close>

type_synonym block = "addr \<times> byte list"

definition holds :: "addr \<Rightarrow> nat \<Rightarrow> block \<Rightarrow> bool" where
  "holds a n b \<longleftrightarrow> fst b \<le> a \<and> a + n \<le> fst b + length (snd b)"

definition read_mem :: "addr \<Rightarrow> nat \<Rightarrow> block list \<Rightarrow> byte list option" where
  "read_mem a n bs = map_option (\<lambda>b. take n (drop (a - fst b) (snd b))) (find (holds a n) bs)"

definition write_block :: "addr \<Rightarrow> byte list \<Rightarrow> block \<Rightarrow> block" where
  "write_block a ys b = (if holds a (length ys) b
     then (fst b, take (a - fst b) (snd b) @ ys @ drop (a - fst b + length ys) (snd b)) else b)"

definition write_mem :: "addr \<Rightarrow> byte list \<Rightarrow> block list \<Rightarrow> block list option" where
  "write_mem a ys bs = (if \<exists>b\<in>set bs. holds a (length ys) b then Some (map (write_block a ys) bs) else None)"

text \<open>A \<^verbatim>\<open>size_t\<close> in memory.\<close>

fun le_bytes :: "nat \<Rightarrow> nat \<Rightarrow> byte list" where
  "le_bytes 0 n = []"
| "le_bytes (Suc k) n = byte_of (int n) # le_bytes k (n div 256)"

fun of_le :: "byte list \<Rightarrow> nat" where
  "of_le [] = 0"
| "of_le (b # bs) = nat (ubyte b) + 256 * of_le bs"

lemma length_le_bytes [simp]: "length (le_bytes k n) = k"
  by (induction k arbitrary: n) simp_all

definition size_t :: "int \<Rightarrow> nat" where
  "size_t n = nat (n mod 18446744073709551616)"

subsection \<open>Data\<close>

text \<open>
  The record of an item, with the address of the block it is kept in.  It is changed only while it is not
  in the tree.  \<^verbatim>\<open>file\<close> is an address as well.
\<close>

record storageElement =
  se_at :: addr
  se_file :: addr
  se_line :: int
  se_ptr :: addr
  se_size :: int

text \<open>The error messages.\<close>

datatype heap_msg = AllocError | BadStart int int | BadEnd int int | NotRemoved int | NotReallocated int | Leak

record heap =
  h_tree :: "(storageElement, addr) Tree"
  h_blocks :: "block list"
  h_hooks :: bool
  h_answers :: "(addr \<times> byte) option list"
  h_current :: int
  h_max :: int
  h_locked :: bool
  h_log :: "heap_msg list"

definition eyecatcher :: int where "eyecatcher = -2004318072"
definition sizeof_storageElement :: nat where "sizeof_storageElement = 32"

text \<open>What the hooks do.  They take a \<^verbatim>\<open>uint32\<close>.\<close>

definition hc_allocator :: "nat \<Rightarrow> heap \<Rightarrow> (addr option \<times> heap) option" where
  "hc_allocator n h = (if \<not> h_hooks h then None else case h_answers h of
     [] \<Rightarrow> Some (None, h)
   | None # rs \<Rightarrow> Some (None, h\<lparr>h_answers := rs\<rparr>)
   | Some (a, b) # rs \<Rightarrow>
       Some (Some a, h\<lparr>h_answers := rs, h_blocks := (a, replicate (n mod 4294967296) b) # h_blocks h\<rparr>))"

definition hc_deallocator :: "addr \<Rightarrow> heap \<Rightarrow> heap option" where
  "hc_deallocator a h = (if h_hooks h \<and> a \<in> fst ` set (h_blocks h)
     then Some (h\<lparr>h_blocks := filter (\<lambda>b. fst b \<noteq> a) (h_blocks h)\<rparr>) else None)"

definition Heap_set_allocator :: "(addr \<times> byte) option list \<Rightarrow> heap \<Rightarrow> heap" where
  "Heap_set_allocator answers h = h\<lparr>h_hooks := True, h_answers := answers\<rparr>"

definition store :: "addr \<Rightarrow> byte list \<Rightarrow> heap \<Rightarrow> heap option" where
  "store a ys h = map_option (\<lambda>bs. h\<lparr>h_blocks := bs\<rparr>) (write_mem a ys (h_blocks h))"

definition fetch :: "addr \<Rightarrow> nat \<Rightarrow> heap \<Rightarrow> byte list option" where
  "fetch a n h = read_mem a n (h_blocks h)"

definition lock_heap :: "heap \<Rightarrow> heap option" where
  "lock_heap h = (if h_locked h then None else Some (h\<lparr>h_locked := True\<rparr>))"

definition log_heap :: "heap_msg \<Rightarrow> heap \<Rightarrow> heap" where
  "log_heap m h = h\<lparr>h_log := h_log h @ [m]\<rparr>"

text \<open>Subtraction from a 64-bit pointer, in bytes.\<close>

definition below :: "nat \<Rightarrow> addr \<Rightarrow> addr" where
  "below n p = size_t (int p - int n)"

subsection \<open>Blocks with a size\<close>

definition allocate :: "nat \<Rightarrow> heap \<Rightarrow> (addr option \<times> heap) option" where
  "allocate len h = do {
     (p, h1) \<leftarrow> hc_allocator (size_t (int len + 8)) h;
     case p of
       None \<Rightarrow> Some (None, h1)
     | Some p \<Rightarrow> do { h2 \<leftarrow> store p (le_bytes 8 len) h1; Some (Some (p + 8), h2) }
   }"

definition deallocate :: "addr \<Rightarrow> heap \<Rightarrow> heap option" where
  "deallocate block h = hc_deallocator (below 8 block) h"

text \<open>The subtraction is on a pointer to \<^verbatim>\<open>size_t\<close>: eight times eight bytes before \<^verbatim>\<open>p\<close>.\<close>

definition reallocate :: "addr \<Rightarrow> nat \<Rightarrow> heap \<Rightarrow> (addr option \<times> heap) option" where
  "reallocate p len h = do {
     old \<leftarrow> fetch (below (8 * 8) p) 8 h;
     let old_size = of_le old;
     let min_size = (if old_size < len then old_size else len);
     if len = old_size then Some (Some p, h)
     else do {
       (new_p, h1) \<leftarrow> allocate len h;
       case new_p of
         None \<Rightarrow> Some (None, h1)
       | Some q \<Rightarrow> do {
           bytes \<leftarrow> fetch p min_size h1;
           h2 \<leftarrow> store q bytes h1;
           h3 \<leftarrow> deallocate p h2;
           Some (Some q, h3)
         }
     }
   }"

text \<open>An \<^verbatim>\<open>int\<close>; passing \<^verbatim>\<open>INT_MAX\<close> in the addition is undefined.\<close>

definition roundup :: "int \<Rightarrow> int option" where
  "roundup n = (if c_mod n 16 \<noteq> 0
     then (let r = n + (16 - c_mod n 16) in if r \<le> 2147483647 then Some r else None) else Some n)"

definition ptr_compare :: "addr \<Rightarrow> addr \<Rightarrow> int" where
  "ptr_compare a b = (if a > b then -1 else if a = b then 0 else 1)"

definition ptrCompare :: "(storageElement, addr) tree_compare" where
  "ptrCompare = \<lparr>cmp_content = (\<lambda>a b. ptr_compare (se_ptr a) (se_ptr b)), cmp_key = (\<lambda>a b. ptr_compare (se_ptr a) b)\<rparr>"

subsection \<open>Tracked items\<close>

text \<open>The two eyecatchers around an item of \<open>n\<close> bytes at \<open>p\<close>.\<close>

definition put_eyecatchers :: "addr \<Rightarrow> nat \<Rightarrow> heap \<Rightarrow> heap option" where
  "put_eyecatchers p n h = do {
     h1 \<leftarrow> store p (int_bytes eyecatcher) h;
     store (p + (4 + n)) (int_bytes eyecatcher) h1
   }"

definition grown :: "int \<Rightarrow> heap \<Rightarrow> heap" where
  "grown n h = (let c = signed32 (h_current h + n) in h\<lparr>h_current := c, h_max := (if c > h_max h then c else h_max h)\<rparr>)"

definition add_element :: "storageElement \<Rightarrow> int \<Rightarrow> heap \<Rightarrow> heap option" where
  "add_element s space h = do {
     (_, t) \<leftarrow> TreeAdd s space (h_tree h);
     Some (h\<lparr>h_tree := t\<rparr>)
   }"

text \<open>On failure the mutex stays locked, as in the code.\<close>

definition mymalloc :: "byte list \<Rightarrow> int \<Rightarrow> nat \<Rightarrow> heap \<Rightarrow> (addr option \<times> heap) option" where
  "mymalloc file line len h = do {
     h0 \<leftarrow> lock_heap h;
     n \<leftarrow> roundup (signed32 (int len));
     let len = size_t n;
     (s, h1) \<leftarrow> allocate sizeof_storageElement h0;
     case s of
       None \<Rightarrow> Some (None, log_heap AllocError h1)
     | Some s \<Rightarrow> do {
         (f, h2) \<leftarrow> allocate (strlen file + 1) h1;
         case f of
           None \<Rightarrow> do { h3 \<leftarrow> deallocate s (log_heap AllocError h2); Some (None, h3) }
         | Some f \<Rightarrow> do {
             h3 \<leftarrow> store f (c_str file @ [0]) h2;
             (p, h4) \<leftarrow> allocate (size_t (int len + 8)) h3;
             case p of
               None \<Rightarrow> do {
                 h5 \<leftarrow> deallocate f (log_heap AllocError h4);
                 h6 \<leftarrow> deallocate s h5;
                 Some (None, h6)
               }
             | Some p \<Rightarrow> do {
                 h5 \<leftarrow> put_eyecatchers p len h4;
                 h6 \<leftarrow> add_element \<lparr>se_at = s, se_file = f, se_line = line, se_ptr = p, se_size = signed32 (int len)\<rparr>
                   (signed32 (int sizeof_storageElement + int (strlen file + 1) + int len + 8)) h5;
                 Some (Some (p + 4), (grown (int len) h6)\<lparr>h_locked := False\<rparr>)
               }
           }
       }
   }"

definition checkEyecatchers :: "int \<Rightarrow> addr \<Rightarrow> int \<Rightarrow> heap \<Rightarrow> heap option" where
  "checkEyecatchers line p n h = do {
     b \<leftarrow> fetch (below 4 p) 4 h;
     us \<leftarrow> read_int32 b 0;
     let h1 = (if us \<noteq> eyecatcher then log_heap (BadStart us line) h else h);
     b \<leftarrow> fetch (size_t (int p + n)) 4 h1;
     us \<leftarrow> read_int32 b 0;
     Some (if us \<noteq> eyecatcher then log_heap (BadEnd us line) h1 else h1)
   }"

definition Internal_heap_unlink :: "int \<Rightarrow> addr \<Rightarrow> heap \<Rightarrow> (int \<times> heap) option" where
  "Internal_heap_unlink line p h = do {
     e \<leftarrow> TreeFind (below 4 p) (h_tree h);
     case e of
       None \<Rightarrow> Some (0, log_heap (NotRemoved line) h)
     | Some e \<Rightarrow> do {
         n \<leftarrow> t_nodes (h_tree h) e;
         s \<leftarrow> n_content n;
         h1 \<leftarrow> checkEyecatchers line p (se_size s) h;
         h2 \<leftarrow> deallocate (se_file s) h1;
         let h3 = h2\<lparr>h_current := h_current h2 - se_size s\<rparr>;
         (_, t) \<leftarrow> TreeRemoveNodeIndex e 0 (h_tree h3);
         h4 \<leftarrow> deallocate (se_at s) (h3\<lparr>h_tree := t\<rparr>);
         Some (1, h4)
       }
   }"

definition myfree :: "int \<Rightarrow> addr \<Rightarrow> heap \<Rightarrow> heap option" where
  "myfree line p h = do {
     h0 \<leftarrow> lock_heap h;
     (rc, h1) \<leftarrow> Internal_heap_unlink line p h0;
     h2 \<leftarrow> (if rc \<noteq> 0 then deallocate (below 4 p) h1 else Some h1);
     Some (h2\<lparr>h_locked := False\<rparr>)
   }"

definition Heap_unlink :: "int \<Rightarrow> addr \<Rightarrow> heap \<Rightarrow> heap option" where
  "Heap_unlink line p h = do {
     h0 \<leftarrow> lock_heap h;
     (_, h1) \<leftarrow> Internal_heap_unlink line p h0;
     Some (h1\<lparr>h_locked := False\<rparr>)
   }"

text \<open>The string at an address; \<open>strlen\<close> has to meet a zero in the block.\<close>

definition string_at :: "addr \<Rightarrow> heap \<Rightarrow> byte list option" where
  "string_at a h = Option.bind (find (\<lambda>b. fst b \<le> a \<and> a < fst b + length (snd b)) (h_blocks h))
     (\<lambda>b. read_c_string (snd b) (a - fst b))"

definition myrealloc :: "byte list \<Rightarrow> int \<Rightarrow> addr \<Rightarrow> nat \<Rightarrow> heap \<Rightarrow> (addr option \<times> heap) option" where
  "myrealloc file line p len h = do {
     h0 \<leftarrow> lock_heap h;
     (s, t) \<leftarrow> TreeRemoveKey (below 4 p) (h_tree h0);
     let h1 = h0\<lparr>h_tree := t\<rparr>;
     case s of
       None \<Rightarrow> Some (None, (log_heap (NotReallocated line) h1)\<lparr>h_locked := False\<rparr>)
     | Some s \<Rightarrow> do {
         h2 \<leftarrow> checkEyecatchers line p (se_size s) h1;
         n \<leftarrow> roundup (signed32 (int len));
         let len = size_t n;
         let h3 = grown (int len - se_size s) h2;
         (q, h4) \<leftarrow> reallocate (se_ptr s) (size_t (int len + 8)) h3;
         case q of
           None \<Rightarrow> Some (None, log_heap AllocError h4)
         | Some q \<Rightarrow> do {
             h5 \<leftarrow> put_eyecatchers q len h4;
             old \<leftarrow> string_at (se_file s) h5;
             (f, h6) \<leftarrow> reallocate (se_file s) (strlen file + 1) h5;
             f \<leftarrow> f;
             h7 \<leftarrow> store f (c_str file @ [0]) h6;
             let space = int sizeof_storageElement + int len + 8 - se_size s - int (length old) + int (strlen file + 1);
             h8 \<leftarrow> add_element (s\<lparr>se_ptr := q, se_size := signed32 (int len), se_file := f, se_line := line\<rparr>) (signed32 space) h7;
             Some (Some (q + 4), h8\<lparr>h_locked := False\<rparr>)
           }
       }
   }"

definition Heap_findItem :: "addr \<Rightarrow> heap \<Rightarrow> (storageElement option \<times> heap) option" where
  "Heap_findItem p h = do {
     h0 \<leftarrow> lock_heap h;
     e \<leftarrow> TreeFind (below 4 p) (h_tree h0);
     c \<leftarrow> (case e of None \<Rightarrow> Some None | Some a \<Rightarrow> map_option n_content (t_nodes (h_tree h0) a));
     Some (c, h0\<lparr>h_locked := False\<rparr>)
   }"

subsection \<open>Reports\<close>

text \<open>The nodes from \<^verbatim>\<open>TreeNextElement\<close>, in order.\<close>

partial_function (option) heap_nodes ::
  "addr option \<Rightarrow> (storageElement, addr) Tree \<Rightarrow> storageElement Node list option" where
  "heap_nodes node t = Option.bind (TreeNextElement node t) (\<lambda>nxt. case nxt of
     None \<Rightarrow> Some []
   | Some a \<Rightarrow> Option.bind (t_nodes t a) (\<lambda>n. Option.bind (heap_nodes (Some a) t) (\<lambda>ns. Some (n # ns))))"

declare heap_nodes.simps [code]

text \<open>The lines with size, line, file and address; \<^verbatim>\<open>%*.s\<close> prints blanks only.\<close>

fun scan_lines :: "storageElement Node list \<Rightarrow> heap \<Rightarrow> (int \<times> int \<times> byte list \<times> addr) list option" where
  "scan_lines [] h = Some []"
| "scan_lines (n # ns) h = do {
     s \<leftarrow> n_content n;
     file \<leftarrow> string_at (se_file s) h;
     map_option ((#) (se_size s, se_line s, file, se_ptr s)) (scan_lines ns h)
   }"

definition HeapScan :: "heap \<Rightarrow> ((int \<times> int \<times> byte list \<times> addr) list \<times> heap) option" where
  "HeapScan h = do {
     h0 \<leftarrow> lock_heap h;
     ns \<leftarrow> heap_nodes None (h_tree h0);
     ls \<leftarrow> scan_lines ns h0;
     Some (ls, h0\<lparr>h_locked := False\<rparr>)
   }"

definition Heap_initialize :: "heap \<Rightarrow> int \<times> heap" where
  "Heap_initialize h = (0, h\<lparr>h_tree := (TreeInitializeNoMalloc ptrCompare (h_tree h))\<lparr>t_tracking := False\<rparr>\<rparr>)"

definition Heap_terminate :: "heap \<Rightarrow> heap option" where
  "Heap_terminate h = (if h_current h > 20 then map_option snd (HeapScan (log_heap Leak h)) else Some h)"

definition Heap_get_info :: "heap \<Rightarrow> int \<times> int" where
  "Heap_get_info h = (h_current h, h_max h)"

text \<open>A file: what was written, and whether the next writes succeed.\<close>

record dump_file =
  df_out :: "byte list"
  df_ok :: "bool list"

definition df_write :: "byte list \<Rightarrow> dump_file \<Rightarrow> bool \<times> dump_file" where
  "df_write ys f = (case df_ok f of [] \<Rightarrow> (False, f)
   | ok # oks \<Rightarrow> (ok, f\<lparr>df_out := df_out f @ (if ok then ys else []), df_ok := oks\<rparr>))"

definition HeapDumpString :: "dump_file \<Rightarrow> addr \<Rightarrow> heap \<Rightarrow> (int \<times> dump_file) option" where
  "HeapDumpString file str h = do {
     bytes \<leftarrow> (if str = 0 then Some [] else map_option (\<lambda>s. s @ [0]) (string_at str h));
     let (ok, f1) = df_write (le_bytes 8 str) file;
     if \<not> ok then Some (-1, f1)
     else let (ok, f2) = df_write (int_bytes (int (length bytes))) f1 in
       if \<not> ok then Some (-1, f2)
       else if bytes = [] then Some (0, f2)
       else let (ok, f3) = df_write bytes f2 in Some (if ok then 0 else -1, f3)
   }"

text \<open>The size of a node is that of all the blocks of the item; that many bytes are read from the item.\<close>

fun dump_nodes :: "storageElement Node list \<Rightarrow> dump_file \<Rightarrow> heap \<Rightarrow> (int \<times> dump_file) option" where
  "dump_nodes [] f h = Some (0, f)"
| "dump_nodes (n # ns) f h = do {
     s \<leftarrow> n_content n;
     let (ok, f1) = df_write (le_bytes 8 (se_ptr s)) f;
     if \<not> ok then Some (-1, f1)
     else let (ok, f2) = df_write (int_bytes (n_size n)) f1 in
       if \<not> ok then Some (-1, f2)
       else do {
         bytes \<leftarrow> fetch (se_ptr s) (size_t (n_size n)) h;
         let (ok, f3) = df_write bytes f2;
         if \<not> ok then Some (-1, f3) else dump_nodes ns f3 h
       }
   }"

definition HeapDump :: "dump_file \<Rightarrow> heap \<Rightarrow> (int \<times> dump_file) option" where
  "HeapDump file h = Option.bind (heap_nodes None (h_tree h)) (\<lambda>ns. dump_nodes ns file h)"

end
