(* ===== verification/HeapProps.thy ===== *)
theory HeapProps
  imports HeapC
begin

text \<open>
  What the tracked heap guarantees: a well-formed heap, that \<^verbatim>\<open>mymalloc\<close> keeps it and that
  \<^verbatim>\<open>Heap_findItem\<close> finds what it recorded; and what the error paths leave behind.
\<close>

subsection \<open>Blocks\<close>

definition apart :: "block \<Rightarrow> block \<Rightarrow> bool" where
  "apart b c \<longleftrightarrow> fst b + length (snd b) \<le> fst c \<or> fst c + length (snd c) \<le> fst b"

definition blocks_ok :: "block list \<Rightarrow> bool" where
  "blocks_ok bs \<longleftrightarrow> sorted_wrt apart bs \<and> (\<forall>b\<in>set bs. snd b \<noteq> [])"

lemma blocks_ok_Cons: "blocks_ok (b # bs) \<longleftrightarrow> snd b \<noteq> [] \<and> (\<forall>c\<in>set bs. apart b c) \<and> blocks_ok bs"
  by (auto simp: blocks_ok_def)

lemma apart_cong: "fst b = fst b' \<Longrightarrow> length (snd b) = length (snd b') \<Longrightarrow> apart b c \<longleftrightarrow> apart b' c"
  by (simp add: apart_def)

lemma apart_holds: "apart b c \<Longrightarrow> holds a n b \<Longrightarrow> 0 < n \<Longrightarrow> \<not> holds a n c"
  by (auto simp: apart_def holds_def)

lemma write_block_other: "\<not> holds a (length ys) b \<Longrightarrow> write_block a ys b = b"
  by (simp add: write_block_def)

lemma fst_write_block [simp]: "fst (write_block a ys b) = fst b"
  by (simp add: write_block_def)

lemma length_write_block [simp]: "length (snd (write_block a ys b)) = length (snd b)"
  by (auto simp: write_block_def holds_def min_def)

text \<open>Writing into the newest block, and reading from any.\<close>

lemma write_mem_head:
  assumes "blocks_ok (b # bs)" "holds a (length ys) b" "ys \<noteq> []"
  shows "write_mem a ys (b # bs) = Some (write_block a ys b # bs)"
proof -
  have "write_block a ys c = c" if "c \<in> set bs" for c
    using assms that apart_holds [of b c a "length ys"] by (intro write_block_other) (auto simp: blocks_ok_Cons)
  then have "map (write_block a ys) bs = bs" by (simp add: map_idI)
  with assms show ?thesis by (simp add: write_mem_def)
qed

lemma read_mem_in:
  assumes "blocks_ok bs" "b \<in> set bs" "holds a n b" "0 < n"
  shows "read_mem a n bs = Some (take n (drop (a - fst b) (snd b)))"
proof -
  have "find (holds a n) bs = Some b"
    using assms
  proof (induction bs)
    case (Cons c bs)
    then have "c = b \<or> \<not> holds a n c"
      using apart_holds [of c b a n] by (auto simp: blocks_ok_Cons)
    with Cons show ?case by (auto simp: blocks_ok_Cons)
  qed simp
  then show ?thesis by (simp add: read_mem_def)
qed

lemma blocks_ok_write: "blocks_ok (b # bs) \<Longrightarrow> blocks_ok (write_block a ys b # bs)"
  using apart_cong [of "write_block a ys b" b] by (auto simp: blocks_ok_Cons simp flip: length_greater_0_conv)

lemma store_head:
  assumes "h_blocks h = b # bs" "blocks_ok (b # bs)" "holds a (length ys) b" "ys \<noteq> []"
  shows "store a ys h = Some (h\<lparr>h_blocks := write_block a ys b # bs\<rparr>)"
  using write_mem_head [OF assms(2-4)] assms(1) by (simp add: store_def)

text \<open>A block with a size in front of its contents.\<close>

definition sized :: "nat \<Rightarrow> byte list" where
  "sized n = le_bytes 8 n"

lemma length_sized [simp]: "length (sized n) = 8"
  by (simp add: sized_def)

lemma allocate_new:
  assumes "h_hooks h" "h_answers h = Some (a, v) # rs" "n + 8 < 4294967296"
    "blocks_ok ((a, sized n @ replicate n v) # h_blocks h)"
  shows "allocate n h = Some (Some (a + 8), h\<lparr>h_answers := rs, h_blocks := (a, sized n @ replicate n v) # h_blocks h\<rparr>)"
proof -
  have s: "size_t (int n + 8) = n + 8" using assms(3) by (simp add: size_t_def nat_add_distrib)
  let ?b = "(a, replicate (n + 8) v)" and ?h = "h\<lparr>h_answers := rs, h_blocks := (a, replicate (n + 8) v) # h_blocks h\<rparr>"
  have "blocks_ok (?b # h_blocks h)"
    using assms(4) apart_cong [of ?b "(a, sized n @ replicate n v)"] by (simp add: blocks_ok_Cons)
  then have "store a (le_bytes 8 n) ?h = Some (?h\<lparr>h_blocks := write_block a (le_bytes 8 n) ?b # h_blocks h\<rparr>)"
    by (intro store_head) (auto simp: holds_def simp flip: length_greater_0_conv)
  moreover have "write_block a (le_bytes 8 n) ?b = (a, sized n @ replicate n v)"
    by (simp add: write_block_def holds_def sized_def replicate_add [symmetric] add.commute)
  ultimately show ?thesis using assms(1-3) s by (simp add: allocate_def hc_allocator_def)
qed

lemma write_at:
  assumes "a = base + length xs" "length ys' = length ys"
  shows "write_block a ys (base, xs @ ys' @ zs) = (base, xs @ ys @ zs)"
  using assms by (simp add: write_block_def holds_def)

lemma holds_at: "a = base + length xs \<Longrightarrow> n = length ys \<Longrightarrow> holds a n (base, xs @ ys @ zs)"
  by (simp add: holds_def)

lemma store_at:
  assumes "h_blocks h = (base, xs @ ys' @ zs) # bs" "blocks_ok ((base, xs @ ys' @ zs) # bs)"
    "a = base + length xs" "length ys' = length ys" "ys \<noteq> []"
  shows "store a ys h = Some (h\<lparr>h_blocks := (base, xs @ ys @ zs) # bs\<rparr>)"
  using store_head [OF assms(1,2), of a ys] write_at [OF assms(3,4)] holds_at [OF assms(3), of "length ys" ys' zs] assms(4,5)
  by simp

subsection \<open>Evaluating an allocation\<close>

definition payload_block :: "addr \<Rightarrow> nat \<Rightarrow> byte \<Rightarrow> block" where
  "payload_block p n v = (p, sized (n + 8) @ int_bytes eyecatcher @ replicate n v @ int_bytes eyecatcher)"

definition element_block :: "addr \<Rightarrow> byte \<Rightarrow> block" where
  "element_block s v = (s, sized sizeof_storageElement @ replicate sizeof_storageElement v)"

definition file_block :: "addr \<Rightarrow> byte list \<Rightarrow> block" where
  "file_block f fname = (f, sized (strlen fname + 1) @ c_str fname @ [0])"

lemma put_eyecatchers_new:
  assumes "h_blocks h = (p, sized (n + 8) @ replicate (n + 8) v) # bs" "blocks_ok (h_blocks h)"
  shows "put_eyecatchers (p + 8) n h = Some (h\<lparr>h_blocks := payload_block p n v # bs\<rparr>)"
proof -
  let ?e = "int_bytes eyecatcher"
  have r: "replicate (n + 8) v = replicate 4 v @ replicate n v @ replicate 4 v"
    by (simp flip: replicate_add)
  let ?h = "h\<lparr>h_blocks := (p, sized (n + 8) @ ?e @ replicate n v @ replicate 4 v) # bs\<rparr>"
  have "store (p + 8) ?e h = Some ?h"
    using assms r by (intro store_at) (auto simp: int_bytes_def)
  moreover have "blocks_ok (h_blocks ?h)"
    using assms r apart_cong [of "(p, sized (n + 8) @ ?e @ replicate n v @ replicate 4 v)" "(p, sized (n + 8) @ replicate (n + 8) v)"]
    by (simp add: blocks_ok_Cons)
  then have "store (p + 8 + (4 + n)) ?e ?h = Some (?h\<lparr>h_blocks := payload_block p n v # bs\<rparr>)"
    using store_at [of ?h p "sized (n + 8) @ ?e @ replicate n v" "replicate 4 v" "[]" bs "p + 8 + (4 + n)" ?e]
    by (simp add: payload_block_def int_bytes_def)
  ultimately show ?thesis by (simp add: put_eyecatchers_def)
qed

lemma blocks_ok_same:
  assumes "blocks_ok (b # bs)" "fst b = fst b'" "length (snd b) = length (snd b')"
  shows "blocks_ok (b' # bs)"
proof -
  have "snd b' \<noteq> []" using assms(1,3) by (auto simp: blocks_ok_Cons simp flip: length_greater_0_conv)
  with assms(1) apart_cong [OF assms(2,3)] show ?thesis by (simp add: blocks_ok_Cons)
qed

definition new_element :: "addr \<Rightarrow> addr \<Rightarrow> addr \<Rightarrow> int \<Rightarrow> nat \<Rightarrow> storageElement" where
  "new_element s f p line n = \<lparr>se_at = s + 8, se_file = f + 8, se_line = line, se_ptr = p + 8, se_size = int n\<rparr>"

definition new_space :: "byte list \<Rightarrow> nat \<Rightarrow> int" where
  "new_space fname n = signed32 (int sizeof_storageElement + int (strlen fname + 1) + int n + 8)"

lemma signed32_small: "-2147483648 \<le> n \<Longrightarrow> n < 2147483648 \<Longrightarrow> signed32 n = n"
  by (simp add: signed32_def)

lemma size_t_id: "n < 18446744073709551616 \<Longrightarrow> size_t (int n) = n"
  by (simp add: size_t_def)

lemma mymalloc_eval:
  assumes free: "\<not> h_locked h" "h_hooks h" and ans: "h_answers h = Some (s, vs) # Some (f, vf) # Some (p, vp) # rs"
    and len: "roundup (signed32 (int len)) = Some (int n)" "n < 2147483600" "strlen fname < 2147483600"
    and ok: "blocks_ok (payload_block p n vp # file_block f fname # element_block s vs # h_blocks h)"
  shows "mymalloc fname line len h = map_option (\<lambda>(_, t). (Some (p + 12), (grown (int n) (h\<lparr>h_tree := t, h_answers := rs,
       h_blocks := payload_block p n vp # file_block f fname # element_block s vs # h_blocks h\<rparr>))\<lparr>h_locked := False\<rparr>))
     (TreeAdd (new_element s f p line n) (new_space fname n) (h_tree h))"
proof -
  let ?S = "element_block s vs" and ?F = "file_block f fname" and ?P = "payload_block p n vp"
  let ?Fz = "(f, sized (strlen fname + 1) @ replicate (strlen fname + 1) vf)"
  let ?Pz = "(p, sized (n + 8) @ replicate (n + 8) vp)"
  let ?h0 = "h\<lparr>h_locked := True\<rparr>"
  let ?h1 = "?h0\<lparr>h_answers := Some (f, vf) # Some (p, vp) # rs, h_blocks := ?S # h_blocks h\<rparr>"
  let ?h2 = "?h1\<lparr>h_answers := Some (p, vp) # rs, h_blocks := ?Fz # ?S # h_blocks h\<rparr>"
  let ?h3 = "?h2\<lparr>h_blocks := ?F # ?S # h_blocks h\<rparr>"
  let ?h4 = "?h3\<lparr>h_answers := rs, h_blocks := ?Pz # ?F # ?S # h_blocks h\<rparr>"
  let ?h5 = "?h4\<lparr>h_blocks := ?P # ?F # ?S # h_blocks h\<rparr>"
  have okF: "blocks_ok (?F # ?S # h_blocks h)" and okS: "blocks_ok (?S # h_blocks h)"
    using ok by (simp_all add: blocks_ok_Cons)
  have okF0: "blocks_ok (?Fz # ?S # h_blocks h)"
    by (rule blocks_ok_same [OF okF]) (simp_all add: file_block_def)
  have okP0: "blocks_ok (?Pz # ?F # ?S # h_blocks h)"
    by (rule blocks_ok_same [OF ok]) (simp_all add: payload_block_def)
  have a1: "allocate sizeof_storageElement ?h0 = Some (Some (s + 8), ?h1)"
    using allocate_new [of ?h0 s vs "Some (f, vf) # Some (p, vp) # rs" sizeof_storageElement] free(2) ans okS
    by (simp add: element_block_def sizeof_storageElement_def)
  have a2: "allocate (strlen fname + 1) ?h1 = Some (Some (f + 8), ?h2)"
    using free(2) len(3) okF0 by (intro allocate_new [THEN trans]) simp_all
  have a3: "store (f + 8) (c_str fname @ [0]) ?h2 = Some ?h3"
    using store_at [of ?h2 f "sized (strlen fname + 1)" "replicate (strlen fname + 1) vf" "[]" "?S # h_blocks h" "f + 8" "c_str fname @ [0]"]
      okF0 by (simp add: file_block_def)
  have n8: "size_t (int n + 8) = n + 8" using len(2) size_t_id [of "n + 8"] by simp
  have a4: "allocate (n + 8) ?h3 = Some (Some (p + 8), ?h4)"
    using free(2) len(2) okP0 by (intro allocate_new [THEN trans]) simp_all
  have a5: "put_eyecatchers (p + 8) n ?h4 = Some ?h5"
    using put_eyecatchers_new [of ?h4 p n vp] okP0 by simp
  have n: "size_t (int n) = n" "signed32 (int n) = int n" using len(2) size_t_id signed32_small by simp_all
  show ?thesis
    using free(1) len(1) a1 a2 a3 a4 a5 n n8
    by (cases "TreeAdd (new_element s f p line n) (new_space fname n) (h_tree h)")
      (auto simp: mymalloc_def lock_heap_def add_element_def new_element_def new_space_def grown_def Let_def)
qed

subsection \<open>Rounding\<close>

lemma roundup_size:
  assumes "len < 2147483600"
  shows "roundup (signed32 (int len)) = Some (int ((len + 15) div 16 * 16))"
proof -
  obtain q r where len: "len = 16 * q + r" "r < 16" by (metis mult_div_mod_eq mod_less_divisor zero_less_numeral)
  have "(len + 15) div 16 = (if r = 0 then q else q + 1)" using len by auto
  moreover have "int len mod 16 = int r" using len by simp
  ultimately show ?thesis using assms len(1) by (auto simp: roundup_def signed32_small Let_def)
qed

subsection \<open>Well-formed heaps\<close>

interpretation heap_order: tree_order "cmp_content ptrCompare" "cmp_key ptrCompare"
  by unfold_locales (auto simp: ptrCompare_def ptr_compare_def split: if_splits)

text \<open>The three blocks behind an item; the eyecatchers are intact and the size is a multiple of 16.\<close>

definition element_ok :: "block list \<Rightarrow> storageElement \<Rightarrow> bool" where
  "element_ok bs s \<longleftrightarrow>
     (\<exists>xs. se_size s = int (length xs) \<and> 16 dvd length xs \<and> 8 \<le> se_ptr s \<and>
       (se_ptr s - 8, sized (length xs + 8) @ int_bytes eyecatcher @ xs @ int_bytes eyecatcher) \<in> set bs) \<and>
     (\<exists>ys. 0 \<notin> set ys \<and> 8 \<le> se_file s \<and> (se_file s - 8, sized (length ys + 1) @ ys @ [0]) \<in> set bs) \<and>
     (\<exists>zs. length zs = sizeof_storageElement \<and> 8 \<le> se_at s \<and> (se_at s - 8, sized sizeof_storageElement @ zs) \<in> set bs)"

definition heap_items :: "heap \<Rightarrow> addr tree \<Rightarrow> storageElement list" where
  "heap_items h t = contents_of (h_tree h) t"

definition heap_ok :: "heap \<Rightarrow> addr tree \<Rightarrow> bool" where
  "heap_ok h t \<longleftrightarrow> tree_ok (h_tree h) 0 t \<and> t_compare (h_tree h) 0 = ptrCompare \<and> t_indexes (h_tree h) = 1 \<and>
     blocks_ok (h_blocks h) \<and> (\<forall>b\<in>set (h_blocks h). fst b + length (snd b) < 18446744073709551616) \<and>
     h_hooks h \<and> \<not> h_locked h \<and> (\<forall>s\<in>set (heap_items h t). element_ok (h_blocks h) s) \<and>
     h_current h = sum_list (map se_size (heap_items h t)) \<and> h_current h \<le> h_max h"

lemma element_ok_more: "element_ok bs s \<Longrightarrow> set bs \<subseteq> set bs' \<Longrightarrow> element_ok bs' s"
  unfolding element_ok_def by blast

lemma new_element_ok:
  assumes "16 dvd n"
  shows "element_ok (payload_block p n vp # file_block f fname # element_block s vs # bs) (new_element s f p line n)"
    (is "element_ok ?bs ?s")
proof -
  have "(se_ptr ?s - 8, sized (length (replicate n vp) + 8) @ int_bytes eyecatcher @ replicate n vp @ int_bytes eyecatcher) \<in> set ?bs"
    "(se_file ?s - 8, sized (length (c_str fname) + 1) @ c_str fname @ [0]) \<in> set ?bs"
    "(se_at ?s - 8, sized sizeof_storageElement @ replicate sizeof_storageElement vs) \<in> set ?bs"
    by (simp_all add: new_element_def payload_block_def file_block_def element_block_def del: replicate.simps)
  moreover have "se_size ?s = int (length (replicate n vp))" "16 dvd length (replicate n vp)"
    "8 \<le> se_ptr ?s" "8 \<le> se_file ?s" "8 \<le> se_at ?s" "0 \<notin> set (c_str fname)"
    "length (replicate sizeof_storageElement vs) = sizeof_storageElement"
    using assms by (simp_all add: new_element_def)
  ultimately show ?thesis unfolding element_ok_def by blast
qed

lemma sum_list_split: "sum_list (map f (takeWhile P xs @ c # dropWhile P xs)) = f c + sum_list (map f xs)" for f :: "'a \<Rightarrow> int"
proof -
  have "sum_list (map f xs) = sum_list (map f (takeWhile P xs)) + sum_list (map f (dropWhile P xs))"
    by (simp flip: sum_list_append map_append)
  then show ?thesis by simp
qed

lemma set_split: "set (takeWhile P xs @ c # dropWhile P xs) = insert c (set xs)"
proof -
  have "set xs = set (takeWhile P xs) \<union> set (dropWhile P xs)" by (simp flip: set_append)
  then show ?thesis by auto
qed

text \<open>Nothing in the heap has the address of a new block.\<close>

lemma new_block_absent:
  assumes "blocks_ok (b # bs)" "c \<in> set bs"
  shows "fst b \<noteq> fst c"
proof -
  have "apart b c" "snd b \<noteq> []" "snd c \<noteq> []" using assms by (auto simp: blocks_ok_def)
  then show ?thesis by (auto simp: apart_def)
qed

lemma ptr_compare_0 [simp]: "ptr_compare a b = 0 \<longleftrightarrow> a = b"
  by (simp add: ptr_compare_def)

text \<open>An item is found by the address that was given out.\<close>

context tree_order
begin

lemma sorted_unique: "sorted_by cmp xs \<Longrightarrow> x \<in> set xs \<Longrightarrow> y \<in> set xs \<Longrightarrow> cmp x y = 0 \<Longrightarrow> x = y"
proof (induction xs)
  case (Cons a xs)
  then show ?case using flip [of x y] by auto
qed simp

end

lemma below_add: "a < 18446744073709551616 \<Longrightarrow> below n (a + n) = a"
  by (simp add: below_def size_t_def)

lemma find_item:
  assumes ok: "heap_ok h t" and s: "s \<in> set (heap_items h t)"
  shows "Heap_findItem (se_ptr s + 4) h = Some (Some s, h)"
proof -
  let ?w = "h_tree h"
  have t: "tree_ok ?w 0 t" "t_compare ?w 0 = ptrCompare" "s \<in> set (contents_of ?w t)"
    using assms by (simp_all add: heap_ok_def heap_items_def)
  have ord: "tree_order (cmp_content (t_compare ?w 0)) (cmp_key (t_compare ?w 0))"
    using heap_order.tree_order_axioms t(2) by simp
  have "element_ok (h_blocks h) s" using assms by (simp add: heap_ok_def)
  then obtain b where "b \<in> set (h_blocks h)" "fst b = se_ptr s - 8" "8 \<le> length (snd b)" "8 \<le> se_ptr s"
    by (force simp: element_ok_def)
  then have "se_ptr s < 18446744073709551616" using ok by (fastforce simp: heap_ok_def)
  then have key: "below 4 (se_ptr s + 4) = se_ptr s" by (rule below_add)
  obtain r where r: "TreeFindIndex (se_ptr s) 0 ?w = Some r"
    "case r of None \<Rightarrow> \<forall>x\<in>set (contents_of ?w t). cmp_key (t_compare ?w 0) x (se_ptr s) \<noteq> 0
     | Some a \<Rightarrow> a \<in> set_tree t \<and> cmp_key (t_compare ?w 0) (content_at ?w a) (se_ptr s) = 0"
    using find_by_key [OF ord t(1), of "se_ptr s"] by blast
  obtain a where a: "r = Some a" "a \<in> set_tree t" "se_ptr (content_at ?w a) = se_ptr s"
    using r(2) t(2,3) by (cases r) (auto simp: ptrCompare_def)
  have "content_at ?w a = s"
    using t a heap_order.sorted_unique [of "contents_of ?w t" "content_at ?w a" s]
    by (auto simp: tree_ok_def contents_of_def ptrCompare_def)
  moreover have "filled ?w (set_tree t)" using t(1) by (simp add: tree_ok_def)
  then obtain n where "t_nodes ?w a = Some n" "n_content n = Some (content_at ?w a)" by (rule filledD [OF _ a(2)])
  ultimately show ?thesis
    using ok r(1) a(1) key by (simp add: Heap_findItem_def lock_heap_def heap_ok_def TreeFind_def)
qed

text \<open>An allocation as a whole.\<close>

lemma mymalloc_keeps:
  assumes ok: "heap_ok h t" and ans: "h_answers h = Some (s, vs) # Some (f, vf) # Some (p, vp) # rs"
    and small: "len < 2147483500" "strlen fname < 2147483600" "h_current h + int len < 2147483600"
    and new: "n = (len + 15) div 16 * 16"
      "bs = payload_block p n vp # file_block f fname # element_block s vs # h_blocks h"
      "blocks_ok bs" "\<forall>b\<in>set bs. fst b + length (snd b) < 18446744073709551616"
  shows "\<exists>h' t'. mymalloc fname line len h = Some (Some (p + 12), h') \<and> heap_ok h' t' \<and> h_blocks h' = bs \<and>
    set (heap_items h' t') = insert (new_element s f p line n) (set (heap_items h t)) \<and>
    h_current h' = h_current h + int n \<and>
    Heap_findItem (p + 12) h' = Some (Some (new_element s f p line n), h')"
proof -
  let ?s = "new_element s f p line n" and ?b = "payload_block p n vp"
  have t: "tree_ok (h_tree h) 0 t" "t_compare (h_tree h) 0 = ptrCompare" "t_indexes (h_tree h) = 1"
    using ok by (simp_all add: heap_ok_def)
  have fst_b: "fst ?b = p" by (simp add: payload_block_def)
  have "se_ptr x \<noteq> p + 8" if "x \<in> set (heap_items h t)" for x
  proof -
    have "element_ok (h_blocks h) x" using ok that by (simp add: heap_ok_def)
    then obtain c where c: "c \<in> set (h_blocks h)" "fst c = se_ptr x - 8" "8 \<le> se_ptr x"
      by (auto simp: element_ok_def)
    with new(2,3) have "fst ?b \<noteq> fst c" by (intro new_block_absent [of ?b "file_block f fname # element_block s vs # h_blocks h"]) auto
    with c show ?thesis by (auto simp: fst_b)
  qed
  then have absent: "\<forall>x\<in>set (contents_of (h_tree h) t). cmp_content (t_compare (h_tree h) 0) x ?s \<noteq> 0"
    using t(2) by (auto simp: ptrCompare_def new_element_def heap_items_def)
  have ord: "tree_order (cmp_content (t_compare (h_tree h) 0)) (cmp_key (t_compare (h_tree h) 0))"
    using heap_order.tree_order_axioms t(2) by simp
  obtain w' t' where w': "TreeAddByIndex ?s (new_space fname n) 0 (h_tree h) = Some (None, w')" "tree_ok w' 0 t'"
    "contents_of w' t' = takeWhile (\<lambda>x. cmp_content (t_compare (h_tree h) 0) x ?s > 0) (contents_of (h_tree h) t) @ ?s #
      dropWhile (\<lambda>x. cmp_content (t_compare (h_tree h) 0) x ?s > 0) (contents_of (h_tree h) t)"
    "t_compare w' = t_compare (h_tree h)" "t_indexes w' = t_indexes (h_tree h)"
    using add_new_ok [OF ord t(1) absent, of "new_space fname n"] by blast
  let ?h' = "(grown (int n) (h\<lparr>h_tree := w', h_answers := rs, h_blocks := bs\<rparr>))\<lparr>h_locked := False\<rparr>"
  have cur: "h_current h = sum_list (map se_size (heap_items h t))" "h_current h \<le> h_max h"
    using ok by (simp_all add: heap_ok_def)
  have "0 \<le> se_size x" if "x \<in> set (heap_items h t)" for x using ok that by (auto simp: heap_ok_def element_ok_def)
  then have "0 \<le> h_current h" unfolding cur(1) by (intro sum_list_nonneg) auto
  moreover have n: "n < len + 16" "16 dvd n" using new(1) by auto
  ultimately have c: "h_current ?h' = h_current h + int n"
    using small(3) by (simp add: grown_def signed32_small Let_def)
  have items: "heap_items ?h' t' = takeWhile (\<lambda>x. cmp_content (t_compare (h_tree h) 0) x ?s > 0) (heap_items h t) @ ?s #
      dropWhile (\<lambda>x. cmp_content (t_compare (h_tree h) 0) x ?s > 0) (heap_items h t)"
    using w'(3) by (simp add: heap_items_def grown_def Let_def)
  then have set: "set (heap_items ?h' t') = insert ?s (set (heap_items h t))" by (simp only: set_split)
  have "mymalloc fname line len h = Some (Some (p + 12), ?h')"
    using mymalloc_eval [OF _ _ ans, where len = len and n = n and fname = fname and line = line] roundup_size [of len] small(1,2) n(1) new w'(1) t(3) ok ans
    by (simp add: heap_ok_def TreeAdd_def)
  moreover have "heap_ok ?h' t'"
  proof -
    have "element_ok bs x" if "x \<in> set (heap_items ?h' t')" for x
    proof (cases "x = ?s")
      case True
      then show ?thesis using new_element_ok [OF n(2)] new(2) by simp
    next
      case False
      with that have "x \<in> set (heap_items h t)" unfolding set by simp
      then have "element_ok (h_blocks h) x" using ok unfolding heap_ok_def by blast
      then show ?thesis by (rule element_ok_more) (auto simp: new(2))
    qed
    moreover have "h_current ?h' = sum_list (map se_size (heap_items ?h' t'))"
      unfolding c items sum_list_split cur(1) by (simp add: new_element_def)
    moreover have "h_tree ?h' = w'" "h_blocks ?h' = bs" "h_hooks ?h'" "\<not> h_locked ?h'" "h_current ?h' \<le> h_max ?h'"
      using ok by (simp_all add: grown_def Let_def heap_ok_def)
    ultimately show ?thesis
      using t(2,3) w'(2,4,5) new(3,4) by (simp only: heap_ok_def) simp
  qed
  moreover have "Heap_findItem (p + 12) ?h' = Some (Some ?s, ?h')"
    using find_item [OF calculation(2), of ?s] set by (simp add: new_element_def add.commute)
  moreover have "h_blocks ?h' = bs" by (simp add: grown_def Let_def)
  ultimately show ?thesis using c set by blast
qed

subsection \<open>The lock\<close>

lemma hc_allocator_locked: "hc_allocator n h = Some (r, h') \<Longrightarrow> h_locked h' = h_locked h"
  by (auto simp: hc_allocator_def split: if_splits list.splits option.splits)

lemma store_locked: "store a ys h = Some h' \<Longrightarrow> h_locked h' = h_locked h"
  by (auto simp: store_def)

lemma allocate_locked: "allocate n h = Some (r, h') \<Longrightarrow> h_locked h' = h_locked h"
  by (auto simp: allocate_def bind_eq_Some_conv dest!: hc_allocator_locked store_locked split: option.splits)

lemma deallocate_locked: "deallocate p h = Some h' \<Longrightarrow> h_locked h' = h_locked h"
  by (auto simp: deallocate_def hc_deallocator_def split: if_splits)

lemma lock_heap_locked: "lock_heap h = Some h' \<Longrightarrow> h_locked h'"
  by (auto simp: lock_heap_def split: if_splits)

lemma log_heap_locked [simp]: "h_locked (log_heap m h) = h_locked h"
  by (simp add: log_heap_def)

lemma failed_mymalloc_locked: "mymalloc fname line len h = Some (None, h') \<Longrightarrow> h_locked h'"
  by (auto simp: mymalloc_def bind_eq_Some_conv Let_def split: option.splits
      dest!: lock_heap_locked allocate_locked deallocate_locked store_locked)

lemma locked_never_returns:
  assumes "h_locked h"
  shows "mymalloc f l n h = None" "myfree l p h = None" "myrealloc f l p n h = None" "Heap_findItem p h = None"
    "Heap_unlink l p h = None" "HeapScan h = None"
  using assms by (simp_all add: mymalloc_def myfree_def myrealloc_def Heap_findItem_def Heap_unlink_def HeapScan_def lock_heap_def)

subsection \<open>Reallocating\<close>

text \<open>The new block starts with as many old bytes as the word 64 bytes in front of the old block says.\<close>

lemma reallocate_copies:
  assumes old: "fetch (below 64 p) 8 h = Some old" "of_le old < len" and hooks: "h_hooks h"
    and ans: "h_answers h = Some (a, v) # rs" "len + 8 < 4294967296"
    and ok: "blocks_ok ((a, sized len @ replicate len v) # h_blocks h)"
    and p: "(p - 8, xs) \<in> set (h_blocks h)" "8 \<le> p" "p < 18446744073709551616" "8 + of_le old \<le> length xs" "0 < of_le old"
  shows "reallocate p len h = Some (Some (a + 8), h\<lparr>h_answers := rs, h_blocks :=
    (a, sized len @ take (of_le old) (drop 8 xs) @ replicate (len - of_le old) v) # filter (\<lambda>b. fst b \<noteq> p - 8) (h_blocks h)\<rparr>)"
proof -
  let ?m = "of_le old" and ?d = "take (of_le old) (drop 8 xs)"
  let ?h1 = "h\<lparr>h_answers := rs, h_blocks := (a, sized len @ replicate len v) # h_blocks h\<rparr>"
  let ?h2 = "h\<lparr>h_answers := rs, h_blocks := (a, sized len @ ?d @ replicate (len - ?m) v) # h_blocks h\<rparr>"
  have a1: "allocate len h = Some (Some (a + 8), ?h1)" using hooks ans ok by (rule allocate_new)
  have "fetch p ?m ?h1 = Some ?d"
    using read_mem_in [OF ok, of "(p - 8, xs)" p ?m] p by (simp add: fetch_def holds_def)
  moreover have r: "replicate len v = replicate ?m v @ replicate (len - ?m) v" using old(2) by (simp flip: replicate_add)
  have d: "length ?d = ?m" "?d \<noteq> []" using p(4,5) by (auto simp flip: length_greater_0_conv)
  have "store (a + 8) ?d ?h1 = Some ?h2"
    using store_at [of ?h1 a "sized len" "replicate ?m v" "replicate (len - ?m) v" "h_blocks h" "a + 8" ?d] ok d by (simp add: r)
  moreover have "a \<noteq> p - 8" using new_block_absent [OF ok p(1)] by simp
  moreover have "below 8 p = p - 8" using p(2,3) by (simp add: below_def size_t_def nat_diff_distrib')
  then have "deallocate p ?h2 = Some (?h2\<lparr>h_blocks := filter (\<lambda>b. fst b \<noteq> p - 8) (h_blocks ?h2)\<rparr>)"
    using hooks p(1) by (force simp: deallocate_def hc_deallocator_def)
  ultimately show ?thesis using old a1 by (simp add: reallocate_def Let_def)
qed

subsection \<open>Examples\<close>

definition no_heap :: heap where
  "no_heap = snd (Heap_initialize \<lparr>h_tree = \<lparr>t_root = (\<lambda>_. None), t_compare = (\<lambda>_. ptrCompare), t_indexes = 0,
     t_count = 0, t_size = 0, t_tracking = True, t_duplicates = False, t_nodes = Map.empty, t_next = 1\<rparr>, h_blocks = [],
     h_hooks = False, h_answers = [], h_current = 0, h_max = 0, h_locked = False, h_log = []\<rparr>)"

lemma no_heap_fields:
  "h_blocks no_heap = []" "h_current no_heap = 0" "h_max no_heap = 0" "\<not> h_locked no_heap"
  "t_nodes (h_tree no_heap) = Map.empty" "t_indexes (h_tree no_heap) = 1"
  "t_compare (h_tree no_heap) 0 = ptrCompare" "t_root (h_tree no_heap) 0 = None"
  by (simp_all add: no_heap_def Heap_initialize_def TreeInitializeNoMalloc_def)

lemma no_heap_ok: "heap_ok (Heap_set_allocator answers no_heap) \<langle>\<rangle>"
  by (simp add: heap_ok_def Heap_set_allocator_def no_heap_fields tree_ok_def tree_at_def filled_def contents_of_def
      heap_items_def blocks_ok_def)

subsection \<open>Properties\<close>

text \<open>
  C29: the tracked heap is well-formed and \<^verbatim>\<open>mymalloc\<close> keeps it.  In a well-formed heap (a red-black search
  tree by address, blocks that do not overlap, for every record an item of its size between intact
  eyecatchers, a file name and the record's own block, a current size that is the sum of the sizes), an
  allocation for which the allocator finds three new blocks returns, adds one record whose size is
  the request rounded up to 16, writes into the new blocks only, and \<^verbatim>\<open>Heap_findItem\<close> finds it.
\<close>

theorem mymalloc_keeps_heap:
  assumes "heap_ok h t" "h_answers h = Some (s, vs) # Some (f, vf) # Some (p, vp) # rs"
    "len < 2147483500" "strlen fname < 2147483600" "h_current h + int len < 2147483600" "n = (len + 15) div 16 * 16"
    "bs = payload_block p n vp # file_block f fname # element_block s vs # h_blocks h"
    "blocks_ok bs" "\<forall>b\<in>set bs. fst b + length (snd b) < 18446744073709551616"
  shows "\<exists>h' t'. mymalloc fname line len h = Some (Some (p + 12), h') \<and> heap_ok h' t' \<and> h_blocks h' = bs \<and>
    set (heap_items h' t') = insert (new_element s f p line n) (set (heap_items h t)) \<and>
    h_current h' = h_current h + int n \<and>
    Heap_findItem (p + 12) h' = Some (Some (new_element s f p line n), h')"
  using assms by (rule mymalloc_keeps)

theorem mymalloc_keeps_heap_witness:
  "\<exists>h' t'. mymalloc [65] 7 20 (Heap_set_allocator [Some (1000, 0), Some (2000, 0), Some (3000, 0)] no_heap) =
     Some (Some 3012, h') \<and> heap_ok h' t' \<and> h_current h' = 32"
proof -
  let ?h = "Heap_set_allocator [Some (1000, 0), Some (2000, 0), Some (3000, 0)] no_heap"
  let ?bs = "payload_block 3000 32 0 # file_block 2000 [65] # element_block 1000 0 # h_blocks ?h"
  have "blocks_ok ?bs" "\<forall>b\<in>set ?bs. fst b + length (snd b) < 18446744073709551616"
    by (simp_all add: blocks_ok_def payload_block_def file_block_def element_block_def apart_def Heap_set_allocator_def
        no_heap_fields sizeof_storageElement_def sized_def flip: length_greater_0_conv)
  with mymalloc_keeps_heap [OF no_heap_ok [of "[Some (1000, 0), Some (2000, 0), Some (3000, 0)]"], where len = 20 and n = 32 and fname = "[65]" and line = 7 and s = 1000 and
      f = 2000 and p = 3000 and vs = 0 and vf = 0 and vp = 0 and rs = "[]" and bs = ?bs]
  show ?thesis by (auto simp: Heap_set_allocator_def no_heap_fields)
qed

text \<open>
  C30: a failed allocation stops the library.  When \<^verbatim>\<open>mymalloc\<close> returns NULL it has not unlocked the heap's
  mutex, and every later \<^verbatim>\<open>malloc\<close>, \<^verbatim>\<open>free\<close>, \<^verbatim>\<open>realloc\<close>, lookup or scan waits for it forever.
\<close>

theorem failed_mymalloc_stops:
  assumes "mymalloc fname line len h = Some (None, h')"
  shows "mymalloc g l n h' = None \<and> myfree l p h' = None \<and> myrealloc g l p n h' = None \<and> Heap_findItem p h' = None \<and>
    Heap_unlink l p h' = None \<and> HeapScan h' = None"
  using locked_never_returns [OF failed_mymalloc_locked [OF assms]] by simp

theorem failed_mymalloc_stops_witness:
  "\<exists>h'. mymalloc [65] 7 20 (Heap_set_allocator [] no_heap) = Some (None, h') \<and> myfree 8 3012 h' = None"
proof -
  have "\<exists>h'. mymalloc [65] 7 20 (Heap_set_allocator [] no_heap) = Some (None, h')"
    by (simp add: mymalloc_def lock_heap_def roundup_size [of 20, simplified] allocate_def hc_allocator_def
        Heap_set_allocator_def no_heap_fields)
  then show ?thesis using failed_mymalloc_stops by blast
qed



end
