(* ===== verification/AsyncState.thy ===== *)
theory AsyncState
  imports ClientQueue
begin

text \<open>
  \<^verbatim>\<open>MQTTAsync.c\<close>, its state and the operations on commands.  What the application asks for is a command
  in a queue; a thread of the library sends it and another one receives the answers.

  Commands are allocated, shared between the lists and \<^verbatim>\<open>pending_write\<close>, and freed, so they live in a store
  by address; so do the arrays of server addresses, which copies of a connect command share.  Using
  what is not in the store any more is \<open>None\<close>.  Callbacks are function addresses (0 is NULL).  What the
  application does in a callback, and what happens while this thread sleeps, is the argument \<open>env\<close>.
  The clock is the script of its readings (milliseconds, and the time of day); at its end it stands still.
\<close>

subsection \<open>Commands\<close>

text \<open>
  The union \<^verbatim>\<open>details\<close>: topics and QoS; destination, length, payload, QoS and retained; internal and
  timeout; timeout, number and array of server addresses, the current one and the version.
  \<open>NoDetails\<close> is zeroed memory.
\<close>

datatype command_details =
    NoDetails
  | SubDetails "byte list list" "int list"
  | UnsubDetails "byte list list"
  | PubDetails "byte list option" int "byte list" int int
  | DisDetails bool int
  | ConnDetails int int "addr option" int int

fun dis_internal :: "command_details \<Rightarrow> bool" where
  "dis_internal (DisDetails internal _) = internal" | "dis_internal _ = False"
fun dis_timeout :: "command_details \<Rightarrow> int" where
  "dis_timeout (DisDetails _ timeout) = timeout" | "dis_timeout _ = 0"
fun pub_qos :: "command_details \<Rightarrow> int" where
  "pub_qos (PubDetails _ _ _ qos _) = qos" | "pub_qos _ = 0"
fun no_destination :: "command_details \<Rightarrow> command_details" where
  "no_destination (PubDetails _ n p q r) = PubDetails None n p q r" | "no_destination d = d"
fun conn_timeout :: "command_details \<Rightarrow> int" where
  "conn_timeout (ConnDetails t _ _ _ _) = t" | "conn_timeout _ = 0"
fun serverURIcount :: "command_details \<Rightarrow> int" where
  "serverURIcount (ConnDetails _ n _ _ _) = n" | "serverURIcount _ = 0"
fun serverURIs :: "command_details \<Rightarrow> addr option" where
  "serverURIs (ConnDetails _ _ u _ _) = u" | "serverURIs _ = None"
fun currentURI :: "command_details \<Rightarrow> int" where
  "currentURI (ConnDetails _ _ _ i _) = i" | "currentURI _ = 0"
fun conn_version :: "command_details \<Rightarrow> int" where
  "conn_version (ConnDetails _ _ _ _ v) = v" | "conn_version _ = 0"

record MQTTAsync_command =
  k_type :: int
  k_onSuccess :: addr
  k_onFailure :: addr
  k_token :: int
  k_start_time :: int
  k_details :: command_details

definition zero_command :: MQTTAsync_command where
  "zero_command = \<lparr>k_type = 0, k_onSuccess = 0, k_onFailure = 0, k_token = 0, k_start_time = 0, k_details = NoDetails\<rparr>"

text \<open>\<^verbatim>\<open>client\<close> is the handle; \<^verbatim>\<open>seqno\<close> is unsigned.\<close>

record MQTTAsync_queuedCommand =
  q_command :: MQTTAsync_command
  q_client :: addr
  q_seqno :: int

subsection \<open>State\<close>

text \<open>\<^verbatim>\<open>as_c\<close> is the client's element in \<^verbatim>\<open>bstate->clients\<close>; the lists hold addresses of commands.\<close>

record MQTTAsyncs =
  as_serverURI :: string
  as_c :: addr
  as_cl :: bool
  as_ma :: bool
  as_dc :: bool
  as_connect :: MQTTAsync_command
  as_disconnect :: MQTTAsync_command
  as_pending_write :: "addr option"
  as_responses :: "addr clist"
  as_command_seqno :: int

datatype MQTTAsync_threadStates = STOPPED | STARTING | RUNNING | STOPPING

text \<open>What is passed to a callback; the context pointers are left out.\<close>

datatype success_data =
    NoData
  | PubData int "byte list option" int "byte list" int int
  | SubData int "int list"
  | ConnData string int int

datatype async_call =
    Asleep
  | StartThread bool
  | ConnectionLost addr
  | MessageArrived addr "byte list" int MQTTPersistence_message
  | DeliveryComplete addr int
  | OnSuccess addr success_data
  | OnFailure addr "(int \<times> int) option"

text \<open>
  The statics of the file, the scripts (clock, \<^verbatim>\<open>getsockopt(SO_ERROR)\<close>, results of \<^verbatim>\<open>messageArrived\<close>),
  and the log of the callbacks.
\<close>

record 's masync = "'s proto" +
  async_initialized :: bool
  async_handles :: "MQTTAsyncs clist"
  commands :: "addr clist"
  queued :: "addr \<rightharpoonup> MQTTAsync_queuedCommand"
  next_command :: addr
  uri_arrays :: "addr \<rightharpoonup> string list"
  next_uris :: addr
  sendThread_state :: MQTTAsync_threadStates
  receiveThread_state :: MQTTAsync_threadStates
  sendThread_id :: int
  receiveThread_id :: int
  Thread_getid :: int
  async_tostop :: bool
  retry_last :: int
  timeouts_last :: int
  async_mutex :: bool
  command_mutex :: bool
  async_clock :: "(int \<times> int) list"
  async_sockopt :: "(int \<times> int) list"
  async_arrived :: "int list"
  calls :: "async_call list"

type_synonym ('s, 'm) async_env = "async_call \<Rightarrow> ('s, 'm) masync_scheme \<Rightarrow> ('s, 'm) masync_scheme option"

text \<open>The statics before anything is called, on a quiet system.\<close>

definition zero_async :: "'s masync" where
  "zero_async = \<lparr>def_queue = zero_queue, queues = cl_empty, writes = cl_empty, junk_int = 0,
     junk_header = [0, 0, 0, 0, 0], rset = {}, rset_saved = {}, wset = {}, pending_wset = {},
     maxfdp1 = 0, clientsds = cl_empty, cur_clientsds = None, connect_pending = cl_empty,
     write_pending = cl_empty, os_recv = (\<lambda>_. []), os_write = (\<lambda>_. []), os_select = [],
     os_fcntl = (\<lambda>_. None), os_resolve = (\<lambda>_. (0, [])), os_sockets = [], os_connect = (\<lambda>_. 0),
     os_time = 0, sent = (\<lambda>_. []), publications = cl_empty, pubs = Map.empty, next_pub = 0,
     msgs_received = 0, msgs_sent = 0, pending_qos0 = cl_empty, clients = cl_empty,
     async_initialized = False, async_handles = cl_empty, commands = cl_empty, queued = Map.empty, next_command = 1,
     uri_arrays = Map.empty, next_uris = 1, sendThread_state = STOPPED, receiveThread_state = STOPPED,
     sendThread_id = 0, receiveThread_id = 0, Thread_getid = 1, async_tostop = False, retry_last = 0,
     timeouts_last = 0, async_mutex = False, command_mutex = False, async_clock = [], async_sockopt = [],
     async_arrived = [], calls = []\<rparr>"

definition MQTTASYNC_SUCCESS :: int where "MQTTASYNC_SUCCESS = 0"
definition MQTTASYNC_FAILURE :: int where "MQTTASYNC_FAILURE = -1"
definition MQTTASYNC_PERSISTENCE_ERROR :: int where "MQTTASYNC_PERSISTENCE_ERROR = -2"
definition MQTTASYNC_DISCONNECTED :: int where "MQTTASYNC_DISCONNECTED = -3"
definition MQTTASYNC_BAD_UTF8_STRING :: int where "MQTTASYNC_BAD_UTF8_STRING = -5"
definition MQTTASYNC_NULL_PARAMETER :: int where "MQTTASYNC_NULL_PARAMETER = -6"
definition MQTTASYNC_BAD_STRUCTURE :: int where "MQTTASYNC_BAD_STRUCTURE = -8"
definition MQTTASYNC_BAD_QOS :: int where "MQTTASYNC_BAD_QOS = -9"
definition MQTTASYNC_NO_MORE_MSGIDS :: int where "MQTTASYNC_NO_MORE_MSGIDS = -10"
definition MQTTASYNC_TRUE :: int where "MQTTASYNC_TRUE = 1"
definition MQTTVERSION_3_1 :: int where "MQTTVERSION_3_1 = 3"
definition MQTTVERSION_3_1_1 :: int where "MQTTVERSION_3_1_1 = 4"

lemmas async_rc_defs [code_defs] = MQTTASYNC_SUCCESS_def MQTTASYNC_FAILURE_def MQTTASYNC_PERSISTENCE_ERROR_def
  MQTTASYNC_DISCONNECTED_def MQTTASYNC_BAD_UTF8_STRING_def MQTTASYNC_NULL_PARAMETER_def
  MQTTASYNC_BAD_STRUCTURE_def MQTTASYNC_BAD_QOS_def MQTTASYNC_NO_MORE_MSGIDS_def MQTTASYNC_TRUE_def
  MQTTVERSION_3_1_def MQTTVERSION_3_1_1_def

subsection \<open>Access\<close>

definition get_async :: "addr \<Rightarrow> ('s, 'm) masync_scheme \<Rightarrow> MQTTAsyncs option" where
  "get_async m w = map_of (items (async_handles w)) m"

definition upd_async :: "addr \<Rightarrow> (MQTTAsyncs \<Rightarrow> MQTTAsyncs) \<Rightarrow> ('s, 'm) masync_scheme \<Rightarrow> ('s, 'm) masync_scheme" where
  "upd_async m f w = w\<lparr>async_handles := cl_update m f (async_handles w)\<rparr>"

definition async_client :: "addr \<Rightarrow> ('s, 'm) masync_scheme \<Rightarrow> (addr \<times> 's Clients) option" where
  "async_client m w = do {
     h \<leftarrow> get_async m w;
     client \<leftarrow> get_client (as_c h) w;
     Some (as_c h, client)
   }"

definition async_context :: "addr \<Rightarrow> ('s, 'm) masync_scheme \<Rightarrow> addr option" where
  "async_context c w = map_option fst (List.find (\<lambda>x. as_c (snd x) = c) (items (async_handles w)))"

definition clientSockCompare_async :: "('s, 'm) masync_scheme \<Rightarrow> int \<Rightarrow> MQTTAsyncs \<Rightarrow> bool" where
  "clientSockCompare_async w sock m \<longleftrightarrow> map_option net_socket (get_client (as_c m) w) = Some sock"

definition find_async :: "int \<Rightarrow> ('s, 'm) masync_scheme \<Rightarrow> addr option \<times> ('s, 'm) masync_scheme" where
  "find_async sock w = (
     let (m, hs) = cl_find (clientSockCompare_async w sock) (async_handles w) in (m, w\<lparr>async_handles := hs\<rparr>))"

definition clientStructCompare :: "addr \<Rightarrow> MQTTAsyncs \<Rightarrow> bool" where
  "clientStructCompare c m \<longleftrightarrow> as_c m = c"

definition find_struct :: "addr \<Rightarrow> ('s, 'm) masync_scheme \<Rightarrow> addr option \<times> ('s, 'm) masync_scheme" where
  "find_struct c w = (
     let (m, hs) = cl_find (clientStructCompare c) (async_handles w) in (m, w\<lparr>async_handles := hs\<rparr>))"

text \<open>The application, told in a callback.\<close>

definition callback :: "('s, 'm) async_env \<Rightarrow> async_call \<Rightarrow> ('s, 'm) masync_scheme \<Rightarrow> ('s, 'm) masync_scheme option" where
  "callback env k w = env k (w\<lparr>calls := calls w @ [k]\<rparr>)"

definition on_success ::
  "('s, 'm) async_env \<Rightarrow> MQTTAsync_command \<Rightarrow> success_data \<Rightarrow> ('s, 'm) masync_scheme \<Rightarrow> ('s, 'm) masync_scheme option" where
  "on_success env k d w = (if k_onSuccess k \<noteq> 0 then callback env (OnSuccess (k_onSuccess k) d) w else Some w)"

definition on_failure ::
  "('s, 'm) async_env \<Rightarrow> MQTTAsync_command \<Rightarrow> (int \<times> int) option \<Rightarrow> ('s, 'm) masync_scheme \<Rightarrow> ('s, 'm) masync_scheme option" where
  "on_failure env k d w = (if k_onFailure k \<noteq> 0 then callback env (OnFailure (k_onFailure k) d) w else Some w)"

fun pub_data :: "MQTTAsync_command \<Rightarrow> success_data" where
  "pub_data k = (case k_details k of
     PubDetails t n p q r \<Rightarrow> PubData (k_token k) t n p q r
   | _ \<Rightarrow> PubData (k_token k) None 0 [] 0 0)"

subsection \<open>Mutexes, sleep and clock\<close>

text \<open>Both mutexes check errors (\<^verbatim>\<open>MQTTAsync_init\<close>): locking one that this thread holds changes nothing.\<close>

abbreviation MQTTAsync_lock_mutex :: "('s, 'm) masync_scheme \<Rightarrow> ('s, 'm) masync_scheme" where
  "MQTTAsync_lock_mutex w \<equiv> w\<lparr>async_mutex := True\<rparr>"

abbreviation MQTTAsync_unlock_mutex :: "('s, 'm) masync_scheme \<Rightarrow> ('s, 'm) masync_scheme" where
  "MQTTAsync_unlock_mutex w \<equiv> w\<lparr>async_mutex := False\<rparr>"

definition async_now :: "('s, 'm) masync_scheme \<Rightarrow> int \<times> ('s, 'm) masync_scheme" where
  "async_now w = (case async_clock w of
     [] \<Rightarrow> (FOREVER - 1, w)
   | (ms, t) # rs \<Rightarrow> (ms, w\<lparr>async_clock := rs, os_time := t\<rparr>))"

definition MQTTAsync_start_clock :: "('s, 'm) masync_scheme \<Rightarrow> int \<times> ('s, 'm) masync_scheme" where
  "MQTTAsync_start_clock w = async_now w"

definition MQTTAsync_elapsed :: "int \<Rightarrow> ('s, 'm) masync_scheme \<Rightarrow> int \<times> ('s, 'm) masync_scheme" where
  "MQTTAsync_elapsed start w = (let (now, w1) = async_now w in (now - start, w1))"

definition async_sys_sockopt :: "('s, 'm) masync_scheme \<Rightarrow> (int \<times> int) \<times> ('s, 'm) masync_scheme" where
  "async_sys_sockopt w = (case async_sockopt w of [] \<Rightarrow> ((0, 0), w) | r # rs \<Rightarrow> (r, w\<lparr>async_sockopt := rs\<rparr>))"

end
