(* ===== verification/AsyncCommands.thy ===== *)
theory AsyncCommands
  imports AsyncState
begin

text \<open>
  \<^verbatim>\<open>MQTTAsync.c\<close>, commands: allocating and freeing them, the queue with its records in the store, the list
  of those that wait for an answer, and closing a session.
\<close>

subsection \<open>Allocation\<close>

definition new_command ::
  "addr \<Rightarrow> MQTTAsync_command \<Rightarrow> ('s, 'm) masync_scheme \<Rightarrow> addr \<times> ('s, 'm) masync_scheme" where
  "new_command m k w = (next_command w, w\<lparr>next_command := next_command w + 1,
     queued := (queued w)(next_command w \<mapsto> \<lparr>q_command = k, q_client = m, q_seqno = 0\<rparr>)\<rparr>)"

definition upd_command ::
  "addr \<Rightarrow> (MQTTAsync_queuedCommand \<Rightarrow> MQTTAsync_queuedCommand) \<Rightarrow> ('s, 'm) masync_scheme \<Rightarrow>
     ('s, 'm) masync_scheme option" where
  "upd_command a f w = map_option (\<lambda>q. w\<lparr>queued := (queued w)(a \<mapsto> f q)\<rparr>) (queued w a)"

text \<open>The strings are part of the command here; what is left to do is to look at it.\<close>

definition MQTTAsync_freeCommand1 :: "addr \<Rightarrow> ('s, 'm) masync_scheme \<Rightarrow> ('s, 'm) masync_scheme option" where
  "MQTTAsync_freeCommand1 a w = map_option (\<lambda>_. w) (queued w a)"

definition free_command :: "addr \<Rightarrow> ('s, 'm) masync_scheme \<Rightarrow> ('s, 'm) masync_scheme option" where
  "free_command a w = map_option (\<lambda>_. w\<lparr>queued := (queued w)(a := None)\<rparr>) (queued w a)"

definition MQTTAsync_freeCommand :: "addr \<Rightarrow> ('s, 'm) masync_scheme \<Rightarrow> ('s, 'm) masync_scheme option" where
  "MQTTAsync_freeCommand a w = Option.bind (MQTTAsync_freeCommand1 a w) (free_command a)"

text \<open>The array of server addresses is freed, but not forgotten: the command is passed by value.\<close>

definition MQTTAsync_freeConnect :: "MQTTAsync_command \<Rightarrow> ('s, 'm) masync_scheme \<Rightarrow> ('s, 'm) masync_scheme option" where
  "MQTTAsync_freeConnect k w =
     (if k_type k = CONNECT then
        (case serverURIs (k_details k) of
           None \<Rightarrow> if serverURIcount (k_details k) > 0 then None else Some w
         | Some u \<Rightarrow> map_option (\<lambda>_. w\<lparr>uri_arrays := (uri_arrays w)(u := None)\<rparr>) (uri_arrays w u))
      else Some w)"

definition MQTTAsync_checkConn :: "MQTTAsync_command \<Rightarrow> 's Clients \<Rightarrow> bool" where
  "MQTTAsync_checkConn k client \<longleftrightarrow> currentURI (k_details k) < serverURIcount (k_details k) \<or>
     (conn_version (k_details k) = 4 \<and> MQTTVersion client = MQTTVERSION_DEFAULT)"

subsection \<open>Commands in the store\<close>

definition command_key :: "int \<Rightarrow> string option" where
  "command_key seqno = sprintf_key PERSISTENCE_MAX_KEY_LENGTH PERSISTENCE_COMMAND_KEY (signed32 seqno)"

definition MQTTAsync_unpersistCommand ::
  "MQTTAsync_queuedCommand \<Rightarrow> ('s, 'm) masync_scheme \<Rightarrow> (int \<times> ('s, 'm) masync_scheme) option" where
  "MQTTAsync_unpersistCommand qcmd w = do {
     key \<leftarrow> command_key (q_seqno qcmd);
     (c, client) \<leftarrow> async_client (q_client qcmd) w;
     _ \<leftarrow> persistence client;
     with_store c (\<lambda>per s. premove per s key) w
   }"

text \<open>The buffers of a command; there are none for the types that are not stored.\<close>

definition command_bufs :: "MQTTAsync_command \<Rightarrow> byte list list option" where
  "command_bufs k = (
     let front = [int_bytes (k_type k), int_bytes (k_token k)]
     in case k_details k of
       SubDetails ts qs \<Rightarrow> if k_type k = SUBSCRIBE
         then Some (front @ [int_bytes (int (length ts))] @ concat (map (\<lambda>(t, q). [c_str t @ [0], int_bytes q]) (zip ts qs)))
         else Some []
     | UnsubDetails ts \<Rightarrow> if k_type k = UNSUBSCRIBE
         then Some (front @ [int_bytes (int (length ts))] @ map (\<lambda>t. c_str t @ [0]) ts) else Some []
     | PubDetails dest n pl qos retained \<Rightarrow> if k_type k = PUBLISH
         then do {
           t \<leftarrow> dest;
           bytes \<leftarrow> (if n < 0 then None else rd_bytes pl 0 (nat n));
           Some (front @ [c_str t @ [0], int_bytes n, bytes, int_bytes qos, int_bytes retained])
         } else Some []
     | _ \<Rightarrow> Some [])"

definition MQTTAsync_persistCommand ::
  "addr \<Rightarrow> ('s, 'm) masync_scheme \<Rightarrow> (int \<times> ('s, 'm) masync_scheme) option" where
  "MQTTAsync_persistCommand a w = do {
     qcmd \<leftarrow> queued w a;
     bufs \<leftarrow> command_bufs (q_command qcmd);
     if bufs = [] then Some (0, w)
     else do {
       h \<leftarrow> get_async (q_client qcmd) w;
       let seq = (as_command_seqno h + 1) mod 4294967296;
       key \<leftarrow> command_key seq;
       let w1 = upd_async (q_client qcmd) (\<lambda>h. h\<lparr>as_command_seqno := seq\<rparr>) w;
       client \<leftarrow> get_client (as_c h) w1;
       _ \<leftarrow> persistence client;
       (rc, w2) \<leftarrow> with_store (as_c h) (\<lambda>per s. pput per s key bufs) w1;
       w3 \<leftarrow> upd_command a (\<lambda>q. q\<lparr>q_seqno := seq\<rparr>) w2;
       Some (rc, w3)
     }
   }"

text \<open>
  The command in a record, or NULL.  The arrays for the topics are not allocated: the first one is
  written through a NULL pointer.
\<close>

definition MQTTAsync_restoreCommand :: "byte list \<Rightarrow> MQTTAsync_command option option" where
  "MQTTAsync_restoreCommand buffer = do {
     type \<leftarrow> read_int32 buffer 0;
     token \<leftarrow> read_int32 buffer 4;
     let k = zero_command\<lparr>k_type := type, k_token := token\<rparr>;
     if type = SUBSCRIBE \<or> type = UNSUBSCRIBE then do {
       count \<leftarrow> read_int32 buffer 8;
       if count > 0 then None
       else Some (Some (k\<lparr>k_details := if type = SUBSCRIBE then SubDetails [] [] else UnsubDetails []\<rparr>))
     }
     else if type = PUBLISH then do {
       t \<leftarrow> read_c_string buffer 8;
       let p = 8 + length t + 1;
       plen \<leftarrow> read_int32 buffer p;
       pl \<leftarrow> (if plen < 0 then None else rd_bytes buffer (p + 4) (nat plen));
       let p1 = p + 4 + nat plen;
       qos \<leftarrow> read_int32 buffer p1;
       retained \<leftarrow> read_int32 buffer (p1 + 4);
       Some (Some (k\<lparr>k_details := PubDetails (Some (t @ [0])) plen pl qos retained\<rparr>))
     }
     else Some None
   }"

text \<open>
  The function of \<^verbatim>\<open>MQTTPersistence.c\<close> for messages is called, not the one of this file for commands: it
  compares what it takes for message ids, the lower halves of the pointers \<^verbatim>\<open>onSuccess\<close>.
\<close>

definition as_msgid :: "MQTTAsync_queuedCommand \<Rightarrow> int" where
  "as_msgid q = signed32 (int (k_onSuccess (q_command q)))"

definition insert_restored :: "addr \<Rightarrow> int \<Rightarrow> ('s, 'm) masync_scheme \<Rightarrow> ('s, 'm) masync_scheme option" where
  "insert_restored a size_of w = do {
     q \<leftarrow> queued w a;
     _ \<leftarrow> those (map (queued w) (contents (commands w)));
     Some (w\<lparr>commands := cl_add_before (commands w) a size_of
       (map_option fst (List.find (\<lambda>x. case queued w (snd x) of None \<Rightarrow> False | Some q' \<Rightarrow> as_msgid q < as_msgid q')
         (items (commands w))))\<rparr>)
   }"

text \<open>The function of this file, which is not called.\<close>

definition MQTTAsync_insertInOrder :: "addr clist \<Rightarrow> addr \<Rightarrow> int \<Rightarrow> ('s, 'm) masync_scheme \<Rightarrow> addr clist option" where
  "MQTTAsync_insertInOrder l a size_of w = do {
     q \<leftarrow> queued w a;
     _ \<leftarrow> those (map (queued w) (contents l));
     Some (cl_add_before l a size_of
       (map_option fst (List.find (\<lambda>x. case queued w (snd x) of None \<Rightarrow> False | Some q' \<Rightarrow> q_seqno q < q_seqno q') (items l))))
   }"

definition sizeof_queuedCommand :: int where "sizeof_queuedCommand = 104"

definition restore_command ::
  "addr \<Rightarrow> addr \<Rightarrow> string \<Rightarrow> ('s, 'm) masync_scheme \<Rightarrow> (int \<times> ('s, 'm) masync_scheme) option" where
  "restore_command m c msgkey w =
     (if \<not> strncmp_prefix msgkey PERSISTENCE_COMMAND_KEY then Some (0, w)
      else do {
        (rc, buffer) \<leftarrow> ask_store c (\<lambda>per s. pget per s msgkey) w;
        if rc \<noteq> 0 then Some (rc, w)
        else do {
          cmd \<leftarrow> MQTTAsync_restoreCommand buffer;
          case cmd of
            None \<Rightarrow> Some (0, w)
          | Some k \<Rightarrow> do {
              let (a, w1) = new_command m k w;
              let seq = atoi (drop 2 msgkey) mod 4294967296;
              w2 \<leftarrow> upd_command a (\<lambda>q. q\<lparr>q_seqno := seq\<rparr>) w1;
              w3 \<leftarrow> insert_restored a sizeof_queuedCommand w2;
              Some (0, upd_async m (\<lambda>h. h\<lparr>as_command_seqno := max (as_command_seqno h) seq\<rparr>) w3)
            }
        }
      })"

fun restore_loop ::
  "addr \<Rightarrow> addr \<Rightarrow> string list \<Rightarrow> ('s, 'm) masync_scheme \<Rightarrow> (int \<times> ('s, 'm) masync_scheme) option" where
  "restore_loop m c [] w = Some (0, w)"
| "restore_loop m c (k # ks) w = do {
     (rc, w1) \<leftarrow> restore_command m c k w;
     if rc = 0 then restore_loop m c ks w1 else Some (rc, w1)
   }"

definition MQTTAsync_restoreCommands ::
  "addr \<Rightarrow> ('s, 'm) masync_scheme \<Rightarrow> (int \<times> ('s, 'm) masync_scheme) option" where
  "MQTTAsync_restoreCommands m w = do {
     (c, client) \<leftarrow> async_client m w;
     if persistence client = None then Some (0, w)
     else do {
       (rc, msgkeys) \<leftarrow> ask_store c (\<lambda>per s. pkeys per s) w;
       if rc = 0 then restore_loop m c msgkeys w else Some (rc, w)
     }
   }"

subsection \<open>The queue\<close>

text \<open>A connect command, or a disconnect of the library's own, goes to the front unless one is there.\<close>

definition add_first :: "addr \<Rightarrow> MQTTAsync_queuedCommand \<Rightarrow> int \<Rightarrow> ('s, 'm) masync_scheme \<Rightarrow> ('s, 'm) masync_scheme option" where
  "add_first a q size_of w = do {
     head \<leftarrow> (case items (commands w) of [] \<Rightarrow> Some None | (_, b) # _ \<Rightarrow> map_option Some (queued w b));
     if (case head of None \<Rightarrow> False | Some h \<Rightarrow> q_client h = q_client q \<and> k_type (q_command h) = k_type (q_command q))
     then MQTTAsync_freeCommand a w
     else Some (w\<lparr>commands := cl_add_before (commands w) a size_of (hd_addr (items (commands w)))\<rparr>)
   }"

definition MQTTAsync_addCommand :: "addr \<Rightarrow> int \<Rightarrow> ('s, 'm) masync_scheme \<Rightarrow> (int \<times> ('s, 'm) masync_scheme) option" where
  "MQTTAsync_addCommand a command_size w0 = do {
     let (start, w1) = MQTTAsync_start_clock (w0\<lparr>command_mutex := True\<rparr>);
     w \<leftarrow> upd_command a (\<lambda>q. q\<lparr>q_command := (q_command q)\<lparr>k_start_time := start\<rparr>\<rparr>) w1;
     q \<leftarrow> queued w a;
     let k = q_command q;
     w2 \<leftarrow> (if k_type k = CONNECT \<or> k_type k = DISCONNECT \<and> dis_internal (k_details k)
       then add_first a q command_size w
       else do {
         let w2 = w\<lparr>commands := cl_add (commands w) a command_size\<rparr>;
         (_, client) \<leftarrow> async_client (q_client q) w2;
         if persistence client = None then Some w2 else map_option snd (MQTTAsync_persistCommand a w2)
       });
     Some (0, w2\<lparr>command_mutex := False\<rparr>)
   }"

text \<open>Connecting once more, with the command kept in the handle.\<close>

definition sizeof_command :: int where "sizeof_command = 88"

definition connect_again :: "addr \<Rightarrow> ('s, 'm) masync_scheme \<Rightarrow> ('s, 'm) masync_scheme option" where
  "connect_again m w = do {
     h \<leftarrow> get_async m w;
     let (a, w1) = new_command m (as_connect h) w;
     map_option snd (MQTTAsync_addCommand a sizeof_command w1)
   }"

subsection \<open>Disconnecting\<close>

record MQTTAsync_disconnectOptions =
  do_timeout :: int
  do_onSuccess :: addr
  do_onFailure :: addr

definition MQTTAsync_disconnect1 ::
  "addr option \<Rightarrow> MQTTAsync_disconnectOptions option \<Rightarrow> bool \<Rightarrow> ('s, 'm) masync_scheme \<Rightarrow>
     (int \<times> ('s, 'm) masync_scheme) option" where
  "MQTTAsync_disconnect1 handle options internal w = (case handle of
     None \<Rightarrow> Some (MQTTASYNC_FAILURE, w)
   | Some m \<Rightarrow> do {
       (c, client) \<leftarrow> async_client m w;
       if connected client = 0 then Some (MQTTASYNC_DISCONNECTED, w)
       else
         let k = zero_command\<lparr>k_type := DISCONNECT,
                   k_onSuccess := (case options of None \<Rightarrow> 0 | Some opts \<Rightarrow> do_onSuccess opts),
                   k_onFailure := (case options of None \<Rightarrow> 0 | Some opts \<Rightarrow> do_onFailure opts),
                   k_details := DisDetails internal (case options of None \<Rightarrow> 0 | Some opts \<Rightarrow> do_timeout opts)\<rparr>;
             (a, w1) = new_command m k w
         in MQTTAsync_addCommand a 8 w1
     })"

definition MQTTAsync_disconnect_internal ::
  "addr option \<Rightarrow> int \<Rightarrow> ('s, 'm) masync_scheme \<Rightarrow> (int \<times> ('s, 'm) masync_scheme) option" where
  "MQTTAsync_disconnect_internal handle timeout w =
     MQTTAsync_disconnect1 handle (Some \<lparr>do_timeout = timeout, do_onSuccess = 0, do_onFailure = 0\<rparr>) True w"

definition MQTTAsync_disconnect ::
  "addr option \<Rightarrow> MQTTAsync_disconnectOptions option \<Rightarrow> ('s, 'm) masync_scheme \<Rightarrow> (int \<times> ('s, 'm) masync_scheme) option" where
  "MQTTAsync_disconnect handle options w = MQTTAsync_disconnect1 handle options False w"

definition MQTTProtocol_closeSession_async ::
  "addr \<Rightarrow> int \<Rightarrow> ('s, 'm) masync_scheme \<Rightarrow> ('s, 'm) masync_scheme option" where
  "MQTTProtocol_closeSession_async c sendwill w =
     map_option snd (MQTTAsync_disconnect_internal (async_context c w) 0 w)"

subsection \<open>Closing a session\<close>

definition MQTTAsync_emptyMessageQueue :: "addr \<Rightarrow> ('s, 'm) proto_scheme \<Rightarrow> ('s, 'm) proto_scheme" where
  "MQTTAsync_emptyMessageQueue c w = upd_client c (\<lambda>cl.
     if cnt (messageQueue cl) > 0 then cl\<lparr>messageQueue := cl_empty\<rparr> else cl) w"

fun free_all :: "(addr \<Rightarrow> ('s, 'm) masync_scheme \<Rightarrow> ('s, 'm) masync_scheme option) \<Rightarrow> addr list \<Rightarrow>
    ('s, 'm) masync_scheme \<Rightarrow> ('s, 'm) masync_scheme option" where
  "free_all f [] w = Some w"
| "free_all f (a # as) w = Option.bind (f a w) (free_all f as)"

text \<open>The walk over the queue, which removes the element it is at after it has looked at the next one.\<close>

fun remove_commands :: "addr \<Rightarrow> addr list \<Rightarrow> ('s, 'm) masync_scheme \<Rightarrow> ('s, 'm) masync_scheme option" where
  "remove_commands m [] w = Some w"
| "remove_commands m (a # as) w = do {
     q \<leftarrow> queued w a;
     w1 \<leftarrow> (if q_client q = m
       then MQTTAsync_freeCommand a (w\<lparr>commands := snd (cl_unlink (\<lambda>x. x = a) (commands w))\<rparr>) else Some w);
     remove_commands m as w1
   }"

definition MQTTAsync_removeResponsesAndCommands ::
  "addr \<Rightarrow> ('s, 'm) masync_scheme \<Rightarrow> ('s, 'm) masync_scheme option" where
  "MQTTAsync_removeResponsesAndCommands m w = do {
     h \<leftarrow> get_async m w;
     w1 \<leftarrow> free_all MQTTAsync_freeCommand1 (contents (as_responses h)) w;
     w2 \<leftarrow> free_all free_command (contents (as_responses h)) w1;
     let w3 = upd_async m (\<lambda>h. h\<lparr>as_responses := cl_empty\<rparr>) w2;
     remove_commands m (contents (commands w3)) w3
   }"

definition MQTTAsync_cleanSession ::
  "addr \<Rightarrow> ('s, 'm) masync_scheme \<Rightarrow> (int \<times> ('s, 'm) masync_scheme) option" where
  "MQTTAsync_cleanSession c w = do {
     (rc, w1) \<leftarrow> MQTTPersistence_clear c w;
     client \<leftarrow> get_client c w1;
     (inb, w2) \<leftarrow> MQTTProtocol_emptyMessageList (inboundMsgs client) w1;
     (outb, w3) \<leftarrow> MQTTProtocol_emptyMessageList (outboundMsgs client) w2;
     let w4 = upd_client c (\<lambda>cl. cl\<lparr>inboundMsgs := inb, outboundMsgs := outb\<rparr>) w3;
     let w5 = upd_client c (\<lambda>cl. cl\<lparr>msgID := 0\<rparr>) (MQTTAsync_emptyMessageQueue c w4);
     case find_struct c w5 of
       (None, w6) \<Rightarrow> Some (rc, w6)
     | (Some m, w6) \<Rightarrow> map_option (Pair rc) (MQTTAsync_removeResponsesAndCommands m w6)
   }"

definition MQTTAsync_closeOnly :: "addr \<Rightarrow> ('s, 'm) masync_scheme \<Rightarrow> ('s, 'm) masync_scheme option" where
  "MQTTAsync_closeOnly c w = do {
     let w1 = upd_client c (\<lambda>cl. cl\<lparr>good := 0, ping_outstanding := 0\<rparr>) w;
     client \<leftarrow> get_client c w1;
     w2 \<leftarrow> (if net_socket client > 0 then do {
         (_, w2) \<leftarrow> (if connected client \<noteq> 0 then MQTTPacket_send_disconnect c w1 else Some (0, w1));
         let w3 = Socket_close (net_socket client) w2;
         Some (upd_client c (\<lambda>cl. cl\<lparr>net_socket := 0\<rparr>) w3)
       } else Some w1);
     Some (upd_client c (\<lambda>cl. cl\<lparr>connected := 0, connect_state := 0\<rparr>) w2)
   }"

definition MQTTAsync_closeSession :: "addr \<Rightarrow> ('s, 'm) masync_scheme \<Rightarrow> ('s, 'm) masync_scheme option" where
  "MQTTAsync_closeSession c w = do {
     w1 \<leftarrow> MQTTAsync_closeOnly c w;
     client \<leftarrow> get_client c w1;
     if cleansession client \<noteq> 0 then map_option snd (MQTTAsync_cleanSession c w1) else Some w1
   }"

text \<open>\<open>k\<close> is the disconnect command.\<close>

definition MQTTAsync_checkDisconnect ::
  "('s, 'm) async_env \<Rightarrow> addr \<Rightarrow> MQTTAsync_command \<Rightarrow> ('s, 'm) masync_scheme \<Rightarrow> ('s, 'm) masync_scheme option" where
  "MQTTAsync_checkDisconnect env m k w = do {
     (c, client) \<leftarrow> async_client m w;
     let (ended, w1) = (if cnt (outboundMsgs client) = 0 then (True, w)
           else let (elapsed, w1) = MQTTAsync_elapsed (k_start_time k) w in (elapsed \<ge> dis_timeout (k_details k), w1));
     if ended then do {
       w2 \<leftarrow> MQTTAsync_closeSession c w1;
       h \<leftarrow> get_async m w2;
       if dis_internal (k_details k) \<and> as_cl h \<and> connected client \<noteq> 0 then callback env (ConnectionLost m) w2
       else if \<not> dis_internal (k_details k) then on_success env k NoData w2
       else Some w2
     } else Some w1
   }"

text \<open>
  Giving up on a connection: once more with the next address or version, or the end of the session and
  the failure callback with \<open>d\<close>.
\<close>

definition connect_failed ::
  "('s, 'm) async_env \<Rightarrow> (int \<times> int) option \<Rightarrow> addr \<Rightarrow> ('s, 'm) masync_scheme \<Rightarrow> ('s, 'm) masync_scheme option" where
  "connect_failed env d m w = do {
     (c, client) \<leftarrow> async_client m w;
     h \<leftarrow> get_async m w;
     if MQTTAsync_checkConn (as_connect h) client
     then Option.bind (MQTTAsync_closeOnly c w) (connect_again m)
     else do {
       w1 \<leftarrow> MQTTAsync_closeSession c w;
       h \<leftarrow> get_async m w1;
       w2 \<leftarrow> MQTTAsync_freeConnect (as_connect h) w1;
       on_failure env (as_connect h) d w2
     }
   }"

end
