(* ===== verification/AsyncSend.thy ===== *)
theory AsyncSend
  imports AsyncCommands
begin

text \<open>
  \<^verbatim>\<open>MQTTAsync.c\<close>, the sending thread: picking a command from the queue and sending it, the end of
  partial writes, and the timeouts.
\<close>

subsection \<open>Partial writes\<close>

text \<open>
  The walk over the responses: whether it stopped, and the command it saw last.  What it compares is the
  handle's \<^verbatim>\<open>pending_write\<close> with itself, as all commands in the list are of this handle.
\<close>

fun pending_response ::
  "addr option \<Rightarrow> addr list \<Rightarrow> addr option \<Rightarrow> ('s, 'm) masync_scheme \<Rightarrow> (bool \<times> addr option) option" where
  "pending_response p [] com w = Some (False, com)"
| "pending_response p (a # as) com w = do {
     q \<leftarrow> queued w a;
     h \<leftarrow> get_async (q_client q) w;
     if as_pending_write h = p then Some (True, Some a) else pending_response p as (Some a) w
   }"

text \<open>\<^verbatim>\<open>command\<close> is read only when a response was found; \<^verbatim>\<open>com\<close> is freed in any case.\<close>

definition finish_pending ::
  "('s, 'm) async_env \<Rightarrow> addr \<Rightarrow> addr \<Rightarrow> ('s, 'm) masync_scheme \<Rightarrow> ('s, 'm) masync_scheme option" where
  "finish_pending env m a w = do {
     h \<leftarrow> get_async m w;
     (found, com) \<leftarrow> pending_response (Some a) (contents (as_responses h)) None w;
     w1 \<leftarrow> (if found then do {
         q \<leftarrow> queued w a;
         on_success env (q_command q) (pub_data (q_command q)) w
       } else Some w);
     let w2 = upd_async m (\<lambda>h. h\<lparr>as_pending_write := None\<rparr>) w1;
     b \<leftarrow> com;
     MQTTAsync_freeCommand b (upd_async m (\<lambda>h. h\<lparr>as_responses := snd (cl_unlink (\<lambda>x. x = b) (as_responses h))\<rparr>) w2)
   }"

definition MQTTAsync_writeComplete ::
  "('s, 'm) async_env \<Rightarrow> int \<Rightarrow> ('s, 'm) masync_scheme \<Rightarrow> ('s, 'm) masync_scheme option" where
  "MQTTAsync_writeComplete env socket w = do {
     w1 \<leftarrow> MQTTProtocol_checkPendingWrites w;
     case find_async socket w1 of
       (None, w2) \<Rightarrow> Some w2
     | (Some m, w2) \<Rightarrow> do {
         (c, _) \<leftarrow> async_client m w2;
         let w3 = upd_client c (\<lambda>cl. cl\<lparr>lastSent := sys_time w2\<rparr>) w2;
         h \<leftarrow> get_async m w3;
         case as_pending_write h of None \<Rightarrow> Some w3 | Some a \<Rightarrow> finish_pending env m a w3
       }
   }"

subsection \<open>Picking a command\<close>

definition needs_msgid :: "MQTTAsync_command \<Rightarrow> bool" where
  "needs_msgid k \<longleftrightarrow> k_type k = PUBLISH \<or> k_type k = SUBSCRIBE \<or> k_type k = UNSUBSCRIBE"

definition can_send ::
  "MQTTAsync_command \<Rightarrow> 's Clients \<Rightarrow> ('s, 'm) masync_scheme \<Rightarrow> bool \<times> ('s, 'm) masync_scheme" where
  "can_send k client w = (
     let (ready, w1) = (if k_type k = CONNECT \<or> k_type k = DISCONNECT then (True, w)
           else if connected client \<noteq> 0 \<and> connect_state client = 0
           then Socket_noPendingWrites (net_socket client) w else (False, w))
     in (ready \<and> \<not> (needs_msgid k \<and> cnt (outboundMsgs client) \<ge> MAX_MSG_ID - 1), w1))"

text \<open>The first command that can be sent; a client whose command was skipped has to wait.\<close>

fun select_command ::
  "addr list \<Rightarrow> addr list \<Rightarrow> ('s, 'm) masync_scheme \<Rightarrow> (addr option \<times> ('s, 'm) masync_scheme) option" where
  "select_command [] ignored w = Some (None, w)"
| "select_command (a # as) ignored w = do {
     q \<leftarrow> queued w a;
     if q_client q \<in> set ignored then select_command as ignored w
     else do {
       (_, client) \<leftarrow> async_client (q_client q) w;
       let (ready, w1) = can_send (q_command q) client w;
       if ready then Some (Some a, w1) else select_command as (q_client q # ignored) w1
     }
   }"

subsection \<open>Sending it\<close>

text \<open>The next server address and version; an index outside the array is undefined.\<close>

definition connect_address ::
  "command_details \<Rightarrow> int \<Rightarrow> string \<Rightarrow> ('s, 'm) masync_scheme \<Rightarrow> (command_details \<times> string) option" where
  "connect_address d version uri w = (
     if serverURIcount d > 0 then
       let (i, v) = (if version = MQTTVERSION_DEFAULT
                     then if conn_version d = 3 then (currentURI d + 1, 4) else (currentURI d, conn_version d)
                     else (currentURI d + 1, conn_version d))
       in do {
         u \<leftarrow> serverURIs d;
         uris \<leftarrow> uri_arrays w u;
         if 0 \<le> i \<and> nat i < length uris
         then Some (ConnDetails (conn_timeout d) (serverURIcount d) (Some u) i v, skip_scheme (uris ! nat i))
         else None
       }
     else Some (d, uri))"

definition next_version :: "command_details \<Rightarrow> int \<Rightarrow> command_details" where
  "next_version d version =
     ConnDetails (conn_timeout d) (serverURIcount d) (serverURIs d) (currentURI d)
       (if version = MQTTVERSION_DEFAULT
        then if conn_version d = 0 then MQTTVERSION_3_1_1
             else if conn_version d = MQTTVERSION_3_1_1 then MQTTVERSION_3_1 else conn_version d
        else version)"

definition send_connect_command ::
  "addr \<Rightarrow> ('s, 'm) masync_scheme \<Rightarrow> (int \<times> ('s, 'm) masync_scheme) option" where
  "send_connect_command a w = do {
     q \<leftarrow> queued w a;
     h \<leftarrow> get_async (q_client q) w;
     (c, client) \<leftarrow> async_client (q_client q) w;
     if connect_state client \<noteq> 0 \<or> connected client \<noteq> 0 then Some (0, w)
     else do {
       (d, uri) \<leftarrow> connect_address (k_details (q_command q)) (MQTTVersion client) (as_serverURI h) w;
       let d = next_version d (MQTTVersion client);
       w1 \<leftarrow> upd_command a (\<lambda>q. q\<lparr>q_command := (q_command q)\<lparr>k_details := d\<rparr>\<rparr>) w;
       (rc, w2) \<leftarrow> MQTTProtocol_connect uri c (conn_version d) w1;
       client \<leftarrow> get_client c w2;
       let rc = (if connect_state client = 0 then SOCKET_ERROR else rc);
       Some (rc, if rc = EINPROGRESS then Socket_addPendingWrite (net_socket client) w2 else w2)
     }
   }"

text \<open>
  A publication.  For QoS 0 the outcome is known at once, unless the packet was not written completely;
  \<^verbatim>\<open>pending_write\<close> is set for every other outcome, also when the write failed.
\<close>

definition send_publish_command ::
  "('s, 'm) async_env \<Rightarrow> addr \<Rightarrow> ('s, 'm) masync_scheme \<Rightarrow> (int \<times> ('s, 'm) masync_scheme) option" where
  "send_publish_command env a w = do {
     q \<leftarrow> queued w a;
     (c, _) \<leftarrow> async_client (q_client q) w;
     case k_details (q_command q) of
       PubDetails dest n pl qos retained \<Rightarrow> do {
         let p = \<lparr>p_header = byte_of (junk_int w), topic = dest, topiclen = junk_int w, msgId = k_token (q_command q),
                  payload = pl, payloadlen = n, topic_heap = True\<rparr>;
         ((rc, _), w1) \<leftarrow> MQTTProtocol_startPublish c p qos retained None w;
         let taken = upd_command a (\<lambda>q. q\<lparr>q_command := (q_command q)\<lparr>k_details := no_destination (k_details (q_command q))\<rparr>\<rparr>) w1;
         if qos = 0 then
           if rc = TCPSOCKET_COMPLETE then map_option (Pair rc) (on_success env (q_command q) (pub_data (q_command q)) w1)
           else map_option (\<lambda>w2. (rc, upd_async (q_client q) (\<lambda>h. h\<lparr>as_pending_write := Some a\<rparr>) w2)) taken
         else map_option (Pair rc) taken
       }
     | _ \<Rightarrow> None
   }"

definition send_disconnect_command ::
  "('s, 'm) async_env \<Rightarrow> addr \<Rightarrow> ('s, 'm) masync_scheme \<Rightarrow> (int \<times> ('s, 'm) masync_scheme) option" where
  "send_disconnect_command env a w = do {
     q \<leftarrow> queued w a;
     (c, client) \<leftarrow> async_client (q_client q) w;
     w1 \<leftarrow> (if connect_state client \<noteq> 0 \<or> connected client \<noteq> 0
       then MQTTAsync_checkDisconnect env (q_client q) (q_command q)
              (upd_client c (\<lambda>cl. cl\<lparr>connect_state := -2\<rparr>) w)
       else Some w);
     Some (0, w1)
   }"

definition send_command ::
  "('s, 'm) async_env \<Rightarrow> addr \<Rightarrow> ('s, 'm) masync_scheme \<Rightarrow> (int \<times> ('s, 'm) masync_scheme) option" where
  "send_command env a w = do {
     q \<leftarrow> queued w a;
     (c, _) \<leftarrow> async_client (q_client q) w;
     if k_type (q_command q) = CONNECT then send_connect_command a w
     else if k_type (q_command q) = SUBSCRIBE then
       (case k_details (q_command q) of
          SubDetails ts qs \<Rightarrow> MQTTProtocol_subscribe c (list_of (\<lambda>t. int (strlen t)) ts) (list_of (\<lambda>_. 4) qs)
            (k_token (q_command q)) w
        | _ \<Rightarrow> None)
     else if k_type (q_command q) = UNSUBSCRIBE then
       (case k_details (q_command q) of
          UnsubDetails ts \<Rightarrow> MQTTProtocol_unsubscribe c (list_of (\<lambda>t. int (strlen t)) ts) (k_token (q_command q)) w
        | _ \<Rightarrow> None)
     else if k_type (q_command q) = PUBLISH then send_publish_command env a w
     else if k_type (q_command q) = DISCONNECT then send_disconnect_command env a w
     else Some (0, w)
   }"

subsection \<open>What becomes of it\<close>

text \<open>A connect that failed, or a command that ended the connection.\<close>

definition command_failed ::
  "('s, 'm) async_env \<Rightarrow> addr \<Rightarrow> ('s, 'm) masync_scheme \<Rightarrow> ('s, 'm) masync_scheme option" where
  "command_failed env a w = do {
     q \<leftarrow> queued w a;
     let m = q_client q;
     let k = q_command q;
     (_, w1) \<leftarrow> (if k_type k = CONNECT
       then MQTTAsync_disconnect (Some m) (Some \<lparr>do_timeout = 0, do_onSuccess = 0, do_onFailure = 0\<rparr>) w
       else MQTTAsync_disconnect_internal (Some m) 0 w);
     (_, client) \<leftarrow> async_client m w1;
     if k_type k = CONNECT \<and> MQTTAsync_checkConn k client then map_option snd (MQTTAsync_addCommand a 24 w1)
     else do {
       w2 \<leftarrow> on_failure env k None w1;
       w3 \<leftarrow> MQTTAsync_freeConnect k w2;
       MQTTAsync_freeCommand a w3
     }
   }"

definition append_response :: "addr \<Rightarrow> addr \<Rightarrow> ('s, 'm) masync_scheme \<Rightarrow> ('s, 'm) masync_scheme" where
  "append_response m a w = upd_async m (\<lambda>h. h\<lparr>as_responses := cl_add (as_responses h) a 8\<rparr>) w"

definition settle_command ::
  "('s, 'm) async_env \<Rightarrow> addr \<Rightarrow> int \<Rightarrow> ('s, 'm) masync_scheme \<Rightarrow> ('s, 'm) masync_scheme option" where
  "settle_command env a rc w = do {
     q \<leftarrow> queued w a;
     let m = q_client q;
     let k = q_command q;
     let failed = (rc = SOCKET_ERROR \<or> rc = MQTTASYNC_PERSISTENCE_ERROR);
     if k_type k = CONNECT \<and> \<not> failed then MQTTAsync_freeCommand a (upd_async m (\<lambda>h. h\<lparr>as_connect := k\<rparr>) w)
     else if k_type k = DISCONNECT then MQTTAsync_freeCommand a (upd_async m (\<lambda>h. h\<lparr>as_disconnect := k\<rparr>) w)
     else if k_type k = PUBLISH \<and> pub_qos (k_details k) = 0 then
       if rc = TCPSOCKET_INTERRUPTED then Some (append_response m a w) else MQTTAsync_freeCommand a w
     else if failed then command_failed env a w
     else Some (append_response m a w)
   }"

definition MQTTAsync_processCommand ::
  "('s, 'm) async_env \<Rightarrow> ('s, 'm) masync_scheme \<Rightarrow> ('s, 'm) masync_scheme option" where
  "MQTTAsync_processCommand env w0 = do {
     let w = (MQTTAsync_lock_mutex w0)\<lparr>command_mutex := True\<rparr>;
     (found, w1) \<leftarrow> select_command (contents (commands w)) [] w;
     case found of
       None \<Rightarrow> Some (MQTTAsync_unlock_mutex (w1\<lparr>command_mutex := False\<rparr>))
     | Some a \<Rightarrow> do {
         let w2 = w1\<lparr>commands := snd (cl_unlink (\<lambda>x. x = a) (commands w1))\<rparr>;
         q \<leftarrow> queued w2 a;
         (_, client) \<leftarrow> async_client (q_client q) w2;
         w3 \<leftarrow> (if persistence client = None then Some w2 else map_option snd (MQTTAsync_unpersistCommand q w2));
         (rc, w4) \<leftarrow> send_command env a (w3\<lparr>command_mutex := False\<rparr>);
         w5 \<leftarrow> settle_command env a rc w4;
         Some (MQTTAsync_unlock_mutex w5)
       }
   }"

subsection \<open>Timeouts\<close>

text \<open>
  A client that is connecting, or disconnecting: the state -2 is not 0 either, and then the time since
  the connect command counts.  Responses never time out.
\<close>

definition check_client ::
  "('s, 'm) async_env \<Rightarrow> addr \<Rightarrow> ('s, 'm) masync_scheme \<Rightarrow> ('s, 'm) masync_scheme option" where
  "check_client env m w = do {
     (c, client) \<leftarrow> async_client m w;
     h \<leftarrow> get_async m w;
     let (late, w1) = (if connect_state client \<noteq> 0
           then let (elapsed, w1) = MQTTAsync_elapsed (k_start_time (as_connect h)) w
                in (elapsed > conn_timeout (k_details (as_connect h)) * 1000, w1)
           else (False, w));
     if late then connect_failed env None m w1
     else do {
       w2 \<leftarrow> (if connect_state client = -2 then MQTTAsync_checkDisconnect env m (as_disconnect h) w1 else Some w1);
       h \<leftarrow> get_async m w2;
       case contents (as_responses h) of [] \<Rightarrow> Some w2 | a # _ \<Rightarrow> map_option (\<lambda>_. w2) (queued w2 a)
     }
   }"

partial_function (option) timeouts_loop ::
  "('s, 'm) async_env \<Rightarrow> addr option \<Rightarrow> ('s, 'm) masync_scheme \<Rightarrow> ('s, 'm) masync_scheme option" where
  "timeouts_loop env node w = (case node of
     None \<Rightarrow> Some w
   | Some m \<Rightarrow> Option.bind (check_client env m w) (\<lambda>w1. timeouts_loop env (cl_next (async_handles w1) (Some m)) w1))"

declare timeouts_loop.simps [code]

definition MQTTAsync_checkTimeouts ::
  "('s, 'm) async_env \<Rightarrow> ('s, 'm) masync_scheme \<Rightarrow> ('s, 'm) masync_scheme option" where
  "MQTTAsync_checkTimeouts env w = (
     let now = sys_time w
     in if now - timeouts_last w < 3 then Some w
        else do {
          let w1 = (MQTTAsync_lock_mutex w)\<lparr>timeouts_last := now\<rparr>;
          w2 \<leftarrow> timeouts_loop env (hd_addr (items (async_handles w1))) w1;
          Some (MQTTAsync_unlock_mutex w2)
        })"

subsection \<open>The thread\<close>

text \<open>Until a round leaves the number of commands as it was.\<close>

partial_function (option) drain_commands ::
  "('s, 'm) async_env \<Rightarrow> ('s, 'm) masync_scheme \<Rightarrow> ('s, 'm) masync_scheme option" where
  "drain_commands env w =
     (if cnt (commands w) > 0 then
        Option.bind (MQTTAsync_processCommand env w) (\<lambda>w1.
          if cnt (commands w1) = cnt (commands w) then Some w1 else drain_commands env w1)
      else Some w)"

declare drain_commands.simps [code]

text \<open>Waiting for the condition variable is \<open>Asleep\<close>; it is waited for twice.\<close>

partial_function (option) send_loop ::
  "('s, 'm) async_env \<Rightarrow> ('s, 'm) masync_scheme \<Rightarrow> ('s, 'm) masync_scheme option" where
  "send_loop env w =
     (if async_tostop w then Some w
      else Option.bind (drain_commands env w) (\<lambda>w1. Option.bind (env Asleep w1) (\<lambda>w2.
        Option.bind (env Asleep w2) (\<lambda>w3. Option.bind (MQTTAsync_checkTimeouts env w3) (send_loop env)))))"

declare send_loop.simps [code]

definition MQTTAsync_sendThread ::
  "('s, 'm) async_env \<Rightarrow> ('s, 'm) masync_scheme \<Rightarrow> ('s, 'm) masync_scheme option" where
  "MQTTAsync_sendThread env w = do {
     w1 \<leftarrow> send_loop env (w\<lparr>sendThread_state := RUNNING, sendThread_id := Thread_getid w, async_mutex := False\<rparr>);
     Some (w1\<lparr>sendThread_state := STOPPED, sendThread_id := 0, async_mutex := False\<rparr>)
   }"

end
