(* ===== verification/AsyncReceive.thy ===== *)
theory AsyncReceive
  imports AsyncSend
begin

text \<open>
  \<^verbatim>\<open>MQTTAsync.c\<close>, the receiving thread: messages for the application, one cycle that reads and handles a
  packet, and what the thread does with the answers to commands.
\<close>

subsection \<open>Messages\<close>

definition MQTTAsync_deliverMessage ::
  "('s, 'm) async_env \<Rightarrow> addr \<Rightarrow> byte list \<Rightarrow> int \<Rightarrow> MQTTPersistence_message \<Rightarrow> ('s, 'm) masync_scheme \<Rightarrow>
     (int \<times> ('s, 'm) masync_scheme) option" where
  "MQTTAsync_deliverMessage env m topicName topicLen mm w = (
     let (rc, w1) = (case async_arrived w of [] \<Rightarrow> (1, w) | r # rs \<Rightarrow> (r, w\<lparr>async_arrived := rs\<rparr>))
     in map_option (Pair rc) (callback env (MessageArrived m topicName topicLen mm) w1))"

definition Protocol_processPublication_async ::
  "('s, 'm) async_env \<Rightarrow> Publish \<Rightarrow> addr \<Rightarrow> ('s, 'm) masync_scheme \<Rightarrow> ('s, 'm) masync_scheme option" where
  "Protocol_processPublication_async env publish c w = do {
     t \<leftarrow> topic publish;
     pl \<leftarrow> (if header_qos (p_header publish) = 2 then Some (payload publish)
            else if payloadlen publish < 0 then None
            else rd_bytes (payload publish) 0 (nat (payloadlen publish)));
     let mm = queued_message publish pl;
     client \<leftarrow> get_client c w;
     (rc, w1) \<leftarrow> (if cnt (messageQueue client) = 0 \<and> connected client \<noteq> 0 then
         (case find_struct c w of
            (None, w1) \<Rightarrow> Some (0, w1)
          | (Some m, w1) \<Rightarrow> do {
              h \<leftarrow> get_async m w1;
              if as_ma h then MQTTAsync_deliverMessage env m t (topiclen publish) mm w1 else Some (0, w1)
            })
       else Some (0, w));
     if rc \<noteq> 0 then Some w1
     else do {
       client \<leftarrow> get_client c w1;
       let qe = \<lparr>qe_msg = mm, qe_topicName = t, qe_topicLen = topiclen publish, qe_seqno = junk_int w1\<rparr>;
       let a = cl_fresh (messageQueue client);
       let w2 = upd_client c (\<lambda>cl. cl\<lparr>messageQueue :=
             cl_append (messageQueue cl) a qe (16 + payloadlen publish + int (strlen t) + 1)\<rparr>) w1;
       if persistence client = None then Some w2
       else do {
         ((rc, qe1), w3) \<leftarrow> MQTTPersistence_persistQueueEntry c qe w2;
         Some (upd_client c (\<lambda>cl. cl\<lparr>messageQueue := cl_update a (\<lambda>_. qe1) (messageQueue cl)\<rparr>) w3)
       }
     }
   }"

text \<open>
  The oldest message of the queue.  Removing it from the list frees the entry, whose sequence number is
  read afterwards to remove its record.
\<close>

definition deliver_queued ::
  "('s, 'm) async_env \<Rightarrow> addr \<Rightarrow> ('s, 'm) masync_scheme \<Rightarrow> ('s, 'm) masync_scheme option" where
  "deliver_queued env m w = do {
     (c, client) \<leftarrow> async_client m w;
     h \<leftarrow> get_async m w;
     if cnt (messageQueue client) > 0 then do {
       a \<leftarrow> hd_addr (items (messageQueue client));
       qe \<leftarrow> map_of (items (messageQueue client)) a;
       let len = (if qe_topicLen qe \<ge> 0 \<and> int (strlen (qe_topicName qe)) = qe_topicLen qe then 0 else qe_topicLen qe);
       (rc, w1) \<leftarrow> (if as_ma h then MQTTAsync_deliverMessage env m (qe_topicName qe) len (qe_msg qe) w else Some (1, w));
       if rc = 0 then Some w1
       else do {
         client \<leftarrow> get_client c w1;
         if persistence client = None
         then Some (upd_client c (\<lambda>cl. cl\<lparr>messageQueue := snd (cl_remove_at a (messageQueue cl))\<rparr>) w1)
         else None
       }
     } else Some w
   }"

subsection \<open>Retries\<close>

definition MQTTAsync_retry :: "('s, 'm) masync_scheme \<Rightarrow> ('s, 'm) masync_scheme option" where
  "MQTTAsync_retry w = (
     let now = sys_time w
     in if now - retry_last w > 5 then do {
          w1 \<leftarrow> MQTTProtocol_keepalive MQTTProtocol_closeSession_async now (w\<lparr>retry_last := sys_time w\<rparr>);
          MQTTProtocol_retry MQTTProtocol_closeSession_async now True False w1
        } else MQTTProtocol_retry MQTTProtocol_closeSession_async now False False w)"

subsection \<open>Connecting\<close>

definition MQTTAsync_completeConnection ::
  "addr \<Rightarrow> Connack \<Rightarrow> ('s, 'm) masync_scheme \<Rightarrow> (int \<times> ('s, 'm) masync_scheme) option" where
  "MQTTAsync_completeConnection m connack w = do {
     (c, client) \<leftarrow> async_client m w;
     if connect_state client \<noteq> 3 then Some (MQTTASYNC_FAILURE, w)
     else if c_rc connack \<noteq> MQTTASYNC_SUCCESS then Some (c_rc connack, w)
     else do {
       let w1 = upd_client c (\<lambda>cl. cl\<lparr>connected := 1, good := 1, connect_state := 0\<rparr>) w;
       (rc, w2) \<leftarrow> (if cleansession client \<noteq> 0 then MQTTAsync_cleanSession c w1 else Some (MQTTASYNC_SUCCESS, w1));
       client \<leftarrow> get_client c w2;
       if cnt (outboundMsgs client) > 0 then do {
         let w3 = upd_client c (\<lambda>cl. cl\<lparr>outboundMsgs := (outboundMsgs cl)\<lparr>items :=
               map (map_prod id (\<lambda>m. m\<lparr>m_lastTouch := 0\<rparr>)) (items (outboundMsgs cl))\<rparr>\<rparr>) w2;
         w4 \<leftarrow> MQTTProtocol_retry MQTTProtocol_closeSession_async 0 True True w3;
         client \<leftarrow> get_client c w4;
         Some (if connected client \<noteq> 1 then MQTTASYNC_DISCONNECTED else rc, w4)
       } else Some (rc, w2)
     }
   }"

text \<open>The result of the TCP connect, and CONNECT sent.\<close>

definition MQTTAsync_connecting ::
  "('s, 'm) async_env \<Rightarrow> addr \<Rightarrow> ('s, 'm) masync_scheme \<Rightarrow> (int \<times> ('s, 'm) masync_scheme) option" where
  "MQTTAsync_connecting env m w = do {
     (c, client) \<leftarrow> async_client m w;
     h \<leftarrow> get_async m w;
     (rc, w1) \<leftarrow> (if connect_state client = 1 then do {
         let ((r, err), w1) = async_sys_sockopt w;
         let rc = (if r = 0 then err else r);
         if rc \<noteq> 0 then Some (rc, w1)
         else MQTTPacket_send_connect c (conn_version (k_details (as_connect h)))
                (upd_client c (\<lambda>cl. cl\<lparr>connect_state := 3\<rparr>) (Socket_clearPendingWrite (net_socket client) w1))
       } else Some (-1, w));
     client \<leftarrow> get_client c w1;
     w2 \<leftarrow> (if rc \<noteq> 0 \<and> rc \<noteq> TCPSOCKET_INTERRUPTED \<and> connect_state client \<noteq> 2
       then connect_failed env None m w1 else Some w1);
     Some (rc, w2)
   }"

subsection \<open>One cycle\<close>

text \<open>The command with the message id is taken off the list and its callback called.\<close>

fun find_response :: "int \<Rightarrow> addr list \<Rightarrow> ('s, 'm) masync_scheme \<Rightarrow> addr option option" where
  "find_response msgid [] w = Some None"
| "find_response msgid (a # as) w = do {
     q \<leftarrow> queued w a;
     if k_token (q_command q) = msgid then Some (Some a) else find_response msgid as w
   }"

definition detach_response :: "addr \<Rightarrow> addr \<Rightarrow> ('s, 'm) masync_scheme \<Rightarrow> ('s, 'm) masync_scheme" where
  "detach_response m a w = upd_async m (\<lambda>h. h\<lparr>as_responses := snd (cl_unlink (\<lambda>x. x = a) (as_responses h))\<rparr>) w"

definition answered ::
  "addr \<Rightarrow> int \<Rightarrow> (MQTTAsync_command \<Rightarrow> ('s, 'm) masync_scheme \<Rightarrow> ('s, 'm) masync_scheme option) \<Rightarrow>
     ('s, 'm) masync_scheme \<Rightarrow> ('s, 'm) masync_scheme option" where
  "answered m msgid f w = do {
     h \<leftarrow> get_async m w;
     found \<leftarrow> find_response msgid (contents (as_responses h)) w;
     case found of
       None \<Rightarrow> Some w
     | Some a \<Rightarrow> do {
         q \<leftarrow> queued w a;
         w1 \<leftarrow> f (q_command q) (detach_response m a w);
         MQTTAsync_freeCommand a w1
       }
   }"

text \<open>The completion code and whether the handler freed the packet.\<close>

definition handle_async_packet ::
  "('s, 'm) async_env \<Rightarrow> packet \<Rightarrow> int \<Rightarrow> addr \<Rightarrow> int \<Rightarrow> ('s, 'm) masync_scheme \<Rightarrow>
     ((int \<times> bool) \<times> ('s, 'm) masync_scheme) option" where
  "handle_async_packet env pack sock m rc w = (case pack of
     PkPublish publish \<Rightarrow>
       if packet_type pack = PUBLISH
       then map_option (\<lambda>(rc, w1). ((rc, True), w1))
              (MQTTProtocol_handlePublishes (Protocol_processPublication_async env) publish sock w)
       else Some ((rc, False), w)
   | PkAck ack \<Rightarrow>
       if packet_type pack = PUBACK \<or> packet_type pack = PUBCOMP then do {
         (rc, w1) \<leftarrow> (if packet_type pack = PUBCOMP then MQTTProtocol_handlePubcomps ack sock w
                      else MQTTProtocol_handlePubacks ack sock w);
         h \<leftarrow> get_async m w1;
         w2 \<leftarrow> (if as_dc h then callback env (DeliveryComplete m (a_msgId ack)) w1 else Some w1);
         w3 \<leftarrow> answered m (a_msgId ack) (\<lambda>k. on_success env k (pub_data k)) w2;
         Some ((rc, True), w3)
       }
       else if packet_type pack = PUBREC
       then map_option (\<lambda>(rc, w1). ((rc, True), w1)) (MQTTProtocol_handlePubrecs ack sock w)
       else if packet_type pack = PUBREL
       then map_option (\<lambda>(rc, w1). ((rc, True), w1))
              (MQTTProtocol_handlePubrels (Protocol_processPublication_async env) ack sock w)
       else Some ((rc, False), w)
   | PkHeader h \<Rightarrow>
       if packet_type pack = PINGRESP
       then map_option (\<lambda>(rc, w1). ((rc, True), w1)) (MQTTProtocol_handlePingresps sock w)
       else Some ((rc, False), w)
   | _ \<Rightarrow> Some ((rc, False), w))"

text \<open>A packet, or a step of connecting, for the handle \<open>m\<close> of the socket.\<close>

definition cycle_read ::
  "('s, 'm) async_env \<Rightarrow> addr \<Rightarrow> int \<Rightarrow> ('s, 'm) masync_scheme \<Rightarrow>
     ((int \<times> packet option) \<times> ('s, 'm) masync_scheme) option" where
  "cycle_read env m rc w = do {
     (c, client) \<leftarrow> async_client m w;
     ((rc, pack), w1) \<leftarrow> (if connect_state client = 1 \<or> connect_state client = 2
       then map_option (\<lambda>(rc, w1). ((rc, None), w1)) (MQTTAsync_connecting env m w)
       else MQTTPacket_Factory c w);
     client \<leftarrow> get_client c w1;
     w2 \<leftarrow> (if connect_state client = 3 \<and> rc = SOCKET_ERROR then connect_failed env None m w1 else Some w1);
     Some ((rc, pack), w2)
   }"

text \<open>The result: \<^verbatim>\<open>*sock\<close>, \<^verbatim>\<open>*rc\<close> (which keeps its value when nothing sets it) and the packet.\<close>

definition MQTTAsync_cycle ::
  "('s, 'm) async_env \<Rightarrow> int \<Rightarrow> int \<Rightarrow> ('s, 'm) masync_scheme \<Rightarrow>
     ((int \<times> int \<times> packet option) \<times> ('s, 'm) masync_scheme) option" where
  "MQTTAsync_cycle env timeout rc w = do {
     (sock, w0) \<leftarrow> Socket_getReadySocket (MQTTAsync_writeComplete env) w;
     w1 \<leftarrow> (if \<not> async_tostop w0 \<and> sock = 0 \<and> timeout > 0 then env Asleep w0 else Some w0);
     let w2 = MQTTAsync_lock_mutex w1;
     (rc, pack, w5) \<leftarrow> (if sock > 0 then
         (case find_async sock w2 of
            (None, w3) \<Rightarrow> Some (rc, None, w3)
          | (Some m, w3) \<Rightarrow> do {
              ((rc, pack), w4) \<leftarrow> cycle_read env m rc w3;
              case pack of
                None \<Rightarrow> Some (rc, None, w4)
              | Some p \<Rightarrow> do {
                  ((rc, freed), w5) \<leftarrow> handle_async_packet env p sock m rc w4;
                  Some (rc, if freed then None else Some p, w5)
                }
            })
       else Some (rc, None, w2));
     w6 \<leftarrow> MQTTAsync_retry w5;
     Some ((sock, rc, pack), MQTTAsync_unlock_mutex w6)
   }"

subsection \<open>Answers to commands\<close>

text \<open>
  A connection that was accepted.  The array of addresses is freed before the address in it is
  given to the application.
\<close>

definition connect_succeeded ::
  "('s, 'm) async_env \<Rightarrow> addr \<Rightarrow> int \<Rightarrow> ('s, 'm) masync_scheme \<Rightarrow> ('s, 'm) masync_scheme option" where
  "connect_succeeded env m sp w = do {
     h \<leftarrow> get_async m w;
     let k = as_connect h;
     w1 \<leftarrow> MQTTAsync_freeConnect k w;
     if k_onSuccess k = 0 then Some w1
     else do {
       uri \<leftarrow> (if serverURIcount (k_details k) > 0 then do {
           u \<leftarrow> serverURIs (k_details k);
           uris \<leftarrow> uri_arrays w1 u;
           if 0 \<le> currentURI (k_details k) \<and> nat (currentURI (k_details k)) < length uris
           then Some (uris ! nat (currentURI (k_details k))) else None
         } else Some (as_serverURI h));
       on_success env k (ConnData uri (conn_version (k_details k)) sp) w1
     }
   }"

definition suback_data :: "MQTTAsync_command \<Rightarrow> int list \<Rightarrow> success_data" where
  "suback_data k qs = SubData (k_token k) qs"

definition subscribed ::
  "('s, 'm) async_env \<Rightarrow> int list \<Rightarrow> MQTTAsync_command \<Rightarrow> ('s, 'm) masync_scheme \<Rightarrow> ('s, 'm) masync_scheme option" where
  "subscribed env qs k w =
     (if qs = [MQTT_BAD_SUBSCRIBE] then on_failure env k (Some (k_token k, MQTT_BAD_SUBSCRIBE)) w
      else on_success env k (suback_data k qs) w)"

text \<open>The packets the cycle leaves to the thread.  UNSUBACK is handled before the callback when there is one.\<close>

definition receive_packet ::
  "('s, 'm) async_env \<Rightarrow> addr \<Rightarrow> packet \<Rightarrow> ('s, 'm) masync_scheme \<Rightarrow> ('s, 'm) masync_scheme option" where
  "receive_packet env m pack w = (case pack of
     PkConnack connack \<Rightarrow>
       if packet_type pack = CONNACK then do {
         (rc, w1) \<leftarrow> MQTTAsync_completeConnection m connack w;
         if rc = MQTTASYNC_SUCCESS then connect_succeeded env m (sessionPresent connack) w1
         else connect_failed env (Some (0, rc)) m w1
       } else Some w
   | PkSuback sub \<Rightarrow>
       if packet_type pack = SUBACK then do {
         w1 \<leftarrow> answered m (s_msgId sub) (subscribed env (contents (qoss sub))) w;
         (_, client) \<leftarrow> async_client m w1;
         map_option snd (MQTTProtocol_handleSubacks sub (net_socket client) w1)
       } else Some w
   | PkAck unsub \<Rightarrow>
       if packet_type pack = UNSUBACK then do {
         let handled = (\<lambda>w. do {
             (_, client) \<leftarrow> async_client m w;
             map_option snd (MQTTProtocol_handleUnsubacks unsub (net_socket client) w)
           });
         h \<leftarrow> get_async m w;
         found \<leftarrow> find_response (a_msgId unsub) (contents (as_responses h)) w;
         let called = (case Option.bind found (queued w) of None \<Rightarrow> False | Some q \<Rightarrow> k_onSuccess (q_command q) \<noteq> 0);
         w1 \<leftarrow> answered m (a_msgId unsub)
           (\<lambda>k w. if k_onSuccess k \<noteq> 0 then Option.bind (handled w) (on_success env k NoData) else Some w) w;
         if called then Some w1 else handled w1
       } else Some w
   | _ \<Rightarrow> Some w)"

definition receive_body ::
  "('s, 'm) async_env \<Rightarrow> int \<Rightarrow> int \<Rightarrow> packet option \<Rightarrow> ('s, 'm) masync_scheme \<Rightarrow> ('s, 'm) masync_scheme option" where
  "receive_body env sock rc pack w = (
     if sock = 0 then Some w
     else case find_async sock w of
       (None, w1) \<Rightarrow> Some w1
     | (Some m, w1) \<Rightarrow> do {
         (c, client) \<leftarrow> async_client m w1;
         if rc = SOCKET_ERROR then
           (if connected client = 1
            then map_option (\<lambda>r. MQTTAsync_lock_mutex (snd r))
                   (MQTTAsync_disconnect_internal (Some m) 0 (MQTTAsync_unlock_mutex w1))
            else MQTTAsync_closeOnly c w1)
         else do {
           w2 \<leftarrow> deliver_queued env m w1;
           case pack of None \<Rightarrow> Some w2 | Some p \<Rightarrow> receive_packet env m p w2
         }
       })"

partial_function (option) receive_rounds ::
  "('s, 'm) async_env \<Rightarrow> int \<Rightarrow> ('s, 'm) masync_scheme \<Rightarrow> ('s, 'm) masync_scheme option" where
  "receive_rounds env timeout w =
     (if async_tostop w then Some w
      else Option.bind (MQTTAsync_cycle env timeout SOCKET_ERROR (MQTTAsync_unlock_mutex w)) (\<lambda>((sock, rc, pack), w1).
        let w2 = MQTTAsync_lock_mutex w1
        in if async_tostop w2 then Some w2
           else Option.bind (receive_body env sock rc pack w2) (receive_rounds env 1000)))"

declare receive_rounds.simps [code]

definition MQTTAsync_receiveThread ::
  "('s, 'm) async_env \<Rightarrow> ('s, 'm) masync_scheme \<Rightarrow> ('s, 'm) masync_scheme option" where
  "MQTTAsync_receiveThread env w = do {
     w1 \<leftarrow> receive_rounds env 10 (w\<lparr>async_mutex := True, receiveThread_state := RUNNING,
             receiveThread_id := Thread_getid w\<rparr>);
     Some (w1\<lparr>receiveThread_state := STOPPED, receiveThread_id := 0, async_mutex := False\<rparr>)
   }"

end
