(* ===== verification/AsyncApi.thy ===== *)
theory AsyncApi
  imports AsyncReceive
begin

text \<open>
  The functions of \<^verbatim>\<open>MQTTAsync.c\<close> that the application calls.  A handle is the address of its element,
  NULL is \<open>None\<close>.  Starting up and shutting down the log and the allocator is left out.
\<close>

subsection \<open>Creating and destroying\<close>

definition async_initialize :: "('s, 'm) masync_scheme \<Rightarrow> ('s, 'm) masync_scheme" where
  "async_initialize w = (if async_initialized w then w
     else (Socket_outInitialize (w\<lparr>clients := cl_empty\<rparr>))
       \<lparr>async_handles := cl_empty, commands := cl_empty, async_initialized := True\<rparr>)"

definition new_async :: "string \<Rightarrow> addr \<Rightarrow> MQTTAsyncs" where
  "new_async uri c = \<lparr>as_serverURI = uri, as_c = c, as_cl = False, as_ma = False, as_dc = False,
     as_connect = zero_command, as_disconnect = zero_command, as_pending_write = None,
     as_responses = cl_empty, as_command_seqno = 0\<rparr>"

text \<open>
  The client joins \<^verbatim>\<open>bstate->clients\<close> at the end of the function; here it does so before the store is
  opened, which does not look at the list.  The results of restoring commands and messages are dropped.
\<close>

definition MQTTAsync_create ::
  "filesys \<Rightarrow> string option \<Rightarrow> byte list option \<Rightarrow> pst pers_type \<Rightarrow> string option \<Rightarrow> (pst, 'm) masync_scheme \<Rightarrow>
     ((int \<times> addr option) \<times> (pst, 'm) masync_scheme) option" where
  "MQTTAsync_create fs serverURI clientId ptype pcontext w0 = do {
     let w = MQTTAsync_lock_mutex w0;
     ((rc, handle), w1) \<leftarrow> (case (serverURI, clientId) of
         (Some uri, Some cid) \<Rightarrow> do {
           valid \<leftarrow> UTF8_validateString cid;
           if valid = 0 then Some ((MQTTASYNC_BAD_UTF8_STRING, None), w)
           else do {
             let w1 = async_initialize w;
             let m = cl_fresh (async_handles w1);
             let c = cl_fresh (clients w1);
             cid' \<leftarrow> MQTTStrdup cid;
             let (rc, per) = MQTTPersistence_create fs ptype pcontext;
             let client = zero_client\<lparr>clientID := cid', persistence := per\<rparr>;
             let w2 = w1\<lparr>async_handles := cl_append (async_handles w1) m (new_async (skip_scheme uri) c) 272,
                         clients := cl_append (clients w1) c client 0\<rparr>;
             (rc, w3) \<leftarrow> (if rc \<noteq> 0 then Some (rc, w2)
               else do {
                 (rc, w3) \<leftarrow> MQTTPersistence_initialize c (skip_scheme uri) w2;
                 if rc = 0
                 then do {
                   (_, w4) \<leftarrow> MQTTAsync_restoreCommands m w3;
                   (_, w5) \<leftarrow> MQTTPersistence_restoreMessageQueue c w4;
                   Some (rc, w5)
                 }
                 else Some (rc, w3)
               });
             Some ((rc, Some m), w3)
           }
         }
       | _ \<Rightarrow> Some ((MQTTASYNC_NULL_PARAMETER, None), w));
     Some ((rc, handle), MQTTAsync_unlock_mutex w1)
   }"

definition async_active :: "('s, 'm) masync_scheme \<Rightarrow> MQTTAsyncs \<Rightarrow> bool" where
  "async_active w m \<longleftrightarrow> (case get_client (as_c m) w of None \<Rightarrow> False
     | Some client \<Rightarrow> connect_state client > 0 \<or> connected client \<noteq> 0)"

text \<open>\<^verbatim>\<open>while ((... != STOPPED || ... != STOPPED) && ++count < 100)\<close>, the mutex free while sleeping\<close>

fun async_stop_loop :: "nat \<Rightarrow> ('s, 'm) async_env \<Rightarrow> ('s, 'm) masync_scheme \<Rightarrow> ('s, 'm) masync_scheme option" where
  "async_stop_loop 0 env w = Some w"
| "async_stop_loop (Suc n) env w =
     (if sendThread_state w = STOPPED \<and> receiveThread_state w = STOPPED then Some w
      else do { w1 \<leftarrow> env Asleep (MQTTAsync_unlock_mutex w); async_stop_loop n env (MQTTAsync_lock_mutex w1) })"

definition MQTTAsync_stop :: "('s, 'm) async_env \<Rightarrow> ('s, 'm) masync_scheme \<Rightarrow> ('s, 'm) masync_scheme option" where
  "MQTTAsync_stop env w =
     (if sendThread_state w \<noteq> STOPPED \<or> receiveThread_state w \<noteq> STOPPED then
        let conn_count = length (filter (async_active w) (contents (async_handles w)))
        in if conn_count = 0
           then map_option (\<lambda>w1. w1\<lparr>async_tostop := False\<rparr>) (async_stop_loop 99 env (w\<lparr>async_tostop := True\<rparr>))
           else Some w
      else Some w)"

definition MQTTAsync_terminate :: "('s, 'm) async_env \<Rightarrow> ('s, 'm) masync_scheme \<Rightarrow> ('s, 'm) masync_scheme option" where
  "MQTTAsync_terminate env w = do {
     w1 \<leftarrow> MQTTAsync_stop env w;
     if async_initialized w1 then do {
       w2 \<leftarrow> free_all MQTTAsync_freeCommand1 (contents (commands w1)) (w1\<lparr>clients := cl_empty, async_handles := cl_empty\<rparr>);
       w3 \<leftarrow> free_all free_command (contents (commands w2)) w2;
       Some ((Socket_outTerminate (w3\<lparr>commands := cl_empty\<rparr>))\<lparr>async_initialized := False\<rparr>)
     } else Some w1
   }"

definition MQTTAsync_destroy ::
  "('s, 'm) async_env \<Rightarrow> addr option \<Rightarrow> ('s, 'm) masync_scheme \<Rightarrow> ('s, 'm) masync_scheme option" where
  "MQTTAsync_destroy env handle w0 = do {
     let w = MQTTAsync_lock_mutex w0;
     w5 \<leftarrow> (case handle of None \<Rightarrow> Some w
       | Some m \<Rightarrow> do {
           w1 \<leftarrow> MQTTAsync_removeResponsesAndCommands m w;
           (c, _) \<leftarrow> async_client m w1;
           (_, w2) \<leftarrow> MQTTPersistence_close c w1;
           w3 \<leftarrow> MQTTProtocol_freeClient c (MQTTAsync_emptyMessageQueue c w2);
           let w4 = w3\<lparr>clients := snd (cl_remove_at c (clients w3)),
                       async_handles := snd (cl_remove_at m (async_handles w3))\<rparr>;
           if cnt (clients w4) = 0 then MQTTAsync_terminate env w4 else Some w4
         });
     Some (MQTTAsync_unlock_mutex w5)
   }"

definition MQTTAsync_setCallbacks ::
  "addr option \<Rightarrow> bool \<Rightarrow> bool \<Rightarrow> bool \<Rightarrow> ('s, 'm) masync_scheme \<Rightarrow> (int \<times> ('s, 'm) masync_scheme) option" where
  "MQTTAsync_setCallbacks handle has_cl has_ma has_dc w0 = do {
     let w = MQTTAsync_lock_mutex w0;
     (rc, w1) \<leftarrow> (case handle of None \<Rightarrow> Some (MQTTASYNC_FAILURE, w)
       | Some m \<Rightarrow>
           if \<not> has_ma then Some (MQTTASYNC_FAILURE, w)
           else do {
             (_, client) \<leftarrow> async_client m w;
             if connect_state client \<noteq> 0 then Some (MQTTASYNC_FAILURE, w)
             else Some (MQTTASYNC_SUCCESS, upd_async m (\<lambda>h. h\<lparr>as_cl := has_cl, as_ma := has_ma, as_dc := has_dc\<rparr>) w)
           });
     Some (rc, MQTTAsync_unlock_mutex w1)
   }"

definition MQTTAsync_isConnected ::
  "addr option \<Rightarrow> ('s, 'm) masync_scheme \<Rightarrow> (int \<times> ('s, 'm) masync_scheme) option" where
  "MQTTAsync_isConnected handle w0 = do {
     let w = MQTTAsync_lock_mutex w0;
     rc \<leftarrow> (case handle of None \<Rightarrow> Some 0 | Some m \<Rightarrow> map_option (\<lambda>(_, client). connected client) (async_client m w));
     Some (rc, MQTTAsync_unlock_mutex w)
   }"

subsection \<open>Connecting\<close>

record MQTTAsync_willOptions =
  awo_struct_id :: string
  awo_struct_version :: int
  awo_topicName :: "byte list"
  awo_message :: "byte list"
  awo_retained :: int
  awo_qos :: int

text \<open>Of the options for TLS only the head is looked at without TLS.\<close>

record MQTTAsync_connectOptions =
  aco_struct_id :: string
  aco_struct_version :: int
  aco_keepAliveInterval :: int
  aco_cleansession :: int
  aco_maxInflight :: int
  aco_will :: "MQTTAsync_willOptions option"
  aco_username :: "byte list option"
  aco_password :: "byte list option"
  aco_connectTimeout :: int
  aco_retryInterval :: int
  aco_ssl :: "(string \<times> int) option"
  aco_onSuccess :: addr
  aco_onFailure :: addr
  aco_serverURIs :: "string list"
  aco_MQTTVersion :: int

definition check_connect_options :: "MQTTAsync_connectOptions \<Rightarrow> int option" where
  "check_connect_options options = (
     if take 4 (aco_struct_id options) \<noteq> ''MQTC'' \<or> aco_struct_version options \<notin> {0, 1, 2, 3}
     then Some MQTTASYNC_BAD_STRUCTURE
     else case (case aco_will options of None \<Rightarrow> MQTTASYNC_SUCCESS
         | Some wo \<Rightarrow> if take 4 (awo_struct_id wo) \<noteq> ''MQTW'' \<or> awo_struct_version wo \<noteq> 0 then MQTTASYNC_BAD_STRUCTURE
             else if awo_qos wo < 0 \<or> awo_qos wo > 2 then MQTTASYNC_BAD_QOS else MQTTASYNC_SUCCESS) of rc \<Rightarrow>
       if rc \<noteq> MQTTASYNC_SUCCESS then Some rc
       else if aco_struct_version options \<noteq> 0 \<and>
           (case aco_ssl options of None \<Rightarrow> False | Some (sid, v) \<Rightarrow> take 4 sid \<noteq> ''MQTS'' \<or> v \<noteq> 0)
         then Some MQTTASYNC_BAD_STRUCTURE
       else do {
         u \<leftarrow> valid_string (aco_username options);
         p \<leftarrow> (if u then valid_string (aco_password options) else Some False);
         Some (if u \<and> p then MQTTASYNC_SUCCESS else MQTTASYNC_BAD_UTF8_STRING)
       })"

definition start_threads :: "('s, 'm) async_env \<Rightarrow> ('s, 'm) masync_scheme \<Rightarrow> ('s, 'm) masync_scheme option" where
  "start_threads env w = do {
     let w0 = w\<lparr>async_tostop := False\<rparr>;
     w1 \<leftarrow> (if sendThread_state w0 \<noteq> STARTING \<and> sendThread_state w0 \<noteq> RUNNING
       then map_option MQTTAsync_unlock_mutex
              (callback env (StartThread True) ((MQTTAsync_lock_mutex w0)\<lparr>sendThread_state := STARTING\<rparr>))
       else Some w0);
     if receiveThread_state w1 \<noteq> STARTING \<and> receiveThread_state w1 \<noteq> RUNNING
     then map_option MQTTAsync_unlock_mutex
            (callback env (StartThread False) ((MQTTAsync_lock_mutex w1)\<lparr>receiveThread_state := STARTING\<rparr>))
     else Some w1
   }"

definition async_copy_will :: "MQTTAsync_willOptions \<Rightarrow> willMessages option" where
  "async_copy_will wo = do {
     msg \<leftarrow> MQTTStrdup (awo_message wo);
     t \<leftarrow> MQTTStrdup (awo_topicName wo);
     Some \<lparr>w_topic = t, w_msg = msg, w_retained = awo_retained wo, w_qos = awo_qos wo\<rparr>
   }"

definition set_connect_options ::
  "MQTTAsync_connectOptions \<Rightarrow> addr \<Rightarrow> ('s, 'm) masync_scheme \<Rightarrow> ('s, 'm) masync_scheme option" where
  "set_connect_options options c w = do {
     wl \<leftarrow> (case aco_will options of None \<Rightarrow> Some None | Some wo \<Rightarrow> map_option Some (async_copy_will wo));
     Some (upd_client c (\<lambda>cl. cl\<lparr>keepAliveInterval := aco_keepAliveInterval options,
       cleansession := aco_cleansession options, maxInflightMessages := aco_maxInflight options,
       MQTTVersion := (if aco_struct_version options = 3 then aco_MQTTVersion options else 0), will := wl,
       username := aco_username options, password := aco_password options,
       retryInterval := aco_retryInterval options\<rparr>) w)
   }"

text \<open>The command, with its own copy of the array of addresses.\<close>

definition connect_details ::
  "MQTTAsync_connectOptions \<Rightarrow> ('s, 'm) masync_scheme \<Rightarrow> command_details \<times> ('s, 'm) masync_scheme" where
  "connect_details options w =
     (if aco_struct_version options \<ge> 2 \<and> aco_serverURIs options \<noteq> []
      then (ConnDetails (aco_connectTimeout options) (int (length (aco_serverURIs options))) (Some (next_uris w)) 0 0,
        w\<lparr>next_uris := next_uris w + 1, uri_arrays := (uri_arrays w)(next_uris w \<mapsto> aco_serverURIs options)\<rparr>)
      else (ConnDetails (aco_connectTimeout options) 0 None 0 0, w))"

text \<open>The mutex is not held.  A NULL handle is dereferenced.\<close>

definition MQTTAsync_connect ::
  "('s, 'm) async_env \<Rightarrow> addr option \<Rightarrow> MQTTAsync_connectOptions option \<Rightarrow> ('s, 'm) masync_scheme \<Rightarrow>
     (int \<times> ('s, 'm) masync_scheme) option" where
  "MQTTAsync_connect env handle opts w = (case opts of
     None \<Rightarrow> Some (MQTTASYNC_NULL_PARAMETER, w)
   | Some options \<Rightarrow> do {
       bad \<leftarrow> check_connect_options options;
       if bad \<noteq> MQTTASYNC_SUCCESS then Some (bad, w)
       else do {
         m \<leftarrow> handle;
         (c, _) \<leftarrow> async_client m w;
         let w1 = upd_async m (\<lambda>h. h\<lparr>as_connect := (as_connect h)
               \<lparr>k_onSuccess := aco_onSuccess options, k_onFailure := aco_onFailure options\<rparr>\<rparr>) w;
         w2 \<leftarrow> start_threads env w1;
         w3 \<leftarrow> set_connect_options options c w2;
         let (d, w4) = connect_details options w3;
         let (a, w5) = new_command m (zero_command\<lparr>k_type := CONNECT, k_onSuccess := aco_onSuccess options,
               k_onFailure := aco_onFailure options, k_details := d\<rparr>) w4;
         MQTTAsync_addCommand a 8 w5
       }
     })"

subsection \<open>Message ids\<close>

definition cmdMessageIDCompare :: "('s, 'm) masync_scheme \<Rightarrow> int \<Rightarrow> addr \<Rightarrow> bool" where
  "cmdMessageIDCompare w b a \<longleftrightarrow> map_option (\<lambda>q. k_token (q_command q)) (queued w a) = Some b"

definition msgid_used :: "addr \<Rightarrow> int \<Rightarrow> ('s, 'm) masync_scheme \<Rightarrow> bool \<times> ('s, 'm) masync_scheme" where
  "msgid_used m msgid w = (
     let (found, cs) = cl_find (cmdMessageIDCompare w msgid) (commands w);
         w1 = w\<lparr>commands := cs\<rparr>
     in if found \<noteq> None then (True, w1)
        else case get_async m w1 of
          None \<Rightarrow> (False, w1)
        | Some h \<Rightarrow>
            let (found, rs) = cl_find (cmdMessageIDCompare w1 msgid) (as_responses h)
            in (found \<noteq> None, upd_async m (\<lambda>h. h\<lparr>as_responses := rs\<rparr>) w1))"

definition next_id :: "int \<Rightarrow> int" where
  "next_id msgid = (if msgid = MAX_MSG_ID then 1 else msgid + 1)"

text \<open>The search ends when it has come round to the id it started from.\<close>

partial_function (option) assign_loop ::
  "addr \<Rightarrow> int \<Rightarrow> int \<Rightarrow> ('s, 'm) masync_scheme \<Rightarrow> (int \<times> ('s, 'm) masync_scheme) option" where
  "assign_loop m start msgid w = (case msgid_used m msgid w of (used, w1) \<Rightarrow>
     if \<not> used then Some (msgid, w1)
     else if next_id msgid = start then Some (0, w1)
     else assign_loop m start (next_id msgid) w1)"

declare assign_loop.simps [code]

definition MQTTAsync_assignMsgId ::
  "addr \<Rightarrow> ('s, 'm) masync_scheme \<Rightarrow> (int \<times> ('s, 'm) masync_scheme) option" where
  "MQTTAsync_assignMsgId m w0 = do {
     (c, client) \<leftarrow> async_client m w0;
     let locked = (Thread_getid w0 \<noteq> sendThread_id w0 \<and> Thread_getid w0 \<noteq> receiveThread_id w0);
     let w = (if locked then MQTTAsync_lock_mutex w0 else w0);
     (msgid, w1) \<leftarrow> assign_loop m (msgID client) (next_id (msgID client)) w;
     let w2 = (if msgid \<noteq> 0 then upd_client c (\<lambda>cl. cl\<lparr>msgID := msgid\<rparr>) w1 else w1);
     Some (msgid, if locked then MQTTAsync_unlock_mutex w2 else w2)
   }"

subsection \<open>Subscribing and publishing\<close>

text \<open>The callbacks of the response options, and the token written back into them.\<close>

record MQTTAsync_responseOptions =
  ro_onSuccess :: addr
  ro_onFailure :: addr
  ro_token :: int

definition response_command :: "int \<Rightarrow> int \<Rightarrow> MQTTAsync_responseOptions option \<Rightarrow> command_details \<Rightarrow> MQTTAsync_command" where
  "response_command type msgid response d = zero_command\<lparr>k_type := type, k_token := msgid,
     k_onSuccess := (case response of None \<Rightarrow> 0 | Some r \<Rightarrow> ro_onSuccess r),
     k_onFailure := (case response of None \<Rightarrow> 0 | Some r \<Rightarrow> ro_onFailure r), k_details := d\<rparr>"

definition with_token :: "int \<Rightarrow> MQTTAsync_responseOptions option \<Rightarrow> MQTTAsync_responseOptions option" where
  "with_token msgid response = map_option (\<lambda>r. r\<lparr>ro_token := msgid\<rparr>) response"

type_synonym ('s, 'm) api_result =
  "((int \<times> MQTTAsync_responseOptions option) \<times> ('s, 'm) masync_scheme) option"

definition add_request ::
  "addr \<Rightarrow> int \<Rightarrow> int \<Rightarrow> MQTTAsync_responseOptions option \<Rightarrow> command_details \<Rightarrow> ('s, 'm) masync_scheme \<Rightarrow>
     ('s, 'm) api_result" where
  "add_request m type msgid response d w = (
     let (a, w1) = new_command m (response_command type msgid response d) w
     in map_option (\<lambda>(rc, w2). ((rc, with_token msgid response), w2)) (MQTTAsync_addCommand a 8 w1))"

definition MQTTAsync_subscribeMany ::
  "addr option \<Rightarrow> byte list list \<Rightarrow> int list \<Rightarrow> MQTTAsync_responseOptions option \<Rightarrow> ('s, 'm) masync_scheme \<Rightarrow>
     ('s, 'm) api_result" where
  "MQTTAsync_subscribeMany handle topics qs response w = (case handle of
     None \<Rightarrow> Some ((MQTTASYNC_FAILURE, response), w)
   | Some m \<Rightarrow> do {
       (_, client) \<leftarrow> async_client m w;
       if connected client = 0 then Some ((MQTTASYNC_DISCONNECTED, response), w)
       else do {
         bad \<leftarrow> check_topics topics qs;
         if bad \<noteq> MQTTASYNC_SUCCESS then Some ((bad, response), w)
         else do {
           (msgid, w1) \<leftarrow> MQTTAsync_assignMsgId m w;
           if msgid = 0 then Some ((MQTTASYNC_NO_MORE_MSGIDS, response), w1)
           else do {
             ts \<leftarrow> those (map MQTTStrdup topics);
             add_request m SUBSCRIBE msgid response (SubDetails ts (take (length topics) qs)) w1
           }
         }
       }
     })"

definition MQTTAsync_subscribe ::
  "addr option \<Rightarrow> byte list \<Rightarrow> int \<Rightarrow> MQTTAsync_responseOptions option \<Rightarrow> ('s, 'm) masync_scheme \<Rightarrow>
     ('s, 'm) api_result" where
  "MQTTAsync_subscribe handle t qos response w = MQTTAsync_subscribeMany handle [t] [qos] response w"

definition MQTTAsync_unsubscribeMany ::
  "addr option \<Rightarrow> byte list list \<Rightarrow> MQTTAsync_responseOptions option \<Rightarrow> ('s, 'm) masync_scheme \<Rightarrow>
     ('s, 'm) api_result" where
  "MQTTAsync_unsubscribeMany handle topics response w = (case handle of
     None \<Rightarrow> Some ((MQTTASYNC_FAILURE, response), w)
   | Some m \<Rightarrow> do {
       (_, client) \<leftarrow> async_client m w;
       if connected client = 0 then Some ((MQTTASYNC_DISCONNECTED, response), w)
       else do {
         bad \<leftarrow> check_topics topics (map (\<lambda>_. 0) topics);
         if bad \<noteq> MQTTASYNC_SUCCESS then Some ((bad, response), w)
         else do {
           (msgid, w1) \<leftarrow> MQTTAsync_assignMsgId m w;
           if msgid = 0 then Some ((MQTTASYNC_NO_MORE_MSGIDS, response), w1)
           else do {
             ts \<leftarrow> those (map MQTTStrdup topics);
             add_request m UNSUBSCRIBE msgid response (UnsubDetails ts) w1
           }
         }
       }
     })"

definition MQTTAsync_unsubscribe ::
  "addr option \<Rightarrow> byte list \<Rightarrow> MQTTAsync_responseOptions option \<Rightarrow> ('s, 'm) masync_scheme \<Rightarrow> ('s, 'm) api_result" where
  "MQTTAsync_unsubscribe handle t response w = MQTTAsync_unsubscribeMany handle [t] response w"

definition MQTTAsync_send ::
  "addr option \<Rightarrow> byte list \<Rightarrow> int \<Rightarrow> byte list \<Rightarrow> int \<Rightarrow> int \<Rightarrow> MQTTAsync_responseOptions option \<Rightarrow>
     ('s, 'm) masync_scheme \<Rightarrow> ('s, 'm) api_result" where
  "MQTTAsync_send handle dest plen pl qos retained response w = (case handle of
     None \<Rightarrow> Some ((MQTTASYNC_FAILURE, response), w)
   | Some m \<Rightarrow> do {
       (_, client) \<leftarrow> async_client m w;
       if connected client = 0 then Some ((MQTTASYNC_DISCONNECTED, response), w)
       else do {
         valid \<leftarrow> UTF8_validateString dest;
         if valid = 0 then Some ((MQTTASYNC_BAD_UTF8_STRING, response), w)
         else if qos < 0 \<or> qos > 2 then Some ((MQTTASYNC_BAD_QOS, response), w)
         else do {
           (msgid, w1) \<leftarrow> (if qos > 0 then MQTTAsync_assignMsgId m w else Some (0, w));
           if qos > 0 \<and> msgid = 0 then Some ((MQTTASYNC_NO_MORE_MSGIDS, response), w1)
           else do {
             t \<leftarrow> MQTTStrdup dest;
             bytes \<leftarrow> (if plen < 0 then None else rd_bytes pl 0 (nat plen));
             add_request m PUBLISH msgid response (PubDetails (Some t) plen bytes qos retained) w1
           }
         }
       }
     })"

record MQTTAsync_message =
  am_struct_id :: string
  am_struct_version :: int
  am_payloadlen :: int
  am_payload :: "byte list"
  am_qos :: int
  am_retained :: int

definition MQTTAsync_sendMessage ::
  "addr option \<Rightarrow> byte list \<Rightarrow> MQTTAsync_message option \<Rightarrow> MQTTAsync_responseOptions option \<Rightarrow>
     ('s, 'm) masync_scheme \<Rightarrow> ('s, 'm) api_result" where
  "MQTTAsync_sendMessage handle dest message response w = (case message of
     None \<Rightarrow> Some ((MQTTASYNC_NULL_PARAMETER, response), w)
   | Some msg \<Rightarrow>
       if take 4 (am_struct_id msg) \<noteq> ''MQTM'' \<or> am_struct_version msg \<noteq> 0
       then Some ((MQTTASYNC_BAD_STRUCTURE, response), w)
       else MQTTAsync_send handle dest (am_payloadlen msg) (am_payload msg) (am_qos msg) (am_retained msg) response w)"

subsection \<open>Tokens\<close>

text \<open>The tokens of the handle's commands in the queue.\<close>

fun queued_tokens :: "addr \<Rightarrow> addr list \<Rightarrow> ('s, 'm) masync_scheme \<Rightarrow> int list option" where
  "queued_tokens m [] w = Some []"
| "queued_tokens m (a # as) w = do {
     q \<leftarrow> queued w a;
     ts \<leftarrow> queued_tokens m as w;
     Some (if q_client q = m then k_token (q_command q) # ts else ts)
   }"

definition MQTTAsync_getPendingTokens ::
  "addr option \<Rightarrow> ('s, 'm) masync_scheme \<Rightarrow> ((int \<times> int list option) \<times> ('s, 'm) masync_scheme) option" where
  "MQTTAsync_getPendingTokens handle w0 = do {
     let w = MQTTAsync_lock_mutex w0;
     (rc, tokens) \<leftarrow> (case handle of
         None \<Rightarrow> Some (MQTTASYNC_FAILURE, None)
       | Some m \<Rightarrow> do {
           ts \<leftarrow> queued_tokens m (contents (commands w)) w;
           (_, client) \<leftarrow> async_client m w;
           let all = ts @ map m_msgid (contents (outboundMsgs client));
           Some (MQTTASYNC_SUCCESS, if all = [] then None else Some (all @ [-1]))
         });
     Some ((rc, tokens), MQTTAsync_unlock_mutex w)
   }"

definition MQTTAsync_isComplete ::
  "addr option \<Rightarrow> int \<Rightarrow> ('s, 'm) masync_scheme \<Rightarrow> (int \<times> ('s, 'm) masync_scheme) option" where
  "MQTTAsync_isComplete handle dt w0 = do {
     let w = MQTTAsync_lock_mutex w0;
     rc \<leftarrow> (case handle of
         None \<Rightarrow> Some MQTTASYNC_FAILURE
       | Some m \<Rightarrow> do {
           ts \<leftarrow> queued_tokens m (contents (commands w)) w;
           (_, client) \<leftarrow> async_client m w;
           Some (if dt \<in> set ts \<or> dt \<in> m_msgid ` set (contents (outboundMsgs client)) then MQTTASYNC_SUCCESS
                 else MQTTASYNC_TRUE)
         });
     Some (rc, MQTTAsync_unlock_mutex w)
   }"

text \<open>\<open>elapsed\<close> is unsigned.\<close>

partial_function (option) async_completion_loop ::
  "('s, 'm) async_env \<Rightarrow> addr \<Rightarrow> int \<Rightarrow> int \<Rightarrow> int \<Rightarrow> int \<Rightarrow> ('s, 'm) masync_scheme \<Rightarrow>
     (int \<times> ('s, 'm) masync_scheme) option" where
  "async_completion_loop env m dt timeout start elapsed w =
     (if elapsed < timeout then
        Option.bind (env Asleep w) (\<lambda>w1. Option.bind (MQTTAsync_isComplete (Some m) dt w1) (\<lambda>(rc, w2).
          if rc = 1 then Some (MQTTASYNC_SUCCESS, w2)
          else case MQTTAsync_elapsed start w2 of (elapsed, w3) \<Rightarrow>
            async_completion_loop env m dt timeout start (elapsed mod FOREVER) w3))
      else Some (MQTTASYNC_FAILURE, w))"

declare async_completion_loop.simps [code]

text \<open>On the early exits the mutex stays locked.\<close>

definition MQTTAsync_waitForCompletion ::
  "('s, 'm) async_env \<Rightarrow> addr option \<Rightarrow> int \<Rightarrow> int \<Rightarrow> ('s, 'm) masync_scheme \<Rightarrow> (int \<times> ('s, 'm) masync_scheme) option" where
  "MQTTAsync_waitForCompletion env handle dt timeout w0 = do {
     let (start, w1) = MQTTAsync_start_clock w0;
     let w = MQTTAsync_lock_mutex w1;
     case handle of
       None \<Rightarrow> Some (MQTTASYNC_FAILURE, w)
     | Some m \<Rightarrow> do {
         (_, client) \<leftarrow> async_client m w;
         if connected client = 0 then Some (MQTTASYNC_DISCONNECTED, w)
         else do {
           (rc, w2) \<leftarrow> MQTTAsync_isComplete handle dt (MQTTAsync_unlock_mutex w);
           if rc = 1 then Some (MQTTASYNC_SUCCESS, w2)
           else case MQTTAsync_elapsed start w2 of (elapsed, w3) \<Rightarrow>
             async_completion_loop env m dt timeout start (elapsed mod FOREVER) w3
         }
       }
   }"

end
