(* ===== verification/AsyncProps.thy ===== *)
theory AsyncProps
  imports AsyncApi Frames
begin

text \<open>
  The asynchronous client: which command the sending thread picks from the queue.
\<close>

subsection \<open>Picking a command\<close>

text \<open>A command can be sent now.\<close>

definition sendable :: "('s, 'm) masync_scheme \<Rightarrow> addr \<Rightarrow> bool" where
  "sendable w a = (case queued w a of None \<Rightarrow> False
     | Some q \<Rightarrow> (case async_client (q_client q) w of None \<Rightarrow> False
       | Some (_, client) \<Rightarrow>
           (k_type (q_command q) = CONNECT \<or> k_type (q_command q) = DISCONNECT \<or>
             connected client \<noteq> 0 \<and> connect_state client = 0 \<and>
             net_socket client \<notin> set (contents (write_pending w))) \<and>
           \<not> (needs_msgid (q_command q) \<and> cnt (outboundMsgs client) \<ge> MAX_MSG_ID - 1)))"

definition owner :: "('s, 'm) masync_scheme \<Rightarrow> addr \<Rightarrow> addr" where
  "owner w a = (case queued w a of None \<Rightarrow> 0 | Some q \<Rightarrow> q_client q)"

text \<open>The first command of every client.\<close>

fun firsts :: "('a \<Rightarrow> 'b) \<Rightarrow> 'a list \<Rightarrow> 'a list" where
  "firsts f [] = []"
| "firsts f (x # xs) = x # filter (\<lambda>y. f y \<noteq> f x) (firsts f xs)"

lemma filter_firsts: "filter (\<lambda>y. f y \<notin> B) (firsts f xs) = firsts f (filter (\<lambda>y. f y \<notin> B) xs)"
proof (induction xs)
  case (Cons x xs)
  have c: "filter P (filter Q l) = filter Q (filter P l)" for P Q and l :: "'a list" by (induction l) auto
  show ?case
  proof (cases "f x \<in> B")
    case True
    have "filter (\<lambda>y. f y \<notin> B) (filter (\<lambda>y. f y \<noteq> f x) l) = filter (\<lambda>y. f y \<notin> B) l" for l
      using True by (induction l) auto
    then show ?thesis using Cons.IH True by simp
  next
    case False
    then show ?thesis using Cons.IH c [of "\<lambda>y. f y \<notin> B" "\<lambda>y. f y \<noteq> f x" "firsts f xs"] by (simp del: filter_filter)
  qed
qed simp

definition live :: "('s, 'm) masync_scheme \<Rightarrow> addr list \<Rightarrow> bool" where
  "live w as \<longleftrightarrow> (\<forall>a\<in>set as. \<exists>q c. queued w a = Some q \<and> async_client (q_client q) w = Some c)"

text \<open>States that differ in the cursor of \<^verbatim>\<open>write_pending\<close>.\<close>

definition same_writes :: "('s, 'm) masync_scheme \<Rightarrow> ('s, 'm) masync_scheme \<Rightarrow> bool" where
  "same_writes w w' \<longleftrightarrow> (\<exists>p. cl_wf p \<and> items p = items (write_pending w) \<and> w' = w\<lparr>write_pending := p\<rparr>)"

lemma same_writes_keeps:
  assumes "same_writes w w'"
  shows "queued w' = queued w" "commands w' = commands w" "async_client m w' = async_client m w" "sendable w' = sendable w"
    "owner w' = owner w" "cl_wf (write_pending w')" "live w' as = live w as"
proof -
  obtain p where p: "cl_wf p" "items p = items (write_pending w)" "w' = w\<lparr>write_pending := p\<rparr>"
    using assms by (auto simp: same_writes_def)
  then show c: "queued w' = queued w" "commands w' = commands w" "async_client m w' = async_client m w" "cl_wf (write_pending w')" for m
    by (simp_all add: async_client_def get_async_def get_client_def)
  then show "owner w' = owner w" "live w' as = live w as" by (simp_all add: owner_def live_def fun_eq_iff)
  have wp: "items (write_pending w') = items (write_pending w)" using p by simp
  show "sendable w' = sendable w" unfolding sendable_def c wp ..
qed

lemma same_writes_trans: "same_writes w w1 \<Longrightarrow> same_writes w1 w2 \<Longrightarrow> same_writes w w2"
  by (auto simp: same_writes_def)

lemma can_send_right:
  assumes "cl_wf (write_pending w)" "queued w a = Some q" "async_client (q_client q) w = Some (c, client)"
  obtains w' where "can_send (q_command q) client w = (sendable w a, w')" "same_writes w w'"
proof -
  let ?f = "cl_find (intcmp (net_socket client)) (write_pending w)"
  have s: "same_writes w w" using assms(1) by (auto simp: same_writes_def intro!: exI [of _ "write_pending w"])
  have n: "fst ?f = None \<longleftrightarrow> net_socket client \<notin> set (contents (write_pending w))"
    unfolding cl_find_None_iff [OF assms(1)] by (force simp: intcmp_def)
  have f: "cl_wf (snd ?f)" "items (snd ?f) = items (write_pending w)"
    using cl_wf_find [OF assms(1)] cl_find_frame(1) by (metis prod.collapse)+
  then have s': "same_writes w (w\<lparr>write_pending := snd ?f\<rparr>)" by (auto simp: same_writes_def)
  let ?k = "q_command q" and ?w = "w\<lparr>write_pending := snd ?f\<rparr>"
  have np: "Socket_noPendingWrites (net_socket client) w = (fst ?f = None, ?w)"
    by (simp add: Socket_noPendingWrites_def Let_def case_prod_beta)
  consider "k_type ?k = CONNECT \<or> k_type ?k = DISCONNECT"
    | "\<not> (k_type ?k = CONNECT \<or> k_type ?k = DISCONNECT)" "connected client \<noteq> 0 \<and> connect_state client = 0"
    | "\<not> (k_type ?k = CONNECT \<or> k_type ?k = DISCONNECT)" "\<not> (connected client \<noteq> 0 \<and> connect_state client = 0)"
    by blast
  then show thesis
  proof cases
    case 1
    then show ?thesis using assms(2,3) by (intro that [OF _ s]) (auto simp: can_send_def sendable_def Let_def)
  next
    case 2
    then show ?thesis using assms(2,3) np n by (intro that [OF _ s']) (auto simp: can_send_def sendable_def Let_def)
  next
    case 3
    then show ?thesis using assms(2,3) by (intro that [OF _ s]) (auto simp: can_send_def sendable_def Let_def)
  qed
qed

text \<open>The walk over the queue against its specification.\<close>

lemma select_right:
  assumes "cl_wf (write_pending w)" "live w as"
  shows "\<exists>w'. select_command as ign w =
    Some (List.find (sendable w) (firsts (owner w) (filter (\<lambda>a. owner w a \<notin> set ign) as)), w') \<and> same_writes w w'"
  using assms
proof (induction as arbitrary: ign w)
  case Nil
  then show ?case by (auto simp: same_writes_def intro!: exI [of _ w] exI [of _ "write_pending w"])
next
  case (Cons a as)
  from Cons.prems(2) obtain q c client where q: "queued w a = Some q" "async_client (q_client q) w = Some (c, client)"
    by (auto simp: live_def)
  have l: "live w as" using Cons.prems(2) by (simp add: live_def)
  have o: "owner w a = q_client q" using q(1) by (simp add: owner_def)
  show ?case
  proof (cases "q_client q \<in> set ign")
    case True
    then show ?thesis using Cons.IH [OF Cons.prems(1) l, of ign] q(1) o by simp
  next
    case False
    obtain w1 where w1: "can_send (q_command q) client w = (sendable w a, w1)" "same_writes w w1"
      by (rule can_send_right [OF Cons.prems(1) q])
    note k = same_writes_keeps [OF w1(2)]
    have f: "filter (\<lambda>y. owner w y \<noteq> q_client q) (firsts (owner w) (filter (\<lambda>a. owner w a \<notin> set ign) as)) =
        firsts (owner w) (filter (\<lambda>a. owner w a \<notin> set (q_client q # ign)) as)"
      using filter_firsts [where B = "{q_client q}" and f = "owner w"] by (simp add: conj_commute)
    show ?thesis
    proof (cases "sendable w a")
      case True
      then show ?thesis using q w1 o False by simp
    next
      case no: False
      obtain w2 where "select_command as (q_client q # ign) w1 = Some (List.find (sendable w)
          (firsts (owner w) (filter (\<lambda>a. owner w a \<notin> set (q_client q # ign)) as)), w2)" "same_writes w1 w2"
        using Cons.IH [of w1 "q_client q # ign"] l k by auto
      then show ?thesis using q w1 o False no f same_writes_trans [OF w1(2)] by auto
    qed
  qed
qed

text \<open>
  C32: the order of commands.  The command that \<^verbatim>\<open>MQTTAsync_processCommand\<close> picks is the first one that
  can be sent among those that are the oldest of their client; no client overtakes itself, and a client
  that has to wait does not hold up the others.
\<close>

theorem commands_in_order:
  assumes "cl_wf (write_pending w)" "live w (contents (commands w))"
  shows "\<exists>w'. same_writes w w' \<and> select_command (contents (commands w)) [] w =
    Some (List.find (sendable w) (firsts (owner w) (contents (commands w))), w')"
  using select_right [OF assms, of "[]"] by auto

text \<open>Two clients, the first not connected: its publication waits, that of the second is sent.\<close>

definition two_clients :: "unit masync" where
  "two_clients = zero_async
     \<lparr>clients := list_of (\<lambda>_. 0) [zero_client, zero_client\<lparr>connected := 1, net_socket := 5\<rparr>],
      async_handles := list_of (\<lambda>_. 0) [new_async ''a'' 1, new_async ''b'' 2],
      commands := list_of (\<lambda>_. 0) [11, 12, 13],
      queued := [11 \<mapsto> \<lparr>q_command = zero_command\<lparr>k_type := PUBLISH\<rparr>, q_client = 1, q_seqno = 0\<rparr>,
                 12 \<mapsto> \<lparr>q_command = zero_command\<lparr>k_type := CONNECT\<rparr>, q_client = 1, q_seqno = 0\<rparr>,
                 13 \<mapsto> \<lparr>q_command = zero_command\<lparr>k_type := PUBLISH\<rparr>, q_client = 2, q_seqno = 0\<rparr>]\<rparr>"

lemma two_clients_parts:
  "contents (commands two_clients) = [11, 12, 13]" "cl_wf (write_pending two_clients)"
  "live two_clients [11, 12, 13]" "List.find (sendable two_clients) (firsts (owner two_clients) [11, 12, 13]) = Some 13"
  by (simp_all add: two_clients_def zero_async_def list_of_def cl_add_def cl_append_def cl_fresh_def cl_empty_def cl_wf_def
      live_def sendable_def owner_def async_client_def get_async_def get_client_def new_async_def zero_client_def
      zero_command_def PUBLISH_def CONNECT_def DISCONNECT_def needs_msgid_def MAX_MSG_ID_def numeral_eq_Suc)

theorem commands_in_order_witness:
  "\<exists>w'. select_command [11, 12, 13] [] two_clients = Some (Some 13, w')"
  using commands_in_order [of two_clients] two_clients_parts by auto

end
