(* ===== verification/AsyncTokens.thy ===== *)
theory AsyncTokens
  imports AsyncProps
begin

text \<open>
  The asynchronous client: the message ids it gives to requests, and how a request joins the queue.
  Searching moves cursors only (\<open>same_queue\<close>).
\<close>

subsection \<open>Tokens\<close>

text \<open>The tokens an id is compared with: those of all commands in the queue and of the handle's responses.\<close>

definition tokens :: "('s, 'm) masync_scheme \<Rightarrow> addr list \<Rightarrow> int set" where
  "tokens w as = {k_token (q_command q) | a q. a \<in> set as \<and> queued w a = Some q}"

definition used_tokens :: "addr \<Rightarrow> ('s, 'm) masync_scheme \<Rightarrow> int set" where
  "used_tokens m w = tokens w (contents (commands w)) \<union>
     (case get_async m w of None \<Rightarrow> {} | Some h \<Rightarrow> tokens w (contents (as_responses h)))"

text \<open>The ids in the order they are tried.\<close>

definition ids_after :: "int \<Rightarrow> int list" where
  "ids_after start = [start + 1..MAX_MSG_ID] @ [1..start - 1]"

text \<open>States that differ in the cursors of the queue and of the lists of responses.\<close>

definition same_handle :: "MQTTAsyncs \<Rightarrow> MQTTAsyncs \<Rightarrow> bool" where
  "same_handle h h' \<longleftrightarrow> (\<exists>l. h' = h\<lparr>as_responses := l\<rparr> \<and> moved (as_responses h) l)"

definition same_queue :: "('s, 'm) masync_scheme \<Rightarrow> ('s, 'm) masync_scheme \<Rightarrow> bool" where
  "same_queue w w' \<longleftrightarrow> (\<exists>cs hs. w' = w\<lparr>commands := cs, async_handles := hs\<rparr> \<and> moved (commands w) cs \<and>
     addrs hs = addrs (async_handles w) \<and> (cl_wf (async_handles w) \<longrightarrow> cl_wf hs) \<and>
     (\<forall>m. rel_option same_handle (get_async m w) (get_async m w')))"

lemma same_handle_refl [simp]: "same_handle h h"
  by (auto simp: same_handle_def intro!: exI [of _ "as_responses h"])

lemma same_handleI: "moved (as_responses h) l \<Longrightarrow> same_handle h (h\<lparr>as_responses := l\<rparr>)"
  by (auto simp: same_handle_def)

lemma same_handle_trans: "same_handle h h1 \<Longrightarrow> same_handle h1 h2 \<Longrightarrow> same_handle h h2"
  using moved_trans by (fastforce simp: same_handle_def)

lemma same_queue_refl [simp]: "same_queue w w"
  unfolding same_queue_def
  by (intro exI [of _ "commands w"] exI [of _ "async_handles w"]) (auto intro: option.rel_refl)

lemma same_queue_trans:
  assumes "same_queue w w1" "same_queue w1 w2"
  shows "same_queue w w2"
proof -
  obtain cs hs where 1: "w1 = w\<lparr>commands := cs, async_handles := hs\<rparr>" "moved (commands w) cs"
    "addrs hs = addrs (async_handles w)" "cl_wf (async_handles w) \<longrightarrow> cl_wf hs"
    and r1: "\<And>m. rel_option same_handle (get_async m w) (get_async m w1)" using assms(1) unfolding same_queue_def by blast
  obtain cs' hs' where 2: "w2 = w1\<lparr>commands := cs', async_handles := hs'\<rparr>" "moved (commands w1) cs'"
    "addrs hs' = addrs (async_handles w1)" "cl_wf (async_handles w1) \<longrightarrow> cl_wf hs'"
    and r2: "\<And>m. rel_option same_handle (get_async m w1) (get_async m w2)" using assms(2) unfolding same_queue_def by blast
  have "rel_option same_handle (get_async m w) (get_async m w2)" for m
    using r1 [of m] r2 [of m] by (auto simp: option_rel_Some1 option_rel_Some2 elim!: option.rel_cases intro: same_handle_trans)
  moreover have "w2 = w\<lparr>commands := cs', async_handles := hs'\<rparr>" "moved (commands w) cs'"
    "addrs hs' = addrs (async_handles w)" "cl_wf (async_handles w) \<longrightarrow> cl_wf hs'"
    using 1 2 moved_trans by (auto simp: 1(1))
  ultimately show ?thesis unfolding same_queue_def by blast
qed

lemma same_queue_keeps:
  assumes "same_queue w w'"
  shows "queued w' = queued w" "clients w' = clients w" "contents (commands w') = contents (commands w)"
    "cl_wf (commands w) \<Longrightarrow> cl_wf (commands w')" "get_client c w' = get_client c w" "next_command w' = next_command w"
    "tokens w' as = tokens w as" "used_tokens m w' = used_tokens m w"
    "cnt (commands w') = cnt (commands w)"
proof -
  obtain cs hs where w': "w' = w\<lparr>commands := cs, async_handles := hs\<rparr>" "moved (commands w) cs"
    and r: "\<And>m. rel_option same_handle (get_async m w) (get_async m w')" using assms unfolding same_queue_def by blast
  show q: "queued w' = queued w" "clients w' = clients w" "contents (commands w') = contents (commands w)"
    "cl_wf (commands w) \<Longrightarrow> cl_wf (commands w')" "get_client c w' = get_client c w" "next_command w' = next_command w"
    "cnt (commands w') = cnt (commands w)"
    using w' by (simp_all add: moved_def get_client_def)
  show t: "tokens w' as = tokens w as" for as by (simp add: tokens_def q)
  show "used_tokens m w' = used_tokens m w"
    using r [of m] by (auto simp: used_tokens_def t q same_handle_def moved_def elim!: option.rel_cases)
qed

lemma get_upd_async: "get_async b (upd_async m f w) = map_option (\<lambda>h. if b = m then f h else h) (get_async b w)"
  by (simp add: get_async_def upd_async_def map_of_update)

lemma same_queue_commands: "moved (commands w) cs \<Longrightarrow> same_queue w (w\<lparr>commands := cs\<rparr>)"
  unfolding same_queue_def
  by (intro exI [of _ cs] exI [of _ "async_handles w"]) (auto simp: get_async_def intro: option.rel_refl)

lemma same_queue_responses:
  assumes "get_async m w = Some h" "moved (as_responses h) l"
  shows "same_queue w (upd_async m (\<lambda>h. h\<lparr>as_responses := l\<rparr>) w)"
proof -
  have "rel_option same_handle (get_async b w) (get_async b (upd_async m (\<lambda>h. h\<lparr>as_responses := l\<rparr>) w))" for b
    unfolding get_upd_async using assms
    by (cases "get_async b w") (auto intro: same_handleI)
  then show ?thesis
    unfolding same_queue_def upd_async_def
    by (intro exI [of _ "commands w"] exI [of _ "cl_update m (\<lambda>h. h\<lparr>as_responses := l\<rparr>) (async_handles w)"])
      (simp add: cl_wf_update)
qed

lemma cmd_compare: "(\<exists>a\<in>set as. cmdMessageIDCompare w i a) \<longleftrightarrow> i \<in> tokens w as"
  by (auto simp: cmdMessageIDCompare_def tokens_def)

lemma msgid_used_right:
  assumes "cl_wf (commands w)" "get_async m w = Some h" "cl_wf (as_responses h)"
  obtains w' where "msgid_used m i w = (i \<in> used_tokens m w, w')" "same_queue w w'"
proof -
  obtain p cs where f: "cl_find (cmdMessageIDCompare w i) (commands w) = (p, cs)" by force
  have p: "p = None \<longleftrightarrow> i \<notin> tokens w (contents (commands w))"
    using cl_find_None_iff [OF assms(1), of "cmdMessageIDCompare w i"] f cmd_compare [of "contents (commands w)" w i] by auto
  let ?w1 = "w\<lparr>commands := cs\<rparr>"
  have w1: "same_queue w ?w1" by (rule same_queue_commands [OF moved_find [OF f]])
  have h: "get_async m ?w1 = Some h" using assms(2) by (simp add: get_async_def)
  have u: "used_tokens m w = tokens w (contents (commands w)) \<union> tokens w (contents (as_responses h))"
    using assms(2) by (simp add: used_tokens_def)
  show thesis
  proof (cases "p = None")
    case False
    then show ?thesis using f p u h by (intro that [OF _ w1]) (simp add: msgid_used_def)
  next
    case True
    obtain p' rs where f': "cl_find (cmdMessageIDCompare ?w1 i) (as_responses h) = (p', rs)" by force
    have p': "p' = None \<longleftrightarrow> i \<notin> tokens w (contents (as_responses h))"
      using cl_find_None_iff [OF assms(3), of "cmdMessageIDCompare ?w1 i"] f'
        cmd_compare [of "contents (as_responses h)" ?w1 i] same_queue_keeps(7) [OF w1] by auto
    have "same_queue w (upd_async m (\<lambda>h. h\<lparr>as_responses := rs\<rparr>) ?w1)"
      by (rule same_queue_trans [OF w1 same_queue_responses [OF h moved_find [OF f']]])
    then show ?thesis using f f' p p' u h True by (intro that) (auto simp: msgid_used_def)
  qed
qed

text \<open>Ids that follow each other, none of them the one the search started from.\<close>

fun linked :: "int \<Rightarrow> int list \<Rightarrow> bool" where
  "linked s (x # y # xs) \<longleftrightarrow> next_id x = y \<and> y \<noteq> s \<and> linked s (y # xs)"
| "linked s [x] \<longleftrightarrow> True"
| "linked s [] \<longleftrightarrow> True"

lemma linked_append:
  "linked s xs \<Longrightarrow> linked s ys \<Longrightarrow> xs \<noteq> [] \<Longrightarrow> ys \<noteq> [] \<Longrightarrow> next_id (last xs) = hd ys \<Longrightarrow> hd ys \<noteq> s \<Longrightarrow> linked s (xs @ ys)"
proof (induction s xs rule: linked.induct)
  case (2 s x)
  then show ?case by (cases ys) auto
qed simp_all

lemma linked_upto: "b \<le> MAX_MSG_ID \<Longrightarrow> s \<notin> {a..b} \<Longrightarrow> linked s [a..b]"
proof (induction a b rule: upto.induct)
  case (1 i j)
  show ?case
  proof (cases "i < j")
    case True
    then have u: "[i..j] = i # [i + 1..j]" "[i + 1..j] = (i + 1) # [i + 1 + 1..j]"
      using True by (intro upto_rec1, linarith)+
    have "linked s [i + 1..j]" using 1 True by simp
    then show ?thesis using 1(2,3) True unfolding u by (auto simp: next_id_def)
  next
    case False
    then show ?thesis by (cases "i = j") simp_all
  qed
qed

lemma ids_after_linked:
  assumes "0 \<le> start" "start \<le> MAX_MSG_ID"
  shows "linked start (ids_after start)" "ids_after start \<noteq> []" "hd (ids_after start) = next_id start"
    "1 \<le> start \<Longrightarrow> next_id (last (ids_after start)) = start"
    "set (ids_after start) = {1..MAX_MSG_ID} - {start}"
proof -
  let ?a = "[start + 1..MAX_MSG_ID]" and ?b = "[1..start - 1]"
  have ends: "\<And>i j::int. i \<le> j \<Longrightarrow> hd [i..j] = i \<and> last [i..j] = j \<and> [i..j] \<noteq> []"
  proof (intro conjI)
    fix i j :: int
    assume "i \<le> j"
    then have u: "[i..j] = i # [i + 1..j]" "[i..j] = [i..j - 1] @ [j]" by (rule upto_rec1, rule upto_rec2)
    show "hd [i..j] = i" unfolding u(1) by simp
    show "last [i..j] = j" unfolding u(2) by simp
    show "[i..j] \<noteq> []" unfolding u(1) by simp
  qed
  have l: "linked start ?a" "linked start ?b" using assms by (auto intro!: linked_upto)
  have n: "next_id MAX_MSG_ID = 1" "start < MAX_MSG_ID \<Longrightarrow> next_id start = start + 1"
    "start \<le> MAX_MSG_ID \<Longrightarrow> next_id (start - 1) = start" "0 < MAX_MSG_ID"
    by (auto simp: next_id_def MAX_MSG_ID_def)
  consider (only_b) "start = MAX_MSG_ID" "?a = []" "1 < start" | (only_a) "start \<le> 1" "?b = []" "start < MAX_MSG_ID"
    | (both) "1 < start" "start < MAX_MSG_ID"
    using assms by (fastforce simp: MAX_MSG_ID_def)
  then have all: "linked start (ids_after start) \<and> ids_after start \<noteq> [] \<and> hd (ids_after start) = next_id start \<and>
    (1 \<le> start \<longrightarrow> next_id (last (ids_after start)) = start)"
  proof cases
    case only_b
    then show ?thesis using l ends [of 1 "start - 1"] n unfolding ids_after_def by (simp)
  next
    case only_a
    then show ?thesis using l ends [of "start + 1" MAX_MSG_ID] n assms unfolding ids_after_def by auto
  next
    case both
    then show ?thesis using l ends [of 1 "start - 1"] ends [of "start + 1" MAX_MSG_ID] n unfolding ids_after_def
      by (auto intro!: linked_append)
  qed
  then show "linked start (ids_after start)" "ids_after start \<noteq> []" "hd (ids_after start) = next_id start"
    "1 \<le> start \<Longrightarrow> next_id (last (ids_after start)) = start" by auto
  show "set (ids_after start) = {1..MAX_MSG_ID} - {start}" using assms by (auto simp: ids_after_def)
qed

lemma assign_loop_right:
  assumes "cl_wf (commands w)" "\<forall>h. get_async m w = Some h \<longrightarrow> cl_wf (as_responses h)" "get_async m w \<noteq> None"
    "linked start xs" "xs \<noteq> []" "(\<exists>x\<in>set xs. x \<notin> used_tokens m w) \<or> next_id (last xs) = start"
  shows "\<exists>w'. same_queue w w' \<and> assign_loop m start (hd xs) w =
    Some (case List.find (\<lambda>i. i \<notin> used_tokens m w) xs of None \<Rightarrow> 0 | Some i \<Rightarrow> i, w')"
  using assms
proof (induction xs arbitrary: w)
  case (Cons x xs)
  obtain h where h: "get_async m w = Some h" "cl_wf (as_responses h)" using Cons.prems(2,3) by blast
  obtain w1 where w1: "msgid_used m x w = (x \<in> used_tokens m w, w1)" "same_queue w w1"
    by (rule msgid_used_right [OF Cons.prems(1) h])
  note k = same_queue_keeps [OF w1(2)]
  have u: "used_tokens m w1 = used_tokens m w" by (rule k)
  show ?case
  proof (cases "x \<in> used_tokens m w")
    case False
    then show ?thesis using w1 by (subst assign_loop.simps) auto
  next
    case used: True
    show ?thesis
    proof (cases xs)
      case Nil
      then show ?thesis using used Cons.prems(6) w1 by (subst assign_loop.simps) auto
    next
      case xs: (Cons y ys)
      have y: "next_id x = y" "y \<noteq> start" "linked start xs" using Cons.prems(4) xs by auto
      have r: "rel_option same_handle (get_async m w) (get_async m w1)" using w1(2) unfolding same_queue_def by blast
      then have g: "get_async m w1 \<noteq> None" "\<forall>h. get_async m w1 = Some h \<longrightarrow> cl_wf (as_responses h)"
        using h by (auto simp: same_handle_def moved_def elim!: option.rel_cases)
      have "(\<exists>x\<in>set xs. x \<notin> used_tokens m w1) \<or> next_id (last xs) = start"
        using Cons.prems(6) used xs u by auto
      then obtain w2 where "same_queue w1 w2" "assign_loop m start y w1 =
          Some (case List.find (\<lambda>i. i \<notin> used_tokens m w1) xs of None \<Rightarrow> 0 | Some i \<Rightarrow> i, w2)"
        using Cons.IH [OF k(4) [OF Cons.prems(1)] g(2,1) y(3)] xs by auto
      then show ?thesis
        using used y(1,2) w1 u same_queue_trans [OF w1(2)] by (subst assign_loop.simps) auto
    qed
  qed
qed simp

lemma same_queue_mutex:
  assumes "same_queue (w\<lparr>async_mutex := b\<rparr>) w1"
  shows "same_queue w (w1\<lparr>async_mutex := async_mutex w\<rparr>)"
proof -
  let ?w = "w\<lparr>async_mutex := b\<rparr>"
  obtain cs hs where w1: "w1 = ?w\<lparr>commands := cs, async_handles := hs\<rparr>" and c: "moved (commands ?w) cs"
    "addrs hs = addrs (async_handles ?w)" "cl_wf (async_handles ?w) \<longrightarrow> cl_wf hs"
    and r: "\<And>m. rel_option same_handle (get_async m ?w) (get_async m w1)"
    using assms unfolding same_queue_def by blast
  have "w1\<lparr>async_mutex := async_mutex w\<rparr> = w\<lparr>commands := cs, async_handles := hs\<rparr>" unfolding w1 by simp
  moreover have "rel_option same_handle (get_async m w) (get_async m (w1\<lparr>async_mutex := async_mutex w\<rparr>))" for m
    using r [of m] by (simp add: get_async_def)
  moreover have "moved (commands w) cs" "addrs hs = addrs (async_handles w)" "cl_wf (async_handles w) \<longrightarrow> cl_wf hs"
    using c by simp_all
  ultimately show ?thesis unfolding same_queue_def by blast
qed

text \<open>The id that \<^verbatim>\<open>MQTTAsync_assignMsgId\<close> gives out: the first free one, or 0.\<close>

definition free_token :: "addr \<Rightarrow> 's Clients \<Rightarrow> ('s, 'm) masync_scheme \<Rightarrow> int" where
  "free_token m client w =
     (case List.find (\<lambda>i. i \<notin> used_tokens m w) (ids_after (msgID client)) of None \<Rightarrow> 0 | Some i \<Rightarrow> i)"

definition token_state :: "addr \<Rightarrow> ('s, 'm) masync_scheme \<Rightarrow> bool" where
  "token_state m w \<longleftrightarrow> cl_wf (commands w) \<and> (\<exists>h c client. get_async m w = Some h \<and> cl_wf (as_responses h) \<and>
     async_client m w = Some (c, client) \<and> 0 \<le> msgID client \<and> msgID client \<le> MAX_MSG_ID \<and>
     (msgID client = 0 \<longrightarrow> {1..MAX_MSG_ID} - used_tokens m w \<noteq> {}))"

lemma free_token_range:
  assumes "0 \<le> msgID client" "msgID client \<le> MAX_MSG_ID"
  shows "free_token m client w = 0 \<or>
    free_token m client w \<in> {1..MAX_MSG_ID} \<and> free_token m client w \<notin> used_tokens m w"
  using ids_after_linked(5) [OF assms]
  by (auto simp: free_token_def find_Some_iff split: option.split dest!: nth_mem)

lemma assignMsgId_right:
  assumes "token_state m w" "async_client m w = Some (c, client)"
  shows "\<exists>w'. same_queue w w' \<and> MQTTAsync_assignMsgId m w = Some (free_token m client w,
    (if free_token m client w \<noteq> 0 then upd_client c (\<lambda>cl. cl\<lparr>msgID := free_token m client w\<rparr>) w' else w')
      \<lparr>async_mutex := async_mutex w \<and> (Thread_getid w = sendThread_id w \<or> Thread_getid w = receiveThread_id w)\<rparr>)"
proof -
  let ?locked = "Thread_getid w \<noteq> sendThread_id w \<and> Thread_getid w \<noteq> receiveThread_id w"
  let ?w = "if ?locked then MQTTAsync_lock_mutex w else w"
  obtain h where h: "get_async m w = Some h" "cl_wf (as_responses h)" "cl_wf (commands w)"
    "0 \<le> msgID client" "msgID client \<le> MAX_MSG_ID" "msgID client = 0 \<longrightarrow> {1..MAX_MSG_ID} - used_tokens m w \<noteq> {}"
    using assms by (auto simp: token_state_def)
  have s: "get_async m ?w = get_async m w" "commands ?w = commands w" "tokens ?w = tokens w"
    by (simp_all add: get_async_def tokens_def fun_eq_iff)
  have u: "used_tokens m ?w = used_tokens m w" unfolding used_tokens_def s ..
  note ids = ids_after_linked [OF h(4,5)]
  have "(\<exists>x\<in>set (ids_after (msgID client)). x \<notin> used_tokens m ?w) \<or> next_id (last (ids_after (msgID client))) = msgID client"
  proof (cases "msgID client = 0")
    case True
    then show ?thesis using h(6) ids(5) unfolding u by auto
  next
    case False
    then show ?thesis using ids(4) h(4) by auto
  qed
  then obtain w1 where w1: "same_queue ?w w1"
    "assign_loop m (msgID client) (next_id (msgID client)) ?w = Some (free_token m client w, w1)"
    using assign_loop_right [of ?w m "msgID client" "ids_after (msgID client)"] h ids s
    unfolding free_token_def u ids(3) [symmetric] by auto
  let ?w' = "w1\<lparr>async_mutex := async_mutex w\<rparr>"
  have e: "?w = w\<lparr>async_mutex := ?locked \<or> async_mutex w\<rparr>" by simp
  have "same_queue w ?w'" by (rule same_queue_mutex) (rule w1(1) [unfolded e])
  moreover have "MQTTAsync_assignMsgId m w = Some (free_token m client w,
    (if free_token m client w \<noteq> 0 then upd_client c (\<lambda>cl. cl\<lparr>msgID := free_token m client w\<rparr>) ?w' else ?w')
      \<lparr>async_mutex := async_mutex w \<and> \<not> ?locked\<rparr>)"
  proof -
    have m: "async_mutex w1 = async_mutex ?w" using w1(1) by (auto simp: same_queue_def)
    have e: "upd_client c f w1\<lparr>async_mutex := x\<rparr> = upd_client c f ?w'\<lparr>async_mutex := x\<rparr>" for f x
      by (cases w1) (simp add: upd_client_def)
    have u': "MQTTAsync_unlock_mutex w1 = MQTTAsync_unlock_mutex ?w'" "async_mutex (upd_client c f w1) = async_mutex w1" for f
      by (simp_all add: upd_client_def)
    show ?thesis
    proof (cases ?locked)
      case True
      then show ?thesis using w1(2) assms(2) by (simp add: MQTTAsync_assignMsgId_def e)
    next
      case False
      then have mu: "async_mutex w = async_mutex w1" using m by auto
      have w': "?w' = w1" unfolding mu by (cases w1) simp
      have k: "x\<lparr>async_mutex := async_mutex w\<rparr> = x" if "async_mutex x = async_mutex w1" for x :: "('s, 'm) masync_scheme"
        using that mu by (cases x) simp
      have n: "(Thread_getid w \<noteq> sendThread_id w \<and> Thread_getid w \<noteq> receiveThread_id w) = False" using False by simp
      have loc: "assign_loop m (msgID client) (next_id (msgID client)) w = Some (free_token m client w, w1)"
        using w1(2) False by auto
      have "MQTTAsync_assignMsgId m w = Some (free_token m client w,
          if free_token m client w \<noteq> 0 then upd_client c (\<lambda>cl. cl\<lparr>msgID := free_token m client w\<rparr>) w1 else w1)"
        unfolding MQTTAsync_assignMsgId_def using loc assms(2) by (simp add: n Let_def)
      then show ?thesis unfolding w' n by (simp add: k u')
    qed
  qed
  ultimately show ?thesis by auto
qed


subsection \<open>Publishing\<close>

lemma MQTTStrdup_string: "0 \<notin> set t \<Longrightarrow> MQTTStrdup (t @ 0 # r) = Some (t @ [0])"
proof -
  assume t: "0 \<notin> set t"
  have "strncpy_loop (Suc (length t)) (t @ 0 # r) = Some (t @ [0])"
    using t by (induction t) auto
  moreover have "strlen (t @ 0 # r) = length t" using t by (simp add: strlen_def c_str_def takeWhile_append)
  ultimately show ?thesis by (simp add: MQTTStrdup_def MQTTStrncpy_def)
qed

text \<open>A request of the application joins the queue at its end, with the time.\<close>

definition request_at_end ::
  "addr \<Rightarrow> int \<Rightarrow> int \<Rightarrow> MQTTAsync_responseOptions option \<Rightarrow> command_details \<Rightarrow>
     ('s, 'm) masync_scheme \<Rightarrow> ('s, 'm) masync_scheme \<Rightarrow> bool" where
  "request_at_end m type token response d w w' \<longleftrightarrow> (\<exists>start.
     contents (commands w') = contents (commands w) @ [next_command w] \<and>
     queued w' = (queued w)(next_command w \<mapsto>
       \<lparr>q_command = (response_command type token response d)\<lparr>k_start_time := start\<rparr>, q_client = m, q_seqno = 0\<rparr>))"

lemma async_clock_keeps:
  assumes "MQTTAsync_start_clock w = (start, w')"
  shows "queued w' = queued w" "commands w' = commands w" "async_client m w' = async_client m w"
    "next_command w' = next_command w"
  using assms by (auto simp: MQTTAsync_start_clock_def async_now_def async_client_def get_async_def get_client_def
      split: list.splits prod.splits)

lemma add_request_right:
  assumes "type \<noteq> CONNECT" "type \<noteq> DISCONNECT" "async_client m w = Some (c, client)" "persistence client = None"
  shows "\<exists>w'. request_at_end m type token response d w w' \<and>
    add_request m type token response d w = Some ((0, with_token token response), w')"
proof -
  let ?a = "next_command w" and ?k = "response_command type token response d"
  let ?q = "\<lparr>q_command = ?k, q_client = m, q_seqno = 0\<rparr>"
  let ?w1 = "w\<lparr>next_command := ?a + 1, queued := (queued w)(?a \<mapsto> ?q)\<rparr>"
  obtain start w2 where c: "MQTTAsync_start_clock (?w1\<lparr>command_mutex := True\<rparr>) = (start, w2)" by force
  note k = async_clock_keeps [OF c]
  let ?w3 = "w2\<lparr>queued := (queued w2)(?a \<mapsto> ?q\<lparr>q_command := ?k\<lparr>k_start_time := start\<rparr>\<rparr>),
    commands := cl_add (commands w2) ?a 8\<rparr>"
  have t: "k_type ?k = type" by (simp add: response_command_def)
  have "async_client m ?w3 = Some (c, client)"
    using k(3) [of m] assms(3) by (simp add: async_client_def get_async_def get_client_def)
  then have "add_request m type token response d w = Some ((0, with_token token response), ?w3\<lparr>command_mutex := False\<rparr>)"
    using c t assms k(1) by (simp add: add_request_def new_command_def MQTTAsync_addCommand_def upd_command_def)
  moreover have "request_at_end m type token response d w (?w3\<lparr>command_mutex := False\<rparr>)"
    unfolding request_at_end_def using k by (intro exI [of _ start]) (simp add: cl_add_def cl_append_def)
  ultimately show ?thesis by blast
qed

lemma same_queue_client: "same_queue w w' \<Longrightarrow> async_client m w' = async_client m w"
proof -
  assume s: "same_queue w w'"
  then have "rel_option same_handle (get_async m w) (get_async m w')" unfolding same_queue_def by blast
  then show ?thesis
    unfolding async_client_def same_queue_keeps(5) [OF s] by cases (auto simp: same_handle_def)
qed

text \<open>After an id was given out: what a new request needs is there.\<close>

lemma assigned_state:
  assumes "same_queue w w'" "async_client m w = Some (c, client)" "persistence client = None"
    and w1_def: "w1 = (if i \<noteq> 0 then upd_client c (\<lambda>cl. cl\<lparr>msgID := i\<rparr>) w' else w')\<lparr>async_mutex := b\<rparr>"
  shows "\<exists>client'. async_client m w1 = Some (c, client') \<and> persistence client' = None"
    "contents (commands w1) = contents (commands w)" "queued w1 = queued w" "next_command w1 = next_command w"
proof -
  note k = same_queue_keeps [OF assms(1)]
  show "contents (commands w1) = contents (commands w)" "queued w1 = queued w" "next_command w1 = next_command w"
    using k by (simp_all add: w1_def upd_client_def)
  have "async_client m w' = Some (c, client)" using assms(2) same_queue_client [OF assms(1)] by simp
  then show "\<exists>client'. async_client m w1 = Some (c, client') \<and> persistence client' = None"
    using assms(3) by (auto simp: w1_def async_client_def get_async_def get_client_def upd_client_def map_of_update
        split: bind_splits)
qed


text \<open>A connected client without a store, and a queue with one request.\<close>

definition one_async :: "unit masync" where
  "one_async = zero_async
     \<lparr>clients := list_of (\<lambda>_. 0) [zero_client\<lparr>connected := 1, net_socket := 5, msgID := 7\<rparr>],
      async_handles := list_of (\<lambda>_. 0) [new_async ''a'' 1], next_command := 4,
      commands := list_of (\<lambda>_. 0) [3],
      queued := [3 \<mapsto> \<lparr>q_command = zero_command\<lparr>k_type := PUBLISH, k_token := 8\<rparr>, q_client = 1, q_seqno = 0\<rparr>]\<rparr>"

lemmas demo_defs = zero_async_def list_of_def cl_add_def cl_append_def cl_fresh_def cl_empty_def
  async_client_def get_async_def get_client_def new_async_def zero_client_def zero_command_def

lemma one_async_parts:
  "async_client 1 one_async = Some (1, zero_client\<lparr>connected := 1, net_socket := 5, msgID := 7\<rparr>)"
  "contents (commands one_async) = [3]" "used_tokens 1 one_async = {8}" "next_command one_async = 4"
  "token_state 1 one_async"
proof -
  show 1: "async_client 1 one_async = Some (1, zero_client\<lparr>connected := 1, net_socket := 5, msgID := 7\<rparr>)"
    and c: "contents (commands one_async) = [3]" and n: "next_command one_async = 4"
    by (simp_all add: one_async_def demo_defs)
  show u: "used_tokens 1 one_async = {8}"
    by (auto simp: used_tokens_def tokens_def one_async_def demo_defs)
  have "cl_wf (commands one_async)" "get_async 1 one_async = Some (new_async ''a'' 1)"
    by (simp_all add: one_async_def demo_defs cl_wf_def)
  then show "token_state 1 one_async"
    using 1 by (simp add: token_state_def zero_client_def MAX_MSG_ID_def new_async_def)
qed

lemma one_async_token: "free_token 1 (zero_client\<lparr>connected := 1, net_socket := 5, msgID := 7\<rparr>) one_async = 9"
proof -
  have m: "8 \<le> MAX_MSG_ID" "9 \<le> MAX_MSG_ID" by (simp_all add: MAX_MSG_ID_def)
  have "[8..MAX_MSG_ID] = 8 # 9 # [10..MAX_MSG_ID]"
    using upto_rec1 [of 8 MAX_MSG_ID] upto_rec1 [of 9 MAX_MSG_ID] m by simp
  then show ?thesis unfolding free_token_def ids_after_def one_async_parts(3) by (simp add: zero_client_def)
qed



end
