(* ===== verification/AsyncRestore.thy ===== *)
theory AsyncRestore
  imports AsyncTokens
begin

text \<open>
  The asynchronous client: the records of commands in the store.  Publications come back; the records of
  subscriptions cannot be read.
\<close>

text \<open>
  C37: a publication that was stored before it was sent comes back.  Reading the concatenated buffers of a
  PUBLISH command whose numbers fit an \<^verbatim>\<open>int\<close> gives a command with the same message id, topic,
  length, payload, QoS and retained flag; the callbacks are gone.
\<close>

theorem command_roundtrip:
  assumes "command_bufs k = Some bufs" "k_type k = PUBLISH" "k_details k = PubDetails dest n pl qos retained"
    "int32 (k_token k)" "int32 n" "int32 qos" "int32 retained"
  shows "MQTTAsync_restoreCommand (concat bufs) = Some (Some (zero_command\<lparr>k_type := PUBLISH, k_token := k_token k,
    k_details := PubDetails (map_option (\<lambda>t. c_str t @ [0]) dest) n (take (nat n) pl) qos retained\<rparr>))"
proof -
  obtain d where d: "dest = Some d" and n: "0 \<le> n" "nat n \<le> length pl"
    and b: "bufs = [int_bytes PUBLISH, int_bytes (k_token k), c_str d @ [0], int_bytes n, take (nat n) pl,
      int_bytes qos, int_bytes retained]"
    using assms(1,2,3) by (auto simp: command_bufs_def Let_def rd_bytes_def bind_eq_Some_conv split: if_splits)
  define t where "t = c_str d"
  define s where "s = take (nat n) pl"
  let ?h = "int_bytes PUBLISH @ int_bytes (k_token k)"
  have buf: "concat bufs = ?h @ t @ 0 # int_bytes n @ s @ int_bytes qos @ int_bytes retained"
    unfolding b t_def s_def by simp
  have len: "length s = nat n" using n by (simp add: s_def)
  have "int32 PUBLISH" by (simp add: int32_def PUBLISH_def)
  then have r0: "read_int32 (concat bufs) 0 = Some PUBLISH"
    using read_int32_at [of "[]" 0 PUBLISH] unfolding buf by simp
  have r1: "read_int32 (concat bufs) 4 = Some (k_token k)"
    using read_int32_at [of "int_bytes PUBLISH" 4] assms(4) unfolding buf by simp
  have r2: "read_c_string (concat bufs) 8 = Some t"
    using read_c_string_at [of ?h 8 t] unfolding buf by (simp add: t_def)
  have r3: "read_int32 (concat bufs) (8 + length t + 1) = Some n"
    using read_int32_at [of "?h @ t @ [0]" "8 + length t + 1"] assms(5) unfolding buf by simp
  have r4: "rd_bytes (concat bufs) (8 + length t + 1 + 4) (nat n) = Some s"
    using rd_bytes_middle [of "?h @ t @ 0 # int_bytes n" "8 + length t + 1 + 4" s] len unfolding buf by simp
  have r5: "read_int32 (concat bufs) (8 + length t + 1 + 4 + nat n) = Some qos"
    using read_int32_at [of "?h @ t @ 0 # int_bytes n @ s" "8 + length t + 1 + 4 + nat n"] assms(6) len unfolding buf by simp
  have r6: "read_int32 (concat bufs) (8 + length t + 1 + 4 + nat n + 4) = Some retained"
    using read_int32_at [of "?h @ t @ 0 # int_bytes n @ s @ int_bytes qos" "8 + length t + 1 + 4 + nat n + 4" retained "[]"]
      assms(7) len unfolding buf by simp
  have "PUBLISH \<noteq> SUBSCRIBE \<and> PUBLISH \<noteq> UNSUBSCRIBE" by (simp add: PUBLISH_def SUBSCRIBE_def UNSUBSCRIBE_def)
  then show ?thesis
    unfolding MQTTAsync_restoreCommand_def using r0 r1 r2 r3 r4 r5 r6 n(1) d by (simp add: t_def s_def)
qed

theorem command_roundtrip_witness:
  "MQTTAsync_restoreCommand [3, 0, 0, 0, 7, 0, 0, 0, 0x74, 0, 2, 0, 0, 0, 0x68, 0x69, 1, 0, 0, 0, 0, 0, 0, 0] =
     Some (Some (zero_command\<lparr>k_type := PUBLISH, k_token := 7, k_details := PubDetails (Some [0x74, 0]) 2 [0x68, 0x69] 1 0\<rparr>))"
proof -
  let ?k = "zero_command\<lparr>k_type := PUBLISH, k_token := 7, k_onSuccess := 9,
    k_details := PubDetails (Some [0x74, 0]) 2 [0x68, 0x69] 1 0\<rparr>"
  have b: "command_bufs ?k = Some [[3, 0, 0, 0], [7, 0, 0, 0], [0x74, 0], [2, 0, 0, 0], [0x68, 0x69], [1, 0, 0, 0], [0, 0, 0, 0]]"
    by code_simp
  from command_roundtrip [OF b] show ?thesis by (simp add: int32_def c_str_def)
qed



end
