(* ===== verification/AsyncErrors.thy ===== *)
theory AsyncErrors
  imports AsyncTokens Session
begin

text \<open>
  The asynchronous client: closing a connection, and errors of the library on the way: a slow
  disconnect, the end of the array of addresses, and the end of a partial write.
\<close>

lemma more_async:
  fixes w w' :: "('s, 'm) masync_scheme"
  assumes "proto.more w' = proto.more w"
  shows "async_handles w' = async_handles w" "commands w' = commands w" "queued w' = queued w"
    "next_command w' = next_command w" "uri_arrays w' = uri_arrays w" "async_clock w' = async_clock w" "calls w' = calls w"
    "get_async m w' = get_async m w" "command_mutex w' = command_mutex w" "async_mutex w' = async_mutex w"
  using assms by (cases w; cases w'; simp add: get_async_def)+

lemma async_closeOnly:
  assumes "get_client c w = Some cl"
  obtains w' cl' where "MQTTAsync_closeOnly c w = Some w'" "get_client c w' = Some cl'" "connected cl' = 0"
    "connect_state cl' = 0" "net_socket cl' \<le> 0" "proto.more w' = proto.more w" "pubs w' = pubs w" "addrs (clients w') = addrs (clients w)"
    "quiet_client (cl\<lparr>good := 0, ping_outstanding := 0, connected := 0, connect_state := 0\<rparr>) (cl'\<lparr>net_socket := net_socket cl\<rparr>)"
proof -
  let ?f1 = "\<lambda>cl. cl\<lparr>good := 0, ping_outstanding := 0\<rparr>"
  let ?w1 = "upd_client c ?f1 w"
  have g1: "get_client c ?w1 = Some (?f1 cl)" using assms by (simp add: get_upd_client)
  obtain w2 cl2 where w2: "(if net_socket cl > 0 then do {
         (_, w2) \<leftarrow> (if connected cl \<noteq> 0 then MQTTPacket_send_disconnect c ?w1 else Some (0, ?w1));
         let w3 = Socket_close (net_socket cl) w2;
         Some (upd_client c (\<lambda>cl. cl\<lparr>net_socket := 0\<rparr>) w3)
       } else Some ?w1) = Some w2"
    "get_client c w2 = Some cl2" "quiet_client (?f1 cl) (cl2\<lparr>net_socket := net_socket cl\<rparr>)" "net_socket cl2 \<le> 0"
    "pubs w2 = pubs w" "proto.more w2 = proto.more w" "addrs (clients w2) = addrs (clients w)"
    by (rule close_socket_result [OF g1, of "net_socket cl" "connected cl"]) (simp_all add: upd_client_def)
  let ?f4 = "\<lambda>cl. cl\<lparr>connected := 0, connect_state := 0\<rparr>"
  let ?w4 = "upd_client c ?f4 w2"
  have f1: "net_socket (?f1 cl) = net_socket cl" "connected (?f1 cl) = connected cl" by simp_all
  have run: "MQTTAsync_closeOnly c w = Some ?w4"
    by (simp only: MQTTAsync_closeOnly_def Let_def g1 Option.bind.simps f1 w2(1) [unfolded Let_def])
  have "quiet_client (cl\<lparr>good := 0, ping_outstanding := 0, connected := 0, connect_state := 0\<rparr>) (?f4 cl2\<lparr>net_socket := net_socket cl\<rparr>)"
    using w2(3) unfolding quiet_client_def by (cases cl; cases cl2) simp
  moreover have "addrs (clients ?w4) = addrs (clients w)" using w2(7) by (simp add: upd_client_def)
  ultimately show thesis using that [OF run] w2(2,4-6) by (simp add: get_upd_client)
qed


definition disconnecting_async :: "unit masync" where
  "disconnecting_async = zero_async
     \<lparr>clients := list_of (\<lambda>_. 0) [zero_client\<lparr>connected := 1, net_socket := 5, connect_state := -2\<rparr>],
      async_handles := list_of (\<lambda>_. 0) [(new_async ''a'' 1)
        \<lparr>as_connect := zero_command\<lparr>k_type := CONNECT, k_details := ConnDetails 30 0 None 0 4\<rparr>\<rparr>],
      async_clock := [(31000, 100)]\<rparr>"


text \<open>
  The addresses of a connect run out one too late.  When the last address of the array has been tried
  with the last version, \<^verbatim>\<open>MQTTAsync_checkConn\<close> still allows another attempt, which steps behind the end
  of the array and reads the address there; with a fixed version and a single address this is the first
  attempt.
\<close>

theorem last_address_overrun:
  assumes "k_details k = ConnDetails t (int (length uris)) (Some u) (int (length uris) - 1) v" "uris \<noteq> []"
    "uri_arrays w u = Some uris" "MQTTVersion client \<noteq> MQTTVERSION_DEFAULT \<or> v = 3"
  shows "MQTTAsync_checkConn k client \<and> connect_address (k_details k) (MQTTVersion client) uri w = None"
  using assms by (auto simp: MQTTAsync_checkConn_def connect_address_def nat_add_distrib)

theorem last_address_overrun_witness:
  "MQTTAsync_checkConn (zero_command\<lparr>k_details := ConnDetails 30 1 (Some 1) 0 0\<rparr>) (zero_client\<lparr>MQTTVersion := 4\<rparr>) \<and>
   connect_address (ConnDetails 30 1 (Some 1) 0 0) 4 ''h'' ((zero_async :: unit masync)\<lparr>uri_arrays := [1 \<mapsto> [''a'']]\<rparr>) = None"
  using last_address_overrun [of "zero_command\<lparr>k_details := ConnDetails 30 1 (Some 1) 0 0\<rparr>" 30 "[''a'']" 1 0
    "(zero_async :: unit masync)\<lparr>uri_arrays := [1 \<mapsto> [''a'']]\<rparr>" "zero_client\<lparr>MQTTVersion := 4\<rparr>" "''h''"]
  by (simp add: MQTTVERSION_DEFAULT_def)

lemma unlink_first:
  assumes "cl_wf l" "contents l = b # rest" "distinct (contents l)"
  obtains l' where "cl_unlink (\<lambda>x. x = b) l = (Some b, l')" "contents l' = rest" "cl_wf l'"
proof -
  obtain a ys where it: "items l = [] @ (a, b) # ys" "map snd ys = rest" using assms(2) by (cases "items l") auto
  have "cl_unlink (\<lambda>x. x = b) l = cl_remove_at a l" by (rule cl_unlink_content [OF assms(1) it(1) assms(3)])
  also have "\<dots> = (Some b, l\<lparr>items := ys, cur := (if cur l = Some a then hd_addr ys else cur l), cnt := cnt l - 1\<rparr>)"
    using cl_remove_at_split [OF it(1) assms(1)] by simp
  finally show thesis using that it(2) cl_wf_unlink [OF assms(1)] by fastforce
qed

text \<open>
  C40: the end of a partial write takes the wrong request away.  When the write of a QoS 0 publication is
  finished while an older request waits for its answer, \<^verbatim>\<open>MQTTAsync_writeComplete\<close> calls the success
  callback of the publication but frees the older request, whose callbacks are never called; the
  publication stays on the list for good.
\<close>

theorem write_complete_frees_first:
  assumes "get_async m w = Some h" "contents (as_responses h) = b # rest" "cl_wf (as_responses h)"
    "distinct (contents (as_responses h))" "queued w b = Some qb" "q_client qb = m" "as_pending_write h = Some a"
    "a \<in> set rest" "queued w a = Some qa"
  shows "\<exists>w' h'. finish_pending (\<lambda>_. Some) m a w = Some w' \<and> queued w' b = None \<and> queued w' a = Some qa \<and>
    get_async m w' = Some h' \<and> contents (as_responses h') = rest \<and> as_pending_write h' = None \<and>
    calls w' = calls w @ (if k_onSuccess (q_command qa) = 0 then []
      else [OnSuccess (k_onSuccess (q_command qa)) (pub_data (q_command qa))])"
proof -
  let ?f = "\<lambda>h. h\<lparr>as_pending_write := None\<rparr>"
  let ?w1 = "if k_onSuccess (q_command qa) = 0 then w else w\<lparr>calls := calls w @
      [OnSuccess (k_onSuccess (q_command qa)) (pub_data (q_command qa))]\<rparr>"
  have p: "pending_response (Some a) (contents (as_responses h)) None w = Some (True, Some b)"
    using assms(1,2,5-7) by simp
  have s: "on_success (\<lambda>_. Some) (q_command qa) (pub_data (q_command qa)) w = Some ?w1"
    by (simp add: on_success_def callback_def)
  obtain l where l: "cl_unlink (\<lambda>x. x = b) (as_responses h) = (Some b, l)" "contents l = rest"
    by (rule unlink_first [OF assms(3,2,4)])
  let ?g = "\<lambda>h. h\<lparr>as_responses := snd (cl_unlink (\<lambda>x. x = b) (as_responses h))\<rparr>"
  let ?w2 = "upd_async m ?g (upd_async m ?f ?w1)"
  have q: "queued ?w2 = queued w" "calls ?w2 = calls ?w1" by (simp_all add: upd_async_def)
  have g1: "get_async m ?w1 = Some h" using assms(1) by (simp add: get_async_def)
  have g: "get_async m ?w2 = Some (?g (?f h))" unfolding get_upd_async g1 by simp
  let ?w3 = "?w2\<lparr>queued := (queued w)(b := None)\<rparr>"
  have "finish_pending (\<lambda>_. Some) m a w = MQTTAsync_freeCommand b ?w2"
    unfolding finish_pending_def using assms(1,9) p s by simp
  also have "\<dots> = Some ?w3"
    using assms(5) q by (simp add: MQTTAsync_freeCommand_def MQTTAsync_freeCommand1_def free_command_def)
  finally have "finish_pending (\<lambda>_. Some) m a w = Some ?w3" .
  moreover have "get_async m ?w3 = Some (?g (?f h))" using g by (simp add: get_async_def)
  moreover have "b \<noteq> a" using assms(2,4,8) by auto
  ultimately show ?thesis
    using l q assms(9) by (intro exI [of _ ?w3] exI [of _ "?g (?f h)"]) simp
qed

definition writing_async :: "unit masync" where
  "writing_async = zero_async
     \<lparr>async_handles := list_of (\<lambda>_. 0) [(new_async ''a'' 1)
        \<lparr>as_responses := list_of (\<lambda>_. 0) [3, 4], as_pending_write := Some 4\<rparr>],
      queued := [3 \<mapsto> \<lparr>q_command = zero_command\<lparr>k_type := SUBSCRIBE, k_token := 1\<rparr>, q_client = 1, q_seqno = 0\<rparr>,
                 4 \<mapsto> \<lparr>q_command = zero_command\<lparr>k_type := PUBLISH\<rparr>, q_client = 1, q_seqno = 0\<rparr>]\<rparr>"

theorem write_complete_frees_first_witness:
  "\<exists>w'. finish_pending (\<lambda>_. Some) 1 4 writing_async = Some w' \<and> queued w' 3 = None \<and> queued w' 4 \<noteq> None"
proof -
  have "get_async 1 writing_async = Some ((new_async ''a'' 1)
        \<lparr>as_responses := list_of (\<lambda>_. 0) [3, 4], as_pending_write := Some 4\<rparr>)"
    by (simp add: writing_async_def demo_defs)
  from write_complete_frees_first [OF this, of 3 "[4]" _ 4] show ?thesis
    by (fastforce simp: writing_async_def demo_defs cl_wf_def)
qed

text \<open>The early exits of \<^verbatim>\<open>MQTTAsync_waitForCompletion\<close> leave the mutex locked.\<close>

lemma waitForCompletion_keeps_mutex:
  assumes "handle = None \<or> (\<exists>m c client. handle = Some m \<and> async_client m w = Some (c, client) \<and> connected client = 0)"
  shows "\<exists>rc w'. MQTTAsync_waitForCompletion env handle dt timeout w = Some (rc, w') \<and> async_mutex w' \<and>
    rc \<in> {MQTTASYNC_FAILURE, MQTTASYNC_DISCONNECTED}"
proof -
  obtain start w1 where c: "MQTTAsync_start_clock w = (start, w1)" by force
  have "async_client m (w1\<lparr>async_mutex := True\<rparr>) = async_client m w" for m
    using async_clock_keeps(3) [OF c, of m] by (simp add: async_client_def get_async_def get_client_def)
  then show ?thesis using assms c by (auto simp: MQTTAsync_waitForCompletion_def)
qed

end
