(* ===== verification/AsyncOwn.thy ===== *)
theory AsyncOwn
  imports AsyncErrors
begin

text \<open>
  Who owns a command.  Every command in the store is in exactly one place: in the queue, on the list of
  responses of its handle, or held by the function at work (\<open>X\<close>); nothing else is in the store and
  nothing in these places is not.  So no command is freed twice, used after it was freed, or lost.
\<close>

subsection \<open>The ledger\<close>

definition ledger ::
  "addr set \<Rightarrow> addr list \<Rightarrow> (addr \<Rightarrow> addr list) \<Rightarrow> (addr \<rightharpoonup> MQTTAsync_queuedCommand) \<Rightarrow> addr set \<Rightarrow> addr \<Rightarrow> bool" where
  "ledger X cs rs q hs n \<longleftrightarrow> distinct cs \<and> set cs \<inter> X = {} \<and> dom q = set cs \<union> (\<Union>m. set (rs m)) \<union> X \<and>
     (\<forall>m. distinct (rs m) \<and> (\<forall>a\<in>set (rs m). a \<notin> set cs \<and> a \<notin> X \<and> map_option q_client (q a) = Some m)) \<and>
     (\<forall>a k. q a = Some k \<longrightarrow> q_client k \<in> hs \<and> a < n)"

lemma ledgerD:
  assumes "ledger X cs rs q hs n"
  shows "distinct cs" "set cs \<inter> X = {}" "dom q = set cs \<union> (\<Union>m. set (rs m)) \<union> X" "distinct (rs m)"
    "a \<in> set (rs m) \<Longrightarrow> a \<notin> set cs \<and> a \<notin> X \<and> map_option q_client (q a) = Some m"
    "q a = Some k \<Longrightarrow> q_client k \<in> hs \<and> a < n"
  using assms unfolding ledger_def by auto

lemma ledgerI:
  assumes "distinct cs" "set cs \<inter> X = {}" "dom q = set cs \<union> (\<Union>m. set (rs m)) \<union> X" "\<And>m. distinct (rs m)"
    "\<And>a m. a \<in> set (rs m) \<Longrightarrow> a \<notin> set cs \<and> a \<notin> X \<and> map_option q_client (q a) = Some m"
    "\<And>a k. q a = Some k \<Longrightarrow> q_client k \<in> hs \<and> a < n"
  shows "ledger X cs rs q hs n"
  using assms unfolding ledger_def by blast

lemma ledger_new:
  assumes l: "ledger X cs rs q hs n" and k: "q_client k \<in> hs"
  shows "ledger (insert n X) cs rs (q(n \<mapsto> k)) hs (n + 1)"
proof -
  note d = ledgerD [OF l]
  have n: "n \<notin> dom q" using d(6) by force
  show ?thesis
  proof (rule ledgerI)
    show "set cs \<inter> insert n X = {}" using n d(2,3) by auto
    show "dom (q(n \<mapsto> k)) = set cs \<union> (\<Union>m. set (rs m)) \<union> insert n X" using d(3) by auto
    show "a \<notin> set cs \<and> a \<notin> insert n X \<and> map_option q_client ((q(n \<mapsto> k)) a) = Some m" if "a \<in> set (rs m)" for a m
    proof -
      have "a \<in> dom q" using that d(3) by auto
      then show ?thesis using n d(5) [OF that] by auto
    qed
    show "q_client k' \<in> hs \<and> a < n + 1" if "(q(n \<mapsto> k)) a = Some k'" for a k'
      using that k d(6) [of a k'] by (auto split: if_splits)
  qed (rule d)+
qed

lemma ledger_queue:
  "ledger (insert a X) cs rs q hs n \<Longrightarrow> a \<notin> X \<Longrightarrow> distinct cs' \<Longrightarrow> set cs' = insert a (set cs) \<Longrightarrow> ledger X cs' rs q hs n"
  unfolding ledger_def by auto

lemma ledger_take:
  "ledger X cs rs q hs n \<Longrightarrow> a \<in> set cs \<Longrightarrow> distinct cs' \<Longrightarrow> set cs' = set cs - {a} \<Longrightarrow> ledger (insert a X) cs' rs q hs n"
  unfolding ledger_def by auto

lemma ledger_update:
  assumes l: "ledger X cs rs q hs n" and k: "q a = Some k" "q_client k' = q_client k"
  shows "ledger X cs rs (q(a \<mapsto> k')) hs n"
proof -
  note d = ledgerD [OF l]
  have "dom (q(a \<mapsto> k')) = dom q" using k(1) by auto
  then show ?thesis
    using d k by (intro ledgerI) (auto split: if_splits dest: d(5))
qed

lemma ledger_free:
  "ledger (insert a X) cs rs q hs n \<Longrightarrow> a \<notin> X \<Longrightarrow> ledger X cs rs (q(a := None)) hs n"
  unfolding ledger_def by auto

lemma ledger_respond:
  "ledger (insert a X) cs rs q hs n \<Longrightarrow> a \<notin> X \<Longrightarrow> map_option q_client (q a) = Some m \<Longrightarrow>
     ledger X cs (rs(m := rs m @ [a])) q hs n"
  unfolding ledger_def by (auto split: if_splits)

lemma ledger_answer:
  "ledger X cs rs q hs n \<Longrightarrow> a \<in> set (rs m) \<Longrightarrow> distinct r \<Longrightarrow> set r = set (rs m) - {a} \<Longrightarrow>
     ledger (insert a X) cs (rs(m := r)) q hs n"
proof -
  assume l: "ledger X cs rs q hs n" and a: "a \<in> set (rs m)" and r: "distinct r" "set r = set (rs m) - {a}"
  note d = ledgerD [OF l]
  have o: "b = m" if "a \<in> set (rs b)" for b using d(5) [OF a] d(5) [OF that] by simp
  have u: "(\<Union>b. set ((rs(m := r)) b)) = (\<Union>b. set (rs b)) - {a}"
    using r(2) o by (auto split: if_splits)
  show ?thesis
  proof (rule ledgerI)
    show "set cs \<inter> insert a X = {}" using d(2) d(5) [OF a] by auto
    show "dom q = set cs \<union> (\<Union>b. set ((rs(m := r)) b)) \<union> insert a X" unfolding u d(3) using a by auto
    show "distinct ((rs(m := r)) b)" for b using d(4) r(1) by simp
    show "b \<notin> set cs \<and> b \<notin> insert a X \<and> map_option q_client (q b) = Some c" if "b \<in> set ((rs(m := r)) c)" for b c
    proof -
      have "b \<in> set (rs c)" "b \<noteq> a" using that r(2) o by (auto split: if_splits)
      then show ?thesis using d(5) by simp
    qed
  qed (rule d, assumption?)+
qed

subsection \<open>The ledger of a state\<close>

definition waiting :: "('s, 'm) masync_scheme \<Rightarrow> addr \<Rightarrow> addr list" where
  "waiting w m = (case get_async m w of None \<Rightarrow> [] | Some h \<Rightarrow> contents (as_responses h))"

definition owned :: "addr set \<Rightarrow> ('s, 'm) masync_scheme \<Rightarrow> bool" where
  "owned X w \<longleftrightarrow> cl_wf (commands w) \<and>
     (\<forall>m h. get_async m w = Some h \<longrightarrow> cl_wf (as_responses h) \<and> as_c h \<in> set (addrs (clients w))) \<and>
     ledger X (contents (commands w)) (waiting w) (queued w) {m. get_async m w \<noteq> None} (next_command w)"

text \<open>Steps that leave the commands and the handles alone.\<close>

definition kept :: "('s, 'm) proto_scheme \<Rightarrow> ('s, 'm) proto_scheme \<Rightarrow> bool" where
  "kept w w' \<longleftrightarrow> proto.more w' = proto.more w \<and> addrs (clients w') = addrs (clients w)"

named_theorems keeps

lemma kept_refl [simp]: "kept w w"
  by (simp add: kept_def)

lemma kept_trans: "kept w w1 \<Longrightarrow> kept w1 w2 \<Longrightarrow> kept w w2"
  by (simp add: kept_def)

lemma kept_quiet: "quiet w w' \<Longrightarrow> kept w w'"
  by (simp add: kept_def quiet_def)

lemma kept_sockets: "sockets.more w' = sockets.more w \<Longrightarrow> kept w w'"
  by (rule kept_quiet) (rule quiet_sockets)

lemma kept_upd_client [simp]: "kept w (upd_client c f w)"
  by (simp add: kept_def upd_client_def)

lemma owned_cong:
  assumes "commands w' = commands w" "async_handles w' = async_handles w" "queued w' = queued w"
    "next_command w' = next_command w" "addrs (clients w') = addrs (clients w)"
  shows "owned X w' \<longleftrightarrow> owned X w"
proof -
  have "get_async m w' = get_async m w" for m using assms(2) by (simp add: get_async_def)
  then show ?thesis using assms by (simp add: owned_def waiting_def [abs_def])
qed

lemma owned_kept: "kept w w' \<Longrightarrow> owned X w' \<longleftrightarrow> owned X w" for w w' :: "('s, 'm) masync_scheme"
  using more_async(1-4) [of w' w] by (intro owned_cong) (auto simp: kept_def)

lemma owned_simps [simp]:
  "owned X (w\<lparr>async_mutex := b\<rparr>) \<longleftrightarrow> owned X w" "owned X (w\<lparr>command_mutex := b\<rparr>) \<longleftrightarrow> owned X w"
  "owned X (w\<lparr>calls := ks\<rparr>) \<longleftrightarrow> owned X w" "owned X (w\<lparr>timeouts_last := t\<rparr>) \<longleftrightarrow> owned X w"
  "owned X (w\<lparr>uri_arrays := us\<rparr>) \<longleftrightarrow> owned X w" "owned X (w\<lparr>sendThread_state := s\<rparr>) \<longleftrightarrow> owned X w"
  "owned X (w\<lparr>sendThread_id := i\<rparr>) \<longleftrightarrow> owned X w" "owned X (upd_client c f w) \<longleftrightarrow> owned X w"
  by (rule owned_cong; simp add: upd_client_def)+

lemma owned_live: "owned X w \<Longrightarrow> queued w a = Some q \<Longrightarrow> get_async (q_client q) w \<noteq> None"
  by (auto simp: owned_def ledger_def)

lemma owned_held: "owned X w \<Longrightarrow> a \<in> X \<Longrightarrow> queued w a \<noteq> None"
  by (auto simp: owned_def ledger_def)

subsection \<open>Steps on commands\<close>

lemma owned_async: "owned X w \<Longrightarrow> get_async m w = Some h \<Longrightarrow>
    cl_wf (as_responses h) \<and> distinct (contents (as_responses h)) \<and> as_c h \<in> set (addrs (clients w))"
  by (auto simp: owned_def waiting_def dest: ledgerD(4) [where m = m])

lemma owned_upd_async:
  assumes "owned X w" "\<And>h. as_responses (f h) = as_responses h \<and> as_c (f h) = as_c h"
  shows "owned X (upd_async m f w)"
proof -
  have g: "get_async b (upd_async m f w) = map_option (\<lambda>h. if b = m then f h else h) (get_async b w)" for b
    by (rule get_upd_async)
  have "waiting (upd_async m f w) = waiting w"
    using assms(2) by (auto simp: waiting_def g fun_eq_iff split: option.split)
  moreover have "{b. get_async b (upd_async m f w) \<noteq> None} = {b. get_async b w \<noteq> None}" by (simp add: g)
  moreover have "commands (upd_async m f w) = commands w" "queued (upd_async m f w) = queued w"
    "next_command (upd_async m f w) = next_command w" "clients (upd_async m f w) = clients w" by (simp_all add: upd_async_def)
  ultimately show ?thesis using assms unfolding owned_def by (auto simp: g split: if_splits)
qed

lemma owned_set_queued:
  assumes "owned X w" "ledger Y (contents (commands w)) (waiting w) q {m. get_async m w \<noteq> None} n"
  shows "owned Y (w\<lparr>queued := q, next_command := n\<rparr>)"
proof -
  have "get_async m (w\<lparr>queued := q, next_command := n\<rparr>) = get_async m w" for m by (simp add: get_async_def)
  then show ?thesis using assms unfolding owned_def by (simp add: waiting_def [abs_def])
qed

lemma owned_set_commands:
  assumes "owned X w" "cl_wf cs" "ledger Y (contents cs) (waiting w) (queued w) {m. get_async m w \<noteq> None} (next_command w)"
  shows "owned Y (w\<lparr>commands := cs\<rparr>)"
proof -
  have "get_async m (w\<lparr>commands := cs\<rparr>) = get_async m w" for m by (simp add: get_async_def)
  then show ?thesis using assms unfolding owned_def by (simp add: waiting_def [abs_def])
qed

lemma owned_set_responses:
  assumes "owned X w" "get_async m w = Some h" "cl_wf (l (as_responses h))"
    "ledger Y (contents (commands w)) ((waiting w)(m := contents (l (as_responses h)))) (queued w)
       {m. get_async m w \<noteq> None} (next_command w)"
  shows "owned Y (upd_async m (\<lambda>h. h\<lparr>as_responses := l (as_responses h)\<rparr>) w)"
proof -
  let ?w = "upd_async m (\<lambda>h. h\<lparr>as_responses := l (as_responses h)\<rparr>) w"
  have g: "get_async b ?w = map_option (\<lambda>h. if b = m then h\<lparr>as_responses := l (as_responses h)\<rparr> else h) (get_async b w)" for b
    by (rule get_upd_async)
  have "waiting ?w = (waiting w)(m := contents (l (as_responses h)))"
    using assms(2) by (auto simp: waiting_def g fun_eq_iff split: option.split)
  moreover have "{b. get_async b ?w \<noteq> None} = {b. get_async b w \<noteq> None}" by (simp add: g)
  moreover have "commands ?w = commands w" "queued ?w = queued w" "next_command ?w = next_command w" "clients ?w = clients w"
    by (simp_all add: upd_async_def)
  ultimately show ?thesis using assms unfolding owned_def by (auto simp: g split: if_splits)
qed

lemma owned_ledger:
  "owned X w \<Longrightarrow> ledger X (contents (commands w)) (waiting w) (queued w) {m. get_async m w \<noteq> None} (next_command w)"
  "owned X w \<Longrightarrow> cl_wf (commands w)"
  by (simp_all add: owned_def)

lemma owned_new:
  assumes "new_command m k w = (a, w')" "owned X w" "get_async m w \<noteq> None"
  shows "owned (insert a X) w'" "a \<notin> X"
proof -
  note l = owned_ledger(1) [OF assms(2)]
  have "owned (insert (next_command w) X) (w\<lparr>queued := (queued w)(next_command w \<mapsto> \<lparr>q_command = k, q_client = m, q_seqno = 0\<rparr>),
      next_command := next_command w + 1\<rparr>)"
    using ledger_new [OF l] assms(3) by (intro owned_set_queued [OF assms(2)]) simp
  moreover have "a = next_command w" "w' = w\<lparr>queued := (queued w)(next_command w \<mapsto>
      \<lparr>q_command = k, q_client = m, q_seqno = 0\<rparr>), next_command := next_command w + 1\<rparr>"
    using assms(1) by (cases w, auto simp: new_command_def)+
  ultimately show "owned (insert a X) w'" by simp
  show "a \<notin> X"
  proof
    assume "a \<in> X"
    then have "a \<in> dom (queued w)" using ledgerD(3) [OF l] by auto
    then show False using ledgerD(6) [OF l] assms(1) by (force simp: new_command_def)
  qed
qed

lemma owned_upd:
  assumes "upd_command a f w = Some w'" "owned X w" "\<And>q. q_client (f q) = q_client q"
  shows "owned X w'"
proof -
  obtain q where q: "queued w a = Some q" "w' = w\<lparr>queued := (queued w)(a \<mapsto> f q)\<rparr>" using assms(1) by (auto simp: upd_command_def)
  have "owned X (w\<lparr>queued := (queued w)(a \<mapsto> f q), next_command := next_command w\<rparr>)"
    using ledger_update [OF owned_ledger(1) [OF assms(2)] q(1)] assms(3) by (intro owned_set_queued [OF assms(2)]) simp
  then show ?thesis using q(2) by simp
qed

lemma owned_free:
  assumes "MQTTAsync_freeCommand a w = Some w'" "owned (insert a X) w" "a \<notin> X"
  shows "owned X w'"
proof -
  have w': "w' = w\<lparr>queued := (queued w)(a := None), next_command := next_command w\<rparr>"
    using assms(1) by (auto simp: MQTTAsync_freeCommand_def MQTTAsync_freeCommand1_def free_command_def bind_eq_Some_conv)
  show ?thesis unfolding w' by (rule owned_set_queued [OF assms(2) ledger_free [OF owned_ledger(1) [OF assms(2)] assms(3)]])
qed

lemma free_defined: "owned X w \<Longrightarrow> a \<in> X \<Longrightarrow> \<exists>w'. MQTTAsync_freeCommand a w = Some w'"
  using owned_held [of X w a] by (auto simp: MQTTAsync_freeCommand_def MQTTAsync_freeCommand1_def free_command_def)

lemma contents_add_before:
  assumes "cl_wf l" "idx = None \<or> idx = hd_addr (items l)"
  shows "contents (cl_add_before l x s idx) = (if idx = None then contents l @ [x] else x # contents l)"
  using assms by (cases "items l") (auto simp: cl_add_before_def cl_insert_def cl_append_def)

lemma owned_queue:
  assumes "owned (insert a X) w" "a \<notin> X" "idx = None \<or> idx = hd_addr (items (commands w))"
  shows "owned X (w\<lparr>commands := cl_add_before (commands w) a s idx\<rparr>)"
proof -
  note l = owned_ledger [OF assms(1)]
  have a: "a \<notin> set (contents (commands w))" using ledgerD(2) [OF l(1)] by auto
  note c = contents_add_before [OF l(2) assms(3), of a s]
  have "cl_wf (cl_add_before (commands w) a s idx)"
    using assms(3) hd_addr_in [of "items (commands w)"] by (intro cl_wf_add_before l(2)) auto
  moreover have "distinct (contents (cl_add_before (commands w) a s idx))"
    "set (contents (cl_add_before (commands w) a s idx)) = insert a (set (contents (commands w)))"
    unfolding c using a ledgerD(1) [OF l(1)] by auto
  ultimately show ?thesis by (intro owned_set_commands [OF assms(1)] ledger_queue [OF l(1) assms(2)])
qed

lemma add_is_before: "cl_add l x s = cl_add_before l x s None"
  by (simp add: cl_add_def cl_add_before_def cl_insert_def)

lemma contents_unlink:
  assumes "cl_wf l" "distinct (contents l)"
  shows "contents (snd (cl_unlink (\<lambda>x. x = a) l)) = filter (\<lambda>b. b \<noteq> a) (contents l)"
  using assms(1)
proof (cases rule: cl_unlink_cases [where P = "\<lambda>x. x = a"])
  case (absent l')
  then have "filter (\<lambda>b. b \<noteq> a) (contents l) = contents l" by (auto simp: filter_id_conv)
  then show ?thesis using absent by simp
next
  case (removed xs b c ys l')
  then have "a \<notin> set (map snd xs)" "a \<notin> set (map snd ys)" using assms(2) by auto
  then have "filter (\<lambda>b. b \<noteq> a) (map snd xs) = map snd xs" "filter (\<lambda>b. b \<noteq> a) (map snd ys) = map snd ys"
    by (auto simp: filter_id_conv)
  then show ?thesis using removed by simp
qed

lemma owned_take:
  assumes "owned X w" "a \<in> set (contents (commands w))"
  shows "owned (insert a X) (w\<lparr>commands := snd (cl_unlink (\<lambda>x. x = a) (commands w))\<rparr>)"
    "contents (snd (cl_unlink (\<lambda>x. x = a) (commands w))) = filter (\<lambda>b. b \<noteq> a) (contents (commands w))"
proof -
  note l = owned_ledger [OF assms(1)]
  note d = ledgerD(1) [OF l(1)]
  show c: "contents (snd (cl_unlink (\<lambda>x. x = a) (commands w))) = filter (\<lambda>b. b \<noteq> a) (contents (commands w))"
    by (rule contents_unlink [OF l(2) d])
  show "owned (insert a X) (w\<lparr>commands := snd (cl_unlink (\<lambda>x. x = a) (commands w))\<rparr>)"
    using d c by (intro owned_set_commands [OF assms(1)] ledger_take [OF l(1) assms(2)])
      (auto intro: cl_wf_unlink [OF l(2)] prod.collapse [symmetric])
qed

lemma owned_respond:
  assumes "owned (insert a X) w" "a \<notin> X" "queued w a = Some q" "q_client q = m"
  shows "owned X (append_response m a w)"
proof -
  obtain h where h: "get_async m w = Some h" using owned_live [OF assms(1,3)] assms(4) by auto
  have wt: "waiting w m = contents (as_responses h)" by (simp add: waiting_def h)
  have c: "contents (cl_add (as_responses h) a 8) = waiting w m @ [a]" by (simp add: cl_add_def cl_append_def wt)
  have "owned X (upd_async m (\<lambda>h. h\<lparr>as_responses := cl_add (as_responses h) a 8\<rparr>) w)"
  proof (rule owned_set_responses [OF assms(1) h])
    show "cl_wf (cl_add (as_responses h) a 8)" using owned_async [OF assms(1) h] by (intro cl_wf_add) simp
  qed (unfold c, rule ledger_respond [OF owned_ledger(1) [OF assms(1)] assms(2)], use assms(3,4) in simp)
  then show ?thesis by (simp add: append_response_def)
qed

lemma owned_detach:
  assumes "owned X w" "get_async m w = Some h" "a \<in> set (contents (as_responses h))"
  shows "owned (insert a X) (detach_response m a w)" "a \<notin> X"
proof -
  note r = owned_async [OF assms(1,2)]
  let ?l = "\<lambda>l. snd (cl_unlink (\<lambda>x. x = a) l)"
  have c: "contents (?l (as_responses h)) = filter (\<lambda>b. b \<noteq> a) (contents (as_responses h))"
    using r by (intro contents_unlink) simp_all
  have wt: "waiting w m = contents (as_responses h)" by (simp add: waiting_def assms(2))
  have "ledger (insert a X) (contents (commands w)) ((waiting w)(m := contents (?l (as_responses h)))) (queued w)
       {m. get_async m w \<noteq> None} (next_command w)"
    unfolding c using assms(3) r by (intro ledger_answer [OF owned_ledger(1) [OF assms(1)]]) (auto simp: wt)
  then show "owned (insert a X) (detach_response m a w)"
    unfolding detach_response_def using r
    by (intro owned_set_responses [OF assms(1,2), where l = ?l]) (auto intro: cl_wf_unlink prod.collapse [symmetric])
  show "a \<notin> X" using ledgerD(5) [OF owned_ledger(1) [OF assms(1)], of a m] assms(3) wt by simp
qed

end
