(* ===== verification/AsyncSafe.thy ===== *)
theory AsyncSafe
  imports AsyncOwn
begin

text \<open>
  The functions of the asynchronous client keep the ledger of commands: adding requests, closing sessions,
  and the whole sending thread.
\<close>

subsection \<open>The protocol leaves the commands alone\<close>

lemma kept_pubs [simp]: "kept w (w\<lparr>pubs := p\<rparr>)" "kept w (w\<lparr>pubs := p, publications := q\<rparr>)"
  "kept w (w\<lparr>pubs := p, next_pub := n, publications := q\<rparr>)" "kept w (w\<lparr>pending_qos0 := q0\<rparr>)"
  by (simp_all add: kept_def)

lemma with_store_kept: "with_store c f w = Some (rc, w') \<Longrightarrow> kept w w'"
  by (rule kept_quiet) (rule with_store_quiet)

lemma send_kept:
  "MQTTPacket_send c h b f w = Some (rc, w') \<Longrightarrow> kept w w'"
  "MQTTPacket_send_publish p d q r c w = Some (rc, w') \<Longrightarrow> kept w w'"
  by (rule kept_quiet, rule send_quiet send_publish_quiet, assumption)+

lemma send_connect_kept: "MQTTPacket_send_connect c version w = Some (rc, w') \<Longrightarrow> kept w w'"
  by (auto simp: MQTTPacket_send_connect_def bind_eq_Some_conv split: if_splits intro: send_kept)

lemma subscribe_kept:
  "MQTTProtocol_subscribe c topics qs msgid w = Some (rc, w') \<Longrightarrow> kept w w'"
  "MQTTProtocol_unsubscribe c topics msgid w = Some (rc, w') \<Longrightarrow> kept w w'"
  by (auto simp: MQTTProtocol_subscribe_def MQTTProtocol_unsubscribe_def MQTTPacket_send_subscribe_def
      MQTTPacket_send_unsubscribe_def Let_def bind_eq_Some_conv split: if_splits intro: send_kept)

lemma socket_more:
  "sockets.more (snd (Socket_new a p w)) = sockets.more w"
  "sockets.more (Socket_addPendingWrite s w) = sockets.more w"
  "sockets.more (Socket_clearPendingWrite s w) = sockets.more w"
  "sockets.more (snd (SocketBuffer_updateWrite s t pl w)) = sockets.more w"
  by (auto simp: Socket_new_def Socket_addSocket_def Socket_addPendingWrite_def Socket_clearPendingWrite_def
      SocketBuffer_updateWrite_def Let_def split: prod.splits list.splits sum.splits)

lemma new_socket_kept: "Socket_new a p w = (r, w') \<Longrightarrow> kept w w'" for w :: "('s, 'm) proto_scheme"
  by (rule kept_sockets) (metis socket_more(1) snd_conv)

lemma connect_kept: "MQTTProtocol_connect uri c version w = Some (rc, w') \<Longrightarrow> kept w w'"
proof -
  assume run: "MQTTProtocol_connect uri c version w = Some (rc, w')"
  let ?w1 = "upd_client c (\<lambda>cl. cl\<lparr>good := 1\<rparr>) w"
  obtain a p where a: "MQTTProtocol_addressPort uri = Some (a, p)"
    using run by (auto simp: MQTTProtocol_connect_def bind_eq_Some_conv)
  obtain r sock w2 where "Socket_new (bytes_of a) p ?w1 = ((r, sock), w2)" by (metis surj_pair)
  note n = a this
  let ?w3 = "upd_client c (\<lambda>cl. cl\<lparr>net_socket := sock\<rparr>) w2"
  have k: "kept w ?w3"
    by (rule kept_trans [OF kept_trans [OF kept_upd_client new_socket_kept [OF n(2)]] kept_upd_client])
  consider "w' = ?w3" | f where "w' = upd_client c f ?w3" | f rc4 w4 where "MQTTPacket_send_connect c version ?w3 = Some (rc4, w4)" "w' = upd_client c f w4"
    using run n that by (auto simp: MQTTProtocol_connect_def bind_eq_Some_conv Let_def split: if_splits)
  then show ?thesis
    by cases (use k kept_trans kept_upd_client send_connect_kept in blast)+
qed

lemma storePublication_kept: "MQTTProtocol_storePublication p w = Some (r, w') \<Longrightarrow> kept w w'"
  by (auto simp: MQTTProtocol_storePublication_def Let_def bind_eq_Some_conv)

lemma storeQoS0_kept: "MQTTProtocol_storeQoS0 c p w = Some w' \<Longrightarrow> kept w w'"
proof -
  assume run: "MQTTProtocol_storeQoS0 c p w = Some w'"
  have u: "kept v (snd (SocketBuffer_updateWrite s t pl v))" for s t pl v by (rule kept_sockets [OF socket_more(4)])
  obtain a len w1 q s t pl where "MQTTProtocol_storePublication p w = Some ((a, len), w1)"
    "w' = snd (SocketBuffer_updateWrite s t pl (w1\<lparr>pending_qos0 := q\<rparr>))"
    using run by (auto simp: MQTTProtocol_storeQoS0_def Let_def bind_eq_Some_conv)
  then show ?thesis using storePublication_kept kept_trans [OF kept_trans [OF _ kept_pubs(4)] u] by blast
qed

lemma startPublish_kept:
  assumes "MQTTProtocol_startPublish c p qos retained mm w = Some (r, w')"
  shows "kept w w'"
proof -
  have m: "kept w w1" if "MQTTProtocol_createMessage p mm q r w = Some (x, w1)" for q r x w1
    using that by (auto simp: MQTTProtocol_createMessage_def bind_eq_Some_conv split: option.splits intro: storePublication_kept)
  have s: "kept v v'" if "MQTTProtocol_startPublishCommon c p' qos retained v = Some (rc, v')" for p' v v' rc
    using that by (auto simp: MQTTProtocol_startPublishCommon_def bind_eq_Some_conv split: if_splits
        intro: kept_trans [OF send_kept(2) storeQoS0_kept] send_kept(2))
  show ?thesis
  proof (cases "qos > 0")
    case True
    then obtain m w1 p' f rc where "MQTTProtocol_createMessage p mm qos retained w = Some (m, w1)"
      "MQTTProtocol_startPublishCommon c p' qos retained (upd_client c f w1) = Some (rc, w')"
      using assms by (auto simp: MQTTProtocol_startPublish_def Let_def bind_eq_Some_conv)
    then show ?thesis by (rule kept_trans [OF m kept_trans [OF kept_upd_client s]])
  next
    case False
    then show ?thesis using assms s by (auto simp: MQTTProtocol_startPublish_def bind_eq_Some_conv)
  qed
qed

lemma remove_publications_kept: "remove_publications ms w = Some w' \<Longrightarrow> kept w w'"
proof (induction ms arbitrary: w)
  case (Cons m ms)
  then obtain w1 where "MQTTProtocol_removePublication (m_publish m) w = Some w1" "remove_publications ms w1 = Some w'"
    by (auto simp: bind_eq_Some_conv)
  moreover from this(1) have "kept w w1"
    by (cases "pubs w (m_publish m)")
      (simp_all add: MQTTProtocol_removePublication_def kept_def split: if_split_asm, hypsubst, simp, hypsubst, simp)
  ultimately show ?case using Cons.IH kept_trans by blast
qed simp

lemma emptyMessageList_kept: "MQTTProtocol_emptyMessageList l w = Some (l', w') \<Longrightarrow> kept w w'"
  by (auto simp: MQTTProtocol_emptyMessageList_def bind_eq_Some_conv intro: remove_publications_kept)

lemma closeOnly_kept: "MQTTAsync_closeOnly c w = Some w' \<Longrightarrow> kept w w'"
proof -
  assume run: "MQTTAsync_closeOnly c w = Some w'"
  show ?thesis
  proof (cases "get_client c w")
    case None
    then show ?thesis using run by (simp add: MQTTAsync_closeOnly_def get_upd_client)
  next
    case (Some cl)
    from async_closeOnly [OF this] run show ?thesis by (auto simp: kept_def)
  qed
qed

lemma emptyMessageQueue_kept: "kept w (MQTTAsync_emptyMessageQueue c w)"
  by (simp add: MQTTAsync_emptyMessageQueue_def)

subsection \<open>Adding and closing\<close>

text \<open>What the application does in a callback, and what happens in the meantime, keeps the ledger.\<close>

definition env_keeps :: "('s, 'm) async_env \<Rightarrow> bool" where
  "env_keeps env \<longleftrightarrow> (\<forall>k X w w'. owned X w \<longrightarrow> env k w = Some w' \<longrightarrow> owned X w')"

lemma callback_owned: "env_keeps env \<Longrightarrow> owned X w \<Longrightarrow> callback env k w = Some w' \<Longrightarrow> owned X w'"
  unfolding callback_def env_keeps_def using owned_simps(3) by blast

lemma on_success_owned: "env_keeps env \<Longrightarrow> owned X w \<Longrightarrow> on_success env k d w = Some w' \<Longrightarrow> owned X w'"
  by (auto simp: on_success_def split: if_splits intro: callback_owned)

lemma on_failure_owned: "env_keeps env \<Longrightarrow> owned X w \<Longrightarrow> on_failure env k d w = Some w' \<Longrightarrow> owned X w'"
  by (auto simp: on_failure_def split: if_splits intro: callback_owned)

lemma clock_owned:
  "MQTTAsync_start_clock w = (t, w') \<Longrightarrow> owned X w' \<longleftrightarrow> owned X w"
  "MQTTAsync_elapsed s w = (t, w') \<Longrightarrow> owned X w' \<longleftrightarrow> owned X w"
proof -
  have t: "owned X (w\<lparr>async_clock := rs, os_time := i\<rparr>) \<longleftrightarrow> owned X w" for rs i by (rule owned_cong) simp_all
  show "MQTTAsync_start_clock w = (t, w') \<Longrightarrow> owned X w' \<longleftrightarrow> owned X w"
    "MQTTAsync_elapsed s w = (t, w') \<Longrightarrow> owned X w' \<longleftrightarrow> owned X w"
    by (auto simp: MQTTAsync_start_clock_def MQTTAsync_elapsed_def async_now_def Let_def t split: list.splits prod.splits)
qed

lemma persist_owned:
  assumes "MQTTAsync_persistCommand a w = Some (rc, w')" "owned X w"
  shows "owned X w'"
proof -
  consider "w' = w" | m f g c per w1 where "with_store c per (upd_async m (\<lambda>h. h\<lparr>as_command_seqno := f\<rparr>) w) = Some (rc, w1)"
      "upd_command a (\<lambda>q. q\<lparr>q_seqno := g\<rparr>) w1 = Some w'"
    using assms(1) by (auto simp: MQTTAsync_persistCommand_def Let_def bind_eq_Some_conv split: if_splits)
  then show ?thesis
  proof cases
    case (2 m f g c per w1)
    have "owned X (upd_async m (\<lambda>h. h\<lparr>as_command_seqno := f\<rparr>) w)" by (rule owned_upd_async [OF assms(2)]) simp
    then have "owned X w1" using owned_kept [OF with_store_kept [OF 2(1)]] by simp
    then show ?thesis by (rule owned_upd [OF 2(2)]) simp
  qed (use assms(2) in simp)
qed

lemma add_first_owned:
  assumes "add_first a q s w = Some w'" "owned (insert a X) w" "a \<notin> X"
  shows "owned X w'"
proof -
  consider "MQTTAsync_freeCommand a w = Some w'"
    | "w' = w\<lparr>commands := cl_add_before (commands w) a s (hd_addr (items (commands w)))\<rparr>"
    using assms(1) by (auto simp: add_first_def Let_def bind_eq_Some_conv split: if_splits)
  then show ?thesis
    by cases (use assms(2,3) owned_free owned_queue in blast)+
qed

lemma addCommand_owned:
  assumes "MQTTAsync_addCommand a s w = Some (rc, w')" "owned (insert a X) w" "a \<notin> X"
  shows "owned X w'"
proof -
  obtain start w1 where c: "MQTTAsync_start_clock (w\<lparr>command_mutex := True\<rparr>) = (start, w1)" by force
  have o1: "owned (insert a X) w1" using clock_owned(1) [OF c] assms(2) by simp
  obtain w2 q w3 where u: "upd_command a (\<lambda>q. q\<lparr>q_command := (q_command q)\<lparr>k_start_time := start\<rparr>\<rparr>) w1 = Some w2"
    and w3: "add_first a q s w2 = Some w3 \<or> w3 = w2\<lparr>commands := cl_add (commands w2) a s\<rparr> \<or>
      (\<exists>rc. MQTTAsync_persistCommand a (w2\<lparr>commands := cl_add (commands w2) a s\<rparr>) = Some (rc, w3))"
    and w': "w' = w3\<lparr>command_mutex := False\<rparr>"
    using assms(1) c unfolding MQTTAsync_addCommand_def by (auto simp: bind_eq_Some_conv Let_def split: if_splits)
  have o2: "owned (insert a X) w2" by (rule owned_upd [OF u o1]) simp
  have "owned X (w2\<lparr>commands := cl_add (commands w2) a s\<rparr>)" unfolding add_is_before by (rule owned_queue [OF o2 assms(3)]) simp
  then have "owned X w3" using w3 add_first_owned [OF _ o2 assms(3)] persist_owned by blast
  then show ?thesis by (simp add: w')
qed

lemma connect_again_owned:
  assumes "connect_again m w = Some w'" "owned X w"
  shows "owned X w'"
proof -
  obtain h where g: "get_async m w = Some h" using assms(1) by (auto simp: connect_again_def bind_eq_Some_conv)
  obtain a w1 where "new_command m (as_connect h) w = (a, w1)" by force
  moreover from this obtain rc where "MQTTAsync_addCommand a sizeof_command w1 = Some (rc, w')"
    using assms(1) g by (auto simp: connect_again_def)
  ultimately have h: "get_async m w = Some h" "new_command m (as_connect h) w = (a, w1)"
    "MQTTAsync_addCommand a sizeof_command w1 = Some (rc, w')" using g by simp_all
  note n = owned_new [OF h(2) assms(2)]
  show ?thesis using addCommand_owned [OF h(3) n] h(1) by simp
qed

lemma disconnect1_owned:
  assumes "MQTTAsync_disconnect1 handle options internal w = Some (rc, w')" "owned X w"
  shows "owned X w'"
proof (cases handle)
  case (Some m)
  then obtain h where h: "get_async m w = Some h"
    using assms(1) by (auto simp: MQTTAsync_disconnect1_def async_client_def bind_eq_Some_conv)
  consider "w' = w" | k a w1 where "new_command m k w = (a, w1)" "MQTTAsync_addCommand a 8 w1 = Some (rc, w')"
    using assms(1) Some by (auto simp: MQTTAsync_disconnect1_def Let_def bind_eq_Some_conv split: if_splits prod.splits)
  then show ?thesis
  proof cases
    case 2
    note n = owned_new [OF 2(1) assms(2)]
    show ?thesis using addCommand_owned [OF 2(2) n] h by simp
  qed (use assms(2) in simp)
qed (use assms in \<open>simp add: MQTTAsync_disconnect1_def\<close>)

subsection \<open>Removing the commands of a client\<close>

lemma free_all_looked: "\<forall>a\<in>set as. queued w a \<noteq> None \<Longrightarrow> free_all MQTTAsync_freeCommand1 as w = Some w"
  by (induction as) (auto simp: MQTTAsync_freeCommand1_def)

lemma free_all_freed:
  "distinct as \<Longrightarrow> \<forall>a\<in>set as. queued w a \<noteq> None \<Longrightarrow>
     free_all free_command as w = Some (w\<lparr>queued := queued w |` (- set as)\<rparr>)"
proof (induction as arbitrary: w)
  case Nil
  show ?case by (cases w) simp
next
  case (Cons a as)
  let ?w1 = "w\<lparr>queued := (queued w)(a := None)\<rparr>"
  have e: "(queued w)(a := None) |` (- set as) = queued w |` (- set (a # as))"
    by (auto simp: restrict_map_def fun_eq_iff)
  have "free_all free_command as ?w1 = Some (?w1\<lparr>queued := queued ?w1 |` (- set as)\<rparr>)"
    using Cons.prems by (intro Cons.IH) auto
  moreover have "?w1\<lparr>queued := queued ?w1 |` (- set as)\<rparr> = w\<lparr>queued := (queued w)(a := None) |` (- set as)\<rparr>" by simp
  moreover have "free_command a w = Some ?w1"
    using Cons.prems by (auto simp: free_command_def)
  ultimately show ?case unfolding e by (simp only: free_all.simps Option.bind.simps)
qed

lemma ledger_drop:
  assumes l: "ledger X cs rs q hs n"
  shows "ledger X cs (rs(m := [])) (q |` (- set (rs m))) hs n"
proof -
  note d = ledgerD [OF l]
  have o: "b = c" if "a \<in> set (rs b)" "a \<in> set (rs c)" for a b c using d(5) [OF that(1)] d(5) [OF that(2)] by simp
  have u: "(\<Union>b. set ((rs(m := [])) b)) = (\<Union>b. set (rs b)) - set (rs m)"
    using o by (auto split: if_splits)
  have cs: "set cs \<inter> set (rs m) = {}" "X \<inter> set (rs m) = {}" using d(5) by blast+
  show ?thesis
  proof (rule ledgerI)
    show "dom (q |` (- set (rs m))) = set cs \<union> (\<Union>b. set ((rs(m := [])) b)) \<union> X" unfolding u using d(3) cs by auto
    show "distinct ((rs(m := [])) b)" for b using d(4) by simp
    show "a \<notin> set cs \<and> a \<notin> X \<and> map_option q_client ((q |` (- set (rs m))) a) = Some b" if "a \<in> set ((rs(m := [])) b)" for a b
    proof -
      have b: "b \<noteq> m" "a \<in> set (rs b)" using that by (auto split: if_splits)
      then have "a \<notin> set (rs m)" using o by blast
      then show ?thesis using d(5) [OF b(2)] by simp
    qed
    show "q_client k \<in> hs \<and> a < n" if "(q |` (- set (rs m))) a = Some k" for a k
      using that d(6) [of a k] by (auto simp: restrict_map_def split: if_splits)
  qed (rule d)+
qed

lemma remove_commands_right:
  assumes "owned X w" "distinct as" "set as \<subseteq> set (contents (commands w))"
  shows "\<exists>w'. remove_commands m as w = Some w' \<and> owned X w' \<and> waiting w' = waiting w \<and> get_async b w' = get_async b w \<and>
    contents (commands w') = filter (\<lambda>a. \<not> (a \<in> set as \<and> owner w a = m)) (contents (commands w)) \<and>
    queued w' = queued w |` {a. \<not> (a \<in> set as \<and> owner w a = m)}"
  using assms
proof (induction as arbitrary: w)
  case Nil
  then show ?case by (auto simp: restrict_map_def)
next
  case (Cons a as)
  have a: "a \<in> set (contents (commands w))" using Cons.prems(3) by simp
  then have "a \<in> dom (queued w)" using ledgerD(3) [OF owned_ledger(1) [OF Cons.prems(1)]] by auto
  then obtain q where q: "queued w a = Some q" by blast
  then have ow: "owner w a = q_client q" by (simp add: owner_def)
  show ?case
  proof (cases "q_client q = m")
    case True
    let ?w1 = "w\<lparr>commands := snd (cl_unlink (\<lambda>x. x = a) (commands w))\<rparr>"
    note t = owned_take [OF Cons.prems(1) a]
    have ax: "a \<notin> X" using ledgerD(2) [OF owned_ledger(1) [OF Cons.prems(1)]] a by auto
    let ?w2 = "?w1\<lparr>queued := (queued w)(a := None)\<rparr>"
    have f: "MQTTAsync_freeCommand a ?w1 = Some ?w2"
      using q by (simp add: MQTTAsync_freeCommand_def MQTTAsync_freeCommand1_def free_command_def)
    have o2: "owned X ?w2" by (rule owned_free [OF f t(1) ax])
    have v: "waiting ?w2 = waiting w" "get_async b ?w2 = get_async b w" for b by (simp_all add: waiting_def [abs_def] get_async_def)
    have ow2: "owner ?w2 c = owner w c" if "c \<noteq> a" for c using that by (simp add: owner_def)
    have sub: "set as \<subseteq> set (contents (commands ?w2))" using Cons.prems t(2) by auto
    have dist: "distinct as" using Cons.prems(2) by simp
    obtain w' where w': "remove_commands m as ?w2 = Some w'" "owned X w'" "waiting w' = waiting ?w2"
      "get_async b w' = get_async b ?w2"
      "contents (commands w') = filter (\<lambda>c. \<not> (c \<in> set as \<and> owner ?w2 c = m)) (contents (commands ?w2))"
      "queued w' = queued ?w2 |` {c. \<not> (c \<in> set as \<and> owner ?w2 c = m)}"
      using Cons.IH [OF o2 dist sub] by blast
    have "contents (commands w') = filter (\<lambda>c. \<not> (c \<in> set (a # as) \<and> owner w c = m)) (contents (commands w))"
    proof -
      have e: "(c \<noteq> a \<and> \<not> (c \<in> set as \<and> owner ?w2 c = m)) = (\<not> (c \<in> set (a # as) \<and> owner w c = m))" for c
        using True ow ow2 by (cases "c = a") auto
      have c2: "contents (commands ?w2) = filter (\<lambda>b. b \<noteq> a) (contents (commands w))" using t(2) by simp
      show ?thesis unfolding w'(5) c2 filter_filter e ..
    qed
    moreover have "queued w' = queued w |` {c. \<not> (c \<in> set (a # as) \<and> owner w c = m)}"
      unfolding w'(6) using True ow ow2 by (auto simp: fun_eq_iff restrict_map_def)
    ultimately show ?thesis using w'(1-4) v q True f by auto
  next
    case False
    obtain w' where w': "remove_commands m as w = Some w'" "owned X w'" "waiting w' = waiting w" "get_async b w' = get_async b w"
      "contents (commands w') = filter (\<lambda>c. \<not> (c \<in> set as \<and> owner w c = m)) (contents (commands w))"
      "queued w' = queued w |` {c. \<not> (c \<in> set as \<and> owner w c = m)}"
      using Cons.IH [OF Cons.prems(1)] Cons.prems(2,3) by auto
    have e: "(c \<in> set (a # as) \<and> owner w c = m) = (c \<in> set as \<and> owner w c = m)" for c using False ow by auto
    then show ?thesis unfolding e using w' q False by simp
  qed
qed

lemma removal_right:
  assumes "owned X w" "get_async m w = Some h"
  shows "\<exists>w'. MQTTAsync_removeResponsesAndCommands m w = Some w' \<and> owned X w' \<and> waiting w' = (waiting w)(m := []) \<and>
    contents (commands w') = filter (\<lambda>a. owner w a \<noteq> m) (contents (commands w)) \<and>
    (\<forall>a. queued w' a = (if a \<notin> X \<and> owner w a = m then None else queued w a))"
proof -
  note l = owned_ledger [OF assms(1)]
  note d = ledgerD [OF l(1)]
  have wt: "waiting w m = contents (as_responses h)" by (simp add: waiting_def assms(2))
  let ?R = "contents (as_responses h)"
  have r: "\<forall>a\<in>set ?R. queued w a \<noteq> None"
  proof
    fix a
    assume "a \<in> set ?R"
    then have "map_option q_client (queued w a) = Some m" using d(5) [of a m] wt by simp
    then show "queued w a \<noteq> None" by auto
  qed
  have r': "distinct ?R" using d(4) [of m] wt by simp
  let ?q = "queued w |` (- set ?R)"
  let ?w2 = "w\<lparr>queued := ?q\<rparr>"
  define w3 where "w3 = upd_async m (\<lambda>h. h\<lparr>as_responses := cl_empty\<rparr>) ?w2"
  have g2: "get_async b ?w2 = get_async b w" for b by (simp add: get_async_def)
  have g: "get_async b w3 = map_option (\<lambda>h. if b = m then h\<lparr>as_responses := cl_empty\<rparr> else h) (get_async b w)" for b
    unfolding w3_def get_upd_async g2 ..
  have e: "contents cl_empty = []" by (simp add: cl_empty_def)
  have ww: "waiting w3 = (waiting w)(m := [])"
    using assms(2) by (auto simp: waiting_def g fun_eq_iff e split: option.split)
  have fields: "commands w3 = commands w" "queued w3 = ?q" "next_command w3 = next_command w" "clients w3 = clients w"
    by (simp_all add: w3_def upd_async_def)
  have hs: "{b. get_async b w3 \<noteq> None} = {b. get_async b w \<noteq> None}" by (simp add: g)
  have "ledger X (contents (commands w)) ((waiting w)(m := [])) ?q {b. get_async b w \<noteq> None} (next_command w)"
    using ledger_drop [OF l(1), of m] unfolding wt .
  then have o3: "owned X w3"
    using assms(1) unfolding owned_def ww fields hs by (auto simp: g split: if_splits)
  have no: "owner w3 a = owner w a" if "a \<in> set (contents (commands w))" for a
  proof -
    have "a \<notin> set ?R" using that d(5) [of a m] wt by auto
    then show ?thesis by (simp add: owner_def fields)
  qed
  obtain w' where w': "remove_commands m (contents (commands w)) w3 = Some w'" "owned X w'" "waiting w' = waiting w3"
    "contents (commands w') = filter (\<lambda>a. \<not> (a \<in> set (contents (commands w)) \<and> owner w3 a = m)) (contents (commands w))"
    "queued w' = ?q |` {a. \<not> (a \<in> set (contents (commands w)) \<and> owner w3 a = m)}"
    using remove_commands_right [OF o3, where as = "contents (commands w)" and m = m, unfolded fields] d(1) by blast
  have run: "MQTTAsync_removeResponsesAndCommands m w = Some w'"
    using assms(2) free_all_looked [OF r] free_all_freed [OF r' r] w'(1) fields(1)
    by (simp add: MQTTAsync_removeResponsesAndCommands_def w3_def)
  have c: "contents (commands w') = filter (\<lambda>a. owner w a \<noteq> m) (contents (commands w))"
    unfolding w'(4) using no by (auto intro: filter_cong)
  have "queued w' a = (if a \<notin> X \<and> owner w a = m then None else queued w a)" for a
  proof -
    consider "queued w a = None" | "a \<in> X" | "a \<in> set (contents (commands w))" | b where "a \<in> set (waiting w b)"
      using d(3) by blast
    then show ?thesis
    proof cases
      case 1
      then show ?thesis by (simp add: w'(5) restrict_map_def)
    next
      case 2
      then have "a \<notin> set ?R" "a \<notin> set (contents (commands w))" using d(2) d(5) [of a m] wt by auto
      then show ?thesis using 2 by (simp add: w'(5) restrict_map_def)
    next
      case 3
      then have "a \<notin> set ?R" "a \<notin> X" using d(2) d(5) [of a m] wt by auto
      then show ?thesis using 3 no [OF 3] by (simp add: w'(5) restrict_map_def)
    next
      case 4
      note b = d(5) [OF 4]
      then have ob: "owner w a = b" by (auto simp: owner_def)
      show ?thesis
      proof (cases "b = m")
        case True
        then have "a \<in> set ?R" using 4 wt by simp
        then show ?thesis using b ob True by (simp add: w'(5) restrict_map_def)
      next
        case False
        then have "a \<notin> set ?R" using d(5) [of a m] wt b by auto
        then show ?thesis using b ob False by (simp add: w'(5) restrict_map_def)
      qed
    qed
  qed
  then show ?thesis using run w'(2,3) ww c by auto
qed

subsection \<open>Ending a session\<close>

lemma find_struct_owned:
  assumes "find_struct c w = (r, w')" "owned X w"
  shows "owned X w'" "r = Some m \<Longrightarrow> get_async m w' \<noteq> None"
proof -
  obtain p hs where f: "cl_find (clientStructCompare c) (async_handles w) = (p, hs)" "r = p" "w' = w\<lparr>async_handles := hs\<rparr>"
    using assms(1) by (auto simp: find_struct_def split: prod.splits)
  have g: "get_async b w' = get_async b w" for b using f(3) cl_find_frame(1) [OF f(1)] by (simp add: get_async_def)
  have wt: "waiting w' = waiting w" by (simp add: waiting_def [abs_def] g)
  have fields: "commands w' = commands w" "queued w' = queued w" "next_command w' = next_command w" "clients w' = clients w"
    using f(3) by simp_all
  show "owned X w'" using assms(2) unfolding owned_def wt g fields .
  show "get_async m w' \<noteq> None" if "r = Some m"
  proof -
    have "m \<in> set (addrs (async_handles w))"
    proof (cases "\<exists>h\<in>set_option (cl_content (async_handles w) (cur (async_handles w))). clientStructCompare c h")
      case True
      then have "cur (async_handles w) = Some m" using f that by (auto simp: cl_find_def)
      then show ?thesis using True by (force simp: cl_content_def dest: map_of_SomeD)
    next
      case False
      then show ?thesis using f that by (force simp: cl_find_def find_Some_iff in_set_conv_nth split: option.splits)
    qed
    then have "get_async m w \<noteq> None" unfolding get_async_def by (simp add: map_of_eq_None_iff)
    then show ?thesis unfolding g .
  qed
qed

lemma cleanSession_owned:
  assumes "MQTTAsync_cleanSession c w = Some (rc, w')" "owned X w"
  shows "owned X w'"
proof -
  obtain rc1 w1 li i w2 lo out w3 where s: "MQTTPersistence_clear c w = Some (rc1, w1)"
    "MQTTProtocol_emptyMessageList li w1 = Some (i, w2)" "MQTTProtocol_emptyMessageList lo w2 = Some (out, w3)"
    and r0: "(case find_struct c (upd_client c (\<lambda>cl. cl\<lparr>msgID := 0\<rparr>)
        (MQTTAsync_emptyMessageQueue c (upd_client c (\<lambda>cl. cl\<lparr>inboundMsgs := i, outboundMsgs := out\<rparr>) w3))) of
      (None, w6) \<Rightarrow> Some (rc1, w6)
    | (Some m, w6) \<Rightarrow> map_option (Pair rc1) (MQTTAsync_removeResponsesAndCommands m w6)) = Some (rc, w')"
    using assms(1) unfolding MQTTAsync_cleanSession_def by (auto simp: bind_eq_Some_conv)
  define w5 where "w5 = upd_client c (\<lambda>cl. cl\<lparr>msgID := 0\<rparr>)
    (MQTTAsync_emptyMessageQueue c (upd_client c (\<lambda>cl. cl\<lparr>inboundMsgs := i, outboundMsgs := out\<rparr>) w3))"
  have "kept w w1" using s(1) by (auto simp: MQTTPersistence_clear_def intro: with_store_kept)
  from kept_trans [OF kept_trans [OF this emptyMessageList_kept [OF s(2)]] emptyMessageList_kept [OF s(3)]]
  have "kept w w3" .
  then have "kept w w5"
    unfolding w5_def by (meson kept_trans kept_upd_client emptyMessageQueue_kept)
  then have o5: "owned X w5" using assms(2) owned_kept by blast
  obtain r w6 where f: "find_struct c w5 = (r, w6)" by force
  note fo = find_struct_owned [OF f o5]
  from r0 have r: "(case r of None \<Rightarrow> Some (rc1, w6)
      | Some m \<Rightarrow> map_option (Pair rc1) (MQTTAsync_removeResponsesAndCommands m w6)) = Some (rc, w')"
    unfolding w5_def [symmetric] f by simp
  show ?thesis
  proof (cases r)
    case None
    then show ?thesis using r fo(1) by simp
  next
    case (Some m)
    then obtain h where "get_async m w6 = Some h" using fo(2) by blast
    from removal_right [OF fo(1) this] r Some show ?thesis by auto
  qed
qed

lemma closeSession_owned:
  assumes "MQTTAsync_closeSession c w = Some w'" "owned X w"
  shows "owned X w'"
proof -
  obtain w1 where w1: "MQTTAsync_closeOnly c w = Some w1" "w' = w1 \<or> (\<exists>rc. MQTTAsync_cleanSession c w1 = Some (rc, w'))"
    using assms(1) by (auto simp: MQTTAsync_closeSession_def bind_eq_Some_conv split: if_splits)
  have "owned X w1" using owned_kept [OF closeOnly_kept [OF w1(1)]] assms(2) by blast
  then show ?thesis using w1(2) cleanSession_owned by blast
qed

lemma checkDisconnect_owned:
  assumes "MQTTAsync_checkDisconnect env m k w = Some w'" "owned X w" "env_keeps env"
  shows "owned X w'"
proof -
  obtain c client where a: "async_client m w = Some (c, client)"
    using assms(1) by (auto simp: MQTTAsync_checkDisconnect_def bind_eq_Some_conv)
  obtain ended w1 where e: "(if cnt (outboundMsgs client) = 0 then (True, w)
           else let (elapsed, w1) = MQTTAsync_elapsed (k_start_time k) w in (elapsed \<ge> dis_timeout (k_details k), w1)) = (ended, w1)"
    by force
  have o1: "owned X w1" using e assms(2) by (auto dest: clock_owned(2) split: if_splits prod.splits)
  show ?thesis
  proof (cases ended)
    case False
    then show ?thesis using assms(1) a e o1 unfolding MQTTAsync_checkDisconnect_def by simp
  next
    case True
    have r: "Option.bind (MQTTAsync_closeSession c w1) (\<lambda>w2. Option.bind (get_async m w2) (\<lambda>h.
        if dis_internal (k_details k) \<and> as_cl h \<and> connected client \<noteq> 0 then callback env (ConnectionLost m) w2
        else if \<not> dis_internal (k_details k) then on_success env k NoData w2
        else Some w2)) = Some w'"
      using assms(1) a e True unfolding MQTTAsync_checkDisconnect_def by simp
    then obtain w2 where c2: "MQTTAsync_closeSession c w1 = Some w2" by (cases "MQTTAsync_closeSession c w1") simp_all
    then obtain h where "get_async m w2 = Some h" using r by (cases "get_async m w2") simp_all
    with c2 have w2: "MQTTAsync_closeSession c w1 = Some w2"
      "(if dis_internal (k_details k) \<and> as_cl h \<and> connected client \<noteq> 0 then callback env (ConnectionLost m) w2
       else if \<not> dis_internal (k_details k) then on_success env k NoData w2
       else Some w2) = Some w'"
      using r by simp_all
    have "owned X w2" by (rule closeSession_owned [OF w2(1) o1])
    then show ?thesis
      using w2(2) by (auto split: if_split_asm intro: callback_owned [OF assms(3)] on_success_owned [OF assms(3)])
  qed
qed

lemma freeConnect_owned: "MQTTAsync_freeConnect k w = Some w' \<Longrightarrow> owned X w' \<longleftrightarrow> owned X w"
  by (auto simp: MQTTAsync_freeConnect_def split: if_splits option.splits)

lemma connect_failed_owned:
  assumes "connect_failed env d m w = Some w'" "owned X w" "env_keeps env"
  shows "owned X w'"
proof -
  consider c w1 where "MQTTAsync_closeOnly c w = Some w1" "connect_again m w1 = Some w'"
    | c w1 k w2 where "MQTTAsync_closeSession c w = Some w1" "MQTTAsync_freeConnect k w1 = Some w2" "on_failure env k d w2 = Some w'"
    using assms(1) by (auto simp: connect_failed_def bind_eq_Some_conv split: if_splits)
  then show ?thesis
  proof cases
    case 1
    have "owned X w1" using owned_kept [OF closeOnly_kept [OF 1(1)]] assms(2) by blast
    then show ?thesis by (rule connect_again_owned [OF 1(2)])
  next
    case 2
    have "owned X w2" using closeSession_owned [OF 2(1) assms(2)] freeConnect_owned [OF 2(2)] by blast
    then show ?thesis using on_failure_owned [OF assms(3)] 2(3) by blast
  qed
qed

end
