(* ===== verification/AsyncSending.thy ===== *)
theory AsyncSending
  imports AsyncSafe
begin

text \<open>
  The sending thread of the asynchronous client keeps the ledger of commands.
\<close>

subsection \<open>Taking a run apart\<close>

lemma bindE: "Option.bind m f = Some r \<Longrightarrow> (\<And>x. m = Some x \<Longrightarrow> f x = Some r \<Longrightarrow> P) \<Longrightarrow> P"
  by (cases m) auto

lemma prod_runE: "(case p of (a, b) \<Rightarrow> f a b) = Some r \<Longrightarrow> (\<And>a b. p = (a, b) \<Longrightarrow> f a b = Some r \<Longrightarrow> P) \<Longrightarrow> P"
  by (cases p) auto

lemma if_runE:
  "(if c then x else y) = Some r \<Longrightarrow> (c \<Longrightarrow> x = Some r \<Longrightarrow> P) \<Longrightarrow> (\<not> c \<Longrightarrow> y = Some r \<Longrightarrow> P) \<Longrightarrow> P"
  by (cases c) auto

lemma mapE: "map_option f m = Some r \<Longrightarrow> (\<And>x. m = Some x \<Longrightarrow> r = f x \<Longrightarrow> P) \<Longrightarrow> P"
  by (cases m) auto

lemma SomeE: "Some x = Some r \<Longrightarrow> (r = x \<Longrightarrow> P) \<Longrightarrow> P"
  by simp

lemmas runE = bindE prod_runE if_runE mapE SomeE

subsection \<open>The sending thread\<close>

lemma can_send_kept: "can_send k client w = (ready, w') \<Longrightarrow> kept w w'"
proof -
  assume c: "can_send k client w = (ready, w')"
  have "kept w (snd (Socket_noPendingWrites s w))" for s by (rule kept_sockets [OF noPendingWrites_more])
  then have "Socket_noPendingWrites s w = (r, v) \<Longrightarrow> kept w v" for s r v by (metis snd_conv)
  then show ?thesis using c by (auto simp: can_send_def Let_def split: if_splits prod.splits)
qed

lemma select_kept:
  "select_command as ign w = Some (r, w') \<Longrightarrow> kept w w' \<and> (\<forall>a. r = Some a \<longrightarrow> a \<in> set as)"
proof (induction as arbitrary: ign w)
  case (Cons a as)
  obtain q where q: "queued w a = Some q" using Cons.prems by (auto simp: bind_eq_Some_conv)
  show ?case
  proof (cases "q_client q \<in> set ign")
    case True
    then show ?thesis using Cons.IH [of ign w] Cons.prems q by auto
  next
    case False
    then obtain c client where a: "async_client (q_client q) w = Some (c, client)"
      using Cons.prems q by (auto simp: bind_eq_Some_conv)
    obtain ready w1 where s: "can_send (q_command q) client w = (ready, w1)" by force
    note k = can_send_kept [OF s]
    show ?thesis
    proof (cases ready)
      case True
      then show ?thesis using Cons.prems q a s False k by auto
    next
      case no: False
      then have "select_command as (q_client q # ign) w1 = Some (r, w')" using Cons.prems q a s False by simp
      from Cons.IH [OF this] show ?thesis using kept_trans [OF k] by auto
    qed
  qed
qed auto

lemma unpersist_kept: "MQTTAsync_unpersistCommand q w = Some (rc, w') \<Longrightarrow> kept w w'"
  by (auto simp: MQTTAsync_unpersistCommand_def bind_eq_Some_conv intro: with_store_kept)

lemma connect_owned: "MQTTProtocol_connect uri c v w = Some (r, w') \<Longrightarrow> owned X w \<Longrightarrow> owned X w'"
  for w :: "('s, 'm) masync_scheme"
  using owned_kept [OF connect_kept] by blast

lemma pending_owned [simp]: "owned X (Socket_addPendingWrite s w) \<longleftrightarrow> owned X w" for w :: "('s, 'm) masync_scheme"
  by (rule owned_kept [OF kept_sockets [OF socket_more(2)]])

lemma send_connect_owned:
  assumes "send_connect_command a w = Some (rc, w')" "owned X w"
  shows "owned X w'"
proof -
  have u: "upd_command a (\<lambda>q. q\<lparr>q_command := (q_command q)\<lparr>k_details := d\<rparr>\<rparr>) w = Some w1 \<Longrightarrow> owned X w1" for d w1
    by (erule owned_upd) (rule assms(2), simp)
  from assms(1) show ?thesis
    unfolding send_connect_command_def Let_def
    by (elim runE; hypsubst; use assms(2) in \<open>auto split: if_split_asm dest!: u connect_owned\<close>)
qed

lemma send_publish_owned:
  assumes "send_publish_command env a w = Some (rc, w')" "owned X w" "env_keeps env"
  shows "owned X w'"
proof -
  obtain q c client where q: "queued w a = Some q" "async_client (q_client q) w = Some (c, client)"
    using assms(1) by (auto simp: send_publish_command_def bind_eq_Some_conv)
  obtain dest n pl qos retained where d: "k_details (q_command q) = PubDetails dest n pl qos retained"
    using assms(1) q by (cases "k_details (q_command q)") (simp_all add: send_publish_command_def)
  let ?p = "\<lparr>p_header = byte_of (junk_int w), topic = dest, topiclen = junk_int w, msgId = k_token (q_command q),
    payload = pl, payloadlen = n, topic_heap = True\<rparr>"
  obtain r mm w1 where p: "MQTTProtocol_startPublish c ?p qos retained None w = Some ((r, mm), w1)"
    using assms(1) q d by (auto simp: send_publish_command_def bind_eq_Some_conv)
  have w': "(\<exists>k d. on_success env k d w1 = Some w') \<or>
      (\<exists>w2. upd_command a (\<lambda>q. q\<lparr>q_command := (q_command q)\<lparr>k_details := no_destination (k_details (q_command q))\<rparr>\<rparr>) w1 = Some w2 \<and>
        (w' = w2 \<or> (\<exists>m. w' = upd_async m (\<lambda>h. h\<lparr>as_pending_write := Some a\<rparr>) w2)))"
    using assms(1) q d p by (auto simp: send_publish_command_def Let_def split: if_split_asm)
  have o1: "owned X w1" using owned_kept [OF startPublish_kept [OF p]] assms(2) by blast
  from w' show ?thesis
  proof (elim disjE exE conjE)
    fix k d
    assume "on_success env k d w1 = Some w'"
    then show ?thesis by (rule on_success_owned [OF assms(3) o1])
  next
    fix w2
    assume "upd_command a (\<lambda>q. q\<lparr>q_command := (q_command q)\<lparr>k_details := no_destination (k_details (q_command q))\<rparr>\<rparr>) w1 = Some w2"
    then have o2: "owned X w2" by (rule owned_upd [OF _ o1]) simp
    then show "w' = w2 \<Longrightarrow> owned X w'" by simp
    fix m
    show "w' = upd_async m (\<lambda>h. h\<lparr>as_pending_write := Some a\<rparr>) w2 \<Longrightarrow> owned X w'"
      using owned_upd_async [OF o2] by simp
  qed
qed

lemma send_command_owned:
  assumes "send_command env a w = Some (rc, w')" "owned X w" "env_keeps env"
  shows "owned X w'"
proof -
  have s: "MQTTProtocol_subscribe c ts qs i w = Some (rc, w') \<Longrightarrow> owned X w'"
    "MQTTProtocol_unsubscribe c ts i w = Some (rc, w') \<Longrightarrow> owned X w'" for c ts qs i
    using owned_kept [OF subscribe_kept(1)] owned_kept [OF subscribe_kept(2)] assms(2) by blast+
  have d: "send_disconnect_command env a w = Some (rc, w') \<Longrightarrow> owned X w'"
    unfolding send_disconnect_command_def
    by (elim runE; use assms(2) in \<open>auto elim!: runE split: if_split_asm intro: checkDisconnect_owned [OF _ _ assms(3)]\<close>)
  from assms(1) show ?thesis
    unfolding send_command_def
    by (elim runE; use assms(2) in \<open>auto split: command_details.split_asm
      intro: send_connect_owned send_publish_owned [OF _ _ assms(3)] s d\<close>)
qed

lemma command_failed_owned:
  fixes w :: "('s, 'm) masync_scheme"
  assumes "command_failed env a w = Some w'" "owned (insert a X) w" "a \<notin> X" "env_keeps env"
  shows "owned X w'"
proof -
  obtain q where q: "queued w a = Some q" using assms(1) by (auto simp: command_failed_def bind_eq_Some_conv)
  let ?m = "q_client q" and ?k = "q_command q"
  obtain h i rc w1 where d: "MQTTAsync_disconnect1 (Some ?m) h i w = Some (rc, w1)"
    and r: "Option.bind (async_client ?m w1) (\<lambda>(_, client).
      if k_type ?k = CONNECT \<and> MQTTAsync_checkConn ?k client then map_option snd (MQTTAsync_addCommand a 24 w1)
      else Option.bind (on_failure env ?k None w1) (\<lambda>w2. Option.bind (MQTTAsync_freeConnect ?k w2) (MQTTAsync_freeCommand a))) = Some w'"
    using assms(1) q unfolding command_failed_def MQTTAsync_disconnect_def MQTTAsync_disconnect_internal_def Let_def
    by (cases "k_type ?k = CONNECT") (auto simp: bind_eq_Some_conv simp del: if_split)
  have o1: "owned (insert a X) w1" by (rule disconnect1_owned [OF d assms(2)])
  obtain client :: "'s Clients" where c: "(if k_type ?k = CONNECT \<and> MQTTAsync_checkConn ?k client then map_option snd (MQTTAsync_addCommand a 24 w1)
      else Option.bind (on_failure env ?k None w1) (\<lambda>w2. Option.bind (MQTTAsync_freeConnect ?k w2) (MQTTAsync_freeCommand a))) = Some w'"
    using r by (cases "async_client ?m w1") auto
  show ?thesis
  proof (cases "k_type ?k = CONNECT \<and> MQTTAsync_checkConn ?k client")
    case True
    then obtain rc where "MQTTAsync_addCommand a 24 w1 = Some (rc, w')" using c by auto
    then show ?thesis by (rule addCommand_owned [OF _ o1 assms(3)])
  next
    case False
    then have b: "Option.bind (on_failure env ?k None w1) (\<lambda>w2. Option.bind (MQTTAsync_freeConnect ?k w2) (MQTTAsync_freeCommand a)) = Some w'"
      using c by (simp only: if_False)
    then obtain w2 where w2: "on_failure env ?k None w1 = Some w2" by (cases "on_failure env ?k None w1") simp_all
    then obtain w3 where w3: "MQTTAsync_freeConnect ?k w2 = Some w3" using b by (cases "MQTTAsync_freeConnect ?k w2") simp_all
    have "owned (insert a X) w3" using on_failure_owned [OF assms(4) o1 w2] freeConnect_owned [OF w3] by blast
    moreover have "MQTTAsync_freeCommand a w3 = Some w'" using b w2 w3 by simp
    ultimately show ?thesis using owned_free assms(3) by blast
  qed
qed

lemma settle_owned:
  assumes "settle_command env a rc w = Some w'" "owned (insert a X) w" "a \<notin> X" "env_keeps env"
  shows "owned X w'"
proof -
  obtain q where q: "queued w a = Some q" using assms(1) by (auto simp: settle_command_def bind_eq_Some_conv)
  have f: "MQTTAsync_freeCommand a w = Some w' \<Longrightarrow> owned X w'" by (rule owned_free [OF _ assms(2,3)])
  have c: "MQTTAsync_freeCommand a (upd_async m (\<lambda>h. h\<lparr>as_connect := k\<rparr>) w) = Some w' \<Longrightarrow> owned X w'"
    "MQTTAsync_freeCommand a (upd_async m (\<lambda>h. h\<lparr>as_disconnect := k\<rparr>) w) = Some w' \<Longrightarrow> owned X w'" for m k
    by (erule owned_free [OF _ owned_upd_async [OF assms(2)] assms(3)], simp)+
  from assms(1) show ?thesis
    unfolding settle_command_def Let_def
    by (elim runE; use q in \<open>auto intro: f c command_failed_owned [OF _ assms(2-4)] owned_respond [OF assms(2,3) q refl]\<close>)
qed

lemma processCommand_owned:
  fixes w :: "('s, 'm) masync_scheme"
  assumes "MQTTAsync_processCommand env w = Some w'" "owned X w" "env_keeps env"
  shows "owned X w'"
proof -
  let ?w = "w\<lparr>async_mutex := True, command_mutex := True\<rparr>"
  obtain found w1 where s: "select_command (contents (commands ?w)) [] ?w = Some (found, w1)"
    using assms(1) by (auto simp: MQTTAsync_processCommand_def bind_eq_Some_conv)
  note k = select_kept [OF s]
  have o1: "owned X w1" using owned_kept [of ?w w1] k assms(2) by simp
  have c: "commands w1 = commands w" using more_async(2) [of w1 ?w] k by (simp add: kept_def)
  show ?thesis
  proof (cases found)
    case None
    then show ?thesis using assms(1) s o1 by (auto simp: MQTTAsync_processCommand_def)
  next
    case (Some a)
    have a: "a \<in> set (contents (commands w1))" using k Some c by simp
    let ?w2 = "w1\<lparr>commands := snd (cl_unlink (\<lambda>x. x = a) (commands w1))\<rparr>"
    have o2: "owned (insert a X) ?w2" by (rule owned_take(1) [OF o1 a])
    have ax: "a \<notin> X" using ledgerD(2) [OF owned_ledger(1) [OF o1]] a by auto
    have r: "Option.bind (queued ?w2 a) (\<lambda>q. Option.bind (async_client (q_client q) ?w2) (\<lambda>(_, client).
        Option.bind (if persistence client = None then Some ?w2 else map_option snd (MQTTAsync_unpersistCommand q ?w2)) (\<lambda>w3.
        Option.bind (send_command env a (w3\<lparr>command_mutex := False\<rparr>)) (\<lambda>(rc, w4).
        Option.bind (settle_command env a rc w4) (\<lambda>w5. Some (MQTTAsync_unlock_mutex w5)))))) = Some w'"
      using assms(1) s Some by (simp add: MQTTAsync_processCommand_def Let_def)
    obtain q and client :: "'s Clients" and w3 rc w4 w5 where
        w3: "(if persistence client = None then Some ?w2 else map_option snd (MQTTAsync_unpersistCommand q ?w2)) = Some w3"
      and w4: "send_command env a (w3\<lparr>command_mutex := False\<rparr>) = Some (rc, w4)"
      and w5: "settle_command env a rc w4 = Some w5" "w' = MQTTAsync_unlock_mutex w5"
      using r by (elim bindE prod_runE SomeE) (hypsubst, blast)
    have "owned (insert a X) w3"
    proof (cases "persistence client = None")
      case False
      then obtain rc where "MQTTAsync_unpersistCommand q ?w2 = Some (rc, w3)" using w3 by auto
      from owned_kept [OF unpersist_kept [OF this]] o2 show ?thesis by blast
    qed (use w3 o2 in simp)
    then have "owned (insert a X) w4" using send_command_owned [OF w4 _ assms(3)] by simp
    from settle_owned [OF w5(1) this ax assms(3)] show ?thesis by (simp add: w5(2))
  qed
qed

lemma check_client_owned:
  fixes w :: "('s, 'm) masync_scheme"
  assumes "check_client env m w = Some w'" "owned X w" "env_keeps env"
  shows "owned X w'"
proof -
  obtain c client h where a: "async_client m w = Some (c, client)" "get_async m w = Some h"
    using assms(1) by (auto simp: check_client_def bind_eq_Some_conv)
  obtain late w1 where l: "(if connect_state client \<noteq> 0
           then let (elapsed, w1) = MQTTAsync_elapsed (k_start_time (as_connect h)) w
                in (elapsed > conn_timeout (k_details (as_connect h)) * 1000, w1)
           else (False, w)) = (late, w1)" by force
  have o1: "owned X w1" using l assms(2) by (auto dest: clock_owned(2) split: if_splits prod.splits)
  show ?thesis
  proof (cases late)
    case True
    then have "connect_failed env None m w1 = Some w'" using assms(1) a l by (simp add: check_client_def)
    then show ?thesis by (rule connect_failed_owned [OF _ o1 assms(3)])
  next
    case False
    have e: "v' = v" if "(case l of [] \<Rightarrow> Some v | a # _ \<Rightarrow> map_option (\<lambda>_. v) (queued v a)) = Some v'"
      for l :: "addr list" and v v' :: "('s, 'm) masync_scheme"
      using that by (cases l) auto
    have "(if connect_state client = -2 then MQTTAsync_checkDisconnect env m (as_disconnect h) w1 else Some w1) = Some w'"
      using assms(1) a l False unfolding check_client_def by (auto elim!: runE dest!: e simp del: if_split)
    then show ?thesis using o1 checkDisconnect_owned [OF _ o1 assms(3)] by (auto split: if_split_asm)
  qed
qed

lemma timeouts_loop_owned:
  assumes "timeouts_loop env node w = Some w'"
  shows "env_keeps env \<Longrightarrow> owned X w \<Longrightarrow> owned X w'"
  using assms
proof (induction env node w w' rule: timeouts_loop.raw_induct [rotated, consumes 1])
  case (1 loop env node w w')
  show ?case
  proof (cases node)
    case None
    then show ?thesis using 1 by simp
  next
    case (Some m)
    then obtain w1 where w1: "check_client env m w = Some w1" "loop env (cl_next (async_handles w1) (Some m)) w1 = Some w'"
      using 1(2) by (auto simp: bind_eq_Some_conv)
    show ?thesis by (rule 1(1) [OF w1(2) 1(3) check_client_owned [OF w1(1) 1(4,3)]])
  qed
qed

lemma checkTimeouts_owned:
  assumes "MQTTAsync_checkTimeouts env w = Some w'" "owned X w" "env_keeps env"
  shows "owned X w'"
proof -
  consider "w' = w" | node w2 where "timeouts_loop env node (w\<lparr>async_mutex := True, timeouts_last := sys_time w\<rparr>) = Some w2"
      "w' = MQTTAsync_unlock_mutex w2"
    using assms(1) by (auto simp: MQTTAsync_checkTimeouts_def Let_def bind_eq_Some_conv split: if_split_asm)
  then show ?thesis
  proof cases
    case 2
    then show ?thesis using timeouts_loop_owned [OF 2(1) assms(3)] assms(2) by simp
  qed (use assms(2) in simp)
qed

lemma drain_owned:
  assumes "drain_commands env w = Some w'"
  shows "env_keeps env \<Longrightarrow> owned X w \<Longrightarrow> owned X w'"
  using assms
proof (induction env w w' rule: drain_commands.raw_induct [rotated, consumes 1])
  case (1 drain env w w')
  show ?case
  proof (cases "cnt (commands w) > 0")
    case True
    then obtain w1 where w1: "MQTTAsync_processCommand env w = Some w1" "w' = w1 \<or> drain env w1 = Some w'"
      using 1(2) by (auto simp: bind_eq_Some_conv split: if_split_asm)
    have o1: "owned X w1" by (rule processCommand_owned [OF w1(1) 1(4,3)])
    then show ?thesis using w1(2) 1(1) [OF _ 1(3) o1] by blast
  next
    case False
    then show ?thesis using 1 by simp
  qed
qed

lemma send_loop_owned:
  assumes "send_loop env w = Some w'"
  shows "env_keeps env \<Longrightarrow> owned X w \<Longrightarrow> owned X w'"
  using assms
proof (induction env w w' rule: send_loop.raw_induct [rotated, consumes 1])
  case (1 loop env w w')
  show ?case
  proof (cases "async_tostop w")
    case False
    then obtain w1 w2 w3 w4 where s: "drain_commands env w = Some w1" "env Asleep w1 = Some w2" "env Asleep w2 = Some w3"
      "MQTTAsync_checkTimeouts env w3 = Some w4" "loop env w4 = Some w'"
      using 1(2) by (auto simp: bind_eq_Some_conv)
    have "owned X w3" using drain_owned [OF s(1) 1(3,4)] 1(3) s(2,3) unfolding env_keeps_def by blast
    from checkTimeouts_owned [OF s(4) this 1(3)] show ?thesis by (rule 1(1) [OF s(5) 1(3)])
  qed (use 1 in simp)
qed

lemma sendThread_owned:
  assumes "MQTTAsync_sendThread env w = Some w'" "owned X w" "env_keeps env"
  shows "owned X w'"
proof -
  obtain w1 where w1: "send_loop env (w\<lparr>sendThread_state := RUNNING, sendThread_id := Thread_getid w, async_mutex := False\<rparr>) = Some w1"
    "w' = w1\<lparr>sendThread_state := STOPPED, sendThread_id := 0, async_mutex := False\<rparr>"
    using assms(1) by (auto simp: MQTTAsync_sendThread_def bind_eq_Some_conv)
  show ?thesis using send_loop_owned [OF w1(1) assms(3)] assms(2) by (simp add: w1(2))
qed

subsection \<open>Claims\<close>

text \<open>
  C35: the sending thread neither loses nor duplicates a request.  Whatever it does with the queue - sending a
  command, answering a timeout, or running until it is told to stop - every command in memory is afterwards
  again in exactly one place, the queue or the list of responses of the handle it belongs to, no entry of
  these lists is a command that was freed, and no command that is in neither is left in memory; provided that
  what runs while the mutex is released (the application's callbacks, the other threads) keeps this too.
\<close>

theorem sending_keeps_ledger:
  assumes "env_keeps env" "owned {} w"
    "MQTTAsync_processCommand env w = Some w' \<or> MQTTAsync_checkTimeouts env w = Some w' \<or>
     MQTTAsync_sendThread env w = Some w'"
  shows "owned {} w'"
  using assms processCommand_owned checkTimeouts_owned sendThread_owned by blast

text \<open>
  C36: giving up a client's requests is complete and touches nothing else.  From every state in which the
  commands in memory are accounted for, \<^verbatim>\<open>MQTTAsync_removeResponsesAndCommands\<close> returns; it leaves no
  response of the handle, takes exactly the handle's commands off the queue, keeping the order of the others,
  frees exactly the handle's commands, each once, and the rest stays accounted for.
\<close>

theorem removal_complete:
  assumes "owned {} w" "get_async m w = Some h"
  shows "\<exists>w'. MQTTAsync_removeResponsesAndCommands m w = Some w' \<and> owned {} w' \<and> waiting w' = (waiting w)(m := []) \<and>
    contents (commands w') = filter (\<lambda>a. owner w a \<noteq> m) (contents (commands w)) \<and>
    (\<forall>a. queued w' a = (if owner w a = m then None else queued w a))"
  using removal_right [OF assms] by simp

definition idle_async :: "unit masync" where
  "idle_async = zero_async
     \<lparr>clients := list_of (\<lambda>_. 0) [zero_client],
      async_handles := list_of (\<lambda>_. 0) [new_async ''a'' 1], next_command := 4,
      commands := list_of (\<lambda>_. 0) [3],
      queued := [3 \<mapsto> \<lparr>q_command = zero_command\<lparr>k_type := DISCONNECT\<rparr>, q_client = 1, q_seqno = 0\<rparr>]\<rparr>"

lemma idle_async_parts:
  "owned {} idle_async" "get_async 1 idle_async = Some (new_async ''a'' 1)" "owner idle_async 3 = 1"
proof -
  have g: "get_async m idle_async = (if m = 1 then Some (new_async ''a'' 1) else None)" for m
    by (simp add: idle_async_def demo_defs)
  show "get_async 1 idle_async = Some (new_async ''a'' 1)" using g by simp
  have w: "waiting idle_async = (\<lambda>_. [])"
    by (auto simp: waiting_def g new_async_def cl_empty_def fun_eq_iff)
  show "owned {} idle_async"
    unfolding owned_def w by (auto simp: g) (auto simp: ledger_def idle_async_def demo_defs cl_wf_def)
  show "owner idle_async 3 = 1" by (simp add: owner_def idle_async_def)
qed

theorem sending_keeps_ledger_witness:
  "\<exists>w'. MQTTAsync_processCommand (\<lambda>_. Some) idle_async = Some w' \<and> contents (commands w') = [] \<and> owned {} w'"
proof -
  have "\<exists>w'. MQTTAsync_processCommand (\<lambda>_. Some) idle_async = Some w' \<and> contents (commands w') = []"
    by (simp add: MQTTAsync_processCommand_def Let_def idle_async_def demo_defs can_send_def needs_msgid_def
      send_command_def send_disconnect_command_def settle_command_def upd_async_def MQTTAsync_freeCommand_def
      MQTTAsync_freeCommand1_def free_command_def CONNECT_def DISCONNECT_def
      PUBLISH_def SUBSCRIBE_def UNSUBSCRIBE_def cl_unlink_def cl_find_code cl_content_def del_addr_def)
  moreover have "env_keeps (\<lambda>_. Some)" by (simp add: env_keeps_def)
  ultimately show ?thesis using sending_keeps_ledger [OF _ idle_async_parts(1)] by blast
qed

theorem removal_complete_witness:
  "\<exists>w'. MQTTAsync_removeResponsesAndCommands 1 idle_async = Some w' \<and> owned {} w' \<and> queued w' 3 = None"
  using removal_complete [OF idle_async_parts(1,2)] idle_async_parts(3) by auto

end
