(* ===== verification/Spec2Isabelle.thy ===== *)
theory Spec2Isabelle
  imports LinkedListRefine Utf8 Packet PacketOut SocketWrite SocketRead Persistence
    Store Inbound Outbound ProtocolOut Restore Session Connect ClientErrors HeapProps AsyncRestore AsyncSending
begin

text \<open>
  Verification of the MQTT client that the agent core embeds.
\<close>

end
